(* ===== verification/Prelude.thy ===== *)
theory Prelude
  imports Complex_Main "HOL-Library.Word"
begin

text \<open>
  Shared vocabulary of the development.

  \<^item> The data types the client computes with: bytes, \<open>QByteArray\<close>, UTF-16 code units,
    \<open>QString\<close>, and literals of both.
  \<^item> The list operations of \<open>QString\<close> and \<open>QByteArray\<close> that the sources use
    (\<open>trimmed\<close>, \<open>remove\<close>, \<open>split\<close>, \<open>join\<close>, \<open>contains\<close>, \<open>toHex\<close>).
  \<^item> The record \<open>qt\<close>: the operations of Qt that rest on Unicode tables, codecs or
    cryptography. They are not part of this repository; every definition that needs one takes
    the record as an argument, and a theorem that relies on documented behaviour of one says
    so in a hypothesis.
  \<^item> Generic lemmas about them, and the collections \<open>model_defs\<close> and \<open>text_simps\<close>
    the component theories add to.
\<close>

named_theorems model_defs \<open>definitions of small model operations that proofs unfold\<close>
named_theorems text_simps \<open>rewrite rules about text operations\<close>

section \<open>Bytes and strings\<close>

type_synonym byte = "8 word"
type_synonym bytes = "8 word list"
type_synonym qchar = "16 word"
type_synonym qstring = "16 word list"

text \<open>A \<open>QStringLiteral\<close> or \<open>QByteArrayLiteral\<close> of ASCII text.\<close>

definition lit :: "string \<Rightarrow> 'a::len word list" where
  "lit s = map of_char s"

lemma of_char_word_inject:
  assumes "8 \<le> LENGTH('a::len)"
  shows "(of_char c :: 'a word) = of_char d \<longleftrightarrow> c = d"
proof
  assume "(of_char c :: 'a word) = of_char d"
  then have eq: "(word_of_nat (of_char c) :: 'a word) = word_of_nat (of_char d)"
    by (simp only: of_nat_of_char)
  have "(2::nat) ^ 8 \<le> 2 ^ LENGTH('a)"
    using assms by (intro power_increasing) simp_all
  then have "(of_char x :: nat) < 2 ^ LENGTH('a)" for x
    by (intro less_le_trans [OF nat_of_char_less_256]) simp
  then have "(of_char c :: nat) = of_char d"
    using arg_cong [OF eq, of unat] by (simp add: unsigned_of_nat take_bit_nat_eq_self)
  then show "c = d" by simp
qed simp

lemma lit_inject [text_simps]:
  assumes "8 \<le> LENGTH('a::len)"
  shows "(lit s :: 'a word list) = lit t \<longleftrightarrow> s = t"
proof
  assume "(lit s :: 'a word list) = lit t"
  then show "s = t"
    unfolding lit_def
    by (rule map_injective) (simp add: inj_def of_char_word_inject [OF assms])
qed simp

lemma lit8_inject [simp]: "(lit s :: bytes) = lit t \<longleftrightarrow> s = t"
  by (rule lit_inject) simp

lemma lit16_inject [simp]: "(lit s :: qstring) = lit t \<longleftrightarrow> s = t"
  by (rule lit_inject) simp

lemma lit_eq_Nil [simp]: "lit s = [] \<longleftrightarrow> s = []" "[] = lit s \<longleftrightarrow> s = []"
  by (auto simp: lit_def)

lemma lit_Nil [simp]: "lit [] = []"
  by (simp add: lit_def)

lemma length_lit [simp]: "length (lit s) = length s"
  by (simp add: lit_def)

text \<open>\<open>QString::fromLatin1\<close>: each byte is the code unit of the same number.\<close>

definition fromLatin1 :: "bytes \<Rightarrow> qstring" where
  "fromLatin1 b = map ucast b"

lemma ucast_8_16_inject: "(ucast (a :: byte) :: qchar) = ucast b \<longleftrightarrow> a = b"
proof
  assume eq: "(ucast a :: qchar) = ucast b"
  show "a = b"
  proof (rule bit_word_eqI)
    fix n assume "n < LENGTH(8)"
    then show "bit a n = bit b n"
      using arg_cong [OF eq, of "\<lambda>w. bit w n"] by (simp add: bit_unsigned_iff)
  qed
qed simp

lemma ucast_16_8 [simp]: "(ucast (ucast (a :: byte) :: qchar) :: byte) = a"
  by (rule bit_word_eqI) (simp add: bit_unsigned_iff)

lemma map_ucast_fromLatin1 [simp]: "map ucast (fromLatin1 b) = b"
  by (simp add: fromLatin1_def map_idI)

lemma fromLatin1_inject [simp]: "fromLatin1 a = fromLatin1 b \<longleftrightarrow> a = b"
proof
  assume "fromLatin1 a = fromLatin1 b"
  then show "a = b"
    unfolding fromLatin1_def by (rule map_injective) (simp add: inj_def ucast_8_16_inject)
qed simp

lemma fromLatin1_Nil [simp]: "fromLatin1 [] = []" "fromLatin1 b = [] \<longleftrightarrow> b = []"
  by (simp_all add: fromLatin1_def)

section \<open>List operations of \<open>QString\<close> and \<open>QByteArray\<close>\<close>

text \<open>\<open>trimmed\<close>: drop white space at both ends; \<open>sp\<close> is \<open>QChar::isSpace\<close>.\<close>

definition trimmed :: "('c \<Rightarrow> bool) \<Rightarrow> 'c list \<Rightarrow> 'c list" where
  "trimmed sp s = rev (dropWhile sp (rev (dropWhile sp s)))"

text \<open>\<open>remove(ch)\<close>: delete every occurrence of one character.\<close>

definition removeChar :: "'c \<Rightarrow> 'c list \<Rightarrow> 'c list" where
  "removeChar c s = filter (\<lambda>x. x \<noteq> c) s"

text \<open>\<open>split(sep)\<close> with empty parts kept, and \<open>join(sep)\<close>.\<close>

fun splitOn :: "'c \<Rightarrow> 'c list \<Rightarrow> 'c list list" where
  "splitOn c [] = [[]]"
| "splitOn c (x # xs) =
     (if x = c then [] # splitOn c xs
      else (case splitOn c xs of [] \<Rightarrow> [[x]] | p # ps \<Rightarrow> (x # p) # ps))"

fun joinWith :: "'c \<Rightarrow> 'c list list \<Rightarrow> 'c list" where
  "joinWith c [] = []"
| "joinWith c [p] = p"
| "joinWith c (p # q # ps) = p @ c # joinWith c (q # ps)"

text \<open>\<open>contains(needle)\<close>: the needle occurs as a contiguous part.\<close>

fun startsWith :: "'c list \<Rightarrow> 'c list \<Rightarrow> bool" where
  "startsWith s [] = True"
| "startsWith [] (y # ys) = False"
| "startsWith (x # xs) (y # ys) = (x = y \<and> startsWith xs ys)"

fun containsSub :: "'c list \<Rightarrow> 'c list \<Rightarrow> bool" where
  "containsSub [] needle = (needle = [])"
| "containsSub (x # xs) needle = (startsWith (x # xs) needle \<or> containsSub xs needle)"

text \<open>\<open>toHex\<close>: two lower-case digits per byte.\<close>

definition hexDigit :: "nat \<Rightarrow> byte" where
  "hexDigit d = (if d < 10 then word_of_nat (48 + d) else word_of_nat (87 + d))"

fun toHex :: "bytes \<Rightarrow> bytes" where
  "toHex [] = []"
| "toHex (b # bs) = hexDigit (unat b div 16) # hexDigit (unat b mod 16) # toHex bs"

text \<open>\<open>toUpper\<close> on an ASCII byte array.\<close>

definition upperByte :: "byte \<Rightarrow> byte" where
  "upperByte b = (if 97 \<le> b \<and> b \<le> 122 then b - 32 else b)"

text \<open>A little-endian 32-bit value at an offset, as \<open>memcpy\<close> into an integer reads it.\<close>

definition le32At :: "bytes \<Rightarrow> nat \<Rightarrow> nat" where
  "le32At b i = unat (b ! i) + 256 * unat (b ! (i + 1)) + 65536 * unat (b ! (i + 2))
     + 16777216 * unat (b ! (i + 3))"

text \<open>
  \<open>QRegularExpression\<close> with \<open>^P$\<close>: the dollar sign matches at the end and also before a line
  feed that ends the subject.
\<close>

definition anchoredMatch :: "(qstring \<Rightarrow> bool) \<Rightarrow> qstring \<Rightarrow> bool" where
  "anchoredMatch P s \<longleftrightarrow> P s \<or> (s \<noteq> [] \<and> last s = 10 \<and> P (butlast s))"

section \<open>The parts of Qt that are parameters\<close>

text \<open>
  \<open>qtIsSpace\<close> is \<open>QChar::isSpace\<close>; \<open>qtToUpper\<close>, \<open>qtToLower\<close> and \<open>qtCaseFold\<close> are the case mappings of
  \<open>QString\<close> (the last is what comparison without case uses); \<open>qtToUtf8\<close>, \<open>qtFromUtf8\<close> and \<open>qtToLatin1\<close> are the codecs; \<open>qtToBase64\<close> and
  \<open>qtFromBase64\<close> are the standard alphabet with padding, the lenient decoder that skips what
  it does not know; \<open>qtFromBase64Strict\<close> aborts instead; \<open>qtToBase64Url\<close> is the URL alphabet
  with trailing equals omitted and \<open>qtFromBase64Url\<close> its lenient decoder; \<open>qtSha256\<close> is
  \<open>QCryptographicHash\<close> with SHA-256.
\<close>

record qt =
  qtIsSpace :: "qchar \<Rightarrow> bool"
  qtToUpper :: "qstring \<Rightarrow> qstring"
  qtToLower :: "qstring \<Rightarrow> qstring"
  qtCaseFold :: "qstring \<Rightarrow> qstring"
  qtToUtf8 :: "qstring \<Rightarrow> bytes"
  qtFromUtf8 :: "bytes \<Rightarrow> qstring"
  qtToLatin1 :: "qstring \<Rightarrow> bytes"
  qtToBase64 :: "bytes \<Rightarrow> bytes"
  qtFromBase64 :: "bytes \<Rightarrow> bytes"
  qtFromBase64Strict :: "bytes \<Rightarrow> bytes option"
  qtToBase64Url :: "bytes \<Rightarrow> bytes"
  qtFromBase64Url :: "bytes \<Rightarrow> bytes"
  qtSha256 :: "bytes \<Rightarrow> bytes"

abbreviation qtTrimmed :: "qt \<Rightarrow> qstring \<Rightarrow> qstring" where
  "qtTrimmed q \<equiv> trimmed (qtIsSpace q)"

section \<open>Generic lemmas\<close>

lemma trimmed_Nil [simp]: "trimmed sp [] = []"
  by (simp add: trimmed_def)

lemma set_trimmed: "set (trimmed sp s) \<subseteq> set s"
  by (auto simp: trimmed_def dest!: set_dropWhileD)

lemma trimmed_eq_Nil_iff: "trimmed sp s = [] \<longleftrightarrow> (\<forall>c \<in> set s. sp c)"
proof -
  have "trimmed sp s = [] \<longleftrightarrow> (\<forall>c \<in> set (dropWhile sp s). sp c)"
    by (simp add: trimmed_def)
  also have "\<dots> \<longleftrightarrow> (\<forall>c \<in> set s. sp c)"
    by (metis dropWhile_eq_Nil_conv hd_dropWhile hd_in_set set_dropWhileD)
  finally show ?thesis .
qed

lemma set_removeChar [simp]: "set (removeChar c s) = set s - {c}"
  by (auto simp: removeChar_def)

lemma splitOn_not_Nil [simp]: "splitOn c s \<noteq> []"
  by (induction s) (auto split: list.splits)

lemma splitOn_no_sep: "p \<in> set (splitOn c s) \<Longrightarrow> c \<notin> set p"
  by (induction s arbitrary: p) (auto split: list.splits if_splits)

lemma joinWith_Cons: "ps \<noteq> [] \<Longrightarrow> joinWith c (p # ps) = p @ c # joinWith c ps"
  by (cases ps) auto

lemma join_splitOn [simp]: "joinWith c (splitOn c s) = s"
proof (induction s)
  case (Cons x xs)
  obtain p ps where "splitOn c xs = p # ps"
    by (cases "splitOn c xs") auto
  with Cons show ?case
    by (cases ps) auto
qed simp

lemma splitOn_append_sep: "c \<notin> set p \<Longrightarrow> splitOn c (p @ c # s) = p # splitOn c s"
  by (induction p) auto

lemma splitOn_no_occurrence: "c \<notin> set p \<Longrightarrow> splitOn c p = [p]"
  by (induction p) auto

lemma splitOn_joinWith:
  "ps \<noteq> [] \<Longrightarrow> (\<forall>p \<in> set ps. c \<notin> set p) \<Longrightarrow> splitOn c (joinWith c ps) = ps"
proof (induction ps)
  case (Cons p ps)
  then show ?case
    by (cases "ps = []") (simp_all add: splitOn_no_occurrence joinWith_Cons splitOn_append_sep)
qed simp

lemma length_toHex [simp]: "length (toHex b) = 2 * length b"
  by (induction b rule: toHex.induct) auto

lemma startsWith_append [simp]: "startsWith (p @ s) p"
  by (induction p) auto

lemma startsWith_iff: "startsWith s p \<longleftrightarrow> (\<exists>r. s = p @ r)"
  by (induction s p rule: startsWith.induct) auto

lemma containsSub_iff: "containsSub s p \<longleftrightarrow> (\<exists>l r. s = l @ p @ r)"
proof (induction s)
  case (Cons x xs)
  show ?case
    unfolding containsSub.simps startsWith_iff Cons
    by (metis append_Cons append_Nil list.exhaust list.inject)
qed auto

lemma unat_word_of_nat_byte [simp]: "n < 256 \<Longrightarrow> unat (word_of_nat n :: byte) = n"
  by (simp add: unsigned_of_nat take_bit_nat_eq_self)

lemma unat_inject: "unat a = unat b \<longleftrightarrow> a = b"
  by (metis unsigned_word_eqI)

lemma word_of_nat_inject:
  "m < 256 \<Longrightarrow> n < 256 \<Longrightarrow> (word_of_nat m :: byte) = word_of_nat n \<longleftrightarrow> m = n"
  by (metis unat_word_of_nat_byte)

lemma hexDigit_inject: "a < 16 \<Longrightarrow> b < 16 \<Longrightarrow> hexDigit a = hexDigit b \<longleftrightarrow> a = b"
  using word_of_nat_inject [of "48 + a" "48 + b"] word_of_nat_inject [of "87 + a" "87 + b"]
    word_of_nat_inject [of "48 + a" "87 + b"] word_of_nat_inject [of "87 + a" "48 + b"]
  by (auto simp: hexDigit_def)

lemma unat_byte_less [simp]: "unat (b :: byte) < 256"
  using unsigned_less [of b, where 'a = nat] by simp

lemma toHex_inject: "toHex a = toHex b \<longleftrightarrow> a = b"
proof (induction a arbitrary: b rule: toHex.induct)
  case 1
  then show ?case by (cases b) auto
next
  case (2 x xs)
  show ?case
  proof (cases b)
    case (Cons y ys)
    have bound: "unat z div 16 < 16" for z :: byte
      using unat_byte_less [of z] by linarith
    have "x = y" if "unat x div 16 = unat y div 16" "unat x mod 16 = unat y mod 16"
      using that by (metis div_mult_mod_eq unsigned_word_eqI)
    with Cons 2 show ?thesis
      by (auto simp: hexDigit_inject bound)
  qed simp
qed

text \<open>\<open>QString::arg\<close> of an integer: its decimal digits.\<close>

fun decimalDigits :: "nat \<Rightarrow> qstring" where
  "decimalDigits n = (if n < 10 then [word_of_nat (48 + n)]
     else decimalDigits (n div 10) @ [word_of_nat (48 + n mod 10)])"

definition decimalText :: "int \<Rightarrow> qstring" where
  "decimalText i = (if i < 0 then 45 # decimalDigits (nat (- i)) else decimalDigits (nat i))"

end
