(* ===== verification/Base64.thy ===== *)
theory Base64
  imports Prelude
begin

unbundle bit_operations_syntax

text \<open>
  Base64 as the client uses it.

  \<^item> The reference: the two encodings of RFC 4648 over byte lists and a decoder that skips
    characters outside the alphabet, the documented behaviour of \<open>QByteArray\<close>.
  \<^item> The source: \<open>base64UrlValue\<close> and \<open>canonicalBase64UrlSegment\<close> of
    \<open>license-client/src/security/DeviceProof.cpp\<close>, the decoders of
    \<open>SessionTokenVerifier.cpp\<close> and \<open>strictBase64\<close> of \<open>AuthManager.cpp\<close>.
  \<^item> The interface \<open>base64_codec\<close>: all that the re-encoding checks rely on is that decoding
    undoes encoding. It is interpreted on the reference codecs.
\<close>

section \<open>The RFC 4648 reference\<close>

definition sextetChar :: "byte \<Rightarrow> byte \<Rightarrow> nat \<Rightarrow> byte" where
  "sextetChar c62 c63 n =
     (if n < 26 then word_of_nat (65 + n)
      else if n < 52 then word_of_nat (71 + n)
      else if n < 62 then word_of_nat (n - 4)
      else if n = 62 then c62 else c63)"

definition charSextet :: "byte \<Rightarrow> byte \<Rightarrow> byte \<Rightarrow> nat option" where
  "charSextet c62 c63 c =
     (if 65 \<le> unat c \<and> unat c \<le> 90 then Some (unat c - 65)
      else if 97 \<le> unat c \<and> unat c \<le> 122 then Some (unat c - 71)
      else if 48 \<le> unat c \<and> unat c \<le> 57 then Some (unat c + 4)
      else if c = c62 then Some 62
      else if c = c63 then Some 63 else None)"

fun sextets :: "nat list \<Rightarrow> nat list" where
  "sextets (a # b # c # r) =
     [a div 4, (a mod 4) * 16 + b div 16, (b mod 16) * 4 + c div 64, c mod 64] @ sextets r"
| "sextets [a, b] = [a div 4, (a mod 4) * 16 + b div 16, (b mod 16) * 4]"
| "sextets [a] = [a div 4, (a mod 4) * 16]"
| "sextets [] = []"

fun octets :: "nat list \<Rightarrow> nat list" where
  "octets (p # q # r # t # s) =
     [p * 4 + q div 16, (q mod 16) * 16 + r div 4, (r mod 4) * 64 + t] @ octets s"
| "octets [p, q, r] = [p * 4 + q div 16, (q mod 16) * 16 + r div 4]"
| "octets [p, q] = [p * 4 + q div 16]"
| "octets [p] = []"
| "octets [] = []"

abbreviation plusByte :: byte where "plusByte \<equiv> 43"
abbreviation slashByte :: byte where "slashByte \<equiv> 47"
abbreviation minusByte :: byte where "minusByte \<equiv> 45"
abbreviation underscoreByte :: byte where "underscoreByte \<equiv> 95"
abbreviation equalsByte :: byte where "equalsByte \<equiv> 61"

definition rfcBase64Url :: "bytes \<Rightarrow> bytes" where
  "rfcBase64Url v = map (sextetChar minusByte underscoreByte) (sextets (map unat v))"

definition rfcBase64 :: "bytes \<Rightarrow> bytes" where
  "rfcBase64 v = map (sextetChar plusByte slashByte) (sextets (map unat v))
     @ replicate ((3 - length v mod 3) mod 3) equalsByte"

definition lenientDecode :: "byte \<Rightarrow> byte \<Rightarrow> bytes \<Rightarrow> bytes" where
  "lenientDecode c62 c63 s = map word_of_nat (octets (List.map_filter (charSextet c62 c63) s))"

lemma sextets_less: "(\<forall>a \<in> set bs. a < 256) \<Longrightarrow> \<forall>s \<in> set (sextets bs). s < 64"
  by (induction bs rule: sextets.induct) auto

lemma length_sextets: "length (sextets bs) = (4 * length bs + 2) div 3"
  by (induction bs rule: sextets.induct) auto

lemma octets_sextets: "(\<forall>a \<in> set bs. a < 256) \<Longrightarrow> octets (sextets bs) = bs"
  by (induction bs rule: sextets.induct) auto

text \<open>
  The sextet lists that an encoder produces: no lone sextet at the end, and no bits set below
  the last octet.
\<close>

definition canonicalSextets :: "nat list \<Rightarrow> bool" where
  "canonicalSextets ss \<longleftrightarrow> (\<forall>s \<in> set ss. s < 64) \<and> length ss mod 4 \<noteq> 1
     \<and> (length ss mod 4 = 2 \<longrightarrow> last ss mod 16 = 0)
     \<and> (length ss mod 4 = 3 \<longrightarrow> last ss mod 4 = 0)"

lemma canonicalSextets_Nil [simp]: "canonicalSextets []"
  by (simp add: canonicalSextets_def)

lemma canonicalSextets_four [simp]:
  "canonicalSextets (p # q # r # t # s) \<longleftrightarrow>
     p < 64 \<and> q < 64 \<and> r < 64 \<and> t < 64 \<and> canonicalSextets s"
proof -
  have len: "length (p # q # r # t # s) mod 4 = length s mod 4"
  proof -
    have "length (p # q # r # t # s) = length s + 4" by simp
    then show ?thesis by (simp only: mod_add_self2)
  qed
  have end_part: "length s mod 4 \<noteq> 0 \<Longrightarrow> last (p # q # r # t # s) = last s"
    by (cases s) simp_all
  show ?thesis
    unfolding canonicalSextets_def len using end_part by (auto simp del: length_Cons)
qed

lemma canonical_sextets: "(\<forall>a \<in> set bs. a < 256) \<Longrightarrow> canonicalSextets (sextets bs)"
  by (induction bs rule: sextets.induct) (auto simp: canonicalSextets_def [of "[_, _]"]
      canonicalSextets_def [of "[_, _, _]"])

lemma sextets_octets: "canonicalSextets ss \<Longrightarrow> sextets (octets ss) = ss"
  by (induction ss rule: octets.induct) (auto simp: canonicalSextets_def [of "[_]"]
      canonicalSextets_def [of "[_, _]"] canonicalSextets_def [of "[_, _, _]"])

lemma octets_less: "(\<forall>s \<in> set ss. s < 64) \<Longrightarrow> \<forall>a \<in> set (octets ss). a < 256"
  by (induction ss rule: octets.induct) auto

lemma octets_eq_Nil: "octets ss = [] \<longleftrightarrow> length ss \<le> 1"
  by (induction ss rule: octets.induct) auto

section \<open>The alphabet\<close>

text \<open>Two distinct characters outside the 62 alphanumeric ones, as both alphabets have.\<close>

definition goodPair :: "byte \<Rightarrow> byte \<Rightarrow> bool" where
  "goodPair c62 c63 \<longleftrightarrow> c62 \<noteq> c63 \<and> unat c62 < 48 \<and>
     (unat c63 < 48 \<or> (90 < unat c63 \<and> unat c63 < 97))"

lemma goodPair_url [simp]: "goodPair minusByte underscoreByte"
  by (simp add: goodPair_def)

lemma goodPair_std [simp]: "goodPair plusByte slashByte"
  by (simp add: goodPair_def)

lemma charSextet_sextetChar:
  assumes "goodPair c62 c63" and "n < 64"
  shows "charSextet c62 c63 (sextetChar c62 c63 n) = Some n"
proof -
  have word: "unat (word_of_nat k :: byte) = k" if "k < 256" for k
    using that by (simp add: unsigned_of_nat take_bit_nat_eq_self)
  have low: "unat (sextetChar c62 c63 n) =
      (if n < 26 then 65 + n else if n < 52 then 71 + n else n - 4)" if "n < 62"
    using that by (simp add: sextetChar_def word del: of_nat_add of_nat_diff)
  consider "n < 26" | "26 \<le> n" "n < 52" | "52 \<le> n" "n < 62" | "n = 62" | "n = 63"
    using assms(2) by linarith
  then show ?thesis
  proof cases
    case 4
    with assms(1) show ?thesis
      by (auto simp: charSextet_def sextetChar_def goodPair_def)
  next
    case 5
    with assms(1) show ?thesis
      by (auto simp: charSextet_def sextetChar_def goodPair_def)
  next
    case 3
    then have "48 \<le> n - 4 \<and> n - 4 \<le> 57 \<and> n - 4 + 4 = n" by linarith
    with 3 show ?thesis by (simp add: charSextet_def low)
  qed (simp_all add: charSextet_def low)
qed

lemma sextetChar_charSextet:
  assumes "goodPair c62 c63" and "charSextet c62 c63 c = Some n"
  shows "sextetChar c62 c63 n = c \<and> n < 64"
proof -
  have restore: "(word_of_nat (unat c) :: byte) = c"
    by simp
  show ?thesis
    using assms unfolding charSextet_def sextetChar_def goodPair_def
    by (auto simp: restore split: if_splits)
qed

lemma sextetChar_inj:
  assumes "goodPair c62 c63" "m < 64" "n < 64" "sextetChar c62 c63 m = sextetChar c62 c63 n"
  shows "m = n"
  using assms charSextet_sextetChar by (metis option.inject)

lemma map_filter_charSextet_encode:
  assumes "goodPair c62 c63" and "\<forall>n \<in> set ss. n < 64"
  shows "List.map_filter (charSextet c62 c63) (map (sextetChar c62 c63) ss) = ss"
  using assms(2) by (induction ss) (simp_all add: List.map_filter_simps charSextet_sextetChar [OF assms(1)])

lemma unat_less_256: "unat (b :: byte) < 256"
  using unsigned_less [of b, where 'a = nat] by simp

lemma bytes_less_256: "\<forall>a \<in> set (map unat (v :: bytes)). a < 256"
  by (simp add: unat_less_256)

lemma map_word_of_nat_unat [simp]: "map word_of_nat (map unat (v :: bytes)) = v"
  by (induction v) auto

lemma lenientDecode_encode:
  assumes "goodPair c62 c63" and "\<forall>c \<in> set pad. charSextet c62 c63 c = None"
  shows "lenientDecode c62 c63 (map (sextetChar c62 c63) (sextets (map unat v)) @ pad) = v"
proof -
  have "List.map_filter (charSextet c62 c63) pad = []"
    using assms(2) by (induction pad) (auto simp: List.map_filter_simps)
  moreover have "List.map_filter f (xs @ ys) = List.map_filter f xs @ List.map_filter f ys"
    for f :: "byte \<Rightarrow> nat option" and xs ys
    by (induction xs) (auto simp: List.map_filter_simps split: option.splits)
  moreover have "List.map_filter (charSextet c62 c63)
      (map (sextetChar c62 c63) (sextets (map unat v))) = sextets (map unat v)"
    by (intro map_filter_charSextet_encode assms(1) sextets_less bytes_less_256)
  ultimately show ?thesis
    by (simp add: lenientDecode_def octets_sextets [OF bytes_less_256] del: map_map)
qed

section \<open>The codec interface\<close>

text \<open>
  What a caller that decodes and then compares the re-encoding relies on: decoding undoes
  encoding. Nothing is assumed about input that is not an encoding.
\<close>

locale base64_codec =
  fixes enc :: "bytes \<Rightarrow> bytes" and dec :: "bytes \<Rightarrow> bytes"
  assumes dec_enc: "dec (enc v) = v"
begin

lemma reencode_iff: "enc (dec s) = s \<longleftrightarrow> s \<in> range enc"
  by (metis dec_enc rangeE rangeI)

lemma enc_inject: "enc v = enc w \<longleftrightarrow> v = w"
  by (metis dec_enc)

lemma decode_Some_iff:
  "(if dec s = [] \<or> enc (dec s) \<noteq> s then None else Some (dec s)) = Some v
     \<longleftrightarrow> v \<noteq> [] \<and> enc v = s"
  by (auto simp: dec_enc)

end

interpretation rfcUrl: base64_codec rfcBase64Url "lenientDecode minusByte underscoreByte"
  using lenientDecode_encode [of minusByte underscoreByte "[]"]
  by unfold_locales (simp add: rfcBase64Url_def)

interpretation rfcStd: base64_codec rfcBase64 "lenientDecode plusByte slashByte"
  by unfold_locales (simp add: rfcBase64_def lenientDecode_encode charSextet_def)

section \<open>The canonical-segment check of the proof builder\<close>

definition base64UrlValue :: "byte \<Rightarrow> int" where
  "base64UrlValue character =
     (if 65 \<le> character \<and> character \<le> 90 then int (unat character) - 65
      else if 97 \<le> character \<and> character \<le> 122 then 26 + int (unat character) - 97
      else if 48 \<le> character \<and> character \<le> 57 then 52 + int (unat character) - 48
      else if character = minusByte then 62
      else if character = underscoreByte then 63
      else -1)"

definition canonicalBase64UrlSegment :: "bytes \<Rightarrow> bool" where
  "canonicalBase64UrlSegment segment =
     (if segment = [] \<or> length segment mod 4 = 1 then False
      else if list_ex (\<lambda>character. base64UrlValue character < 0) segment then False
      else let finalValue = base64UrlValue (last segment) in
        if length segment mod 4 = 2 \<and> finalValue AND 15 \<noteq> 0 then False
        else if length segment mod 4 = 3 \<and> finalValue AND 3 \<noteq> 0 then False
        else True)"

lemma base64UrlValue_charSextet:
  "base64UrlValue c = (case charSextet minusByte underscoreByte c of None \<Rightarrow> -1 | Some n \<Rightarrow> int n)"
  unfolding base64UrlValue_def charSextet_def word_le_nat_alt by auto

lemma base64UrlValue_sextetChar [simp]:
  "n < 64 \<Longrightarrow> base64UrlValue (sextetChar minusByte underscoreByte n) = int n"
  by (simp add: base64UrlValue_charSextet charSextet_sextetChar)

lemma int_AND_15: "int n AND 15 = int (n mod 16)"
  using take_bit_eq_mask [of 4 "int n"] by (simp add: take_bit_eq_mod zmod_int mask_eq_exp_minus_1)

lemma int_AND_3: "int n AND 3 = int (n mod 4)"
  using take_bit_eq_mask [of 2 "int n"] by (simp add: take_bit_eq_mod zmod_int mask_eq_exp_minus_1)

lemma canonical_segment_of_sextets:
  assumes "\<forall>n \<in> set ss. n < 64"
  shows "canonicalBase64UrlSegment (map (sextetChar minusByte underscoreByte) ss)
    \<longleftrightarrow> ss \<noteq> [] \<and> canonicalSextets ss"
proof (cases "ss = []")
  case False
  then have "base64UrlValue (last (map (sextetChar minusByte underscoreByte) ss)) = int (last ss)"
    using assms by (simp add: last_map)
  moreover have "\<not> list_ex (\<lambda>c. base64UrlValue c < 0) (map (sextetChar minusByte underscoreByte) ss)"
    using assms by (auto simp: list_ex_iff)
  ultimately show ?thesis
    using False assms
    by (auto simp: canonicalBase64UrlSegment_def canonicalSextets_def Let_def int_AND_15 int_AND_3)
qed (simp add: canonicalBase64UrlSegment_def)

lemma sextets_of_segment:
  assumes "\<not> list_ex (\<lambda>c. base64UrlValue c < 0) s"
  obtains ss where "s = map (sextetChar minusByte underscoreByte) ss" and "\<forall>n \<in> set ss. n < 64"
proof -
  have "\<exists>ss. s = map (sextetChar minusByte underscoreByte) ss \<and> (\<forall>n \<in> set ss. n < 64)"
    using assms
  proof (induction s)
    case (Cons c s)
    then obtain ss where ss: "s = map (sextetChar minusByte underscoreByte) ss" "\<forall>n \<in> set ss. n < 64"
      by auto
    from Cons.prems obtain n where "charSextet minusByte underscoreByte c = Some n"
      by (auto simp: base64UrlValue_charSextet split: option.splits)
    then have "c = sextetChar minusByte underscoreByte n \<and> n < 64"
      using sextetChar_charSextet [OF goodPair_url] by metis
    with ss show ?case
      by (intro exI [of _ "n # ss"]) simp
  qed simp
  with that show ?thesis by blast
qed

lemma canonical_segment_iff_encoding:
  "canonicalBase64UrlSegment s \<longleftrightarrow> (\<exists>v. v \<noteq> [] \<and> rfcBase64Url v = s)"
proof
  assume canonical: "canonicalBase64UrlSegment s"
  then have valid: "\<not> list_ex (\<lambda>c. base64UrlValue c < 0) s"
    by (auto simp: canonicalBase64UrlSegment_def split: if_splits)
  then obtain ss where s: "s = map (sextetChar minusByte underscoreByte) ss"
      and less: "\<forall>n \<in> set ss. n < 64"
    by (rule sextets_of_segment)
  with canonical have ss: "ss \<noteq> []" "canonicalSextets ss"
    by (simp_all add: canonical_segment_of_sextets)
  define v :: bytes where "v = map word_of_nat (octets ss)"
  have unat_v: "map unat v = octets ss"
    using octets_less [OF less]
    by (simp add: v_def map_idI unsigned_of_nat take_bit_nat_eq_self)
  have "length ss \<noteq> 1"
    using ss(2) by (auto simp: canonicalSextets_def)
  with ss(1) have "v \<noteq> []"
    by (cases ss) (auto simp: v_def octets_eq_Nil)
  moreover have "rfcBase64Url v = s"
    unfolding rfcBase64Url_def unat_v by (simp add: sextets_octets ss(2) s)
  ultimately show "\<exists>v. v \<noteq> [] \<and> rfcBase64Url v = s" by blast
next
  assume "\<exists>v. v \<noteq> [] \<and> rfcBase64Url v = s"
  then obtain v where v: "v \<noteq> []" "s = rfcBase64Url v" by blast
  moreover have "sextets (map unat v) \<noteq> []"
    using v(1) length_sextets [of "map unat v"] by (cases v) auto
  ultimately show "canonicalBase64UrlSegment s"
    unfolding rfcBase64Url_def
    by (simp only: canonical_segment_of_sextets [OF sextets_less [OF bytes_less_256]]
        canonical_sextets [OF bytes_less_256] simp_thms)
qed

section \<open>Decoders that compare the re-encoding\<close>

definition decodeCanonicalBase64Url :: "qt \<Rightarrow> bytes \<Rightarrow> bytes option" where
  "decodeCanonicalBase64Url q encoded =
     (if encoded = [] \<or> List.member encoded equalsByte \<or> List.member encoded plusByte
          \<or> List.member encoded slashByte then None
      else let value = qtFromBase64Url q encoded in
        if value = [] \<or> qtToBase64Url q value \<noteq> encoded then None else Some value)"

definition decodeCanonicalStandardBase64Key :: "qt \<Rightarrow> qstring \<Rightarrow> bytes option" where
  "decodeCanonicalStandardBase64Key q encoded =
     (let input = qtToLatin1 q encoded in
      if length input \<noteq> 44 \<or> input ! 43 \<noteq> equalsByte then None
      else let value = qtFromBase64 q input in
        if length value \<noteq> 32 \<or> qtToBase64 q value \<noteq> input then None else Some value)"

definition strictBase64 :: "qt \<Rightarrow> qstring \<Rightarrow> bytes option" where
  "strictBase64 q encoded =
     (let source = qtToUtf8 q encoded; value = qtFromBase64 q source in
      if value = [] \<or> qtToBase64 q value \<noteq> source then None else Some value)"

text \<open>What the two codecs of Qt are documented to do.\<close>

definition qtUrlCodec :: "qt \<Rightarrow> bool" where
  "qtUrlCodec q \<longleftrightarrow> base64_codec (qtToBase64Url q) (qtFromBase64Url q)
     \<and> qtToBase64Url q = rfcBase64Url"

definition qtStdCodec :: "qt \<Rightarrow> bool" where
  "qtStdCodec q \<longleftrightarrow> base64_codec (qtToBase64 q) (qtFromBase64 q)
     \<and> qtToBase64 q = rfcBase64"

lemma rfcBase64Url_charset:
  "c \<in> set (rfcBase64Url v) \<Longrightarrow> charSextet minusByte underscoreByte c \<noteq> None"
  unfolding rfcBase64Url_def
  using sextets_less [OF bytes_less_256, of v]
  by (force simp: charSextet_sextetChar)

lemma rfcBase64_key:
  assumes "length v = 32"
  shows "length (rfcBase64 v) = 44 \<and> rfcBase64 v ! 43 = equalsByte"
  using assms by (simp add: rfcBase64_def length_sextets nth_append)

text \<open>
  The proof builder's own check accepts exactly the RFC 4648 URL encodings, without
  padding, of the non-empty byte strings.
\<close>

theorem canonicalBase64UrlSegment_correct:
  "canonicalBase64UrlSegment s \<longleftrightarrow> (\<exists>v. v \<noteq> [] \<and> rfcBase64Url v = s)"
  by (rule canonical_segment_iff_encoding)

lemma decodeCanonicalBase64Url_iff:
  assumes "qtUrlCodec q"
  shows "decodeCanonicalBase64Url q s = Some v \<longleftrightarrow> v \<noteq> [] \<and> rfcBase64Url v = s"
proof -
  have codec: "base64_codec (qtToBase64Url q) (qtFromBase64Url q)"
      and enc: "qtToBase64Url q = rfcBase64Url"
    using assms by (auto simp: qtUrlCodec_def)
  have chars: "c \<notin> set (rfcBase64Url w)" if "charSextet minusByte underscoreByte c = None" for c w
    using rfcBase64Url_charset that by blast
  have none: "equalsByte \<notin> set (rfcBase64Url w) \<and> plusByte \<notin> set (rfcBase64Url w)
      \<and> slashByte \<notin> set (rfcBase64Url w)" for w
    by (intro conjI chars) (simp_all add: charSextet_def)
  have "rfcBase64Url w = [] \<Longrightarrow> w = []" for w
    using length_sextets [of "map unat w"] by (cases w) (auto simp: rfcBase64Url_def)
  moreover have "(decodeCanonicalBase64Url q s = Some v) =
      ((if qtFromBase64Url q s = [] \<or> rfcBase64Url (qtFromBase64Url q s) \<noteq> s then None
        else Some (qtFromBase64Url q s)) = Some v)"
    using none [of "qtFromBase64Url q s"] calculation [of "qtFromBase64Url q s"]
    unfolding decodeCanonicalBase64Url_def Let_def enc by auto
  ultimately show ?thesis
    using base64_codec.decode_Some_iff [OF codec, of s v] by (simp only: enc)
qed

text \<open>
  The verifier's decoder and the proof builder's check are two implementations of the same
  language: a segment decodes in one exactly when the other accepts it.
\<close>

theorem canonical_checks_agree:
  assumes "qtUrlCodec q"
  shows "decodeCanonicalBase64Url q s \<noteq> None \<longleftrightarrow> canonicalBase64UrlSegment s"
  using decodeCanonicalBase64Url_iff [OF assms] canonical_segment_iff_encoding
  by (metis not_Some_eq)

lemma decodeCanonicalStandardBase64Key_iff:
  assumes "qtStdCodec q"
  shows "decodeCanonicalStandardBase64Key q s = Some v
    \<longleftrightarrow> length v = 32 \<and> rfcBase64 v = qtToLatin1 q s"
proof -
  have codec: "base64_codec (qtToBase64 q) (qtFromBase64 q)" and enc: "qtToBase64 q = rfcBase64"
    using assms by (auto simp: qtStdCodec_def)
  show ?thesis
    using rfcBase64_key [of v] base64_codec.dec_enc [OF codec, of v]
    unfolding decodeCanonicalStandardBase64Key_def Let_def enc
    by (auto split: if_splits)
qed

text \<open>
  A configured verification key decodes exactly when its text is the padded standard
  encoding of 32 bytes, and to those bytes.
\<close>

theorem decodeCanonicalStandardBase64Key_correct:
  assumes "qtStdCodec q"
  shows "decodeCanonicalStandardBase64Key q s = Some v
    \<longleftrightarrow> length v = 32 \<and> rfcBase64 v = qtToLatin1 q s"
  by (rule decodeCanonicalStandardBase64Key_iff [OF assms])

lemma strictBase64_iff:
  assumes "qtStdCodec q"
  shows "strictBase64 q s = Some v \<longleftrightarrow> v \<noteq> [] \<and> rfcBase64 v = qtToUtf8 q s"
proof -
  have codec: "base64_codec (qtToBase64 q) (qtFromBase64 q)" and enc: "qtToBase64 q = rfcBase64"
    using assms by (auto simp: qtStdCodec_def)
  show ?thesis
    using base64_codec.decode_Some_iff [OF codec, of "qtToUtf8 q s" v]
    unfolding strictBase64_def Let_def by (simp only: enc)
qed

text \<open>
  A server challenge is accepted exactly when it is the standard encoding of a non-empty
  byte string, which is the challenge that is signed.
\<close>

theorem strictBase64_correct:
  assumes "qtStdCodec q"
  shows "strictBase64 q s = Some v \<longleftrightarrow> v \<noteq> [] \<and> rfcBase64 v = qtToUtf8 q s"
  by (rule strictBase64_iff [OF assms])

section \<open>The compact form\<close>

abbreviation dotByte :: byte where "dotByte \<equiv> 46"

text \<open>Three segments joined by dots, as session tokens and device proofs are written.\<close>

definition compactToken :: "bytes \<Rightarrow> bytes \<Rightarrow> bytes \<Rightarrow> bytes" where
  "compactToken header payload signature =
     rfcBase64Url header @ dotByte # rfcBase64Url payload @ dotByte # rfcBase64Url signature"

lemma dot_not_in_rfcBase64Url: "dotByte \<notin> set (rfcBase64Url v)"
  using rfcBase64Url_charset [of dotByte v] by (auto simp: charSextet_def)

lemma splitOn_compactToken:
  "splitOn dotByte (compactToken h p s) = [rfcBase64Url h, rfcBase64Url p, rfcBase64Url s]"
  by (simp add: compactToken_def splitOn_append_sep splitOn_no_occurrence dot_not_in_rfcBase64Url)

lemma length_rfcBase64Url: "length (rfcBase64Url v) = (4 * length v + 2) div 3"
  by (simp add: rfcBase64Url_def length_sextets)

section \<open>A concrete instance of the Qt parameters\<close>

text \<open>
  An ASCII instance of the record, with the reference codecs and a stand-in digest of 32 bytes,
  for evaluating the model on concrete input.
\<close>

definition qtAscii :: qt where
  "qtAscii = \<lparr>
     qtIsSpace = (\<lambda>c. (9 \<le> c \<and> c \<le> 13) \<or> c = 32),
     qtToUpper = map (\<lambda>c. if 97 \<le> c \<and> c \<le> 122 then c - 32 else c),
     qtToLower = map (\<lambda>c. if 65 \<le> c \<and> c \<le> 90 then c + 32 else c),
     qtCaseFold = map (\<lambda>c. if 65 \<le> c \<and> c \<le> 90 then c + 32 else c),
     qtToUtf8 = map ucast, qtFromUtf8 = map ucast, qtToLatin1 = map ucast,
     qtToBase64 = rfcBase64, qtFromBase64 = lenientDecode plusByte slashByte,
     qtFromBase64Strict = (\<lambda>s. let v = lenientDecode plusByte slashByte s in
       if rfcBase64 v = s then Some v else None),
     qtToBase64Url = rfcBase64Url, qtFromBase64Url = lenientDecode minusByte underscoreByte,
     qtSha256 = (\<lambda>s. replicate 31 0 @ [sum_list s])\<rparr>"

lemma qtAscii_simps:
  "qtIsSpace qtAscii = (\<lambda>c. (9 \<le> c \<and> c \<le> 13) \<or> c = 32)"
  "qtToUpper qtAscii = map (\<lambda>c. if 97 \<le> c \<and> c \<le> 122 then c - 32 else c)"
  "qtToLower qtAscii = map (\<lambda>c. if 65 \<le> c \<and> c \<le> 90 then c + 32 else c)"
  "qtCaseFold qtAscii = map (\<lambda>c. if 65 \<le> c \<and> c \<le> 90 then c + 32 else c)"
  "qtToUtf8 qtAscii = map ucast" "qtFromUtf8 qtAscii = map ucast" "qtToLatin1 qtAscii = map ucast"
  "qtToBase64 qtAscii = rfcBase64" "qtFromBase64 qtAscii = lenientDecode plusByte slashByte"
  "qtFromBase64Strict qtAscii s = (let v = lenientDecode plusByte slashByte s in
     if rfcBase64 v = s then Some v else None)"
  "qtToBase64Url qtAscii = rfcBase64Url"
  "qtFromBase64Url qtAscii = lenientDecode minusByte underscoreByte"
  "qtSha256 qtAscii = (\<lambda>s. replicate 31 0 @ [sum_list s])"
  by (simp_all add: qtAscii_def)

lemma qtAscii_codecs [simp]: "qtUrlCodec qtAscii" "qtStdCodec qtAscii"
  using rfcUrl.base64_codec_axioms rfcStd.base64_codec_axioms
  by (simp_all add: qtUrlCodec_def qtStdCodec_def qtAscii_def)

theorem canonical_checks_agree_witness:
  "decodeCanonicalBase64Url qtAscii (lit ''QUI'') \<noteq> None
    \<longleftrightarrow> canonicalBase64UrlSegment (lit ''QUI'')"
  by (rule canonical_checks_agree) simp

theorem decodeCanonicalStandardBase64Key_correct_witness:
  "decodeCanonicalStandardBase64Key qtAscii (fromLatin1 (rfcBase64 (replicate 32 7)))
     = Some (replicate 32 7)"
  by (subst decodeCanonicalStandardBase64Key_correct)
     (simp_all, simp_all add: qtAscii_def)

theorem strictBase64_correct_witness:
  "strictBase64 qtAscii (fromLatin1 (rfcBase64 [1, 2, 3])) = Some [1, 2, 3]"
  by (subst strictBase64_correct) (simp_all, simp_all add: qtAscii_def)

end
