(* ===== verification/Json.thy ===== *)
theory Json
  imports Prelude
begin

text \<open>
  The JSON values of Qt as the sources use them (\<open>QJsonValue\<close>, \<open>QJsonObject\<close>, \<open>QJsonArray\<close>),
  and the record \<open>qtJson\<close> of the two operations that are parameters: parsing and compact
  printing. A number is an IEEE double: a finite one is an exact rational.
\<close>

datatype double = Finite rat | NotFinite

datatype json =
    JUndefined
  | JNull
  | JBool bool
  | JDouble double
  | JString qstring
  | JArray "json list"
  | JObject "(qstring \<times> json) list"

type_synonym jsonObject = "(qstring \<times> json) list"

record qtJson =
  fromJson :: "bytes \<Rightarrow> json option"
  toJsonCompact :: "json \<Rightarrow> bytes"

section \<open>Accessors\<close>

definition jsonValue :: "jsonObject \<Rightarrow> qstring \<Rightarrow> json" where
  "jsonValue obj name = (case map_of obj name of None \<Rightarrow> JUndefined | Some v \<Rightarrow> v)"

definition jsonContains :: "jsonObject \<Rightarrow> qstring \<Rightarrow> bool" where
  "jsonContains obj name \<longleftrightarrow> map_of obj name \<noteq> None"

fun isString :: "json \<Rightarrow> bool" where
  "isString (JString s) = True"
| "isString _ = False"

fun jsonToString :: "json \<Rightarrow> qstring" where
  "jsonToString (JString s) = s"
| "jsonToString _ = []"

fun jsonToBool :: "json \<Rightarrow> bool" where
  "jsonToBool (JBool b) = b"
| "jsonToBool _ = False"

fun asArray :: "json \<Rightarrow> json list option" where
  "asArray (JArray xs) = Some xs"
| "asArray _ = None"

fun asObject :: "json \<Rightarrow> jsonObject option" where
  "asObject (JObject obj) = Some obj"
| "asObject _ = None"

text \<open>\<open>QJsonValue::toInt\<close>: the number when it is an integer in range, and 0 otherwise.\<close>

fun jsonToInt :: "json \<Rightarrow> int" where
  "jsonToInt (JDouble (Finite r)) =
     (if of_int (floor r) = r \<and> - (2 ^ 31) \<le> floor r \<and> floor r < 2 ^ 31 then floor r else 0)"
| "jsonToInt _ = 0"

text \<open>A parsed document that is an object.\<close>

definition objectOf :: "qtJson \<Rightarrow> bytes \<Rightarrow> jsonObject option" where
  "objectOf J text = Option.bind (fromJson J text) asObject"

lemma isString_iff: "isString v \<longleftrightarrow> (\<exists>s. v = JString s)"
  by (cases v) auto

lemma asObject_Some_iff [simp]: "asObject v = Some obj \<longleftrightarrow> v = JObject obj"
  by (cases v) auto

lemma asArray_Some_iff [simp]: "asArray v = Some xs \<longleftrightarrow> v = JArray xs"
  by (cases v) auto

lemma objectOf_Some_iff: "objectOf J text = Some obj \<longleftrightarrow> fromJson J text = Some (JObject obj)"
  by (auto simp: objectOf_def bind_eq_Some_conv)

lemma jsonValue_not_undefined_contains: "jsonValue obj name \<noteq> JUndefined \<Longrightarrow> jsonContains obj name"
  by (auto simp: jsonValue_def jsonContains_def split: option.splits)

end
