(* ===== verification/JsonScan.thy ===== *)
theory JsonScan
  imports Json
begin

text \<open>
  The scanner of \<open>license-client/src/security/SessionTokenVerifier.cpp\<close> that rejects JSON texts
  with repeated member names before Qt parses them. The source moves a position through the
  text; here the remaining text stands for it, so the end of the text is the empty list. Values
  nest, so the mutually recursive scanners carry fuel; \<open>scanFuel_enough\<close> shows that twice the
  length of the text is enough. \<open>jvalue\<close> is the reference grammar, against which the scanner is
  sound and complete.
\<close>

section \<open>The scanner\<close>

abbreviation quoteByte :: byte where "quoteByte \<equiv> 34"
abbreviation backslashByte :: byte where "backslashByte \<equiv> 92"
abbreviation openBrace :: byte where "openBrace \<equiv> 123"
abbreviation closeBrace :: byte where "closeBrace \<equiv> 125"
abbreviation openBracket :: byte where "openBracket \<equiv> 91"
abbreviation closeBracket :: byte where "closeBracket \<equiv> 93"
abbreviation commaByte :: byte where "commaByte \<equiv> 44"
abbreviation colonByte :: byte where "colonByte \<equiv> 58"

definition isJsonSpace :: "byte \<Rightarrow> bool" where
  "isJsonSpace c = (c = 32 \<or> c = 10 \<or> c = 13 \<or> c = 9)"

definition skipWhitespace :: "bytes \<Rightarrow> bytes" where
  "skipWhitespace rest = dropWhile isJsonSpace rest"

text \<open>\<open>taken\<close> is the text from the opening quote to the position.\<close>

fun consumeStringLoop :: "qtJson \<Rightarrow> bytes \<Rightarrow> bytes \<Rightarrow> (qstring \<times> bytes) option" where
  "consumeStringLoop J taken [] = None"
| "consumeStringLoop J taken (current # rest) =
     (if current = quoteByte then
        (case fromJson J (openBracket # taken @ [quoteByte, closeBracket]) of
           Some (JArray [JString value]) \<Rightarrow> Some (value, rest)
         | _ \<Rightarrow> None)
      else if current = backslashByte then
        (case rest of [] \<Rightarrow> None
         | escaped # rest' \<Rightarrow> consumeStringLoop J (taken @ [current, escaped]) rest')
      else if current < 32 then None
      else consumeStringLoop J (taken @ [current]) rest)"

definition consumeString :: "qtJson \<Rightarrow> bytes \<Rightarrow> (qstring \<times> bytes) option" where
  "consumeString J rest =
     (case rest of [] \<Rightarrow> None
      | c # cs \<Rightarrow> if c \<noteq> quoteByte then None else consumeStringLoop J [quoteByte] cs)"

definition endsAtom :: "byte \<Rightarrow> bool" where
  "endsAtom c = (c = commaByte \<or> c = closeBrace \<or> c = closeBracket \<or> isJsonSpace c)"

datatype scan = OutOfFuel | Reject | Accept bytes

fun scanJsonValue :: "qtJson \<Rightarrow> nat \<Rightarrow> nat \<Rightarrow> bytes \<Rightarrow> scan"
  and scanMembers :: "qtJson \<Rightarrow> nat \<Rightarrow> nat \<Rightarrow> qstring list \<Rightarrow> bytes \<Rightarrow> scan"
  and scanElements :: "qtJson \<Rightarrow> nat \<Rightarrow> nat \<Rightarrow> bytes \<Rightarrow> scan" where
  "scanJsonValue J 0 depth rest = OutOfFuel"
| "scanJsonValue J (Suc n) depth rest =
     (if depth > 64 then Reject
      else case skipWhitespace rest of [] \<Rightarrow> Reject
      | c # cs \<Rightarrow>
        if c = openBrace then
          (case skipWhitespace cs of [] \<Rightarrow> Reject
           | d # ds \<Rightarrow> if d = closeBrace then Accept ds else scanMembers J n depth [] (d # ds))
        else if c = openBracket then
          (case skipWhitespace cs of [] \<Rightarrow> Reject
           | d # ds \<Rightarrow> if d = closeBracket then Accept ds else scanElements J n depth (d # ds))
        else if c = quoteByte then
          (case consumeString J (c # cs) of None \<Rightarrow> Reject | Some (ignored, rest) \<Rightarrow> Accept rest)
        else if endsAtom c then Reject
        else Accept (dropWhile (\<lambda>c. \<not> endsAtom c) cs))"
| "scanMembers J 0 depth members rest = OutOfFuel"
| "scanMembers J (Suc n) depth members rest =
     (case consumeString J rest of None \<Rightarrow> Reject
      | Some (member, rest) \<Rightarrow>
        if member \<in> set members then Reject
        else case skipWhitespace rest of [] \<Rightarrow> Reject
        | c # cs \<Rightarrow>
          if c \<noteq> colonByte then Reject
          else case scanJsonValue J n (depth + 1) cs of
            Accept rest \<Rightarrow>
              (case skipWhitespace rest of [] \<Rightarrow> Reject
               | c # cs \<Rightarrow>
                 if c = closeBrace then Accept cs
                 else if c \<noteq> commaByte then Reject
                 else scanMembers J n depth (member # members) (skipWhitespace cs))
          | Reject \<Rightarrow> Reject
          | OutOfFuel \<Rightarrow> OutOfFuel)"
| "scanElements J 0 depth rest = OutOfFuel"
| "scanElements J (Suc n) depth rest =
     (if rest = [] then Reject
      else case scanJsonValue J n (depth + 1) rest of
        Accept rest \<Rightarrow>
          (case skipWhitespace rest of [] \<Rightarrow> Reject
           | c # cs \<Rightarrow>
             if c = closeBracket then Accept cs
             else if c \<noteq> commaByte then Reject
             else scanElements J n depth (skipWhitespace cs))
      | Reject \<Rightarrow> Reject
      | OutOfFuel \<Rightarrow> OutOfFuel)"

definition scanFuel :: "bytes \<Rightarrow> nat" where
  "scanFuel json = 2 * length json + 2"

definition hasUniqueJsonMembers :: "qtJson \<Rightarrow> bytes \<Rightarrow> bool" where
  "hasUniqueJsonMembers J json =
     (case scanJsonValue J (scanFuel json) 0 json of
        Accept rest \<Rightarrow> skipWhitespace rest = []
      | _ \<Rightarrow> False)"

section \<open>Inversion\<close>

lemma consumeString_SomeE:
  assumes "consumeString J rest = Some (v, rest')"
  obtains cs where "rest = quoteByte # cs" and "consumeStringLoop J [quoteByte] cs = Some (v, rest')"
  using assms by (auto simp: consumeString_def split: list.splits if_splits)

lemma scanJsonValue_AcceptE:
  assumes "scanJsonValue J (Suc n) depth rest = Accept rest'"
  obtains (object_empty) cs where "depth \<le> 64" "skipWhitespace rest = openBrace # cs"
      "skipWhitespace cs = closeBrace # rest'"
    | (object) cs where "depth \<le> 64" "skipWhitespace rest = openBrace # cs"
      "scanMembers J n depth [] (skipWhitespace cs) = Accept rest'"
    | (array_empty) cs where "depth \<le> 64" "skipWhitespace rest = openBracket # cs"
      "skipWhitespace cs = closeBracket # rest'"
    | (array) cs where "depth \<le> 64" "skipWhitespace rest = openBracket # cs"
      "scanElements J n depth (skipWhitespace cs) = Accept rest'"
    | (string_value) v where "depth \<le> 64" "consumeString J (skipWhitespace rest) = Some (v, rest')"
    | (atom) c cs where "depth \<le> 64" "skipWhitespace rest = c # cs" "c \<noteq> openBrace"
      "c \<noteq> openBracket" "c \<noteq> quoteByte" "\<not> endsAtom c" "rest' = dropWhile (\<lambda>c. \<not> endsAtom c) cs"
proof -
  obtain c cs where skip: "depth \<le> 64" "skipWhitespace rest = c # cs"
    using assms by (cases "skipWhitespace rest") (auto split: if_splits)
  consider "c = openBrace" | "c = openBracket" | "c = quoteByte"
    | "c \<noteq> openBrace \<and> c \<noteq> openBracket \<and> c \<noteq> quoteByte" by blast
  then show thesis
  proof cases
    case 1
    with assms skip show thesis
      by (cases "skipWhitespace cs") (auto split: if_splits intro: object_empty object)
  next
    case 2
    with assms skip show thesis
      by (cases "skipWhitespace cs") (auto split: if_splits intro: array_empty array)
  next
    case 3
    with assms skip show thesis
      by (auto split: option.splits intro: string_value)
  next
    case 4
    with assms skip show thesis
      by (auto split: if_splits intro: atom)
  qed
qed

lemma scanMembers_AcceptE:
  assumes "scanMembers J (Suc n) depth members rest = Accept rest'"
  obtains m r1 r2 r3 where "consumeString J rest = Some (m, r1)" "m \<notin> set members"
    "skipWhitespace r1 = colonByte # r2" "scanJsonValue J n (depth + 1) r2 = Accept r3"
    "skipWhitespace r3 = closeBrace # rest' \<or>
     (\<exists>r4. skipWhitespace r3 = commaByte # r4
        \<and> scanMembers J n depth (m # members) (skipWhitespace r4) = Accept rest')"
proof -
  obtain m r1 where m: "consumeString J rest = Some (m, r1)" "m \<notin> set members"
    using assms by (auto split: option.splits if_splits)
  then obtain r2 where r2: "skipWhitespace r1 = colonByte # r2"
    using assms by (cases "skipWhitespace r1") (auto split: if_splits)
  with m obtain r3 where r3: "scanJsonValue J n (depth + 1) r2 = Accept r3"
    using assms by (cases "scanJsonValue J n (depth + 1) r2") auto
  show thesis
    by (rule that [OF m r2 r3], use assms m r2 r3 in \<open>cases "skipWhitespace r3"\<close>)
       (auto split: if_splits)
qed

lemma scanElements_AcceptE:
  assumes "scanElements J (Suc n) depth rest = Accept rest'"
  obtains r1 where "scanJsonValue J n (depth + 1) rest = Accept r1"
    "skipWhitespace r1 = closeBracket # rest' \<or>
     (\<exists>r2. skipWhitespace r1 = commaByte # r2
        \<and> scanElements J n depth (skipWhitespace r2) = Accept rest')"
proof -
  obtain r1 where r1: "scanJsonValue J n (depth + 1) rest = Accept r1"
    using assms by (cases "scanJsonValue J n (depth + 1) rest") (auto split: if_splits)
  show thesis
    by (rule that [OF r1], use assms r1 in \<open>cases "skipWhitespace r1"\<close>) (auto split: if_splits)
qed

section \<open>The reference grammar\<close>

fun stringBody :: "bytes \<Rightarrow> bool" where
  "stringBody [] = True"
| "stringBody (c # cs) =
     (if c = backslashByte then (case cs of [] \<Rightarrow> False | d # ds \<Rightarrow> stringBody ds)
      else c \<noteq> quoteByte \<and> \<not> c < 32 \<and> stringBody cs)"

definition stringToken :: "qtJson \<Rightarrow> qstring \<Rightarrow> bytes \<Rightarrow> bool" where
  "stringToken J v t \<longleftrightarrow> (\<exists>body. t = quoteByte # body @ [quoteByte] \<and> stringBody body
     \<and> fromJson J (openBracket # t @ [closeBracket]) = Some (JArray [JString v]))"

definition spaces :: "bytes \<Rightarrow> bool" where
  "spaces w \<longleftrightarrow> (\<forall>c \<in> set w. isJsonSpace c)"

definition atomText :: "bytes \<Rightarrow> bool" where
  "atomText t \<longleftrightarrow> t \<noteq> [] \<and> hd t \<notin> {openBrace, openBracket, quoteByte} \<and> (\<forall>c \<in> set t. \<not> endsAtom c)"

text \<open>The index is the nesting depth; \<open>jmembers\<close> lists the decoded member names in order.\<close>

inductive jvalue :: "qtJson \<Rightarrow> nat \<Rightarrow> bytes \<Rightarrow> bool"
  and jmembers :: "qtJson \<Rightarrow> nat \<Rightarrow> qstring list \<Rightarrow> bytes \<Rightarrow> bool"
  and jelements :: "qtJson \<Rightarrow> nat \<Rightarrow> bytes \<Rightarrow> bool"
  for J where
  j_string: "d \<le> 64 \<Longrightarrow> stringToken J v t \<Longrightarrow> jvalue J d t"
| j_atom: "d \<le> 64 \<Longrightarrow> atomText t \<Longrightarrow> jvalue J d t"
| j_empty_object: "d \<le> 64 \<Longrightarrow> spaces w \<Longrightarrow> jvalue J d (openBrace # w @ [closeBrace])"
| j_object: "d \<le> 64 \<Longrightarrow> spaces w \<Longrightarrow> jmembers J d names t \<Longrightarrow> distinct names \<Longrightarrow>
    jvalue J d (openBrace # w @ t @ [closeBrace])"
| j_empty_array: "d \<le> 64 \<Longrightarrow> spaces w \<Longrightarrow> jvalue J d (openBracket # w @ [closeBracket])"
| j_array: "d \<le> 64 \<Longrightarrow> spaces w \<Longrightarrow> jelements J d t \<Longrightarrow>
    jvalue J d (openBracket # w @ t @ [closeBracket])"
| j_member: "stringToken J v m \<Longrightarrow> spaces w1 \<Longrightarrow> spaces w2 \<Longrightarrow> jvalue J (d + 1) x \<Longrightarrow> spaces w3 \<Longrightarrow>
    jmembers J d [v] (m @ w1 @ colonByte # w2 @ x @ w3)"
| j_members: "stringToken J v m \<Longrightarrow> spaces w1 \<Longrightarrow> spaces w2 \<Longrightarrow> jvalue J (d + 1) x \<Longrightarrow> spaces w3 \<Longrightarrow>
    spaces w4 \<Longrightarrow> jmembers J d names t \<Longrightarrow>
    jmembers J d (v # names) (m @ w1 @ colonByte # w2 @ x @ w3 @ commaByte # w4 @ t)"
| j_element: "spaces w1 \<Longrightarrow> jvalue J (d + 1) x \<Longrightarrow> spaces w2 \<Longrightarrow> jelements J d (w1 @ x @ w2)"
| j_elements: "spaces w1 \<Longrightarrow> jvalue J (d + 1) x \<Longrightarrow> spaces w2 \<Longrightarrow> spaces w3 \<Longrightarrow> jelements J d t \<Longrightarrow>
    jelements J d (w1 @ x @ w2 @ commaByte # w3 @ t)"

section \<open>Soundness\<close>

lemma skipWhitespace_split:
  obtains w where "s = w @ skipWhitespace s" and "spaces w"
  by (rule that [of "takeWhile isJsonSpace s"])
     (auto simp: skipWhitespace_def spaces_def dest: set_takeWhileD)

lemma skipWhitespace_eqE:
  assumes "skipWhitespace s = r"
  obtains w where "s = w @ r" and "spaces w"
  using assms skipWhitespace_split [of s] by metis

lemma consumeStringLoop_sound:
  "consumeStringLoop J taken rest = Some (v, rest') \<Longrightarrow>
    \<exists>body. rest = body @ quoteByte # rest' \<and> stringBody body
      \<and> fromJson J (openBracket # taken @ body @ [quoteByte, closeBracket]) = Some (JArray [JString v])"
proof (induction J taken rest rule: consumeStringLoop.induct)
  case (2 J taken c rest)
  consider "c = quoteByte" | "c = backslashByte" | "c \<noteq> quoteByte" "c \<noteq> backslashByte" by blast
  then show ?case
  proof cases
    case 1
    with 2(3) show ?thesis
      by (intro exI [of _ "[]"])
         (auto split: option.splits json.splits list.splits)
  next
    case 2
    with \<open>consumeStringLoop J taken (c # rest) = Some (v, rest')\<close> obtain e rest2 where
      r: "rest = e # rest2" "consumeStringLoop J (taken @ [c, e]) rest2 = Some (v, rest')"
      by (auto split: list.splits)
    from "2.IH"(1) [OF _ _ r] 2 obtain body where "rest2 = body @ quoteByte # rest'"
      "stringBody body"
      "fromJson J (openBracket # (taken @ [c, e]) @ body @ [quoteByte, closeBracket])
         = Some (JArray [JString v])" by auto
    with r 2 show ?thesis by (intro exI [of _ "c # e # body"]) simp
  next
    case 3
    with \<open>consumeStringLoop J taken (c # rest) = Some (v, rest')\<close>
    have r: "\<not> c < 32" "consumeStringLoop J (taken @ [c]) rest = Some (v, rest')"
      by (auto split: if_splits)
    from "2.IH"(2) [OF _ _ r] 3 obtain body where "rest = body @ quoteByte # rest'"
      "stringBody body"
      "fromJson J (openBracket # (taken @ [c]) @ body @ [quoteByte, closeBracket])
         = Some (JArray [JString v])" by auto
    with r 3 show ?thesis by (intro exI [of _ "c # body"]) simp
  qed
qed simp

lemma consumeString_sound:
  assumes "consumeString J rest = Some (v, rest')"
  obtains t where "rest = t @ rest'" and "stringToken J v t"
proof -
  obtain cs where cs: "rest = quoteByte # cs" "consumeStringLoop J [quoteByte] cs = Some (v, rest')"
    by (rule consumeString_SomeE [OF assms])
  from consumeStringLoop_sound [OF cs(2)] obtain body where body:
    "cs = body @ quoteByte # rest'" "stringBody body"
    "fromJson J (openBracket # [quoteByte] @ body @ [quoteByte, closeBracket])
       = Some (JArray [JString v])" by blast
  show thesis
  proof (rule that)
    show "rest = (quoteByte # body @ [quoteByte]) @ rest'"
      using cs(1) body(1) by simp
    show "stringToken J v (quoteByte # body @ [quoteByte])"
      using body(2,3) by (auto simp: stringToken_def)
  qed
qed

text \<open>Soundness of each scanner at one amount of fuel, and the three steps to the next amount.\<close>

definition valueSound :: "qtJson \<Rightarrow> nat \<Rightarrow> bool" where
  "valueSound J n \<longleftrightarrow> (\<forall>d rest rest'. scanJsonValue J n d rest = Accept rest' \<longrightarrow>
     (\<exists>w t. rest = w @ t @ rest' \<and> spaces w \<and> jvalue J d t))"

definition membersSound :: "qtJson \<Rightarrow> nat \<Rightarrow> bool" where
  "membersSound J n \<longleftrightarrow> (\<forall>d members rest rest'. scanMembers J n d members rest = Accept rest' \<longrightarrow>
     (\<exists>names t. rest = t @ closeBrace # rest' \<and> jmembers J d names t \<and> distinct names
       \<and> set names \<inter> set members = {}))"

definition elementsSound :: "qtJson \<Rightarrow> nat \<Rightarrow> bool" where
  "elementsSound J n \<longleftrightarrow> (\<forall>d rest rest'. scanElements J n d rest = Accept rest' \<longrightarrow>
     (\<exists>t. rest = t @ closeBracket # rest' \<and> jelements J d t))"

lemma valueSoundD:
  "valueSound J n \<Longrightarrow> scanJsonValue J n d rest = Accept rest' \<Longrightarrow>
    \<exists>w t. rest = w @ t @ rest' \<and> spaces w \<and> jvalue J d t"
  by (simp add: valueSound_def)

lemma membersSoundD:
  "membersSound J n \<Longrightarrow> scanMembers J n d members rest = Accept rest' \<Longrightarrow>
    \<exists>names t. rest = t @ closeBrace # rest' \<and> jmembers J d names t \<and> distinct names
      \<and> set names \<inter> set members = {}"
  by (simp add: membersSound_def)

lemma elementsSoundD:
  "elementsSound J n \<Longrightarrow> scanElements J n d rest = Accept rest' \<Longrightarrow>
    \<exists>t. rest = t @ closeBracket # rest' \<and> jelements J d t"
  by (simp add: elementsSound_def)

lemma value_step:
  assumes IH: "membersSound J n" "elementsSound J n"
    and scan: "scanJsonValue J (Suc n) d rest = Accept rest'"
  shows "\<exists>w t. rest = w @ t @ rest' \<and> spaces w \<and> jvalue J d t"
proof -
  show ?thesis
  proof (rule skipWhitespace_split [of rest])
    fix w assume w: "rest = w @ skipWhitespace rest" "spaces w"
    have "\<exists>t. skipWhitespace rest = t @ rest' \<and> jvalue J d t"
      using scan
    proof (cases rule: scanJsonValue_AcceptE)
      case (object_empty cs)
      then obtain w' where "cs = w' @ closeBrace # rest'" "spaces w'"
        by (auto elim: skipWhitespace_eqE)
      with object_empty show ?thesis
        by (intro exI [of _ "openBrace # w' @ [closeBrace]"]) (simp add: j_empty_object)
    next
      case (object cs)
      obtain w' where "cs = w' @ skipWhitespace cs" "spaces w'"
        by (rule skipWhitespace_split)
      moreover from membersSoundD [OF IH(1) object(3)] obtain names t where
        "skipWhitespace cs = t @ closeBrace # rest'" "jmembers J d names t" "distinct names" by blast
      ultimately show ?thesis
        using object by (intro exI [of _ "openBrace # w' @ t @ [closeBrace]"])
          (simp add: j_object)
    next
      case (array_empty cs)
      then obtain w' where "cs = w' @ closeBracket # rest'" "spaces w'"
        by (auto elim: skipWhitespace_eqE)
      with array_empty show ?thesis
        by (intro exI [of _ "openBracket # w' @ [closeBracket]"]) (simp add: j_empty_array)
    next
      case (array cs)
      obtain w' where "cs = w' @ skipWhitespace cs" "spaces w'"
        by (rule skipWhitespace_split)
      moreover from elementsSoundD [OF IH(2) array(3)] obtain t where
        "skipWhitespace cs = t @ closeBracket # rest'" "jelements J d t" by blast
      ultimately show ?thesis
        using array by (intro exI [of _ "openBracket # w' @ t @ [closeBracket]"])
          (simp add: j_array)
    next
      case (string_value v)
      then show ?thesis
        by (metis consumeString_sound j_string)
    next
      case (atom c cs)
      then show ?thesis
        by (intro exI [of _ "c # takeWhile (\<lambda>c. \<not> endsAtom c) cs"])
           (auto intro!: j_atom simp: atomText_def dest: set_takeWhileD)
    qed
    with w show ?thesis by (metis append_assoc)
  qed
qed

lemma members_step:
  assumes IH: "valueSound J n" "membersSound J n"
    and scan: "scanMembers J (Suc n) d members rest = Accept rest'"
  shows "\<exists>names t. rest = t @ closeBrace # rest' \<and> jmembers J d names t \<and> distinct names
    \<and> set names \<inter> set members = {}"
proof -
  from scan obtain m r1 r2 r3 where r: "consumeString J rest = Some (m, r1)" "m \<notin> set members"
    "skipWhitespace r1 = colonByte # r2" "scanJsonValue J n (d + 1) r2 = Accept r3"
    and tail: "skipWhitespace r3 = closeBrace # rest' \<or>
      (\<exists>r4. skipWhitespace r3 = commaByte # r4
        \<and> scanMembers J n d (m # members) (skipWhitespace r4) = Accept rest')"
    by (rule scanMembers_AcceptE)
  obtain tm where tm: "rest = tm @ r1" "stringToken J m tm" using r(1) by (rule consumeString_sound)
  obtain w1 where w1: "r1 = w1 @ colonByte # r2" "spaces w1" using r(3) by (rule skipWhitespace_eqE)
  obtain w2 x where x: "r2 = w2 @ x @ r3" "spaces w2" "jvalue J (d + 1) x"
    using valueSoundD [OF IH(1) r(4)] by blast
  obtain w3 where w3: "r3 = w3 @ skipWhitespace r3" "spaces w3" by (rule skipWhitespace_split)
  from tail show ?thesis
  proof
    assume "skipWhitespace r3 = closeBrace # rest'"
    with r(2) tm w1 x w3 j_member [OF tm(2) w1(2) x(2,3) w3(2)] show ?thesis
      by (intro exI [of _ "[m]"] exI [of _ "tm @ w1 @ colonByte # w2 @ x @ w3"]) auto
  next
    assume "\<exists>r4. skipWhitespace r3 = commaByte # r4
        \<and> scanMembers J n d (m # members) (skipWhitespace r4) = Accept rest'"
    then obtain r4 where r4: "skipWhitespace r3 = commaByte # r4"
      "scanMembers J n d (m # members) (skipWhitespace r4) = Accept rest'" by blast
    obtain w4 where w4: "r4 = w4 @ skipWhitespace r4" "spaces w4" by (rule skipWhitespace_split)
    from membersSoundD [OF IH(2) r4(2)] obtain names t where t: "skipWhitespace r4 = t @ closeBrace # rest'"
      "jmembers J d names t" "distinct names" "set names \<inter> set (m # members) = {}" by blast
    have "rest = (tm @ w1 @ colonByte # w2 @ x @ w3 @ commaByte # w4 @ t) @ closeBrace # rest'"
      using tm(1) w1(1) x(1) w3(1) r4(1) w4(1) t(1)
      by (metis append.assoc append_Cons)
    moreover have "distinct (m # names)" "set (m # names) \<inter> set members = {}"
      using t(3,4) r(2) by auto
    ultimately show ?thesis
      using j_members [OF tm(2) w1(2) x(2,3) w3(2) w4(2) t(2)] by blast
  qed
qed

lemma elements_step:
  assumes IH: "valueSound J n" "elementsSound J n"
    and scan: "scanElements J (Suc n) d rest = Accept rest'"
  shows "\<exists>t. rest = t @ closeBracket # rest' \<and> jelements J d t"
proof -
  from scan obtain r1 where r1: "scanJsonValue J n (d + 1) rest = Accept r1" and
    tail: "skipWhitespace r1 = closeBracket # rest' \<or>
      (\<exists>r2. skipWhitespace r1 = commaByte # r2
        \<and> scanElements J n d (skipWhitespace r2) = Accept rest')"
    by (rule scanElements_AcceptE)
  obtain w1 x where x: "rest = w1 @ x @ r1" "spaces w1" "jvalue J (d + 1) x"
    using valueSoundD [OF IH(1) r1] by blast
  obtain w2 where w2: "r1 = w2 @ skipWhitespace r1" "spaces w2" by (rule skipWhitespace_split)
  from tail show ?thesis
  proof
    assume "skipWhitespace r1 = closeBracket # rest'"
    then have "rest = (w1 @ x @ w2) @ closeBracket # rest'"
      using x(1) w2(1) by (metis append.assoc)
    with j_element [OF x(2,3) w2(2)] show ?thesis by blast
  next
    assume "\<exists>r2. skipWhitespace r1 = commaByte # r2
        \<and> scanElements J n d (skipWhitespace r2) = Accept rest'"
    then obtain r2 where r2: "skipWhitespace r1 = commaByte # r2"
      "scanElements J n d (skipWhitespace r2) = Accept rest'" by blast
    obtain w3 where w3: "r2 = w3 @ skipWhitespace r2" "spaces w3" by (rule skipWhitespace_split)
    from elementsSoundD [OF IH(2) r2(2)] obtain t where t: "skipWhitespace r2 = t @ closeBracket # rest'"
      "jelements J d t" by blast
    have "rest = (w1 @ x @ w2 @ commaByte # w3 @ t) @ closeBracket # rest'"
      using x(1) w2(1) r2(1) w3(1) t(1) by (metis append.assoc append_Cons)
    with j_elements [OF x(2,3) w2(2) w3(2) t(2)] show ?thesis by blast
  qed
qed

lemma scan_sound: "valueSound J n \<and> membersSound J n \<and> elementsSound J n"
proof (induction n)
  case 0
  show ?case by (simp add: valueSound_def membersSound_def elementsSound_def)
next
  case (Suc n)
  then have "valueSound J (Suc n)" "membersSound J (Suc n)" "elementsSound J (Suc n)"
    using value_step members_step elements_step
    by (auto simp only: valueSound_def [of J "Suc n"] membersSound_def [of J "Suc n"]
        elementsSound_def [of J "Suc n"])
  then show ?case by simp
qed

lemmas scanJsonValue_sound = valueSoundD [OF scan_sound [THEN conjunct1]]
lemmas scanMembers_sound = membersSoundD [OF scan_sound [THEN conjunct2, THEN conjunct1]]
lemmas scanElements_sound = elementsSoundD [OF scan_sound [THEN conjunct2, THEN conjunct2]]

section \<open>Fuel\<close>

lemma skipWhitespace_length: "length (skipWhitespace s) \<le> length s"
  by (simp add: skipWhitespace_def length_dropWhile_le)

lemma skipWhitespace_Cons_length: "skipWhitespace s = c # cs \<Longrightarrow> length cs < length s"
  using skipWhitespace_length [of s] by simp

lemma consumeString_length: "consumeString J rest = Some (v, rest') \<Longrightarrow> length rest' < length rest"
  by (erule consumeString_sound) (auto simp: stringToken_def)

lemma scanJsonValue_length: "scanJsonValue J n d rest = Accept rest' \<Longrightarrow> length rest' \<le> length rest"
  by (drule scanJsonValue_sound) auto

lemma scanJsonValue_OutOfFuelD:
  assumes "scanJsonValue J (Suc n) d rest = OutOfFuel"
  shows "\<exists>cs. length cs < length rest
    \<and> (scanMembers J n d [] cs = OutOfFuel \<or> scanElements J n d cs = OutOfFuel)"
proof -
  obtain c cs where skip: "skipWhitespace rest = c # cs"
    using assms by (cases "skipWhitespace rest") (auto split: if_splits)
  moreover obtain e es where "skipWhitespace cs = e # es"
    using assms skip by (cases "skipWhitespace cs") (auto split: if_splits option.splits)
  moreover have "length (e # es) < length rest"
    using calculation skipWhitespace_Cons_length [OF skip] skipWhitespace_length [of cs] by simp
  ultimately show ?thesis
    using assms by (intro exI [of _ "e # es"]) (auto split: if_splits option.splits)
qed

lemma scanMembers_OutOfFuelD:
  assumes "scanMembers J (Suc n) d members rest = OutOfFuel"
  shows "\<exists>cs. length cs < length rest
    \<and> (scanJsonValue J n (d + 1) cs = OutOfFuel \<or> (\<exists>ms. scanMembers J n d ms cs = OutOfFuel))"
proof -
  obtain m r1 where m: "consumeString J rest = Some (m, r1)"
    using assms by (cases "consumeString J rest") auto
  then obtain r2 where r2: "skipWhitespace r1 = colonByte # r2"
    using assms by (cases "skipWhitespace r1") (auto split: if_splits)
  have l2: "length r2 < length rest"
    using consumeString_length [OF m] skipWhitespace_Cons_length [OF r2] by simp
  show ?thesis
  proof (cases "scanJsonValue J n (d + 1) r2")
    case (Accept r3)
    with assms m r2 obtain r4 where r4: "skipWhitespace r3 = commaByte # r4"
      "scanMembers J n d (m # members) (skipWhitespace r4) = OutOfFuel"
      by (cases "skipWhitespace r3") (auto split: if_splits)
    have "length (skipWhitespace r4) < length rest"
      using l2 scanJsonValue_length [OF Accept] skipWhitespace_Cons_length [OF r4(1)]
        skipWhitespace_length [of r4] by simp
    with r4(2) show ?thesis by blast
  next
    case OutOfFuel
    with l2 show ?thesis by blast
  next
    case Reject
    with assms m r2 show ?thesis by (auto split: if_splits)
  qed
qed

lemma scanElements_OutOfFuelD:
  assumes "scanElements J (Suc n) d rest = OutOfFuel"
  shows "scanJsonValue J n (d + 1) rest = OutOfFuel
    \<or> (\<exists>cs. length cs < length rest \<and> scanElements J n d cs = OutOfFuel)"
proof (cases "scanJsonValue J n (d + 1) rest")
  case (Accept r1)
  with assms obtain r2 where r2: "skipWhitespace r1 = commaByte # r2"
    "scanElements J n d (skipWhitespace r2) = OutOfFuel"
    by (cases "skipWhitespace r1") (auto split: if_splits)
  have "length (skipWhitespace r2) < length rest"
    using scanJsonValue_length [OF Accept] skipWhitespace_Cons_length [OF r2(1)]
      skipWhitespace_length [of r2] by simp
  with r2(2) show ?thesis by blast
qed (use assms in \<open>auto split: if_splits\<close>)

lemma scan_enough_fuel:
  "(2 * length rest < n \<longrightarrow> scanJsonValue J n d rest \<noteq> OutOfFuel)
   \<and> (2 * length rest < n \<longrightarrow> scanMembers J n d members rest \<noteq> OutOfFuel)
   \<and> (2 * length rest + 1 < n \<longrightarrow> scanElements J n d rest \<noteq> OutOfFuel)"
proof (induction n arbitrary: d members rest)
  case (Suc n)
  show ?case
  proof (intro conjI impI notI)
    assume "2 * length rest < Suc n" "scanJsonValue J (Suc n) d rest = OutOfFuel"
    with Suc.IH show False
      by (fastforce dest: scanJsonValue_OutOfFuelD)
  next
    assume "2 * length rest < Suc n" "scanMembers J (Suc n) d members rest = OutOfFuel"
    with Suc.IH show False
      by (fastforce dest: scanMembers_OutOfFuelD)
  next
    assume "2 * length rest + 1 < Suc n" "scanElements J (Suc n) d rest = OutOfFuel"
    with Suc.IH show False
      by (fastforce dest: scanElements_OutOfFuelD)
  qed
qed simp

lemma scanFuel_enough: "scanJsonValue J (scanFuel json) d json \<noteq> OutOfFuel"
  using scan_enough_fuel [of json "scanFuel json" J d] by (simp add: scanFuel_def)

text \<open>More fuel gives the same result.\<close>

definition moreFuel :: "qtJson \<Rightarrow> nat \<Rightarrow> nat \<Rightarrow> bool" where
  "moreFuel J m n \<longleftrightarrow>
     (\<forall>d rest. scanJsonValue J m d rest \<noteq> OutOfFuel \<longrightarrow>
        scanJsonValue J n d rest = scanJsonValue J m d rest)
   \<and> (\<forall>d ms rest. scanMembers J m d ms rest \<noteq> OutOfFuel \<longrightarrow>
        scanMembers J n d ms rest = scanMembers J m d ms rest)
   \<and> (\<forall>d rest. scanElements J m d rest \<noteq> OutOfFuel \<longrightarrow>
        scanElements J n d rest = scanElements J m d rest)"

lemma moreFuel_value:
  assumes "moreFuel J m n" and "scanJsonValue J (Suc m) d rest \<noteq> OutOfFuel"
  shows "scanJsonValue J (Suc n) d rest = scanJsonValue J (Suc m) d rest"
  using assms by (auto simp: moreFuel_def split: list.splits if_splits)

lemma moreFuel_members:
  assumes "moreFuel J m n" and "scanMembers J (Suc m) d ms rest \<noteq> OutOfFuel"
  shows "scanMembers J (Suc n) d ms rest = scanMembers J (Suc m) d ms rest"
  using assms by (auto simp: moreFuel_def split: list.splits if_splits option.splits scan.splits)

lemma moreFuel_elements:
  assumes "moreFuel J m n" and "scanElements J (Suc m) d rest \<noteq> OutOfFuel"
  shows "scanElements J (Suc n) d rest = scanElements J (Suc m) d rest"
  using assms by (auto simp: moreFuel_def split: list.splits if_splits scan.splits)

lemma moreFuel_step: "moreFuel J m n \<Longrightarrow> moreFuel J (Suc m) (Suc n)"
  by (subst moreFuel_def) (blast intro: moreFuel_value moreFuel_members moreFuel_elements)

lemma moreFuel_le: "m \<le> n \<Longrightarrow> moreFuel J m n"
proof (induction m arbitrary: n)
  case 0
  show ?case by (simp add: moreFuel_def)
next
  case (Suc m)
  then show ?case by (cases n) (auto intro: moreFuel_step)
qed

lemma scanJsonValue_mono:
  "scanJsonValue J m d rest = Accept r \<Longrightarrow> m \<le> n \<Longrightarrow> scanJsonValue J n d rest = Accept r"
  using moreFuel_le [of m n J] by (simp add: moreFuel_def)

lemma scanMembers_mono:
  "scanMembers J m d ms rest = Accept r \<Longrightarrow> m \<le> n \<Longrightarrow> scanMembers J n d ms rest = Accept r"
  using moreFuel_le [of m n J] by (simp add: moreFuel_def)

lemma scanElements_mono:
  "scanElements J m d rest = Accept r \<Longrightarrow> m \<le> n \<Longrightarrow> scanElements J n d rest = Accept r"
  using moreFuel_le [of m n J] by (simp add: moreFuel_def)

section \<open>Completeness\<close>

lemma spaces_Nil [simp]: "spaces []"
  by (simp add: spaces_def)

lemma skipWhitespace_spaces [simp]: "spaces w \<Longrightarrow> skipWhitespace (w @ s) = skipWhitespace s"
  by (simp add: skipWhitespace_def spaces_def)

lemma skipWhitespace_Cons [simp]: "\<not> isJsonSpace c \<Longrightarrow> skipWhitespace (c # s) = c # s"
  by (simp add: skipWhitespace_def)

lemma punctuation_not_space [simp]:
  "\<not> isJsonSpace quoteByte" "\<not> isJsonSpace openBrace" "\<not> isJsonSpace closeBrace"
  "\<not> isJsonSpace openBracket" "\<not> isJsonSpace closeBracket" "\<not> isJsonSpace commaByte"
  "\<not> isJsonSpace colonByte"
  by (simp_all add: isJsonSpace_def)

lemma consumeStringLoop_complete:
  "stringBody body \<Longrightarrow>
    fromJson J (openBracket # taken @ body @ [quoteByte, closeBracket]) = Some (JArray [JString v]) \<Longrightarrow>
    consumeStringLoop J taken (body @ quoteByte # r) = Some (v, r)"
proof (induction body arbitrary: taken rule: stringBody.induct)
  case (2 c cs)
  show ?case
  proof (cases "c = backslashByte")
    case True
    with "2.prems" obtain e ds where e: "cs = e # ds" "stringBody ds"
      by (auto split: list.splits)
    with "2.IH"(1) [OF True e(1,2), of "taken @ [c, e]"] "2.prems" True show ?thesis by simp
  next
    case False
    with "2.IH"(2) [OF False, of "taken @ [c]"] "2.prems" show ?thesis by simp
  qed
qed simp

lemma consumeString_complete: "stringToken J v t \<Longrightarrow> consumeString J (t @ r) = Some (v, r)"
  using consumeStringLoop_complete [of _ J "[quoteByte]" v r]
  by (auto simp: stringToken_def consumeString_def)

lemma stringToken_Cons: "stringToken J v t \<Longrightarrow> \<exists>s. t = quoteByte # s"
  by (auto simp: stringToken_def)

lemma jvalue_start:
  assumes "jvalue J d t"
  shows "\<exists>c s. t = c # s \<and> \<not> isJsonSpace c \<and> c \<noteq> closeBracket"
  using assms
proof (cases rule: jvalue.cases)
  case j_atom
  then show ?thesis
    by (cases t) (auto simp: atomText_def endsAtom_def)
qed (auto dest: stringToken_Cons)

definition followable :: "bytes \<Rightarrow> bool" where
  "followable r \<longleftrightarrow> r = [] \<or> endsAtom (hd r)"

lemma followable_intros [simp]:
  "followable (closeBrace # r)" "followable (closeBracket # r)" "followable (commaByte # r)"
  by (simp_all add: followable_def endsAtom_def)

lemma followable_spaces [simp]: "spaces w \<Longrightarrow> followable r \<Longrightarrow> followable (w @ r)"
  by (cases w) (auto simp: followable_def spaces_def endsAtom_def)

lemma dropWhile_atom:
  "\<forall>c \<in> set t. \<not> endsAtom c \<Longrightarrow> followable r \<Longrightarrow> dropWhile (\<lambda>c. \<not> endsAtom c) (t @ r) = r"
  by (cases r) (auto simp: followable_def)

lemma scan_string:
  "d \<le> 64 \<Longrightarrow> stringToken J v t \<Longrightarrow> spaces w \<Longrightarrow> scanJsonValue J (Suc n) d (w @ t @ r) = Accept r"
  using consumeString_complete [of J v t r] by (auto dest: stringToken_Cons)

lemma scan_atom:
  assumes "d \<le> 64" "atomText t" "spaces w" "followable r"
  shows "scanJsonValue J (Suc n) d (w @ t @ r) = Accept r"
proof -
  obtain c s where "t = c # s" using assms(2) by (cases t) (auto simp: atomText_def)
  then show ?thesis
    using assms dropWhile_atom [of s r] by (auto simp: atomText_def endsAtom_def)
qed

lemma scan_member:
  assumes "stringToken J v m" "v \<notin> set ms" "spaces w1" "spaces w3" "w3 @ r = r'"
    and "scanJsonValue J n (d + 1) (w2 @ x @ r') = Accept r'"
  shows "scanMembers J (Suc n) d ms (m @ w1 @ colonByte # w2 @ x @ r') =
    (case skipWhitespace r of [] \<Rightarrow> Reject
     | c # cs \<Rightarrow> if c = closeBrace then Accept cs
       else if c \<noteq> commaByte then Reject
       else scanMembers J n d (v # ms) (skipWhitespace cs))"
  using assms consumeString_complete [OF assms(1)] by auto

lemma scan_complete:
  "jvalue J d t \<Longrightarrow> spaces w \<Longrightarrow> followable r \<Longrightarrow> \<exists>n. scanJsonValue J n d (w @ t @ r) = Accept r"
  "jmembers J d names t \<Longrightarrow> distinct names \<Longrightarrow> set names \<inter> set ms = {} \<Longrightarrow>
     \<exists>n. scanMembers J n d ms (t @ closeBrace # r) = Accept r"
  "jelements J d t \<Longrightarrow> \<exists>n. scanElements J n d (skipWhitespace (t @ closeBracket # r)) = Accept r"
proof (induction arbitrary: w r and ms r and r rule: jvalue_jmembers_jelements.inducts)
  case (j_string d v t)
  then show ?case using scan_string by metis
next
  case (j_atom d t)
  then show ?case using scan_atom by metis
next
  case (j_empty_object d w')
  then have "scanJsonValue J (Suc 0) d (w @ (openBrace # w' @ [closeBrace]) @ r) = Accept r" by simp
  then show ?case by blast
next
  case (j_object d w' names t)
  obtain n where n: "scanMembers J n d [] (t @ closeBrace # r) = Accept r"
    using j_object.IH(2) [of "[]" r] j_object.hyps by auto
  have "\<exists>s. t = quoteByte # s"
    using j_object.IH(1) by (cases rule: jmembers.cases) (auto dest!: stringToken_Cons)
  with n j_object have "scanJsonValue J (Suc n) d (w @ (openBrace # w' @ t @ [closeBrace]) @ r) = Accept r"
    by auto
  then show ?case by blast
next
  case (j_empty_array d w')
  then have "scanJsonValue J (Suc 0) d (w @ (openBracket # w' @ [closeBracket]) @ r) = Accept r" by simp
  then show ?case by blast
next
  case (j_array d w' t)
  obtain n where n: "scanElements J n d (skipWhitespace (t @ closeBracket # r)) = Accept r"
    using j_array by auto
  have "\<exists>c s. skipWhitespace (t @ closeBracket # r) = c # s \<and> c \<noteq> closeBracket"
    using j_array.IH(1) by (cases rule: jelements.cases) (auto dest!: jvalue_start)
  with n j_array have "scanJsonValue J (Suc n) d (w @ (openBracket # w' @ t @ [closeBracket]) @ r) = Accept r"
    by auto
  then show ?case by blast
next
  case (j_member v m w1 w2 d x w3)
  have inner: "spaces w \<Longrightarrow> followable r \<Longrightarrow> \<exists>n. scanJsonValue J n (d + 1) (w @ x @ r) = Accept r" for w r
    using j_member by blast
  obtain n where "scanJsonValue J n (d + 1) (w2 @ x @ w3 @ closeBrace # r) = Accept (w3 @ closeBrace # r)"
    using inner j_member followable_spaces followable_intros(1) by meson
  with j_member scan_member [of J v m ms w1 w3 "closeBrace # r" _ n d w2 x] show ?case
    by (intro exI [of _ "Suc n"]) simp
next
  case (j_members v m w1 w2 d x w3 w4 names t)
  have inner: "spaces w \<Longrightarrow> followable r \<Longrightarrow> \<exists>n. scanJsonValue J n (d + 1) (w @ x @ r) = Accept r" for w r
    using j_members by blast
  have members: "jmembers J d names t" using j_members by blast
  let ?r = "w3 @ commaByte # w4 @ t @ closeBrace # r"
  obtain n where n: "scanJsonValue J n (d + 1) (w2 @ x @ ?r) = Accept ?r"
    using inner j_members followable_spaces followable_intros(3) by meson
  obtain k where k: "scanMembers J k d (v # ms) (t @ closeBrace # r) = Accept r"
    using j_members by (metis Int_insert_right distinct.simps(2) inf_commute insert_disjoint(1) list.simps(15))
  have "\<exists>s. t = quoteByte # s"
    using members by (cases rule: jmembers.cases) (auto dest!: stringToken_Cons)
  then show ?case
    using j_members scan_member [of J v m ms w1 w3 "commaByte # w4 @ t @ closeBrace # r" _ "max n k" d w2 x]
      scanJsonValue_mono [OF n, of "max n k"] scanMembers_mono [OF k, of "max n k"]
    by (intro exI [of _ "Suc (max n k)"]) auto
next
  case (j_element w1 d x w2)
  have inner: "spaces w \<Longrightarrow> followable r \<Longrightarrow> \<exists>n. scanJsonValue J n (d + 1) (w @ x @ r) = Accept r" for w r
    using j_element by blast
  obtain n where "scanJsonValue J n (d + 1) (x @ w2 @ closeBracket # r) = Accept (w2 @ closeBracket # r)"
    using inner [of "[]"] j_element followable_spaces followable_intros(2) spaces_Nil by (metis append_Nil)
  with j_element jvalue_start [of J "d + 1" x] show ?case
    by (intro exI [of _ "Suc n"]) auto
next
  case (j_elements w1 d x w2 w3 t)
  have inner: "spaces w \<Longrightarrow> followable r \<Longrightarrow> \<exists>n. scanJsonValue J n (d + 1) (w @ x @ r) = Accept r" for w r
    using j_elements by blast
  let ?r = "w2 @ commaByte # w3 @ t @ closeBracket # r"
  obtain n where n: "scanJsonValue J n (d + 1) (x @ ?r) = Accept ?r"
    using inner [of "[]"] j_elements followable_spaces followable_intros(3) spaces_Nil by (metis append_Nil)
  obtain k where k: "scanElements J k d (skipWhitespace (t @ closeBracket # r)) = Accept r"
    using j_elements by meson
  from j_elements jvalue_start [of J "d + 1" x] show ?case
    using scanJsonValue_mono [OF n, of "max n k"] scanElements_mono [OF k, of "max n k"]
    by (intro exI [of _ "Suc (max n k)"]) auto
qed

lemma uniqueMembers_grammar:
  "hasUniqueJsonMembers J json \<longleftrightarrow>
    (\<exists>w1 t w2. json = w1 @ t @ w2 \<and> spaces w1 \<and> spaces w2 \<and> jvalue J 0 t)"
proof
  assume "hasUniqueJsonMembers J json"
  then obtain rest where rest: "scanJsonValue J (scanFuel json) 0 json = Accept rest"
    "skipWhitespace rest = []"
    by (auto simp: hasUniqueJsonMembers_def split: scan.splits)
  from scanJsonValue_sound [OF rest(1)] skipWhitespace_eqE [OF rest(2)]
  show "\<exists>w1 t w2. json = w1 @ t @ w2 \<and> spaces w1 \<and> spaces w2 \<and> jvalue J 0 t"
    by (metis append_Nil2)
next
  assume "\<exists>w1 t w2. json = w1 @ t @ w2 \<and> spaces w1 \<and> spaces w2 \<and> jvalue J 0 t"
  then obtain w1 t w2 where t: "json = w1 @ t @ w2" "spaces w1" "spaces w2" "jvalue J 0 t" by blast
  have "followable w2" using followable_spaces [OF t(3), of "[]"] by (simp add: followable_def)
  then obtain n where n: "scanJsonValue J n 0 json = Accept w2"
    using scan_complete(1) [OF t(4,2)] t(1) by blast
  have "scanJsonValue J (scanFuel json) 0 json = Accept w2"
    using n scanFuel_enough [of J json 0] moreFuel_le [of n "scanFuel json" J]
      moreFuel_le [of "scanFuel json" n J] unfolding moreFuel_def
    by (metis nle_le scan.distinct(3))
  then show "hasUniqueJsonMembers J json"
    using skipWhitespace_spaces [OF t(3), of "[]"]
    by (simp add: hasUniqueJsonMembers_def) (simp add: skipWhitespace_def)
qed

section \<open>Compact text\<close>

text \<open>Objects and arrays printed without white space from plain strings are accepted.\<close>

definition plainText :: "bytes \<Rightarrow> bool" where
  "plainText b \<longleftrightarrow> (\<forall>c \<in> set b. 32 \<le> c \<and> c < 127 \<and> c \<noteq> quoteByte \<and> c \<noteq> backslashByte)"

definition readsPlainStrings :: "qtJson \<Rightarrow> bool" where
  "readsPlainStrings J \<longleftrightarrow> (\<forall>b. plainText b \<longrightarrow>
     fromJson J (openBracket # quoteByte # b @ [quoteByte, closeBracket])
       = Some (JArray [JString (fromLatin1 b)]))"

definition quoted :: "bytes \<Rightarrow> bytes" where
  "quoted b = quoteByte # b @ [quoteByte]"

definition printedObject :: "(bytes \<times> bytes) list \<Rightarrow> bytes" where
  "printedObject ps =
     openBrace # joinWith commaByte (map (\<lambda>(n, v). quoted n @ colonByte # v) ps) @ [closeBrace]"

definition printedArray :: "bytes list \<Rightarrow> bytes" where
  "printedArray vs = openBracket # joinWith commaByte vs @ [closeBracket]"

lemma plainText_stringBody: "plainText b \<Longrightarrow> stringBody b"
  by (induction b rule: stringBody.induct) (auto simp: plainText_def not_less)

lemma quoted_stringToken:
  "readsPlainStrings J \<Longrightarrow> plainText b \<Longrightarrow> stringToken J (fromLatin1 b) (quoted b)"
  by (auto simp: stringToken_def quoted_def readsPlainStrings_def plainText_stringBody)

lemma jvalue_quoted: "readsPlainStrings J \<Longrightarrow> plainText b \<Longrightarrow> d \<le> 64 \<Longrightarrow> jvalue J d (quoted b)"
  by (rule j_string [OF _ quoted_stringToken])

lemma jmembers_printed:
  assumes "readsPlainStrings J" "ps \<noteq> []"
    and "\<forall>(n, v) \<in> set ps. plainText n \<and> jvalue J (d + 1) v"
  shows "jmembers J d (map (\<lambda>x. fromLatin1 (fst x)) ps)
    (joinWith commaByte (map (\<lambda>(n, v). quoted n @ colonByte # v) ps))"
  using assms(2,3)
proof (induction ps rule: induct_list012)
  case (2 p)
  then show ?case
    using j_member [OF quoted_stringToken [OF assms(1)], of "fst p" "[]" "[]" d "snd p" "[]"]
    by (cases p) simp
next
  case (3 p p' ps)
  then show ?case
    using j_members [OF quoted_stringToken [OF assms(1)], of "fst p" "[]" "[]" d "snd p" "[]" "[]"
        "map (\<lambda>x. fromLatin1 (fst x)) (p' # ps)"
        "joinWith commaByte (map (\<lambda>(n, v). quoted n @ colonByte # v) (p' # ps))"]
    by (cases p) simp
qed simp

lemma jvalue_printedObject:
  assumes "readsPlainStrings J" "d \<le> 64" "ps \<noteq> []" "distinct (map fst ps)"
    and "\<forall>(n, v) \<in> set ps. plainText n \<and> jvalue J (d + 1) v"
  shows "jvalue J d (printedObject ps)"
proof -
  have "inj_on fromLatin1 (set (map fst ps))" by (simp add: inj_on_def)
  with assms(4) have "distinct (map (\<lambda>x. fromLatin1 (fst x)) ps)"
    by (simp add: distinct_map comp_inj_on [unfolded comp_def] inj_on_def)
  then show ?thesis
    using j_object [OF assms(2) spaces_Nil jmembers_printed [OF assms(1,3,5)]]
    by (simp add: printedObject_def)
qed

lemma jelements_printed:
  "vs \<noteq> [] \<Longrightarrow> \<forall>v \<in> set vs. jvalue J (d + 1) v \<Longrightarrow> jelements J d (joinWith commaByte vs)"
proof (induction vs rule: induct_list012)
  case (2 v)
  then show ?case using j_element [of "[]" J d v "[]"] by simp
next
  case (3 v v' vs)
  then show ?case
    using j_elements [of "[]" J d v "[]" "[]" "joinWith commaByte (v' # vs)"] by simp
qed simp

lemma jvalue_printedArray:
  "d \<le> 64 \<Longrightarrow> vs \<noteq> [] \<Longrightarrow> \<forall>v \<in> set vs. jvalue J (d + 1) v \<Longrightarrow> jvalue J d (printedArray vs)"
  using j_array [OF _ spaces_Nil jelements_printed] by (simp add: printedArray_def)

lemma hasUniqueJsonMembers_value: "jvalue J 0 t \<Longrightarrow> hasUniqueJsonMembers J t"
  unfolding uniqueMembers_grammar by (metis append_Nil append_Nil2 spaces_Nil)

section \<open>Property\<close>

text \<open>
  C21. The scanner accepts a text exactly when it is white space around a value of the reference
  grammar: nesting at most 64 deep, and no object with the same decoded member name twice.
\<close>

theorem hasUniqueJsonMembers_iff:
  "hasUniqueJsonMembers J json \<longleftrightarrow>
    (\<exists>w1 t w2. json = w1 @ t @ w2 \<and> spaces w1 \<and> spaces w2 \<and> jvalue J 0 t)"
  by (rule uniqueMembers_grammar)

end
