(* ===== verification/Url.thy ===== *)
theory Url
  imports Prelude
begin

text \<open>
  \<open>QUrl\<close> and \<open>QHostAddress\<close> are Qt's, so the record \<open>qurl\<close> holds the operations the client calls
  and is a parameter. \<open>url_contract\<close> states what is documented of them: a URL has parts, the
  setters replace one part, \<open>adjusted\<close> drops query and fragment and normalises the path, and
  validity and text depend on the parts alone. \<open>partsUrl\<close> is a concrete instance.
\<close>

record 'u qurl =
  urlIsValid :: "'u \<Rightarrow> bool"
  urlIsRelative :: "'u \<Rightarrow> bool"
  urlScheme :: "'u \<Rightarrow> qstring"
  urlUserName :: "'u \<Rightarrow> qstring"
  urlPassword :: "'u \<Rightarrow> qstring"
  urlUserInfo :: "'u \<Rightarrow> qstring"
  urlHost :: "'u \<Rightarrow> qstring"
  urlPort :: "'u \<Rightarrow> int"
  urlAdjusted :: "'u \<Rightarrow> 'u"
  urlSetScheme :: "qstring \<Rightarrow> 'u \<Rightarrow> 'u"
  urlSetHost :: "qstring \<Rightarrow> 'u \<Rightarrow> 'u"
  urlSetPort :: "int \<Rightarrow> 'u \<Rightarrow> 'u"
  urlToEncoded :: "'u \<Rightarrow> qstring"
  urlResolved :: "'u \<Rightarrow> qstring \<Rightarrow> 'u"
  hostIsLoopback :: "qstring \<Rightarrow> bool"

record url_parts =
  upScheme :: qstring
  upUserName :: qstring
  upPassword :: qstring
  upHost :: qstring
  upPort :: int
  upPath :: qstring
  upQuery :: qstring
  upFragment :: qstring

locale url_contract =
  fixes U :: "'u qurl"
    and parts :: "'u \<Rightarrow> url_parts"
    and partsValid :: "url_parts \<Rightarrow> bool"
    and partsText :: "url_parts \<Rightarrow> qstring"
    and normalPath :: "qstring \<Rightarrow> qstring"
  assumes valid_parts: "urlIsValid U u = partsValid (parts u)"
    and text_parts: "urlToEncoded U u = partsText (parts u)"
    and relative_parts: "urlIsRelative U u \<longleftrightarrow> upScheme (parts u) = []"
    and scheme_parts: "urlScheme U u = upScheme (parts u)"
    and user_parts: "urlUserName U u = upUserName (parts u)"
    and password_parts: "urlPassword U u = upPassword (parts u)"
    and host_parts: "urlHost U u = upHost (parts u)"
    and port_parts: "urlPort U u = upPort (parts u)"
    and adjusted_parts: "parts (urlAdjusted U u) =
      (parts u)\<lparr>upPath := normalPath (upPath (parts u)), upQuery := [], upFragment := []\<rparr>"
    and set_scheme_parts: "parts (urlSetScheme U s u) = (parts u)\<lparr>upScheme := s\<rparr>"
    and set_host_parts: "parts (urlSetHost U h u) = (parts u)\<lparr>upHost := h\<rparr>"
    and set_port_parts: "parts (urlSetPort U p u) = (parts u)\<lparr>upPort := p\<rparr>"

text \<open>URLs as their parts, written as scheme, host, port and path.\<close>

definition partsUrl :: "url_parts qurl" where
  "partsUrl = \<lparr>
     urlIsValid = (\<lambda>u. upHost u \<noteq> []), urlIsRelative = (\<lambda>u. upScheme u = []),
     urlScheme = upScheme, urlUserName = upUserName, urlPassword = upPassword,
     urlUserInfo = (\<lambda>u. upUserName u @ upPassword u), urlHost = upHost, urlPort = upPort,
     urlAdjusted = (\<lambda>u. u\<lparr>upQuery := [], upFragment := []\<rparr>),
     urlSetScheme = (\<lambda>s u. u\<lparr>upScheme := s\<rparr>), urlSetHost = (\<lambda>h u. u\<lparr>upHost := h\<rparr>),
     urlSetPort = (\<lambda>p u. u\<lparr>upPort := p\<rparr>),
     urlToEncoded = (\<lambda>u. upScheme u @ lit ''://'' @ upHost u
       @ (if upPort u < 0 then [] else [word_of_int (upPort u)]) @ upPath u),
     urlResolved = (\<lambda>u path. u\<lparr>upPath := path\<rparr>),
     hostIsLoopback = (\<lambda>h. h = lit ''127.0.0.1'')\<rparr>"

lemma partsUrl_simps:
  "urlIsValid partsUrl u = (upHost u \<noteq> [])" "urlIsRelative partsUrl u = (upScheme u = [])"
  "urlScheme partsUrl = upScheme" "urlUserName partsUrl = upUserName"
  "urlPassword partsUrl = upPassword" "urlUserInfo partsUrl u = upUserName u @ upPassword u"
  "urlHost partsUrl = upHost" "urlPort partsUrl = upPort"
  "urlResolved partsUrl u path = u\<lparr>upPath := path\<rparr>"
  "hostIsLoopback partsUrl h = (h = lit ''127.0.0.1'')"
  by (simp_all add: partsUrl_def)

interpretation urlParts: url_contract partsUrl "\<lambda>u. u" "\<lambda>u. upHost u \<noteq> []"
  "\<lambda>u. upScheme u @ lit ''://'' @ upHost u
     @ (if upPort u < 0 then [] else [word_of_int (upPort u)]) @ upPath u" "\<lambda>path. path"
  by unfold_locales (simp_all add: partsUrl_def)

end
