(* ===== verification/SmbiosParser.thy ===== *)
theory SmbiosParser
  imports Prelude
begin

text \<open>
  The SMBIOS table parser of \<open>shared/hardware/SmbiosParser.cpp\<close> and the header check of
  \<open>SmbiosReader.cpp\<close>. Offsets are natural numbers and every read goes through \<open>readByte\<close> or
  \<open>sliced\<close>, whose result is \<open>None\<close> outside the table: a model that returns a value has
  therefore shown that no read left the buffer.
\<close>

section \<open>Data\<close>

record SmbiosInfo =
  systemUuid :: qstring
  smbiosMotherboardSerial :: qstring
  smbiosBiosSerial :: qstring

definition emptySmbiosInfo :: SmbiosInfo where
  "emptySmbiosInfo = \<lparr>systemUuid = [], smbiosMotherboardSerial = [], smbiosBiosSerial = []\<rparr>"

definition readByte :: "bytes \<Rightarrow> nat \<Rightarrow> byte option" where
  "readByte table offset = (if offset < length table then Some (table ! offset) else None)"

definition sliced :: "bytes \<Rightarrow> nat \<Rightarrow> nat \<Rightarrow> bytes option" where
  "sliced table start len =
     (if start + len \<le> length table then Some (take len (drop start table)) else None)"

section \<open>The string set of a structure\<close>

text \<open>
  \<open>findStringSetEnd\<close>: the first offset from \<open>start\<close> with two zero bytes. The inner option
  is the result of the source, the outer one is the out-of-range read.
\<close>

function findStringSetEnd :: "bytes \<Rightarrow> nat \<Rightarrow> nat option option" where
  "findStringSetEnd table offset =
     (if offset + 1 < length table then
        (case readByte table offset of None \<Rightarrow> None | Some a \<Rightarrow>
         if a = 0 then
           (case readByte table (offset + 1) of None \<Rightarrow> None | Some b \<Rightarrow>
            if b = 0 then Some (Some offset) else findStringSetEnd table (offset + 1))
         else findStringSetEnd table (offset + 1))
      else Some None)"
  by pat_completeness auto
termination by (relation "measure (\<lambda>(table, offset). length table - offset)") auto

text \<open>The inner loop of \<open>smbiosString\<close>: the next zero byte, at most one past \<open>stringsEnd\<close>.\<close>

function stringEndFrom :: "bytes \<Rightarrow> nat \<Rightarrow> nat \<Rightarrow> nat option" where
  "stringEndFrom table stringsEnd stringEnd =
     (if stringEnd \<le> stringsEnd then
        (case readByte table stringEnd of None \<Rightarrow> None | Some c \<Rightarrow>
         if c \<noteq> 0 then stringEndFrom table stringsEnd (stringEnd + 1) else Some stringEnd)
      else Some stringEnd)"
  by pat_completeness auto
termination by (relation "measure (\<lambda>(table, stringsEnd, i). Suc stringsEnd - i)") auto

declare findStringSetEnd.simps [simp del] stringEndFrom.simps [simp del]

lemma findStringSetEnd_ge: "findStringSetEnd table i = Some (Some e) \<Longrightarrow> i \<le> e"
proof (induction table i rule: findStringSetEnd.induct)
  case (1 table i)
  show ?case
    using "1.prems" "1.IH" by (subst (asm) findStringSetEnd.simps) (fastforce split: if_splits option.splits)
qed

lemma stringEndFrom_ge: "stringEndFrom table e i = Some j \<Longrightarrow> i \<le> j"
proof (induction table e i rule: stringEndFrom.induct)
  case (1 table e i)
  show ?case
    using "1.prems" "1.IH" by (subst (asm) stringEndFrom.simps) (fastforce split: if_splits option.splits)
qed

text \<open>The outer loop; \<open>currentIndex\<close> is a \<open>quint8\<close> and wraps.\<close>

function smbiosStringLoop ::
    "qt \<Rightarrow> bytes \<Rightarrow> nat \<Rightarrow> byte \<Rightarrow> byte \<Rightarrow> nat \<Rightarrow> qstring option" where
  "smbiosStringLoop q table stringsEnd wantedIndex currentIndex stringStart =
     (if stringStart \<le> stringsEnd then
        (case stringEndFrom table stringsEnd stringStart of None \<Rightarrow> None | Some stringEnd \<Rightarrow>
         if currentIndex = wantedIndex then
           map_option (\<lambda>text. qtTrimmed q (fromLatin1 text))
             (sliced table stringStart (stringEnd - stringStart))
         else if stringEnd = stringsEnd then Some []
         else smbiosStringLoop q table stringsEnd wantedIndex (currentIndex + 1) (stringEnd + 1))
      else Some [])"
  by pat_completeness auto
termination
  by (relation "measure (\<lambda>(q, table, stringsEnd, w, c, i). Suc stringsEnd - i)")
     (auto dest: stringEndFrom_ge)

declare smbiosStringLoop.simps [simp del]

definition smbiosString :: "qt \<Rightarrow> bytes \<Rightarrow> nat \<Rightarrow> nat \<Rightarrow> byte \<Rightarrow> qstring option" where
  "smbiosString q table stringsStart stringsEnd wantedIndex =
     (if wantedIndex = 0 then Some []
      else smbiosStringLoop q table stringsEnd wantedIndex 1 stringsStart)"

section \<open>The UUID\<close>

text \<open>The first three groups are little-endian in the table and are reversed.\<close>

definition orderedUuid :: "bytes \<Rightarrow> bytes" where
  "orderedUuid uuid =
     [uuid ! 3, uuid ! 2, uuid ! 1, uuid ! 0, uuid ! 5, uuid ! 4, uuid ! 7, uuid ! 6] @ drop 8 uuid"

definition dashed :: "bytes \<Rightarrow> qstring" where
  "dashed hex =
     fromLatin1 (take 8 hex) @ lit ''-'' @ fromLatin1 (take 4 (drop 8 hex)) @ lit ''-''
     @ fromLatin1 (take 4 (drop 12 hex)) @ lit ''-'' @ fromLatin1 (take 4 (drop 16 hex)) @ lit ''-''
     @ fromLatin1 (take 12 (drop 20 hex))"

definition formatUuid :: "bytes \<Rightarrow> qstring" where
  "formatUuid formatted =
     (if length formatted < 8 + 16 then []
      else let uuid = take 16 (drop 8 formatted) in
        if list_all (\<lambda>v. v = 0) uuid \<or> list_all (\<lambda>v. v = 0xff) uuid then []
        else dashed (toHex (orderedUuid uuid)))"

section \<open>The table loop\<close>

text \<open>What one structure contributes to the result.\<close>

definition applyRecord ::
    "qt \<Rightarrow> bytes \<Rightarrow> nat \<Rightarrow> nat \<Rightarrow> byte \<Rightarrow> bytes \<Rightarrow> SmbiosInfo \<Rightarrow> SmbiosInfo option" where
  "applyRecord q rawTable stringsStart stringsEnd type formatted result =
     (if type = 1 then Some (result\<lparr>systemUuid := formatUuid formatted\<rparr>)
      else if type = 2 \<and> 7 < length formatted then
        (case readByte formatted 7 of None \<Rightarrow> None | Some index \<Rightarrow>
         map_option (\<lambda>text. result\<lparr>smbiosMotherboardSerial := text\<rparr>)
           (smbiosString q rawTable stringsStart stringsEnd index))
      else Some result)"

function parseFrom :: "qt \<Rightarrow> bytes \<Rightarrow> nat \<Rightarrow> SmbiosInfo \<Rightarrow> SmbiosInfo option" where
  "parseFrom q rawTable recordStart result =
     (if recordStart + 4 \<le> length rawTable then
        (case readByte rawTable recordStart of None \<Rightarrow> None | Some type \<Rightarrow>
         case readByte rawTable (recordStart + 1) of None \<Rightarrow> None | Some formattedLength \<Rightarrow>
         if unat formattedLength < 4 \<or> unat formattedLength > length rawTable - recordStart
         then Some result
         else let stringsStart = recordStart + unat formattedLength in
           case findStringSetEnd rawTable stringsStart of
             None \<Rightarrow> None
           | Some None \<Rightarrow> Some result
           | Some (Some stringsEnd) \<Rightarrow>
             case sliced rawTable recordStart (unat formattedLength) of None \<Rightarrow> None | Some formatted \<Rightarrow>
             case applyRecord q rawTable stringsStart stringsEnd type formatted result of
               None \<Rightarrow> None
             | Some result' \<Rightarrow>
               if type = 127 then Some result' else parseFrom q rawTable (stringsEnd + 2) result')
      else Some result)"
  by pat_completeness auto
termination
  by (relation "measure (\<lambda>(q, rawTable, recordStart, result). length rawTable - recordStart)")
     (auto dest: findStringSetEnd_ge)

declare parseFrom.simps [simp del]


definition parse :: "qt \<Rightarrow> bytes \<Rightarrow> SmbiosInfo option" where
  "parse q rawTable = parseFrom q rawTable 0 emptySmbiosInfo"

section \<open>The firmware table header: \<open>SmbiosReader::read\<close>\<close>

text \<open>
  \<open>GetSystemFirmwareTable\<close> is called twice: the first call reports the size, the second fills
  a buffer of that many bytes and reports how many it wrote. The header is eight packed bytes,
  the last four a little-endian \<open>DWORD\<close> with the table's length.
\<close>

definition headerSize :: nat where
  "headerSize = 8"

definition readSmbios :: "qt \<Rightarrow> nat \<Rightarrow> bytes \<Rightarrow> nat \<Rightarrow> SmbiosInfo option" where
  "readSmbios q required buffer written =
     (if required < headerSize then Some emptySmbiosInfo
      else if written < headerSize \<or> written > length buffer then Some emptySmbiosInfo
      else let len = le32At buffer 4 in
        if len > written - headerSize then Some emptySmbiosInfo
        else case sliced buffer headerSize len of None \<Rightarrow> None | Some table \<Rightarrow> parse q table)"

section \<open>No read leaves the table\<close>

lemma findStringSetEnd_safe: "findStringSetEnd table i \<noteq> None"
proof (induction table i rule: findStringSetEnd.induct)
  case (1 table i)
  then show ?case
    by (subst findStringSetEnd.simps) (auto simp: readByte_def)
qed

lemma findStringSetEnd_bound: "findStringSetEnd table i = Some (Some e) \<Longrightarrow> e + 1 < length table"
proof (induction table i rule: findStringSetEnd.induct)
  case (1 table i)
  show ?case
    using "1.prems" "1.IH"
    by (subst (asm) findStringSetEnd.simps) (fastforce simp: readByte_def split: if_splits)
qed

lemma findStringSetEnd_zero: "findStringSetEnd table i = Some (Some e) \<Longrightarrow> table ! e = 0"
proof (induction table i rule: findStringSetEnd.induct)
  case (1 table i)
  show ?case
    using "1.prems" "1.IH"
    by (subst (asm) findStringSetEnd.simps) (fastforce simp: readByte_def split: if_splits)
qed

text \<open>From a start at or before the terminator, the inner loop stops at a zero in range.\<close>

lemma stringEndFrom_stops:
  "i \<le> e \<Longrightarrow> e < length table \<Longrightarrow> table ! e = 0 \<Longrightarrow>
     \<exists>j. stringEndFrom table e i = Some j \<and> i \<le> j \<and> j \<le> e \<and> table ! j = 0
       \<and> (\<forall>k. i \<le> k \<and> k < j \<longrightarrow> table ! k \<noteq> 0)"
proof (induction table e i rule: stringEndFrom.induct)
  case (1 table e i)
  show ?case
  proof (cases "table ! i = 0")
    case True
    with "1.prems" show ?thesis
      by (subst stringEndFrom.simps) (auto simp: readByte_def)
  next
    case False
    with "1.prems" have "i + 1 \<le> e"
      by (cases "i = e") auto
    with "1.IH" "1.prems" False obtain j where j: "stringEndFrom table e (i + 1) = Some j"
        "i + 1 \<le> j" "j \<le> e" "table ! j = 0" "\<forall>k. i + 1 \<le> k \<and> k < j \<longrightarrow> table ! k \<noteq> 0"
      by (auto simp: readByte_def)
    have "\<forall>k. i \<le> k \<and> k < j \<longrightarrow> table ! k \<noteq> 0"
      using j(5) False by (metis Suc_eq_plus1 le_antisym not_less_eq_eq)
    moreover have "stringEndFrom table e i = Some j"
      using "1.prems" False j(1) by (subst stringEndFrom.simps) (simp add: readByte_def)
    ultimately show ?thesis
      using j by auto
  qed
qed

lemma smbiosStringLoop_safe:
  "e < length table \<Longrightarrow> table ! e = 0 \<Longrightarrow> smbiosStringLoop q table e w c i \<noteq> None"
proof (induction q table e w c i rule: smbiosStringLoop.induct)
  case (1 q table e w c i)
  show ?case
  proof (cases "i \<le> e")
    case True
    then obtain j where "stringEndFrom table e i = Some j" "i \<le> j" "j \<le> e"
      using stringEndFrom_stops "1.prems" by blast
    with "1.IH" "1.prems" True show ?thesis
      by (subst smbiosStringLoop.simps) (auto simp: sliced_def)
  qed (subst smbiosStringLoop.simps, simp)
qed

lemma smbiosString_safe:
  assumes "findStringSetEnd table i = Some (Some e)"
  shows "smbiosString q table s e w \<noteq> None"
  using findStringSetEnd_bound [OF assms] findStringSetEnd_zero [OF assms]
    smbiosStringLoop_safe [of e table q w 1 s]
  by (simp add: smbiosString_def)

lemma applyRecord_safe:
  "findStringSetEnd table i = Some (Some e) \<Longrightarrow> applyRecord q table s e type f r \<noteq> None"
  using smbiosString_safe [of table i e q s]
  by (simp add: applyRecord_def readByte_def)

lemma parseFrom_record:
  assumes "i + 4 \<le> length t" and "4 \<le> unat (t ! (i + 1))" and "i + unat (t ! (i + 1)) \<le> length t"
    and "findStringSetEnd t (i + unat (t ! (i + 1))) = Some (Some e)"
    and "applyRecord q t (i + unat (t ! (i + 1))) e (t ! i) (take (unat (t ! (i + 1))) (drop i t)) r
      = Some r'"
  shows "parseFrom q t i r = (if t ! i = 127 then Some r' else parseFrom q t (e + 2) r')"
proof -
  have "\<not> unat (t ! (i + 1)) > length t - i"
    using assms(3) by linarith
  with assms show ?thesis
    by (subst parseFrom.simps) (simp add: readByte_def sliced_def Let_def)
qed

lemma parseFrom_safe: "parseFrom q t i r \<noteq> None"
proof (induction q t i r rule: parseFrom.induct)
  case (1 q t i r)
  show ?case
  proof (cases "i + 4 \<le> length t \<and> 4 \<le> unat (t ! (i + 1)) \<and> unat (t ! (i + 1)) \<le> length t - i")
    case False
    then show ?thesis
      by (subst parseFrom.simps) (auto simp: readByte_def)
  next
    case True
    let ?s = "i + unat (t ! (i + 1))"
    show ?thesis
    proof (cases "findStringSetEnd t ?s")
      case None
      then show ?thesis using findStringSetEnd_safe by blast
    next
      case found: (Some found)
      show ?thesis
      proof (cases found)
        case None
        with True found show ?thesis
          by (subst parseFrom.simps) (simp add: readByte_def)
      next
        case (Some e)
        let ?f = "take (unat (t ! (i + 1))) (drop i t)"
        obtain r' where "applyRecord q t ?s e (t ! i) ?f r = Some r'"
          using applyRecord_safe found Some by blast
        moreover from True have "i + unat (t ! (i + 1)) \<le> length t" by linarith
        ultimately have "parseFrom q t i r = (if t ! i = 127 then Some r' else parseFrom q t (e + 2) r')"
          using True found Some by (intro parseFrom_record) auto
        moreover have "t ! i \<noteq> 127 \<Longrightarrow> parseFrom q t (e + 2) r' \<noteq> None"
          using True found Some \<open>applyRecord _ _ _ _ _ _ _ = _\<close>
          by (intro "1.IH" [of "t ! i" "t ! (i + 1)" ?s "Some e" e ?f r'])
             (auto simp: readByte_def sliced_def)
        ultimately show ?thesis by simp
      qed
    qed
  qed
qed

section \<open>What a string reference means\<close>

text \<open>
  The reference: string references are one-based indexes into the zero-separated string set;
  index 0 and indexes past the set denote the empty string.
\<close>

definition refString :: "qt \<Rightarrow> bytes \<Rightarrow> byte \<Rightarrow> qstring" where
  "refString q area w =
     (if w = 0 \<or> length (splitOn 0 area) < unat w then []
      else qtTrimmed q (fromLatin1 (splitOn 0 area ! (unat w - 1))))"

definition stringArea :: "bytes \<Rightarrow> nat \<Rightarrow> nat \<Rightarrow> bytes" where
  "stringArea table s e = take (e - s) (drop s table)"

lemma stringArea_nth: "k < e - s \<Longrightarrow> e \<le> length t \<Longrightarrow> stringArea t s e ! k = t ! (s + k)"
  by (simp add: stringArea_def)

lemma stringArea_no_zero:
  assumes "e \<le> length t" and "\<forall>k. s \<le> k \<and> k < e \<longrightarrow> t ! k \<noteq> 0"
  shows "0 \<notin> set (stringArea t s e)"
  using assms by (auto simp: stringArea_def in_set_conv_nth)

lemma stringArea_split:
  assumes "s \<le> j" "j < e" "e \<le> length t"
  shows "stringArea t s e = stringArea t s j @ t ! j # stringArea t (j + 1) e"
proof -
  have "take (e - s) (drop s t) = take ((j - s) + (e - j)) (drop s t)"
    using assms by simp
  also have "\<dots> = take (j - s) (drop s t) @ take (e - j) (drop j t)"
    using assms by (simp only: take_add) simp
  also have "take (e - j) (drop j t) = t ! j # take (e - (j + 1)) (drop (j + 1) t)"
    using assms by (simp add: Cons_nth_drop_Suc [symmetric] take_Cons' Suc_diff_Suc)
  finally show ?thesis by (simp add: stringArea_def)
qed

lemma smbiosStringLoop_eq:
  "i \<le> e \<Longrightarrow> e < length t \<Longrightarrow> t ! e = 0 \<Longrightarrow> c \<le> w \<Longrightarrow>
   smbiosStringLoop q t e w c i =
     Some (let ps = splitOn 0 (stringArea t i e); n = unat w - unat c in
       if n < length ps then qtTrimmed q (fromLatin1 (ps ! n)) else [])"
proof (induction q t e w c i rule: smbiosStringLoop.induct)
  case (1 q t e w c i)
  obtain j where j: "stringEndFrom t e i = Some j" "i \<le> j" "j \<le> e" "t ! j = 0"
      "\<forall>k. i \<le> k \<and> k < j \<longrightarrow> t ! k \<noteq> 0"
    using stringEndFrom_stops "1.prems" by blast
  then have no_zero: "0 \<notin> set (stringArea t i j)"
    using "1.prems" by (intro stringArea_no_zero) auto
  have slice: "sliced t i (j - i) = Some (stringArea t i j)"
    using j "1.prems" by (simp add: sliced_def stringArea_def)
  show ?case
  proof (cases "j = e")
    case True
    then have ps: "splitOn 0 (stringArea t i e) = [stringArea t i e]"
      using no_zero by (simp add: splitOn_no_occurrence)
    have "unat w - unat c = 0 \<longleftrightarrow> c = w"
      using "1.prems"(4) by (auto simp: word_le_nat_alt unat_inject)
    with True ps j slice "1.prems" show ?thesis
      by (subst smbiosStringLoop.simps) (auto simp: Let_def)
  next
    case False
    with j have less: "j < e" by simp
    have ps: "splitOn 0 (stringArea t i e) = stringArea t i j # splitOn 0 (stringArea t (j + 1) e)"
      using stringArea_split [OF j(2) less] "1.prems" j(4) no_zero
      by (simp add: splitOn_append_sep)
    show ?thesis
    proof (cases "c = w")
      case True
      with ps j slice "1.prems" show ?thesis
        by (subst smbiosStringLoop.simps) (simp add: Let_def)
    next
      case neq: False
      then have "c < w" using "1.prems"(4) by simp
      then have "unat c < unat w" by (simp add: word_less_nat_alt)
      then have step: "unat (c + 1) = unat c + 1"
        using unat_byte_less [of w] by (simp add: unat_word_ariths del: unat_byte_less)
      with \<open>unat c < unat w\<close> have le: "c + 1 \<le> w" by (simp add: word_le_nat_alt)
      have "smbiosStringLoop q t e w c i = smbiosStringLoop q t e w (c + 1) (j + 1)"
        using j neq False "1.prems" by (subst smbiosStringLoop.simps) simp
      also have "\<dots> = Some (let ps = splitOn 0 (stringArea t (j + 1) e); n = unat w - unat (c + 1)
          in if n < length ps then qtTrimmed q (fromLatin1 (ps ! n)) else [])"
        using j neq False less le "1.prems" by (intro "1.IH") auto
      finally show ?thesis
        using \<open>unat c < unat w\<close> step ps by (auto simp: Let_def nth_Cons' Suc_diff_Suc)
    qed
  qed
qed

lemma smbiosString_eq:
  assumes "s \<le> e" and "e < length t" and "t ! e = 0"
  shows "smbiosString q t s e w = Some (refString q (stringArea t s e) w)"
proof (cases "w = 0")
  case False
  then have "(1 :: byte) \<le> w" by (simp add: word_le_nat_alt Suc_le_eq unat_gt_0)
  moreover have "0 < unat w" using False by (simp add: unat_gt_0)
  ultimately show ?thesis
    using smbiosStringLoop_eq [OF assms, of 1 w q] False
    by (auto simp: smbiosString_def refString_def Let_def)
qed (simp add: smbiosString_def refString_def)

section \<open>The formatted UUID\<close>

lemma length_orderedUuid [simp]: "length u = 16 \<Longrightarrow> length (orderedUuid u) = 16"
  by (simp add: orderedUuid_def)

lemma orderedUuid_inject:
  assumes "length u = 16" and "length v = 16" and "orderedUuid u = orderedUuid v"
  shows "u = v"
proof -
  have eight: "map ((!) x) [0..<8] = take 8 x" if "length x = 16" for x :: bytes
    using that by (intro nth_equalityI) simp_all
  have "u = map ((!) u) [0..<8] @ drop 8 u" and "v = map ((!) v) [0..<8] @ drop 8 v"
    using assms(1,2) by (simp_all add: eight)
  moreover have "map ((!) u) [0..<8] = map ((!) v) [0..<8]" "drop 8 u = drop 8 v"
    using assms(3) by (simp_all add: orderedUuid_def upt_rec numeral_eq_Suc)
  ultimately show ?thesis by metis
qed

lemma dashed_inject:
  assumes "length h = 32" and "length k = 32" and "dashed h = dashed k"
  shows "h = k"
proof -
  have split: "x = take 8 x @ take 4 (drop 8 x) @ take 4 (drop 12 x) @ take 4 (drop 16 x)
      @ take 12 (drop 20 x)" if "length x = 32" for x :: bytes
  proof -
    have "x = take 8 x @ take 4 (drop 8 x) @ take 4 (drop 4 (drop 8 x))
        @ take 4 (drop 4 (drop 4 (drop 8 x))) @ drop 4 (drop 4 (drop 4 (drop 8 x)))"
      by (simp only: append_take_drop_id)
    then show ?thesis using that by simp
  qed
  have "take 8 h = take 8 k" "take 4 (drop 8 h) = take 4 (drop 8 k)"
      "take 4 (drop 12 h) = take 4 (drop 12 k)" "take 4 (drop 16 h) = take 4 (drop 16 k)"
      "take 12 (drop 20 h) = take 12 (drop 20 k)"
    using assms by (simp_all add: dashed_def append_eq_append_conv fromLatin1_def
        flip: fromLatin1_inject)
  with split [OF assms(1)] split [OF assms(2)] show ?thesis by simp
qed

lemma formatUuid_nonempty:
  assumes "formatUuid f \<noteq> []"
  shows "24 \<le> length f \<and> formatUuid f = dashed (toHex (orderedUuid (take 16 (drop 8 f))))"
  using assms by (auto simp: formatUuid_def Let_def split: if_splits)

text \<open>
  The formatted UUID identifies the sixteen bytes of the structure: two structures with the
  same non-empty text have the same UUID bytes.
\<close>

theorem formatUuid_injective:
  assumes "formatUuid f \<noteq> []" and "formatUuid f = formatUuid g"
  shows "take 16 (drop 8 f) = take 16 (drop 8 g)"
proof -
  note f = formatUuid_nonempty [OF assms(1)]
  note g = formatUuid_nonempty [OF assms(1) [unfolded assms(2)]]
  define u v where "u = take 16 (drop 8 f)" and "v = take 16 (drop 8 g)"
  have len: "length u = 16" "length v = 16"
    using f g by (auto simp: u_def v_def)
  have "dashed (toHex (orderedUuid u)) = dashed (toHex (orderedUuid v))"
    unfolding u_def v_def using f g assms(2) by metis
  then have "toHex (orderedUuid u) = toHex (orderedUuid v)"
    by (rule dashed_inject [rotated 2]) (simp_all add: len)
  then have "orderedUuid u = orderedUuid v"
    by (simp only: toHex_inject)
  then show ?thesis
    using orderedUuid_inject [OF len] by (simp add: u_def v_def)
qed

theorem formatUuid_injective_witness:
  "take 16 (drop 8 (replicate 8 0 @ replicate 16 1)) = (take 16 (drop 8 (replicate 8 9 @ replicate 16 1)) :: bytes)"
proof (rule formatUuid_injective)
  show "formatUuid (replicate 8 0 @ replicate 16 1) \<noteq> []"
    by (simp add: formatUuid_def dashed_def lit_def Let_def list_all_iff)
  show "formatUuid (replicate 8 0 @ replicate 16 1) = formatUuid (replicate 8 9 @ replicate 16 1)"
    by (simp add: formatUuid_def)
qed

text \<open>
  Every read of the parser lies inside the table, whatever bytes the firmware reports.
\<close>

theorem parse_in_bounds: "parse q rawTable \<noteq> None"
  unfolding parse_def by (rule parseFrom_safe)

text \<open>
  The firmware header check keeps the table slice inside the buffer that was read.
\<close>

theorem readSmbios_in_bounds: "readSmbios q required buffer written \<noteq> None"
  using parse_in_bounds by (auto simp: readSmbios_def sliced_def Let_def headerSize_def)

section \<open>Parsing an encoded table\<close>

text \<open>
  The layout of a table as the SMBIOS specification gives it: a structure is its type, the
  length of its formatted part, the rest of the formatted part, and its strings, each followed
  by a zero byte, the set closed by one more (two when it is empty).
\<close>

type_synonym smbios_structure = "byte \<times> bytes \<times> bytes list"

fun wfStructure :: "smbios_structure \<Rightarrow> bool" where
  "wfStructure (type, rest, strs) \<longleftrightarrow> 2 \<le> length rest \<and> length rest \<le> 253
     \<and> list_all (\<lambda>s. s \<noteq> [] \<and> 0 \<notin> set s) strs"

fun formattedPart :: "smbios_structure \<Rightarrow> bytes" where
  "formattedPart (type, rest, strs) = type # word_of_nat (length rest + 2) # rest"

fun encodeStructure :: "smbios_structure \<Rightarrow> bytes" where
  "encodeStructure (type, rest, strs) =
     formattedPart (type, rest, strs) @ joinWith 0 strs @ [0, 0]"

definition encodeTable :: "smbios_structure list \<Rightarrow> bytes" where
  "encodeTable ss = concat (map encodeStructure ss)"

definition nthString :: "qt \<Rightarrow> bytes list \<Rightarrow> byte \<Rightarrow> qstring" where
  "nthString q strs w =
     (if w = 0 \<or> length strs < unat w then [] else qtTrimmed q (fromLatin1 (strs ! (unat w - 1))))"

fun applyStructure :: "qt \<Rightarrow> smbios_structure \<Rightarrow> SmbiosInfo \<Rightarrow> SmbiosInfo" where
  "applyStructure q (type, rest, strs) r =
     (if type = 1 then r\<lparr>systemUuid := formatUuid (formattedPart (type, rest, strs))\<rparr>
      else if type = 2 \<and> 5 < length rest then
        r\<lparr>smbiosMotherboardSerial := nthString q strs (rest ! 5)\<rparr>
      else r)"

fun tableMeaning :: "qt \<Rightarrow> smbios_structure list \<Rightarrow> SmbiosInfo \<Rightarrow> SmbiosInfo" where
  "tableMeaning q [] r = r"
| "tableMeaning q (s # ss) r =
     (if fst s = 127 then applyStructure q s r else tableMeaning q ss (applyStructure q s r))"

lemma findStringSetEnd_first:
  "s \<le> e \<Longrightarrow> e + 1 < length t \<Longrightarrow> t ! e = 0 \<Longrightarrow> t ! (e + 1) = 0 \<Longrightarrow>
   (\<forall>k. s \<le> k \<and> k < e \<longrightarrow> t ! k \<noteq> 0 \<or> t ! (k + 1) \<noteq> 0) \<Longrightarrow>
   findStringSetEnd t s = Some (Some e)"
proof (induction t s rule: findStringSetEnd.induct)
  case (1 t s)
  show ?case
  proof (cases "s = e")
    case True
    with "1.prems" show ?thesis
      by (subst findStringSetEnd.simps) (simp add: readByte_def)
  next
    case False
    with "1.prems" have "s < e" and "t ! s \<noteq> 0 \<or> t ! (s + 1) \<noteq> 0"
      by auto
    with "1.prems" "1.IH" show ?thesis
      by (subst findStringSetEnd.simps) (auto simp: readByte_def)
  qed
qed

lemma no_double_zero:
  "list_all (\<lambda>s. s \<noteq> [] \<and> 0 \<notin> set s) strs \<Longrightarrow> k < length (joinWith 0 strs) \<Longrightarrow>
   (joinWith 0 strs @ 0 # r) ! k \<noteq> (0 :: byte) \<or> (joinWith 0 strs @ 0 # r) ! (k + 1) \<noteq> 0"
proof (induction strs arbitrary: k)
  case (Cons p strs)
  have at_p: "(p @ xs) ! j \<noteq> 0" if "j < length p" for j and xs :: bytes
    using Cons.prems(1) that by (auto simp: nth_append in_set_conv_nth)
  show ?case
  proof (cases strs)
    case Nil
    with Cons.prems at_p show ?thesis by simp
  next
    case (Cons p' ps')
    then have join: "joinWith 0 (p # strs) @ 0 # r = p @ 0 # (joinWith 0 strs @ 0 # r)"
      by simp
    obtain x xs where x: "joinWith 0 strs = x # xs" "x \<noteq> 0"
      using Cons.prems(1) Cons by (cases p'; cases ps') auto
    consider "k < length p" | "k = length p" | "length p < k" by linarith
    then show ?thesis
    proof cases
      case 1
      then show ?thesis unfolding join using at_p by blast
    next
      case 2
      with x show ?thesis unfolding join by (simp add: nth_append)
    next
      case 3
      define j where "j = k - (length p + 1)"
      with 3 have k: "k = length p + 1 + j" by simp
      have "j < length (joinWith 0 strs)"
        using Cons.prems(2) Cons k by simp
      then have "(joinWith 0 strs @ 0 # r) ! j \<noteq> 0 \<or> (joinWith 0 strs @ 0 # r) ! (j + 1) \<noteq> 0"
        using Cons.prems(1) by (intro Cons.IH) auto
      then show ?thesis unfolding join k by (simp add: nth_append)
    qed
  qed
qed simp

lemma refString_join:
  assumes "list_all (\<lambda>s. s \<noteq> [] \<and> 0 \<notin> set s) strs"
  shows "refString q (joinWith 0 strs) w = nthString q strs w"
proof (cases "strs = []")
  case True
  then show ?thesis
    using unat_inject [of w 0] by (auto simp: refString_def nthString_def not_less le_Suc_eq)
next
  case False
  then have "splitOn 0 (joinWith 0 strs) = strs"
    using assms by (intro splitOn_joinWith) (auto simp: list_all_iff)
  then show ?thesis by (simp add: refString_def nthString_def)
qed

lemma parseFrom_encoded:
  assumes wf: "wfStructure (type, rest, strs)"
    and t: "t = pre @ encodeStructure (type, rest, strs) @ post"
  shows "parseFrom q t (length pre) r =
    (if type = 127 then Some (applyStructure q (type, rest, strs) r)
     else parseFrom q t (length pre + length (encodeStructure (type, rest, strs)))
       (applyStructure q (type, rest, strs) r))"
proof -
  let ?i = "length pre" and ?F = "formattedPart (type, rest, strs)" and ?a = "joinWith 0 strs"
  define n where "n = length rest + 2"
  have strs: "list_all (\<lambda>s. s \<noteq> [] \<and> 0 \<notin> set s) strs" and n: "4 \<le> n" "n < 256"
    using wf by (auto simp: n_def)
  have F: "length ?F = n" by (simp add: n_def)
  have t': "t = pre @ ?F @ ?a @ [0, 0] @ post"
    by (simp add: t)
  have "t ! (?i + 1) = word_of_nat n" "t ! ?i = type"
    by (simp_all add: t n_def nth_append)
  then have type: "t ! ?i = type" and len: "unat (t ! (?i + 1)) = n"
    using n by simp_all
  have s: "drop (?i + n) t = ?a @ [0, 0] @ post"
    by (simp add: t' F [symmetric] del: formattedPart.simps)
  have le: "?i + n \<le> length t"
    by (simp add: t' F del: formattedPart.simps)
  have at: "t ! (?i + n + k) = (?a @ 0 # 0 # post) ! k" for k
    using nth_drop [OF le, of k] by (simp only: s append_Cons append_Nil)
  let ?e = "?i + n + length ?a"
  have total: "length t = ?e + 2 + length post"
    by (simp add: t' F del: formattedPart.simps)
  have e0: "t ! ?e = 0" and e1: "t ! (?e + 1) = 0"
    using at [of "length ?a"] at [of "length ?a + 1"] by (simp_all add: nth_append)
  have "t ! k \<noteq> 0 \<or> t ! (k + 1) \<noteq> 0" if "?i + n \<le> k" "k < ?e" for k
  proof -
    define j where "j = k - (?i + n)"
    have k: "k = ?i + n + j" and j: "j < length ?a"
      using that by (auto simp: j_def)
    have "t ! k = (?a @ 0 # 0 # post) ! j" "t ! (k + 1) = (?a @ 0 # 0 # post) ! (j + 1)"
      using at [of j] at [of "j + 1"] by (simp_all only: k add.assoc)
    then show ?thesis
      using no_double_zero [OF strs j, of "0 # post"] by simp
  qed
  then have found: "findStringSetEnd t (?i + n) = Some (Some ?e)"
    using e0 e1 total by (intro findStringSetEnd_first) auto
  have area: "stringArea t (?i + n) ?e = ?a"
    by (simp add: stringArea_def s)
  have formatted: "take n (drop ?i t) = ?F"
    by (simp add: t' F [symmetric] del: formattedPart.simps)
  have "applyRecord q t (?i + n) ?e type ?F r = Some (applyStructure q (type, rest, strs) r)"
    using smbiosString_eq [of "?i + n" ?e t q] e0 total refString_join [OF strs, of q]
    by (auto simp: applyRecord_def readByte_def area)
  then have "parseFrom q t ?i r = (if t ! ?i = 127 then Some (applyStructure q (type, rest, strs) r)
      else parseFrom q t (?e + 2) (applyStructure q (type, rest, strs) r))"
    using n len type found formatted total by (intro parseFrom_record) simp_all
  moreover have "?e + 2 = ?i + length (encodeStructure (type, rest, strs))"
    by (simp add: n_def)
  ultimately show ?thesis by (simp only: type)
qed

lemma parseFrom_table:
  "list_all wfStructure ss \<Longrightarrow> t = pre @ encodeTable ss \<Longrightarrow>
   parseFrom q t (length pre) r = Some (tableMeaning q ss r)"
proof (induction ss arbitrary: pre r)
  case Nil
  then show ?case by (subst parseFrom.simps) (simp add: encodeTable_def)
next
  case (Cons s ss)
  obtain type rest strs where s: "s = (type, rest, strs)" by (cases s)
  let ?r = "applyStructure q s r"
  have t: "t = pre @ encodeStructure (type, rest, strs) @ encodeTable ss"
    using Cons.prems(2) by (simp add: encodeTable_def s)
  then have t': "t = (pre @ encodeStructure s) @ encodeTable ss"
    by (simp add: s)
  have "parseFrom q t (length (pre @ encodeStructure s)) ?r = Some (tableMeaning q ss ?r)"
    using Cons.prems(1) t' by (intro Cons.IH) simp_all
  moreover have "wfStructure (type, rest, strs)"
    using Cons.prems(1) by (simp add: s)
  ultimately show ?case
    using parseFrom_encoded [OF _ t, of q r] by (simp add: s)
qed

text \<open>
  C36. Parsing the encoding of any list of well-formed structures gives their meaning: the last
  system structure's UUID and the last baseboard structure's serial string, up to the
  end-of-table structure, however the strings are shared between fields.
\<close>

theorem parse_encodeTable:
  assumes "list_all wfStructure ss"
  shows "parse q (encodeTable ss) = Some (tableMeaning q ss emptySmbiosInfo)"
  using parseFrom_table [OF assms, of _ "[]"] by (simp add: parse_def)

theorem parse_encodeTable_witness:
  "\<forall>q. parse q (encodeTable [(2, [0, 0, 1, 2, 3, 2], [lit ''ACME'', lit ''B1'']), (127, [0, 0], [])])
   = Some (tableMeaning q [(2, [0, 0, 1, 2, 3, 2], [lit ''ACME'', lit ''B1'']), (127, [0, 0], [])]
       emptySmbiosInfo)"
  by (rule allI, rule parse_encodeTable) (simp add: lit_def)

text \<open>
  A string reference selects the string of that one-based number in the zero-separated set;
  index 0 and numbers past the set give the empty string, and the wrap-around of the 8-bit
  counter is never reached.
\<close>

theorem smbiosString_correct:
  assumes "findStringSetEnd table stringsStart = Some (Some stringsEnd)"
  shows "smbiosString q table stringsStart stringsEnd w
    = Some (refString q (stringArea table stringsStart stringsEnd) w)"
  using findStringSetEnd_ge [OF assms] findStringSetEnd_bound [OF assms]
    findStringSetEnd_zero [OF assms]
  by (intro smbiosString_eq) auto

theorem smbiosString_correct_witness:
  "\<forall>q. smbiosString q (lit ''AB'' @ [0] @ lit ''C'' @ [0, 0]) 0 4 2
    = Some (refString q (stringArea (lit ''AB'' @ [0] @ lit ''C'' @ [0, 0]) 0 4) 2)"
  by (rule allI, rule smbiosString_correct)
     (simp add: lit_def findStringSetEnd.simps readByte_def)

end
