(* ===== verification/DeviceIdentity.thy ===== *)
theory DeviceIdentity
  imports Json SmbiosParser Base64
begin

text \<open>
  The device identity: \<open>shared/hardware/HardwareIdentity.h\<close>, \<open>HardwareCollector.cpp\<close>,
  \<open>HardwareJson.cpp\<close>, \<open>shared/security/HardwareNormalization.cpp\<close> and \<open>Fingerprint.cpp\<close>, with the
  client's \<open>SystemHardwareCollector\<close> of \<open>license-client/src/auth/AuthManager.cpp\<close>.
\<close>

section \<open>Data\<close>

record HardwareIdentity =
  smbiosUuid :: qstring
  motherboardSerial :: qstring
  biosSerial :: qstring
  systemDiskSerial :: qstring
  machineGuid :: qstring
  cpuArchitecture :: qstring
  hostName :: qstring
  tpmPublicKeyHash :: qstring
  finalFingerprint :: qstring

definition emptyIdentity :: HardwareIdentity where
  "emptyIdentity = \<lparr>smbiosUuid = [], motherboardSerial = [], biosSerial = [], systemDiskSerial = [],
     machineGuid = [], cpuArchitecture = [], hostName = [], tpmPublicKeyHash = [],
     finalFingerprint = []\<rparr>"

definition displayId :: "HardwareIdentity \<Rightarrow> qstring" where
  "displayId identity =
     take 6 (finalFingerprint identity) @ lit ''-'' @ take 6 (drop 6 (finalFingerprint identity))"

section \<open>Normalization and fingerprint\<close>

abbreviation spaceChar :: qchar where "spaceChar \<equiv> 32"
abbreviation dashChar :: qchar where "dashChar \<equiv> 45"
abbreviation openBrace :: qchar where "openBrace \<equiv> 123"
abbreviation closeBrace :: qchar where "closeBrace \<equiv> 125"
abbreviation barByte :: byte where "barByte \<equiv> 124"

definition normalizeHardwareValue :: "qt \<Rightarrow> qstring \<Rightarrow> qstring" where
  "normalizeHardwareValue q value =
     removeChar closeBrace (removeChar openBrace (removeChar dashChar (removeChar spaceChar
       (qtToUpper q (qtTrimmed q value)))))"

definition appendField :: "qt \<Rightarrow> bytes \<Rightarrow> qstring \<Rightarrow> bytes" where
  "appendField q input value = input @ qtToUtf8 q (normalizeHardwareValue q value) @ [barByte]"

definition fingerprintInput :: "qt \<Rightarrow> HardwareIdentity \<Rightarrow> bytes" where
  "fingerprintInput q identity =
     (let input = appendField q [] (smbiosUuid identity);
          input = appendField q input (motherboardSerial identity);
          input = appendField q input (biosSerial identity);
          input = appendField q input (systemDiskSerial identity);
          input = appendField q input (machineGuid identity)
      in appendField q input (tpmPublicKeyHash identity))"

definition generate :: "qt \<Rightarrow> HardwareIdentity \<Rightarrow> qstring" where
  "generate q identity = fromLatin1 (map upperByte (toHex (qtSha256 q (fingerprintInput q identity))))"

section \<open>Collection\<close>

text \<open>
  The four readers behind \<open>IHardwareSource\<close>, the two \<open>QSysInfo\<close> values, and what the TPM calls
  give: whether the key could be ensured, and the hash of the public key.
\<close>

record hardware_source =
  srcSmbios :: SmbiosInfo
  srcBiosSerial :: qstring
  srcDiskSerial :: qstring
  srcMachineGuid :: qstring
  srcIsDefault :: bool

record system_info =
  sysArchitecture :: qstring
  sysHostName :: qstring
  sysEnsureKey :: bool
  sysPublicKeySha256 :: qstring

definition collect :: "hardware_source \<Rightarrow> system_info \<Rightarrow> HardwareIdentity" where
  "collect source sys =
     (let identity = emptyIdentity
        \<lparr>smbiosUuid := systemUuid (srcSmbios source),
         motherboardSerial := smbiosMotherboardSerial (srcSmbios source),
         biosSerial := srcBiosSerial source,
         systemDiskSerial := srcDiskSerial source,
         machineGuid := srcMachineGuid source,
         cpuArchitecture := sysArchitecture sys,
         hostName := sysHostName sys\<rparr>
      in if srcIsDefault source \<and> sysEnsureKey sys
         then identity\<lparr>tpmPublicKeyHash := sysPublicKeySha256 sys\<rparr> else identity)"

text \<open>
  \<open>SystemHardwareCollector::collect\<close>. The three dependencies are \<open>std::function\<close>s that may be
  empty (\<open>None\<close>); \<open>ensureTpmKey\<close> also gives the error it leaves. The result is the returned flag
  with the identity and the error text the caller reads.
\<close>

record hardware_dependencies =
  depIsTpmAvailable :: "bool option"
  depEnsureTpmKey :: "(bool \<times> qstring) option"
  depCollectHardware :: "HardwareIdentity option"

definition systemCollect ::
    "qt \<Rightarrow> hardware_dependencies \<Rightarrow> HardwareIdentity \<Rightarrow> bool \<times> HardwareIdentity \<times> qstring" where
  "systemCollect q deps identity =
     (case (depIsTpmAvailable deps, depEnsureTpmKey deps, depCollectHardware deps) of
        (Some available, Some (ensured, ensureError), Some hardware) \<Rightarrow>
          if \<not> available then (False, identity, lit ''TPM is unavailable.'')
          else if \<not> ensured then (False, identity, ensureError)
          else let identity' = hardware\<lparr>finalFingerprint := generate q hardware\<rparr> in
            if qtTrimmed q (finalFingerprint identity') = []
            then (False, identity', lit ''Device identity is unavailable.'')
            else (True, identity', ensureError)
      | _ \<Rightarrow> (False, identity, lit ''Device collector is unavailable.''))"

definition toJson :: "HardwareIdentity \<Rightarrow> jsonObject" where
  "toJson identity =
     [(lit ''bios_serial'', JString (biosSerial identity)),
      (lit ''fingerprint'', JString (finalFingerprint identity)),
      (lit ''machine_guid'', JString (machineGuid identity)),
      (lit ''motherboard_serial'', JString (motherboardSerial identity)),
      (lit ''smbios_uuid'', JString (smbiosUuid identity)),
      (lit ''system_disk_serial'', JString (systemDiskSerial identity)),
      (lit ''tpm_public_key_hash'', JString (tpmPublicKeyHash identity))]"

section \<open>Lemmas\<close>

lemma normalize_clean:
  "set (normalizeHardwareValue q v) \<inter> {spaceChar, dashChar, openBrace, closeBrace} = {}"
  by (auto simp: normalizeHardwareValue_def)

definition fields :: "qt \<Rightarrow> HardwareIdentity \<Rightarrow> bytes list" where
  "fields q identity = map (\<lambda>f. qtToUtf8 q (normalizeHardwareValue q (f identity)))
     [smbiosUuid, motherboardSerial, biosSerial, systemDiskSerial, machineGuid, tpmPublicKeyHash]"

lemma fingerprintInput_fields:
  "fingerprintInput q identity = concat (map (\<lambda>f. f @ [barByte]) (fields q identity))"
  by (simp add: fingerprintInput_def appendField_def fields_def Let_def)

lemma append_sep_inject:
  assumes "c \<notin> set p" and "c \<notin> set q'" and "p @ c # r = q' @ c # r'"
  shows "p = q' \<and> r = r'"
  using assms splitOn_append_sep [of c p r] splitOn_append_sep [of c q' r']
  by (metis list.inject same_append_eq)

lemma append_sep_inject_last:
  assumes "c \<notin> set p" and "c \<notin> set q'" and "r @ c # p = r' @ c # q'"
  shows "p = q' \<and> r = r'"
  using append_sep_inject [of c "rev p" "rev q'" "rev r" "rev r'"] assms
  by (metis append.assoc append_Cons append_Nil rev_append rev_is_rev_conv set_rev rev.simps)

lemma upperByte_hexDigit:
  assumes "d < 16"
  shows "upperByte (hexDigit d) \<in> set (lit ''0123456789ABCDEF'')"
proof -
  have "d \<in> {0, 1, 2, 3, 4, 5, 6, 7, 8, 9, 10, 11, 12, 13, 14, 15}"
    using assms by (simp del: One_nat_def) presburger
  then show ?thesis
    by (auto simp: upperByte_def hexDigit_def lit_def)
qed

lemma upper_toHex_chars: "set (map upperByte (toHex b)) \<subseteq> set (lit ''0123456789ABCDEF'')"
proof (induction b rule: toHex.induct)
  case (2 b bs)
  have "unat b div 16 < 16"
    using unat_byte_less [of b] by linarith
  with 2 show ?case by (auto intro: upperByte_hexDigit)
qed simp

lemma generate_shape:
  assumes "\<forall>input. length (qtSha256 q input) = 32"
  shows "length (generate q identity) = 64
    \<and> set (generate q identity) \<subseteq> set (lit ''0123456789ABCDEF'')"
proof -
  let ?digest = "map upperByte (toHex (qtSha256 q (fingerprintInput q identity)))"
  have "set (fromLatin1 ?digest) = ucast ` set ?digest"
    by (simp only: fromLatin1_def list.set_map)
  also have "\<dots> \<subseteq> ucast ` set (lit ''0123456789ABCDEF'' :: bytes)"
    by (intro image_mono upper_toHex_chars)
  also have "\<dots> = set (lit ''0123456789ABCDEF'' :: qstring)"
    by (simp add: lit_def)
  finally show ?thesis
    using assms by (simp add: generate_def fromLatin1_def)
qed

section \<open>Properties\<close>

text \<open>
  The fingerprint is 64 upper-case hexadecimal digits when the digest has 32 bytes.
\<close>

theorem generate_format:
  assumes "\<forall>input. length (qtSha256 q input) = 32"
  shows "length (generate q identity) = 64
    \<and> set (generate q identity) \<subseteq> set (lit ''0123456789ABCDEF'')"
  by (rule generate_shape [OF assms])

lemma qtAscii_sha256 [simp]: "length (qtSha256 qtAscii input) = 32"
  by (simp add: qtAscii_simps)

theorem generate_format_witness:
  "length (generate qtAscii emptyIdentity) = 64
    \<and> set (generate qtAscii emptyIdentity) \<subseteq> set (lit ''0123456789ABCDEF'')"
  by (rule generate_format) simp

text \<open>
  The hashed text determines the six normalized signals, disk serials joined by bars
  included, as long as no other signal contains a bar.
\<close>

theorem fingerprintInput_injective:
  assumes "\<forall>i \<in> {0, 1, 2, 4, 5}. barByte \<notin> set (fields q a ! i)"
    and "\<forall>i \<in> {0, 1, 2, 4, 5}. barByte \<notin> set (fields q b ! i)"
    and "fingerprintInput q a = fingerprintInput q b"
  shows "fields q a = fields q b"
proof -
  obtain a0 a1 a2 a3 a4 a5 where a: "fields q a = [a0, a1, a2, a3, a4, a5]"
    by (simp add: fields_def)
  obtain b0 b1 b2 b3 b4 b5 where b: "fields q b = [b0, b1, b2, b3, b4, b5]"
    by (simp add: fields_def)
  have clean: "barByte \<notin> set x" if "x \<in> {a0, a1, a2, a4, a5, b0, b1, b2, b4, b5}" for x
    using assms(1,2) that by (auto simp: a b)
  have eq: "a0 @ barByte # a1 @ barByte # a2 @ barByte # a3 @ barByte # a4 @ barByte # a5
      = b0 @ barByte # b1 @ barByte # b2 @ barByte # b3 @ barByte # b4 @ barByte # b5"
    using assms(3) by (simp add: fingerprintInput_fields a b)
  note e0 = append_sep_inject [OF clean clean eq, simplified]
  note e1 = append_sep_inject [OF clean clean e0 [THEN conjunct2], simplified]
  note e2 = append_sep_inject [OF clean clean e1 [THEN conjunct2], simplified]
  have "(a3 @ barByte # a4) @ barByte # a5 = (b3 @ barByte # b4) @ barByte # b5"
    using e2 by simp
  note e3 = append_sep_inject_last [OF clean clean this, simplified]
  note e4 = append_sep_inject_last [OF clean clean e3 [THEN conjunct2], simplified]
  show ?thesis
    using e0 e1 e2 e3 e4 by (simp add: a b)
qed

definition sampleIdentity :: "string \<Rightarrow> string \<Rightarrow> HardwareIdentity" where
  "sampleIdentity uuid board =
     emptyIdentity\<lparr>smbiosUuid := lit uuid, motherboardSerial := lit board\<rparr>"

lemma fields_sample:
  "fields qtAscii (sampleIdentity u b) =
    [map ucast (normalizeHardwareValue qtAscii (lit u)),
     map ucast (normalizeHardwareValue qtAscii (lit b)), [], [], [], []]"
  by (simp add: fields_def sampleIdentity_def emptyIdentity_def normalizeHardwareValue_def
      qtAscii_simps removeChar_def)

theorem fingerprintInput_injective_witness:
  "fields qtAscii (sampleIdentity ''ab'' ''C-1'') = fields qtAscii (sampleIdentity ''{AB}'' ''c1'')"
  by (rule fingerprintInput_injective)
     (simp_all add: fields_sample fingerprintInput_fields normalizeHardwareValue_def qtAscii_simps
       trimmed_def removeChar_def lit_def)

text \<open>
  Without that condition the text is ambiguous: a bar inside a signal moves the boundary
  between two fields, so different devices can be given the same fingerprint.
\<close>

theorem fingerprint_ambiguous:
  "fields qtAscii (sampleIdentity ''A|B'' ''C'') \<noteq> fields qtAscii (sampleIdentity ''A'' ''B|C'')
   \<and> generate qtAscii (sampleIdentity ''A|B'' ''C'') = generate qtAscii (sampleIdentity ''A'' ''B|C'')"
  by (simp add: fields_sample fingerprintInput_fields generate_def normalizeHardwareValue_def
      qtAscii_simps trimmed_def removeChar_def lit_def)

text \<open>
  A normalized value holds no space, dash or brace, so the formatting of a serial or UUID
  does not reach the fingerprint.
\<close>

theorem normalizeHardwareValue_clean:
  "c \<in> {spaceChar, dashChar, openBrace, closeBrace} \<Longrightarrow> c \<notin> set (normalizeHardwareValue q v)"
  using normalize_clean [of q v] by blast

theorem normalizeHardwareValue_clean_witness:
  "dashChar \<notin> set (normalizeHardwareValue qtAscii (lit ''{a-b c}''))"
  by (rule normalizeHardwareValue_clean) simp

text \<open>
  Normalizing is not idempotent: white space other than a blank is only trimmed, and the
  characters removed afterwards can expose it.
\<close>

theorem normalize_not_idempotent:
  "normalizeHardwareValue qtAscii (normalizeHardwareValue qtAscii (lit ''-'' @ [9] @ lit ''a''))
    \<noteq> normalizeHardwareValue qtAscii (lit ''-'' @ [9] @ lit ''a'')"
  by (simp add: normalizeHardwareValue_def qtAscii_simps trimmed_def removeChar_def lit_def)

text \<open>
  A successful collection had a TPM and its key, and returns the collected hardware with its
  own fingerprint; with a 32-byte digest nothing else can fail.
\<close>

theorem systemCollect_success:
  assumes "\<forall>input. length (qtSha256 q input) = 32"
    and "\<forall>c \<in> set (lit ''0123456789ABCDEF''). \<not> qtIsSpace q c"
  shows "systemCollect q deps identity = (True, hw, e)
    \<longleftrightarrow> (\<exists>h. deps = \<lparr>depIsTpmAvailable = Some True, depEnsureTpmKey = Some (True, e),
              depCollectHardware = Some h\<rparr>
           \<and> hw = h\<lparr>finalFingerprint := generate q h\<rparr>)"
proof -
  have "qtTrimmed q (generate q h) \<noteq> []" for h
  proof -
    note shape = generate_shape [OF assms(1), of h]
    then have "hd (generate q h) \<in> set (generate q h)"
      by (intro hd_in_set) auto
    then have "\<not> qtIsSpace q (hd (generate q h))"
      using shape assms(2) by blast
    with \<open>hd (generate q h) \<in> set (generate q h)\<close> show ?thesis
      unfolding trimmed_eq_Nil_iff by blast
  qed
  then show ?thesis
    by (cases deps) (auto simp: systemCollect_def Let_def split: option.splits if_splits)
qed

theorem systemCollect_success_witness:
  "systemCollect qtAscii \<lparr>depIsTpmAvailable = Some True, depEnsureTpmKey = Some (True, []),
      depCollectHardware = Some emptyIdentity\<rparr> emptyIdentity
    = (True, emptyIdentity\<lparr>finalFingerprint := generate qtAscii emptyIdentity\<rparr>, [])"
  by (subst systemCollect_success) (simp_all add: lit_def qtAscii_simps)

end
