(* ===== verification/DiskReader.thy ===== *)
theory DiskReader
  imports DeviceIdentity
begin

text \<open>
  \<open>shared/hardware/DiskReader.cpp\<close>: the device path of the system drive, the disks behind the
  system volume, one disk's serial number, and the signal that joins the serials of all disks.
  A device control call is a parameter: what it returns, its error, the buffer it filled and the
  number of bytes it reports. Reads of a buffer are optional, as in \<open>SmbiosParser\<close>.
\<close>

section \<open>Parameters\<close>

record ioctl_reply =
  ioOk :: bool
  ioError :: nat
  ioBuffer :: bytes
  ioReturned :: nat

definition readLe32 :: "bytes \<Rightarrow> nat \<Rightarrow> nat option" where
  "readLe32 b i = (if i + 4 \<le> length b then Some (le32At b i) else None)"

section \<open>The system drive\<close>

abbreviation backslashChar :: qchar where "backslashChar \<equiv> 92"
abbreviation slashChar :: qchar where "slashChar \<equiv> 47"
abbreviation colonChar :: qchar where "colonChar \<equiv> 58"

function chopSlashes :: "qstring \<Rightarrow> qstring" where
  "chopSlashes s =
     (if s \<noteq> [] \<and> (last s = backslashChar \<or> last s = slashChar) then chopSlashes (butlast s) else s)"
  by pat_completeness auto
termination by (relation "measure length") auto

declare chopSlashes.simps [simp del]

definition systemDriveDevicePath ::
    "qt \<Rightarrow> (qchar \<Rightarrow> bool) \<Rightarrow> nat \<Rightarrow> nat \<Rightarrow> qstring \<Rightarrow> qstring" where
  "systemDriveDevicePath q isLetter required written drive =
     (if required = 0 then []
      else if written = 0 then []
      else let systemDrive = chopSlashes (qtTrimmed q drive) in
        if length systemDrive \<noteq> 2 \<or> \<not> isLetter (hd systemDrive) \<or> last systemDrive \<noteq> colonChar then []
        else [backslashChar, backslashChar, 46, backslashChar] @ systemDrive)"

section \<open>The disks of a volume\<close>

text \<open>\<open>VOLUME_DISK_EXTENTS\<close>: a count, padding to 8 bytes, then extents of 24 bytes each.\<close>

definition extentHeaderSize :: nat where "extentHeaderSize = 8"
definition extentSize :: nat where "extentSize = 24"
definition extentBufferSize :: nat where "extentBufferSize = 32"
definition maxDword :: nat where "maxDword = 4294967295"
definition errorMoreData :: nat where "errorMoreData = 234"

definition checkedExtentBufferSize :: "nat \<Rightarrow> nat option" where
  "checkedExtentBufferSize extentCount =
     (if extentCount = 0 \<or> extentCount > (maxDword - extentHeaderSize) div extentSize then None
      else Some ((extentHeaderSize + extentCount * extentSize) mod 2 ^ 32))"

fun diskNumbersFrom :: "bytes \<Rightarrow> nat \<Rightarrow> nat \<Rightarrow> nat list option" where
  "diskNumbersFrom b index 0 = Some []"
| "diskNumbersFrom b index (Suc n) =
     (case readLe32 b (extentHeaderSize + index * extentSize) of None \<Rightarrow> None | Some d \<Rightarrow>
      map_option ((#) d) (diskNumbersFrom b (index + 1) n))"

definition readExtents :: "bytes \<Rightarrow> nat \<Rightarrow> nat list option option" where
  "readExtents buffer bytesReturned =
     (case readLe32 buffer 0 of None \<Rightarrow> None | Some count \<Rightarrow>
      case checkedExtentBufferSize count of None \<Rightarrow> Some None | Some requiredSize \<Rightarrow>
      if requiredSize > length buffer \<or> bytesReturned < requiredSize then Some None
      else map_option Some (diskNumbersFrom buffer 0 count))"

definition systemDiskNumbers :: "ioctl_reply \<Rightarrow> (nat \<Rightarrow> ioctl_reply) \<Rightarrow> nat list option option" where
  "systemDiskNumbers initial again =
     (case readLe32 (ioBuffer initial) 0 of None \<Rightarrow> None | Some count \<Rightarrow>
      let requiredSize = checkedExtentBufferSize count in
      if ioOk initial then
        (case requiredSize of None \<Rightarrow> Some None | Some sz \<Rightarrow>
         if ioReturned initial < sz then Some None
         else readExtents (ioBuffer initial) (ioReturned initial))
      else if ioError initial \<noteq> errorMoreData \<or> ioReturned initial < 4 then Some None
      else
        (case requiredSize of None \<Rightarrow> Some None | Some sz \<Rightarrow>
         if sz \<le> length (ioBuffer initial) then Some None
         else if \<not> ioOk (again sz) then Some None
         else readExtents (ioBuffer (again sz)) (ioReturned (again sz))))"

section \<open>The serial number of one disk\<close>

definition descriptorHeaderSize :: nat where "descriptorHeaderSize = 8"
definition deviceDescriptorSize :: nat where "deviceDescriptorSize = 40"

definition diskSerial :: "qt \<Rightarrow> ioctl_reply \<Rightarrow> (nat \<Rightarrow> ioctl_reply) \<Rightarrow> qstring option" where
  "diskSerial q header descriptor =
     (if \<not> ioOk header \<or> ioReturned header < descriptorHeaderSize then Some []
      else case readLe32 (ioBuffer header) 4 of None \<Rightarrow> None | Some sz \<Rightarrow>
      if sz < deviceDescriptorSize \<or> sz > 1024 * 1024 then Some []
      else let reply = descriptor sz in
      if \<not> ioOk reply \<or> ioReturned reply < deviceDescriptorSize then Some []
      else let usableSize = min (ioReturned reply) (length (ioBuffer reply)) in
      case readLe32 (ioBuffer reply) 24 of None \<Rightarrow> None | Some serialOffset \<Rightarrow>
      if serialOffset = 0 \<or> serialOffset \<ge> usableSize then Some []
      else case sliced (ioBuffer reply) serialOffset (usableSize - serialOffset) of
        None \<Rightarrow> None
      | Some text \<Rightarrow>
          if 0 \<notin> set text then Some []
          else Some (qtTrimmed q (fromLatin1 (takeWhile (\<lambda>c. c \<noteq> 0) text))))"

section \<open>The joined signal\<close>

abbreviation barChar :: qchar where "barChar \<equiv> 124"

fun appendSerials :: "qt \<Rightarrow> (32 word \<Rightarrow> qstring) \<Rightarrow> 32 word list \<Rightarrow> qstring list \<Rightarrow> qstring list" where
  "appendSerials q source [] serials = serials"
| "appendSerials q source (diskNumber # rest) serials =
     (let serial = normalizeHardwareValue q (source diskNumber) in
      appendSerials q source rest (if serial \<noteq> [] then serials @ [serial] else serials))"

definition serialSignal :: "qt \<Rightarrow> 32 word list \<Rightarrow> (32 word \<Rightarrow> qstring) \<Rightarrow> qstring" where
  "serialSignal q diskNumbers source =
     joinWith barChar (appendSerials q source (remdups_adj (sort diskNumbers)) [])"

text \<open>
  \<open>systemDiskSerial\<close>: the volume handle is opened by the operating system (\<open>opened\<close>), and
  \<open>serialOf\<close> is \<open>WindowsDiskSerialSource::serialNumber\<close>.
\<close>

definition systemDiskSerialSignal ::
    "qt \<Rightarrow> qstring \<Rightarrow> bool \<Rightarrow> nat list option \<Rightarrow> (32 word \<Rightarrow> qstring) \<Rightarrow> qstring" where
  "systemDiskSerialSignal q volumePath opened diskNumbers serialOf =
     (if volumePath = [] then []
      else if \<not> opened then []
      else case diskNumbers of None \<Rightarrow> []
        | Some numbers \<Rightarrow> serialSignal q (map word_of_nat numbers) serialOf)"

section \<open>Lemmas\<close>

lemma checkedExtentBufferSize_Some:
  "checkedExtentBufferSize n = Some sz \<Longrightarrow> 0 < n \<and> sz = 8 + n * 24 \<and> sz < 2 ^ 32"
  by (auto simp: checkedExtentBufferSize_def maxDword_def extentHeaderSize_def extentSize_def
      split: if_splits)

lemma diskNumbersFrom_in_bounds:
  "8 + (index + n) * 24 \<le> length b \<Longrightarrow> \<exists>ds. diskNumbersFrom b index n = Some ds \<and> length ds = n"
proof (induction n arbitrary: index)
  case (Suc n)
  have "8 + (index + 1 + n) * 24 \<le> length b"
    using Suc.prems by simp
  from Suc.IH [OF this] obtain ds where "diskNumbersFrom b (index + 1) n = Some ds" "length ds = n"
    by blast
  with Suc.prems show ?case
    by (simp add: readLe32_def extentHeaderSize_def extentSize_def)
qed simp

lemma readExtents_in_bounds: "4 \<le> length b \<Longrightarrow> readExtents b n \<noteq> None"
  using diskNumbersFrom_in_bounds [of 0 "le32At b 0" b]
  by (auto simp: readExtents_def readLe32_def not_less split: option.splits
      dest!: checkedExtentBufferSize_Some)

lemma appendSerials_eq:
  "appendSerials q source ds acc =
     acc @ filter (\<lambda>s. s \<noteq> []) (map (\<lambda>d. normalizeHardwareValue q (source d)) ds)"
  by (induction ds arbitrary: acc) (simp_all add: Let_def)

lemma distinct_remdups_adj_sorted: "sorted xs \<Longrightarrow> distinct (remdups_adj (xs :: 'a::linorder list))"
  by (induction xs rule: remdups_adj.induct) auto

lemma remdups_adj_sort_set:
  "set xs = set ys \<Longrightarrow> remdups_adj (sort xs) = remdups_adj (sort (ys :: 'a::linorder list))"
  by (rule sorted_distinct_set_unique) (simp_all add: sorted_remdups_adj distinct_remdups_adj_sorted)

lemma chopSlashes_end: "s' = chopSlashes s \<Longrightarrow> s' \<noteq> [] \<Longrightarrow> last s' \<noteq> backslashChar \<and> last s' \<noteq> slashChar"
  by (induction s rule: chopSlashes.induct) (metis chopSlashes.simps)

section \<open>Properties\<close>

text \<open>
  The disk signal is a function of the set of disks: neither the order in which the volume
  reports its extents nor repeated disks matter.
\<close>

theorem serialSignal_set:
  assumes "set xs = set ys"
  shows "serialSignal q xs source = serialSignal q ys source"
  unfolding serialSignal_def using remdups_adj_sort_set [OF assms] by simp

theorem serialSignal_set_witness:
  "\<forall>q source. serialSignal q [2, 0, 2] source = serialSignal q [0, 2] source"
  by (intro allI, rule serialSignal_set) auto

text \<open>
  Splitting the signal at its bars gives back the non-empty normalized serials in disk
  order, when no serial contains a bar.
\<close>

theorem serialSignal_split:
  assumes "\<forall>d \<in> set ds. barChar \<notin> set (normalizeHardwareValue q (source d))"
    and "\<exists>d \<in> set ds. normalizeHardwareValue q (source d) \<noteq> []"
  shows "splitOn barChar (serialSignal q ds source) =
    filter (\<lambda>s. s \<noteq> []) (map (\<lambda>d. normalizeHardwareValue q (source d)) (sorted_list_of_set (set ds)))"
proof -
  have "remdups_adj (sort ds) = sorted_list_of_set (set ds)"
    by (rule sorted_distinct_set_unique) (simp_all add: sorted_remdups_adj distinct_remdups_adj_sorted)
  then have "serialSignal q ds source = joinWith barChar (filter (\<lambda>s. s \<noteq> [])
      (map (\<lambda>d. normalizeHardwareValue q (source d)) (sorted_list_of_set (set ds))))"
    by (simp add: serialSignal_def appendSerials_eq)
  moreover have "filter (\<lambda>s. s \<noteq> [])
      (map (\<lambda>d. normalizeHardwareValue q (source d)) (sorted_list_of_set (set ds))) \<noteq> []"
    using assms(2) by (auto simp: filter_empty_conv)
  ultimately show ?thesis
    using assms(1) by (auto intro!: splitOn_joinWith)
qed

definition sampleSerials :: "32 word \<Rightarrow> qstring" where
  "sampleSerials d = (if d = 0 then lit ''s-0'' else lit ''s 1'')"

theorem serialSignal_split_witness:
  "splitOn barChar (serialSignal qtAscii [1, 0] sampleSerials) =
    filter (\<lambda>s. s \<noteq> []) (map (\<lambda>d. normalizeHardwareValue qtAscii (sampleSerials d))
      (sorted_list_of_set (set [1, 0])))"
  by (rule serialSignal_split)
     (simp_all add: normalizeHardwareValue_def qtAscii_simps trimmed_def removeChar_def lit_def
       sampleSerials_def)

text \<open>
  Reading the extents of the system volume stays inside the buffers, for any count the
  driver reports, when the driver fills buffers of the size it was given.
\<close>

theorem systemDiskNumbers_in_bounds:
  assumes "length (ioBuffer initial) = extentBufferSize"
    and "\<forall>sz. length (ioBuffer (again sz)) = sz"
  shows "systemDiskNumbers initial again \<noteq> None"
proof -
  have "readExtents (ioBuffer initial) n \<noteq> None" for n
    using assms(1) by (intro readExtents_in_bounds) (simp add: extentBufferSize_def)
  moreover have "readExtents (ioBuffer (again sz)) n \<noteq> None"
    if "checkedExtentBufferSize c = Some sz" for c sz n
    using checkedExtentBufferSize_Some [OF that] assms(2) by (intro readExtents_in_bounds) simp
  ultimately show ?thesis
    using assms(1)
    by (auto simp: systemDiskNumbers_def readLe32_def extentBufferSize_def Let_def
        split: option.splits if_splits)
qed

definition oneDiskReply :: ioctl_reply where
  "oneDiskReply = \<lparr>ioOk = True, ioError = 0, ioBuffer = 1 # replicate 31 0, ioReturned = 32\<rparr>"

theorem systemDiskNumbers_in_bounds_witness:
  "systemDiskNumbers oneDiskReply (\<lambda>sz. oneDiskReply\<lparr>ioBuffer := replicate sz 0\<rparr>) \<noteq> None"
  by (rule systemDiskNumbers_in_bounds) (simp_all add: oneDiskReply_def extentBufferSize_def)

text \<open>
  Reading a disk's descriptor stays inside the buffer, whatever offset the driver reports.
\<close>

theorem diskSerial_in_bounds:
  assumes "length (ioBuffer header) = descriptorHeaderSize"
    and "\<forall>sz. length (ioBuffer (descriptor sz)) = sz"
  shows "diskSerial q header descriptor \<noteq> None"
  using assms
  by (auto simp: diskSerial_def readLe32_def sliced_def descriptorHeaderSize_def
      deviceDescriptorSize_def Let_def)

theorem diskSerial_in_bounds_witness:
  "\<forall>q. diskSerial q \<lparr>ioOk = True, ioError = 0, ioBuffer = [0, 0, 0, 0, 40, 0, 0, 0], ioReturned = 8\<rparr>
    (\<lambda>sz. \<lparr>ioOk = True, ioError = 0, ioBuffer = replicate sz 255, ioReturned = sz\<rparr>) \<noteq> None"
  by (rule allI, rule diskSerial_in_bounds) (simp_all add: descriptorHeaderSize_def)

end
