(* ===== verification/TpmKeyLifecycle.thy ===== *)
theory TpmKeyLifecycle
  imports Prelude
begin

text \<open>
  \<open>shared/security/TpmKeyLifecycle.h\<close> and \<open>TpmKeyLifecycle.cpp\<close>: the policy a persisted key must
  have, and the sequence of operations that opens the device key or creates it, with the
  scope guard that deletes a half-made key. The virtual class \<open>KeyLifecycle\<close> is a record of
  operations on a state; \<open>logged\<close> wraps one so that the operations performed are recorded.
\<close>

section \<open>The policy of a persisted key\<close>

record PersistedKeyPolicy =
  exportPolicyPresent :: bool
  exportPolicy :: "32 word"
  keyUsagePresent :: bool
  keyUsage :: "32 word"

definition isSigningOnlyNonExportablePolicy :: "PersistedKeyPolicy \<Rightarrow> bool" where
  "isSigningOnlyNonExportablePolicy policy =
     (exportPolicyPresent policy \<and> exportPolicy policy = 0
      \<and> keyUsagePresent policy \<and> keyUsage policy = 2)"

section \<open>The lifecycle\<close>

datatype KeyOperationResult = OpSuccess | OpNotFound | OpAlreadyExists | OpFailure

datatype EnsureKeyResult =
  EnsureSuccess | OpenFailed | CreateFailed | ConfigureFailed | FinalizeFailed | ValidationFailed

record 's KeyLifecycle =
  openKey :: "'s \<Rightarrow> KeyOperationResult \<times> 's"
  createKey :: "'s \<Rightarrow> KeyOperationResult \<times> 's"
  configureCreatedKey :: "'s \<Rightarrow> bool \<times> 's"
  finalizeCreatedKey :: "'s \<Rightarrow> bool \<times> 's"
  validateKey :: "'s \<Rightarrow> bool \<times> 's"
  deleteCreatedKey :: "'s \<Rightarrow> 's"

text \<open>
  \<open>DeleteCreatedKeyOnFailure\<close>: leaving the scope runs the deletion unless the guard was disarmed.
\<close>

definition leaveScope ::
    "'s KeyLifecycle \<Rightarrow> bool \<Rightarrow> EnsureKeyResult \<Rightarrow> 's \<Rightarrow> EnsureKeyResult \<times> 's" where
  "leaveScope lifecycle armed result s =
     (result, if armed then deleteCreatedKey lifecycle s else s)"

definition openedResult :: "'s KeyLifecycle \<Rightarrow> 's \<Rightarrow> EnsureKeyResult \<times> 's" where
  "openedResult lifecycle s =
     (let (valid, s) = validateKey lifecycle s in (if valid then EnsureSuccess else ValidationFailed, s))"

definition completeCreatedKey :: "'s KeyLifecycle \<Rightarrow> 's \<Rightarrow> EnsureKeyResult \<times> 's" where
  "completeCreatedKey lifecycle s =
     (let (configured, s) = configureCreatedKey lifecycle s in
      if \<not> configured then leaveScope lifecycle True ConfigureFailed s
      else let (finalized, s) = finalizeCreatedKey lifecycle s in
      if \<not> finalized then leaveScope lifecycle True FinalizeFailed s
      else let (valid, s) = validateKey lifecycle s in
      if \<not> valid then leaveScope lifecycle True ValidationFailed s
      else leaveScope lifecycle False EnsureSuccess s)"

definition ensureKeyLifecycle :: "'s KeyLifecycle \<Rightarrow> 's \<Rightarrow> EnsureKeyResult \<times> 's" where
  "ensureKeyLifecycle lifecycle s =
     (let (openResult, s) = openKey lifecycle s in
      if openResult = OpSuccess then openedResult lifecycle s
      else if openResult \<noteq> OpNotFound then (OpenFailed, s)
      else let (createResult, s) = createKey lifecycle s in
      if createResult = OpAlreadyExists then
        (let (again, s) = openKey lifecycle s in
         if again \<noteq> OpSuccess then (OpenFailed, s) else openedResult lifecycle s)
      else if createResult \<noteq> OpSuccess then (CreateFailed, s)
      else completeCreatedKey lifecycle s)"

section \<open>The operations performed\<close>

datatype key_op =
    Opened KeyOperationResult
  | Created KeyOperationResult
  | Configured bool
  | Finalized bool
  | Validated bool
  | Deleted

definition logged :: "'s KeyLifecycle \<Rightarrow> ('s \<times> key_op list) KeyLifecycle" where
  "logged L = \<lparr>
     openKey = (\<lambda>(s, tr). let (r, s) = openKey L s in (r, s, tr @ [Opened r])),
     createKey = (\<lambda>(s, tr). let (r, s) = createKey L s in (r, s, tr @ [Created r])),
     configureCreatedKey = (\<lambda>(s, tr). let (r, s) = configureCreatedKey L s in (r, s, tr @ [Configured r])),
     finalizeCreatedKey = (\<lambda>(s, tr). let (r, s) = finalizeCreatedKey L s in (r, s, tr @ [Finalized r])),
     validateKey = (\<lambda>(s, tr). let (r, s) = validateKey L s in (r, s, tr @ [Validated r])),
     deleteCreatedKey = (\<lambda>(s, tr). (deleteCreatedKey L s, tr @ [Deleted]))\<rparr>"

text \<open>The runs the lifecycle may make, with their results.\<close>

inductive allowedRun :: "EnsureKeyResult \<Rightarrow> key_op list \<Rightarrow> bool" where
  existing: "allowedRun (if v then EnsureSuccess else ValidationFailed) [Opened OpSuccess, Validated v]"
| unopenable: "r \<noteq> OpSuccess \<Longrightarrow> r \<noteq> OpNotFound \<Longrightarrow> allowedRun OpenFailed [Opened r]"
| uncreatable: "r \<noteq> OpSuccess \<Longrightarrow> r \<noteq> OpAlreadyExists \<Longrightarrow>
    allowedRun CreateFailed [Opened OpNotFound, Created r]"
| lost_race: "r \<noteq> OpSuccess \<Longrightarrow>
    allowedRun OpenFailed [Opened OpNotFound, Created OpAlreadyExists, Opened r]"
| joined_race: "allowedRun (if v then EnsureSuccess else ValidationFailed)
    [Opened OpNotFound, Created OpAlreadyExists, Opened OpSuccess, Validated v]"
| unconfigured: "allowedRun ConfigureFailed
    [Opened OpNotFound, Created OpSuccess, Configured False, Deleted]"
| unfinalized: "allowedRun FinalizeFailed
    [Opened OpNotFound, Created OpSuccess, Configured True, Finalized False, Deleted]"
| invalid: "allowedRun ValidationFailed
    [Opened OpNotFound, Created OpSuccess, Configured True, Finalized True, Validated False, Deleted]"
| fresh: "allowedRun EnsureSuccess
    [Opened OpNotFound, Created OpSuccess, Configured True, Finalized True, Validated True]"

inductive_cases allowedRunE: "allowedRun r tr"

lemma ensureKeyLifecycle_allowed:
  "ensureKeyLifecycle (logged L) (s, []) = (r, s', tr) \<Longrightarrow> allowedRun r tr"
  unfolding ensureKeyLifecycle_def openedResult_def completeCreatedKey_def leaveScope_def
    logged_def Let_def
  by (auto split: prod.splits if_splits intro: allowedRun.intros
      allowedRun.existing [of True, simplified] allowedRun.existing [of False, simplified]
      allowedRun.joined_race [of True, simplified] allowedRun.joined_race [of False, simplified])

section \<open>The key store contract\<close>

text \<open>
  What the lifecycle relies on: \<open>stored\<close> is the key the platform keeps under the fixed name and
  \<open>created\<close> says that the current handle is of a key this run created. Opening, configuring and
  validating leave the store alone; only a successful creation may change it, starting from
  nothing, and deleting a created key takes it away again.
\<close>

locale key_store =
  fixes L :: "'s KeyLifecycle"
    and stored :: "'s \<Rightarrow> 'k option"
    and created :: "'s \<Rightarrow> bool"
    and valid :: "'s \<Rightarrow> bool"
  assumes open_stored: "openKey L s = (r, s') \<Longrightarrow> stored s' = stored s"
    and create_success: "createKey L s = (OpSuccess, s') \<Longrightarrow> stored s = None \<and> created s'"
    and create_other: "createKey L s = (r, s') \<Longrightarrow> r \<noteq> OpSuccess \<Longrightarrow> stored s' = stored s"
    and configure_created: "configureCreatedKey L s = (b, s') \<Longrightarrow> created s \<Longrightarrow> created s'"
    and finalize_created: "finalizeCreatedKey L s = (b, s') \<Longrightarrow> created s \<Longrightarrow> created s'"
    and validate_created: "validateKey L s = (v, s') \<Longrightarrow> created s \<Longrightarrow> created s'"
    and validate_stored: "validateKey L s = (v, s') \<Longrightarrow> stored s' = stored s"
    and validate_valid: "validateKey L s = (v, s') \<Longrightarrow> v = valid s \<and> valid s' = valid s"
    and delete_stored: "created s \<Longrightarrow> stored (deleteCreatedKey L s) = None"
begin

lemma success_valid: "ensureKeyLifecycle L s = (EnsureSuccess, s') \<Longrightarrow> valid s'"
  unfolding ensureKeyLifecycle_def openedResult_def completeCreatedKey_def leaveScope_def Let_def
  by (auto split: prod.splits if_splits dest: validate_valid)

lemma abandoned_key_deleted:
  "completeCreatedKey L s = (r, s') \<Longrightarrow> r \<noteq> EnsureSuccess \<Longrightarrow> created s \<Longrightarrow> stored s' = None"
  unfolding completeCreatedKey_def leaveScope_def Let_def
  by (auto split: prod.splits if_splits
      intro!: delete_stored dest: configure_created finalize_created validate_created)

lemma failure_keeps_store:
  assumes "ensureKeyLifecycle L s = (r, s')" and "r \<noteq> EnsureSuccess"
  shows "stored s' = stored s"
  using assms unfolding ensureKeyLifecycle_def openedResult_def Let_def
  by (auto split: prod.splits if_splits
      dest!: open_stored create_other validate_stored create_success abandoned_key_deleted)

lemma existing_key_kept:
  assumes "ensureKeyLifecycle L s = (r, s')" and "stored s = Some k"
  shows "stored s' = Some k"
  using assms unfolding ensureKeyLifecycle_def openedResult_def Let_def
  by (auto split: prod.splits if_splits
      dest!: open_stored create_other validate_stored create_success)

end

end
