(* ===== verification/TpmIdentity.thy ===== *)
theory TpmIdentity
  imports TpmKeyLifecycle
begin

text \<open>
  \<open>shared/security/TpmIdentity.cpp\<close> and \<open>EcdsaSignature.cpp\<close>: the device key behind the Windows
  platform crypto provider. The record \<open>cng\<close> holds the calls of the operating system, each with
  its status; they are parameters. \<open>cng_contract\<close> states what the client relies on of them, and
  makes \<open>CngKeyLifecycle\<close> an instance of \<open>key_store\<close>.
\<close>

section \<open>The calls of the operating system\<close>

type_synonym status = "32 word"

abbreviation ERROR_SUCCESS :: status where "ERROR_SUCCESS \<equiv> 0"
definition NTE_BAD_KEYSET :: status where "NTE_BAD_KEYSET = 0x80090016"
definition NTE_EXISTS :: status where "NTE_EXISTS = 0x8009000F"
definition signingFlag :: "32 word" where "signingFlag = 2"
definition intMax :: nat where "intMax = 2147483647"

text \<open>
  The two-call pattern of CNG: a first call asks for a size, a second fills a buffer of that size
  and reports the size used.
\<close>

record 'c cng =
  cngOpenProvider :: "'c \<Rightarrow> status"
  cngOpenKey :: "'c \<Rightarrow> status \<times> 'c"
  cngCreateKey :: "'c \<Rightarrow> status \<times> 'c"
  cngSetExportPolicy :: "32 word \<Rightarrow> 'c \<Rightarrow> status \<times> 'c"
  cngSetKeyUsage :: "32 word \<Rightarrow> 'c \<Rightarrow> status \<times> 'c"
  cngFinalize :: "'c \<Rightarrow> status \<times> 'c"
  cngDelete :: "'c \<Rightarrow> status \<times> 'c"
  cngFree :: "'c \<Rightarrow> 'c"
  cngGetExportPolicy :: "'c \<Rightarrow> status \<times> 32 word \<times> nat"
  cngGetKeyUsage :: "'c \<Rightarrow> status \<times> 32 word \<times> nat"
  cngExportSize :: "'c \<Rightarrow> status \<times> nat"
  cngExport :: "nat \<Rightarrow> 'c \<Rightarrow> status \<times> bytes \<times> nat"
  cngSignSize :: "bytes \<Rightarrow> 'c \<Rightarrow> status \<times> nat"
  cngSign :: "bytes \<Rightarrow> nat \<Rightarrow> 'c \<Rightarrow> status \<times> bytes \<times> nat"

text \<open>\<open>QByteArray::resize\<close>; the bytes it may add are not initialised and are zero here.\<close>

definition resizeTo :: "nat \<Rightarrow> bytes \<Rightarrow> bytes" where
  "resizeTo n b = take n b @ replicate (n - length b) 0"

section \<open>Errors as text\<close>

fun hexDigits :: "nat \<Rightarrow> nat \<Rightarrow> bytes" where
  "hexDigits 0 n = []"
| "hexDigits (Suc k) n = hexDigits k (n div 16) @ [hexDigit (n mod 16)]"

definition cngFailure :: "qstring \<Rightarrow> status \<Rightarrow> qstring" where
  "cngFailure operation status =
     operation @ lit '' failed (CNG status 0x'' @ fromLatin1 (hexDigits 8 (unat status)) @ lit '').''"

section \<open>The public blob and the key policy\<close>

definition ecdsaP256Magic :: nat where "ecdsaP256Magic = 0x31534345"
definition coordinateSize :: nat where "coordinateSize = 32"
definition publicBlobSize :: nat where "publicBlobSize = 8 + 2 * coordinateSize"

definition exportPublicKey :: "'c cng \<Rightarrow> 'c \<Rightarrow> bytes" where
  "exportPublicKey C c =
     (let (status, sz) = cngExportSize C c in
      if status \<noteq> ERROR_SUCCESS \<or> sz = 0 \<or> sz > intMax then []
      else let (status, blob, sz) = cngExport C sz c in
        if status \<noteq> ERROR_SUCCESS then [] else resizeTo sz blob)"

definition isP256PublicBlob :: "bytes \<Rightarrow> bool" where
  "isP256PublicBlob blob =
     (if length blob \<noteq> publicBlobSize then False
      else le32At blob 0 = ecdsaP256Magic \<and> le32At blob 4 = coordinateSize)"

definition validateP256Key :: "'c cng \<Rightarrow> 'c \<Rightarrow> bool" where
  "validateP256Key C c =
     (let (status, policy, sz) = cngGetExportPolicy C c;
          exportPresent = (status = ERROR_SUCCESS \<and> sz = 4);
          (status, usage, sz) = cngGetKeyUsage C c;
          usagePresent = (status = ERROR_SUCCESS \<and> sz = 4)
      in isP256PublicBlob (exportPublicKey C c)
         \<and> isSigningOnlyNonExportablePolicy
             \<lparr>exportPolicyPresent = exportPresent, exportPolicy = policy,
              keyUsagePresent = usagePresent, keyUsage = usage\<rparr>)"

section \<open>\<open>CngKeyLifecycle\<close>\<close>

text \<open>
  The object's state: the platform with the key handle, whether \<open>key_\<close> holds a handle, and the
  status and operation of the last call, which the error text is made of.
\<close>

record 'c cng_lifecycle =
  lcPlatform :: 'c
  lcHandle :: bool
  lcStatus :: status
  lcOperation :: qstring

definition resetHandle :: "'c cng \<Rightarrow> 'c cng_lifecycle \<Rightarrow> 'c cng_lifecycle" where
  "resetHandle C s =
     (if lcHandle s then s\<lparr>lcPlatform := cngFree C (lcPlatform s), lcHandle := False\<rparr> else s)"

definition cngOpen :: "'c cng \<Rightarrow> 'c cng_lifecycle \<Rightarrow> KeyOperationResult \<times> 'c cng_lifecycle" where
  "cngOpen C s =
     (let s = resetHandle C s; (status, c) = cngOpenKey C (lcPlatform s);
          s = s\<lparr>lcPlatform := c, lcHandle := (status = ERROR_SUCCESS), lcStatus := status,
                lcOperation := lit ''Opening the persisted TPM identity key''\<rparr>
      in (if status = ERROR_SUCCESS then OpSuccess
          else if status = NTE_BAD_KEYSET then OpNotFound else OpFailure, s))"

definition cngCreate :: "'c cng \<Rightarrow> 'c cng_lifecycle \<Rightarrow> KeyOperationResult \<times> 'c cng_lifecycle" where
  "cngCreate C s =
     (let s = resetHandle C s; (status, c) = cngCreateKey C (lcPlatform s);
          s = s\<lparr>lcPlatform := c, lcHandle := (status = ERROR_SUCCESS), lcStatus := status,
                lcOperation := lit ''Creating the TPM identity key''\<rparr>
      in (if status = ERROR_SUCCESS then OpSuccess
          else if status = NTE_EXISTS then OpAlreadyExists else OpFailure, s))"

definition cngConfigure :: "'c cng \<Rightarrow> 'c cng_lifecycle \<Rightarrow> bool \<times> 'c cng_lifecycle" where
  "cngConfigure C s =
     (let (status, c) = cngSetExportPolicy C 0 (lcPlatform s);
          s = s\<lparr>lcPlatform := c, lcStatus := status,
                lcOperation := lit ''Disabling TPM private-key export''\<rparr>
      in if status \<noteq> ERROR_SUCCESS then (False, s)
         else let (status, c) = cngSetKeyUsage C signingFlag (lcPlatform s);
                  s = s\<lparr>lcPlatform := c, lcStatus := status,
                        lcOperation := lit ''Restricting TPM key usage''\<rparr>
              in (status = ERROR_SUCCESS, s))"

definition cngFinalizeCreated :: "'c cng \<Rightarrow> 'c cng_lifecycle \<Rightarrow> bool \<times> 'c cng_lifecycle" where
  "cngFinalizeCreated C s =
     (let (status, c) = cngFinalize C (lcPlatform s)
      in (status = ERROR_SUCCESS, s\<lparr>lcPlatform := c, lcStatus := status,
            lcOperation := lit ''Finalizing the TPM identity key''\<rparr>))"

definition cngValidate :: "'c cng \<Rightarrow> 'c cng_lifecycle \<Rightarrow> bool \<times> 'c cng_lifecycle" where
  "cngValidate C s =
     (validateP256Key C (lcPlatform s),
      s\<lparr>lcOperation := lit ''Validating the TPM identity key''\<rparr>)"

definition cngDeleteCreated :: "'c cng \<Rightarrow> 'c cng_lifecycle \<Rightarrow> 'c cng_lifecycle" where
  "cngDeleteCreated C s =
     (if \<not> lcHandle s then s
      else let (status, c) = cngDelete C (lcPlatform s);
               s = s\<lparr>lcPlatform := c, lcHandle := False\<rparr>
           in if status \<noteq> ERROR_SUCCESS then s\<lparr>lcPlatform := cngFree C (lcPlatform s)\<rparr> else s)"

definition cngKeyLifecycle :: "'c cng \<Rightarrow> 'c cng_lifecycle KeyLifecycle" where
  "cngKeyLifecycle C = \<lparr>openKey = cngOpen C, createKey = cngCreate C,
     configureCreatedKey = cngConfigure C, finalizeCreatedKey = cngFinalizeCreated C,
     validateKey = cngValidate C, deleteCreatedKey = cngDeleteCreated C\<rparr>"

definition newLifecycle :: "'c \<Rightarrow> 'c cng_lifecycle" where
  "newLifecycle c = \<lparr>lcPlatform = c, lcHandle = False, lcStatus = ERROR_SUCCESS, lcOperation = []\<rparr>"

section \<open>\<open>TpmIdentity\<close>\<close>

definition isAvailable :: "'c cng \<Rightarrow> 'c \<Rightarrow> bool" where
  "isAvailable C c = (cngOpenProvider C c = ERROR_SUCCESS)"

definition policyError :: qstring where
  "policyError = lit ''The TPM identity key does not satisfy the required security policy.''"

text \<open>The result, the error text left for the caller, and the platform afterwards.\<close>

definition ensureKey :: "'c cng \<Rightarrow> 'c \<Rightarrow> bool \<times> qstring \<times> 'c" where
  "ensureKey C c =
     (let status = cngOpenProvider C c in
      if status \<noteq> ERROR_SUCCESS
      then (False, cngFailure (lit ''Opening the TPM platform provider'') status, c)
      else let (result, s) = ensureKeyLifecycle (cngKeyLifecycle C) (newLifecycle c);
               after = lcPlatform (resetHandle C s)
      in if result = EnsureSuccess then (True, [], after)
         else if result = ValidationFailed then (False, policyError, after)
         else (False, cngFailure (lcOperation s) (lcStatus s), after))"

definition publicKeyBlob :: "'c cng \<Rightarrow> 'c \<Rightarrow> bytes" where
  "publicKeyBlob C c =
     (if cngOpenProvider C c \<noteq> ERROR_SUCCESS then []
      else let (status, c) = cngOpenKey C c in
        if status \<noteq> ERROR_SUCCESS then []
        else if \<not> validateP256Key C c then [] else exportPublicKey C c)"

definition publicKeySha256 :: "qt \<Rightarrow> 'c cng \<Rightarrow> 'c \<Rightarrow> qstring" where
  "publicKeySha256 q C c =
     (let publicKey = publicKeyBlob C c in
      if publicKey = [] then [] else fromLatin1 (map upperByte (toHex (qtSha256 q publicKey))))"

definition signError :: "status \<Rightarrow> qstring" where
  "signError status =
     (if status = ERROR_SUCCESS then lit ''The TPM returned an empty signature.''
      else cngFailure (lit ''Signing the challenge with the TPM'') status)"

definition signChallenge :: "qt \<Rightarrow> 'c cng \<Rightarrow> 'c \<Rightarrow> bytes \<Rightarrow> bytes \<times> qstring" where
  "signChallenge q C c challenge =
     (if challenge = [] then ([], lit ''The challenge must not be empty.'')
      else let status = cngOpenProvider C c in
      if status \<noteq> ERROR_SUCCESS
      then ([], cngFailure (lit ''Opening the TPM platform provider'') status)
      else let (status, c) = cngOpenKey C c in
      if status \<noteq> ERROR_SUCCESS
      then ([], cngFailure (lit ''Opening the persisted TPM identity key'') status)
      else if \<not> validateP256Key C c then ([], policyError)
      else let digest = qtSha256 q challenge; (status, sz) = cngSignSize C digest c in
      if status \<noteq> ERROR_SUCCESS \<or> sz = 0 \<or> sz > intMax then ([], signError status)
      else let (status, signature, used) = cngSign C digest sz c in
      if status \<noteq> ERROR_SUCCESS \<or> used = 0 then ([], signError status)
      else (resizeTo used signature, []))"

section \<open>\<open>EcdsaSignature::verifyCngP256\<close>\<close>

text \<open>
  BCrypt is a parameter: opening the algorithm provider, importing the blob, and the signature
  check of a digest under a blob.
\<close>

record bcrypt =
  bcryptOpenAlgorithm :: bool
  bcryptImportKey :: "bytes \<Rightarrow> bool"
  bcryptVerify :: "bytes \<Rightarrow> bytes \<Rightarrow> bytes \<Rightarrow> bool"

definition fitsUlong :: "bytes \<Rightarrow> bool" where
  "fitsUlong value = (length value \<le> 4294967295)"

definition verifyCngP256 :: "qt \<Rightarrow> bcrypt \<Rightarrow> bytes \<Rightarrow> bytes \<Rightarrow> bytes \<Rightarrow> bool" where
  "verifyCngP256 q B publicBlob challenge signature =
     (if challenge = [] \<or> length publicBlob \<noteq> publicBlobSize \<or> length signature \<noteq> 64
          \<or> \<not> fitsUlong publicBlob \<or> \<not> fitsUlong signature then False
      else if le32At publicBlob 0 \<noteq> ecdsaP256Magic \<or> le32At publicBlob 4 \<noteq> coordinateSize then False
      else if \<not> bcryptOpenAlgorithm B then False
      else if \<not> bcryptImportKey B publicBlob then False
      else bcryptVerify B publicBlob (qtSha256 q challenge) signature)"

section \<open>The contract of the platform provider\<close>

text \<open>
  \<open>persisted\<close> is the key the provider keeps under the client's name, \<open>pending\<close> says that the
  current handle is of a key created by this process. A created key can be deleted again.
\<close>

locale cng_contract =
  fixes C :: "'c cng"
    and persisted :: "'c \<Rightarrow> 'k option"
    and pending :: "'c \<Rightarrow> bool"
  assumes open_persisted: "cngOpenKey C c = (st, c') \<Longrightarrow> persisted c' = persisted c"
    and free_persisted: "persisted (cngFree C c) = persisted c"
    and create_new: "cngCreateKey C c = (ERROR_SUCCESS, c') \<Longrightarrow> persisted c = None \<and> pending c'"
    and create_failed: "cngCreateKey C c = (st, c') \<Longrightarrow> st \<noteq> ERROR_SUCCESS \<Longrightarrow> persisted c' = persisted c"
    and policy_pending: "cngSetExportPolicy C p c = (st, c') \<Longrightarrow> pending c \<Longrightarrow> pending c'"
    and usage_pending: "cngSetKeyUsage C u c = (st, c') \<Longrightarrow> pending c \<Longrightarrow> pending c'"
    and finalize_pending: "cngFinalize C c = (st, c') \<Longrightarrow> pending c \<Longrightarrow> pending c'"
    and delete_pending: "cngDelete C c = (st, c') \<Longrightarrow> pending c \<Longrightarrow>
      st = ERROR_SUCCESS \<and> persisted c' = None"

lemmas cng_operation_defs = cngKeyLifecycle_def cngOpen_def cngCreate_def cngConfigure_def
  cngFinalizeCreated_def cngValidate_def cngDeleteCreated_def resetHandle_def Let_def

sublocale cng_contract \<subseteq> key_store "cngKeyLifecycle C" "\<lambda>s. persisted (lcPlatform s)"
  "\<lambda>s. lcHandle s \<and> pending (lcPlatform s)" "\<lambda>s. validateP256Key C (lcPlatform s)"
proof unfold_locales
  fix s s' r
  assume "openKey (cngKeyLifecycle C) s = (r, s')"
  then show "persisted (lcPlatform s') = persisted (lcPlatform s)"
    by (auto simp: cng_operation_defs free_persisted split: prod.splits if_splits
        dest!: open_persisted)
next
  fix s s'
  assume "createKey (cngKeyLifecycle C) s = (OpSuccess, s')"
  then show "persisted (lcPlatform s) = None \<and> lcHandle s' \<and> pending (lcPlatform s')"
    by (auto simp: cng_operation_defs free_persisted split: prod.splits if_splits
        dest!: create_new)
next
  fix s s' r
  assume "createKey (cngKeyLifecycle C) s = (r, s')" and "r \<noteq> OpSuccess"
  then show "persisted (lcPlatform s') = persisted (lcPlatform s)"
    by (auto simp: cng_operation_defs free_persisted split: prod.splits if_splits
        dest!: create_failed)
next
  fix s s' b
  assume "configureCreatedKey (cngKeyLifecycle C) s = (b, s')" and "lcHandle s \<and> pending (lcPlatform s)"
  then show "lcHandle s' \<and> pending (lcPlatform s')"
    by (auto simp: cng_operation_defs split: prod.splits if_splits
        dest: policy_pending usage_pending)
next
  fix s s' b
  assume "finalizeCreatedKey (cngKeyLifecycle C) s = (b, s')" and "lcHandle s \<and> pending (lcPlatform s)"
  then show "lcHandle s' \<and> pending (lcPlatform s')"
    by (auto simp: cng_operation_defs split: prod.splits dest: finalize_pending)
next
  fix s :: "'c cng_lifecycle"
  assume "lcHandle s \<and> pending (lcPlatform s)"
  then show "persisted (lcPlatform (deleteCreatedKey (cngKeyLifecycle C) s)) = None"
    by (auto simp: cng_operation_defs split: prod.splits dest: delete_pending)
qed (auto simp: cng_operation_defs)

context cng_contract begin

lemma success_policy:
  assumes "ensureKeyLifecycle (cngKeyLifecycle C) s = (EnsureSuccess, s')"
  shows "isP256PublicBlob (exportPublicKey C (lcPlatform s'))
    \<and> cngGetExportPolicy C (lcPlatform s') = (ERROR_SUCCESS, 0, 4)
    \<and> cngGetKeyUsage C (lcPlatform s') = (ERROR_SUCCESS, signingFlag, 4)"
  using success_valid [OF assms]
  by (auto simp: validateP256Key_def isSigningOnlyNonExportablePolicy_def signingFlag_def Let_def
      split: prod.splits)

lemma ensureKey_failure:
  assumes "ensureKey C c = (False, e, c')"
  shows "persisted c' = persisted c"
proof (cases "cngOpenProvider C c = ERROR_SUCCESS")
  case True
  obtain r s where run: "ensureKeyLifecycle (cngKeyLifecycle C) (newLifecycle c) = (r, s)"
    by (cases "ensureKeyLifecycle (cngKeyLifecycle C) (newLifecycle c)")
  with True assms have "r \<noteq> EnsureSuccess" and "c' = lcPlatform (resetHandle C s)"
    by (auto simp: ensureKey_def Let_def split: if_splits)
  with failure_keeps_store [OF run] show ?thesis
    by (simp add: resetHandle_def free_persisted newLifecycle_def)
next
  case False
  with assms show ?thesis by (simp add: ensureKey_def)
qed

lemma ensureKey_existing:
  assumes "ensureKey C c = (ok, e, c')" and "persisted c = Some k"
  shows "persisted c' = Some k"
proof (cases "cngOpenProvider C c = ERROR_SUCCESS")
  case True
  obtain r s where run: "ensureKeyLifecycle (cngKeyLifecycle C) (newLifecycle c) = (r, s)"
    by (cases "ensureKeyLifecycle (cngKeyLifecycle C) (newLifecycle c)")
  with True assms have "c' = lcPlatform (resetHandle C s)"
    by (auto simp: ensureKey_def Let_def split: if_splits)
  with existing_key_kept [OF run, of k] assms(2) show ?thesis
    by (simp add: resetHandle_def free_persisted newLifecycle_def)
next
  case False
  with assms show ?thesis by (simp add: ensureKey_def)
qed

end

section \<open>A simulated platform\<close>

text \<open>A provider with one slot that behaves as documented, for concrete runs of the model.\<close>

record sim =
  simKey :: "bytes option"
  simPending :: bool

definition sampleBlob :: bytes where
  "sampleBlob = [0x45, 0x43, 0x53, 0x31, 32, 0, 0, 0] @ replicate 64 7"

definition simCng :: "sim cng" where
  "simCng = \<lparr>
     cngOpenProvider = (\<lambda>c. ERROR_SUCCESS),
     cngOpenKey = (\<lambda>c. (if simKey c = None then NTE_BAD_KEYSET else ERROR_SUCCESS, c)),
     cngCreateKey = (\<lambda>c. if simKey c = None then (ERROR_SUCCESS, c\<lparr>simPending := True\<rparr>)
       else (NTE_EXISTS, c)),
     cngSetExportPolicy = (\<lambda>p c. (ERROR_SUCCESS, c)),
     cngSetKeyUsage = (\<lambda>u c. (ERROR_SUCCESS, c)),
     cngFinalize = (\<lambda>c. (ERROR_SUCCESS, c\<lparr>simKey := Some sampleBlob\<rparr>)),
     cngDelete = (\<lambda>c. (ERROR_SUCCESS, c\<lparr>simKey := None, simPending := False\<rparr>)),
     cngFree = (\<lambda>c. c),
     cngGetExportPolicy = (\<lambda>c. (ERROR_SUCCESS, 0, 4)),
     cngGetKeyUsage = (\<lambda>c. (ERROR_SUCCESS, 2, 4)),
     cngExportSize = (\<lambda>c. (ERROR_SUCCESS, 72)),
     cngExport = (\<lambda>n c. (ERROR_SUCCESS, sampleBlob, 72)),
     cngSignSize = (\<lambda>d c. (ERROR_SUCCESS, 64)),
     cngSign = (\<lambda>d n c. (ERROR_SUCCESS, take 64 (d @ d), 64))\<rparr>"

interpretation simPlatform: cng_contract simCng simKey simPending
  by unfold_locales (auto simp: simCng_def NTE_EXISTS_def NTE_BAD_KEYSET_def split: if_splits)

interpretation simLifecycle: key_store "cngKeyLifecycle simCng" "\<lambda>s. simKey (lcPlatform s)"
  "\<lambda>s. lcHandle s \<and> simPending (lcPlatform s)" "\<lambda>s. validateP256Key simCng (lcPlatform s)"
  by (rule simPlatform.key_store_axioms)

section \<open>Properties\<close>

lemma cngFailure_nonempty [simp]: "cngFailure operation status \<noteq> []"
  by (simp add: cngFailure_def)

lemma signError_nonempty [simp]: "signError status \<noteq> []"
  by (simp add: signError_def)

lemma resizeTo_eq_Nil [simp]: "resizeTo n b = [] \<longleftrightarrow> n = 0"
  by (cases b) (auto simp: resizeTo_def)

lemma allowedRun_shape:
  assumes "allowedRun r tr"
  shows "Deleted \<in> set tr \<longleftrightarrow> Created OpSuccess \<in> set tr \<and> r \<noteq> EnsureSuccess"
    and "r = EnsureSuccess \<longleftrightarrow> tr \<noteq> [] \<and> last tr = Validated True"
  using assms by (cases rule: allowedRun.cases; auto split: if_splits)+

text \<open>
  Every run of the key lifecycle is one of the nine allowed sequences of operations with the
  result that belongs to it: a key is deleted only when this run created it and could not finish
  it, and success is reported only after validation.
\<close>

theorem ensureKeyLifecycle_runs:
  assumes "ensureKeyLifecycle (logged L) (s, []) = (r, s', tr)"
  shows "allowedRun r tr
    \<and> (Deleted \<in> set tr \<longleftrightarrow> Created OpSuccess \<in> set tr \<and> r \<noteq> EnsureSuccess)
    \<and> (r = EnsureSuccess \<longleftrightarrow> tr \<noteq> [] \<and> last tr = Validated True)"
  by (intro conjI ensureKeyLifecycle_allowed [OF assms] allowedRun_shape(1)
      [OF ensureKeyLifecycle_allowed [OF assms]] allowedRun_shape(2)
      [OF ensureKeyLifecycle_allowed [OF assms]])

theorem ensureKeyLifecycle_runs_witness:
  "allowedRun EnsureSuccess
    [Opened OpNotFound, Created OpSuccess, Configured True, Finalized True, Validated True]"
proof -
  let ?L = "\<lparr>openKey = Pair OpNotFound, createKey = Pair OpSuccess, configureCreatedKey = Pair True,
    finalizeCreatedKey = Pair True, validateKey = Pair True, deleteCreatedKey = id\<rparr> :: unit KeyLifecycle"
  have "ensureKeyLifecycle (logged ?L) ((), []) = (EnsureSuccess, (),
      [Opened OpNotFound, Created OpSuccess, Configured True, Finalized True, Validated True])"
    by (simp add: ensureKeyLifecycle_def completeCreatedKey_def leaveScope_def logged_def)
  from ensureKeyLifecycle_runs [OF this] show ?thesis by blast
qed


definition failingSim :: "sim cng" where
  "failingSim = simCng\<lparr>cngGetKeyUsage := (\<lambda>c. (ERROR_SUCCESS, 3, 4))\<rparr>"

lemma failingSim_contract: "cng_contract failingSim simKey simPending"
  by unfold_locales
     (auto simp: failingSim_def simCng_def NTE_EXISTS_def NTE_BAD_KEYSET_def split: if_splits)

lemma failingSim_run:
  "ensureKey failingSim \<lparr>simKey = None, simPending = False\<rparr>
    = (False, policyError, \<lparr>simKey = None, simPending = False\<rparr>)"
  by (simp add: ensureKey_def ensureKeyLifecycle_def completeCreatedKey_def leaveScope_def
      cng_operation_defs newLifecycle_def failingSim_def simCng_def validateP256Key_def
      NTE_BAD_KEYSET_def isSigningOnlyNonExportablePolicy_def)


text \<open>
  A key the platform already keeps is never replaced or removed, whatever the outcome.
\<close>

theorem ensureKey_keeps_existing_key:
  assumes "cng_contract C persisted pending" and "persisted c = Some k"
    and "ensureKey C c = (ok, e, c')"
  shows "persisted c' = Some k"
  by (rule cng_contract.ensureKey_existing [OF assms(1,3,2)])

theorem ensureKey_keeps_existing_key_witness:
  "simKey (snd (snd (ensureKey simCng \<lparr>simKey = Some [1], simPending = False\<rparr>))) = Some [1]"
  by (rule ensureKey_keeps_existing_key [OF simPlatform.cng_contract_axioms,
        of "\<lparr>simKey = Some [1], simPending = False\<rparr>" "[1]"]) (simp_all add: prod_eq_iff)

text \<open>
  A run that succeeds leaves a handle whose key is P-256, cannot be exported and may only
  sign.
\<close>

theorem ensureKeyLifecycle_success_policy:
  assumes "cng_contract C persisted pending"
    and "ensureKeyLifecycle (cngKeyLifecycle C) s = (EnsureSuccess, s')"
  shows "isP256PublicBlob (exportPublicKey C (lcPlatform s'))
    \<and> cngGetExportPolicy C (lcPlatform s') = (ERROR_SUCCESS, 0, 4)
    \<and> cngGetKeyUsage C (lcPlatform s') = (ERROR_SUCCESS, signingFlag, 4)"
  by (rule cng_contract.success_policy [OF assms])

lemma sampleBlob_valid: "isP256PublicBlob sampleBlob"
  by (simp add: isP256PublicBlob_def sampleBlob_def publicBlobSize_def coordinateSize_def
      ecdsaP256Magic_def le32At_def)

lemma sampleBlob_length: "length sampleBlob = 72"
  by (simp add: sampleBlob_def)

lemma simCng_run:
  "fst (ensureKeyLifecycle (cngKeyLifecycle simCng) (newLifecycle \<lparr>simKey = None, simPending = False\<rparr>))
    = EnsureSuccess"
  by (simp add: ensureKeyLifecycle_def completeCreatedKey_def leaveScope_def
      cng_operation_defs newLifecycle_def simCng_def validateP256Key_def exportPublicKey_def
      NTE_BAD_KEYSET_def isSigningOnlyNonExportablePolicy_def intMax_def
      resizeTo_def sampleBlob_valid sampleBlob_length)

theorem ensureKeyLifecycle_success_policy_witness:
  "isP256PublicBlob (exportPublicKey simCng (lcPlatform (snd (ensureKeyLifecycle
     (cngKeyLifecycle simCng) (newLifecycle \<lparr>simKey = None, simPending = False\<rparr>)))))"
proof -
  obtain s where run: "ensureKeyLifecycle (cngKeyLifecycle simCng)
      (newLifecycle \<lparr>simKey = None, simPending = False\<rparr>) = (EnsureSuccess, s)"
    using simCng_run by (metis prod.collapse)
  from ensureKeyLifecycle_success_policy [OF simPlatform.cng_contract_axioms run] run
  show ?thesis by simp
qed

text \<open>
  The public blob handed out is empty or a well-formed P-256 blob of a key with that policy.
\<close>

theorem publicKeyBlob_wellformed:
  "publicKeyBlob C c = [] \<or> isP256PublicBlob (publicKeyBlob C c)"
  by (auto simp: publicKeyBlob_def validateP256Key_def Let_def split: prod.splits)

text \<open>
  Signing returns a signature or an error text, and never both or neither.
\<close>

theorem signChallenge_error_iff:
  "fst (signChallenge q C c challenge) = [] \<longleftrightarrow> snd (signChallenge q C c challenge) \<noteq> []"
  by (auto simp: signChallenge_def policyError_def Let_def split: prod.splits)

text \<open>
  Verification accepts exactly the non-empty challenges with a 64-byte signature under a
  well-formed P-256 blob that the provider imports and verifies against the SHA-256 digest.
\<close>

theorem verifyCngP256_iff:
  "verifyCngP256 q B publicBlob challenge signature \<longleftrightarrow>
     challenge \<noteq> [] \<and> isP256PublicBlob publicBlob \<and> length signature = 64
     \<and> bcryptOpenAlgorithm B \<and> bcryptImportKey B publicBlob
     \<and> bcryptVerify B publicBlob (qtSha256 q challenge) signature"
  by (auto simp: verifyCngP256_def isP256PublicBlob_def fitsUlong_def publicBlobSize_def
      coordinateSize_def)

section \<open>\<open>TpmDeviceSigner\<close> of \<open>AuthManager.cpp\<close>\<close>

text \<open>The blob, empty on failure, and the error text.\<close>

definition signerPublicKeyBlob :: "'c cng \<Rightarrow> 'c \<Rightarrow> bool \<times> bytes \<times> qstring" where
  "signerPublicKeyBlob C c =
     (let publicBlob = publicKeyBlob C c in
      if publicBlob \<noteq> [] then (True, publicBlob, [])
      else (False, publicBlob, lit ''The TPM public key is unavailable.''))"

definition deviceSign :: "qt \<Rightarrow> 'c cng \<Rightarrow> 'c \<Rightarrow> bytes \<Rightarrow> bool \<times> bytes \<times> bytes" where
  "deviceSign q C c input =
     (if input = [] then (False, [], [])
      else let (ok, publicBlob, e) = signerPublicKeyBlob C c in
      if \<not> ok then (False, [], publicBlob)
      else let (signature, e) = signChallenge q C c input in (signature \<noteq> [], signature, publicBlob))"

text \<open>A signature is handed on only with the valid P-256 blob of the key that made it.\<close>

lemma deviceSign_success:
  assumes "deviceSign q C c input = (True, signature, publicBlob)"
  shows "input \<noteq> [] \<and> signature \<noteq> [] \<and> publicBlob = publicKeyBlob C c \<and> publicBlob \<noteq> []
    \<and> fst (signChallenge q C c input) = signature"
  using assms by (auto simp: deviceSign_def signerPublicKeyBlob_def Let_def split: if_splits prod.splits)

end
