(* ===== verification/SessionToken.thy ===== *)
theory SessionToken
  imports JsonScan Base64 "HOL-Library.Monad_Syntax"
begin

text \<open>
  \<open>license-client/src/security/SessionTokenVerifier.cpp\<close>: the configured key ring, and the
  verification of a session token: its compact form, the canonical segments, the protected
  header, the Ed25519 signature, the claims with their bindings and times, and the thumbprint
  of the device key it is bound to. OpenSSL's EVP calls are parameters.
\<close>

section \<open>Claims\<close>

definition kMaxClockSkewSeconds :: int where "kMaxClockSkewSeconds = 60"
definition kRequiredLifetimeSeconds :: int where "kRequiredLifetimeSeconds = 600"
definition kMaximumTokenBytes :: nat where "kMaximumTokenBytes = 16 * 1024"

definition validKeyIdChar :: "qchar \<Rightarrow> bool" where
  "validKeyIdChar c \<longleftrightarrow> (65 \<le> c \<and> c \<le> 90) \<or> (97 \<le> c \<and> c \<le> 122) \<or> (48 \<le> c \<and> c \<le> 57)
     \<or> c = 46 \<or> c = 95 \<or> c = 45"

definition validKeyId :: "qstring \<Rightarrow> bool" where
  "validKeyId keyId = (if keyId = [] then False else list_all validKeyIdChar keyId)"

definition validStringClaim :: "jsonObject \<Rightarrow> qstring \<Rightarrow> qstring option" where
  "validStringClaim claims name =
     (let claim = jsonValue claims name in
      if \<not> jsonContains claims name \<or> \<not> isString claim \<or> jsonToString claim = [] then None
      else Some (jsonToString claim))"

text \<open>
  \<open>static_cast<double>\<close> of a 64-bit integer rounds to the nearest double, ties to even, with 53
  significant bits; \<open>excessBits\<close> is the number of bits to round away. \<open>static_cast<qint64>\<close> of a
  double that is out of range is undefined behaviour: its value is the parameter \<open>ub\<close>.
\<close>

fun excessBits :: "nat \<Rightarrow> nat" where
  "excessBits m = (if m < 9007199254740992 then 0 else Suc (excessBits (m div 2)))"

declare excessBits.simps [simp del]

definition int64ToDouble :: "int \<Rightarrow> rat" where
  "int64ToDouble i =
     (let m = nat \<bar>i\<bar>; p = 2 ^ excessBits m; quot = m div p; r = m mod p;
          up = (2 * r > p \<or> 2 * r = p \<and> odd quot)
      in of_int (sgn i) * of_nat ((if up then quot + 1 else quot) * p))"

definition doubleToInt64 :: "int \<Rightarrow> rat \<Rightarrow> int" where
  "doubleToInt64 ub r =
     (let t = (if r < 0 then \<lceil>r\<rceil> else \<lfloor>r\<rfloor>) in if - (2 ^ 63) \<le> t \<and> t < 2 ^ 63 then t else ub)"

definition validIntegerClaim :: "int \<Rightarrow> jsonObject \<Rightarrow> qstring \<Rightarrow> int option" where
  "validIntegerClaim ub claims name =
     (let claim = jsonValue claims name in
      if \<not> jsonContains claims name then None
      else case claim of
        JDouble (Finite number) \<Rightarrow>
          if number < 0 \<or> number > int64ToDouble (2 ^ 63 - 1) \<or> of_int \<lfloor>number\<rfloor> \<noteq> number then None
          else let integer = doubleToInt64 ub number in
            if int64ToDouble integer \<noteq> number then None else Some integer
      | _ \<Rightarrow> None)"

section \<open>The verifier\<close>

record SessionTokenVerifier =
  keys :: "(qstring \<times> bytes) list"
  cfgIssuer :: qstring
  cfgAudience :: qstring
  cfgApplicationID :: qstring
  cfgProductID :: qstring
  cfgProduct :: qstring

definition emptyVerifier :: SessionTokenVerifier where
  "emptyVerifier = \<lparr>keys = [], cfgIssuer = [], cfgAudience = [], cfgApplicationID = [],
     cfgProductID = [], cfgProduct = []\<rparr>"

text \<open>\<open>indexOf\<close> of a character.\<close>

fun indexOf :: "'c \<Rightarrow> 'c list \<Rightarrow> nat option" where
  "indexOf c [] = None"
| "indexOf c (x # xs) = (if x = c then Some 0 else map_option Suc (indexOf c xs))"

abbreviation equalsChar :: qchar where "equalsChar \<equiv> 61"
abbreviation commaChar :: qchar where "commaChar \<equiv> 44"

fun keyRingFrom :: "qt \<Rightarrow> (qstring \<times> bytes) list \<Rightarrow> qstring list \<Rightarrow> (qstring \<times> bytes) list option" where
  "keyRingFrom q ring [] = Some ring"
| "keyRingFrom q ring (entry # entries) =
     (case indexOf equalsChar entry of None \<Rightarrow> None
      | Some separator \<Rightarrow>
        if separator = 0 \<or> separator + 1 \<ge> length entry then None
        else let kid = take separator entry in
          if \<not> validKeyId kid \<or> map_of ring kid \<noteq> None then None
          else case decodeCanonicalStandardBase64Key q (drop (separator + 1) entry) of
            None \<Rightarrow> None
          | Some publicKey \<Rightarrow> keyRingFrom q ((kid, publicKey) # ring) entries)"

definition fromConfiguredKeyRing ::
    "qt \<Rightarrow> qstring \<Rightarrow> qstring \<Rightarrow> qstring \<Rightarrow> qstring \<Rightarrow> qstring \<Rightarrow> qstring \<Rightarrow> SessionTokenVerifier" where
  "fromConfiguredKeyRing q encodedKeys issuer audience applicationID productID product =
     (case keyRingFrom q [] (splitOn commaChar encodedKeys) of
        None \<Rightarrow> emptyVerifier
      | Some ring \<Rightarrow> \<lparr>keys = ring, cfgIssuer = issuer, cfgAudience = audience,
          cfgApplicationID = applicationID, cfgProductID = productID, cfgProduct = product\<rparr>)"

definition verifierConfigured :: "qt \<Rightarrow> SessionTokenVerifier \<Rightarrow> bool" where
  "verifierConfigured q V =
     (if keys V = [] \<or> qtTrimmed q (cfgIssuer V) = [] \<or> qtTrimmed q (cfgAudience V) = []
          \<or> qtTrimmed q (cfgApplicationID V) = [] \<or> qtTrimmed q (cfgProductID V) = []
          \<or> qtTrimmed q (cfgProduct V) = [] then False
      else list_all (\<lambda>(kid, key). validKeyId kid \<and> length key = 32) (keys V))"

text \<open>
  The EVP calls: making a key from 32 raw bytes, making a context, starting the verification
  and the verification of a signature of a message, with OpenSSL's integer results.
\<close>

record 'k evp =
  evpNewRawPublicKey :: "bytes \<Rightarrow> 'k option"
  evpContextNew :: bool
  evpDigestVerifyInit :: "'k \<Rightarrow> int"
  evpDigestVerify :: "'k \<Rightarrow> bytes \<Rightarrow> bytes \<Rightarrow> int"

definition verifySignature :: "'k evp \<Rightarrow> bytes \<Rightarrow> bytes \<Rightarrow> bytes \<Rightarrow> bool" where
  "verifySignature E publicKeyBytes message signature =
     (case evpNewRawPublicKey E publicKeyBytes of None \<Rightarrow> False
      | Some publicKey \<Rightarrow> evpContextNew E \<and> evpDigestVerifyInit E publicKey = 1
          \<and> evpDigestVerify E publicKey signature message = 1)"

record VerifiedSession =
  vsValid :: bool
  vsError :: qstring
  vsExpiresAt :: "int option"
  vsSessionId :: qstring
  vsTokenId :: qstring
  vsThumbprint :: qstring

definition invalidSession :: VerifiedSession where
  "invalidSession = \<lparr>vsValid = False, vsError = lit ''Invalid session token.'', vsExpiresAt = None,
     vsSessionId = [], vsTokenId = [], vsThumbprint = []\<rparr>"

text \<open>Leaving with \<open>invalidSession()\<close> unless a condition holds.\<close>

definition require :: "bool \<Rightarrow> unit option" where
  "require b = (if b then Some () else None)"

definition protectedHeaderKeyId :: "jsonObject \<Rightarrow> qstring option" where
  "protectedHeaderKeyId header =
     (if length header \<noteq> 3
         \<or> \<not> jsonContains header (lit ''alg'') \<or> \<not> jsonContains header (lit ''typ'')
         \<or> \<not> jsonContains header (lit ''kid'') \<or> \<not> isString (jsonValue header (lit ''alg''))
         \<or> \<not> isString (jsonValue header (lit ''typ'')) \<or> \<not> isString (jsonValue header (lit ''kid''))
         \<or> jsonToString (jsonValue header (lit ''alg'')) \<noteq> lit ''EdDSA''
         \<or> jsonToString (jsonValue header (lit ''typ'')) \<noteq> lit ''JWT'' then None
      else Some (jsonToString (jsonValue header (lit ''kid''))))"

definition confirmationThumbprint :: "qt \<Rightarrow> jsonObject \<Rightarrow> qstring option" where
  "confirmationThumbprint q confirmation = do {
     thumbprint \<leftarrow> validStringClaim confirmation (lit ''jkt'');
     thumbprintBytes \<leftarrow> decodeCanonicalBase64Url q (qtToLatin1 q thumbprint);
     _ \<leftarrow> require (length thumbprintBytes = 32);
     Some thumbprint }"

definition verifyClaims ::
    "qt \<Rightarrow> int \<Rightarrow> SessionTokenVerifier \<Rightarrow> int \<Rightarrow> qstring \<Rightarrow> qstring \<Rightarrow> jsonObject \<Rightarrow> VerifiedSession option" where
  "verifyClaims q ub V now expectedDevice expectedLicense claims = do {
     issuer \<leftarrow> validStringClaim claims (lit ''iss'');
     audience \<leftarrow> validStringClaim claims (lit ''aud'');
     subject \<leftarrow> validStringClaim claims (lit ''sub'');
     applicationID \<leftarrow> validStringClaim claims (lit ''app'');
     productID \<leftarrow> validStringClaim claims (lit ''product_id'');
     product \<leftarrow> validStringClaim claims (lit ''product'');
     license \<leftarrow> validStringClaim claims (lit ''license_id'');
     device \<leftarrow> validStringClaim claims (lit ''device_id'');
     sessionID \<leftarrow> validStringClaim claims (lit ''sid'');
     tokenID \<leftarrow> validStringClaim claims (lit ''jti'');
     issuedAt \<leftarrow> validIntegerClaim ub claims (lit ''iat'');
     notBefore \<leftarrow> validIntegerClaim ub claims (lit ''nbf'');
     expiresAt \<leftarrow> validIntegerClaim ub claims (lit ''exp'');
     features \<leftarrow> asArray (jsonValue claims (lit ''features''));
     confirmation \<leftarrow> asObject (jsonValue claims (lit ''cnf''));
     _ \<leftarrow> require (list_all isString features);
     thumbprint \<leftarrow> confirmationThumbprint q confirmation;
     _ \<leftarrow> require (issuer = cfgIssuer V \<and> audience = cfgAudience V
        \<and> applicationID = cfgApplicationID V \<and> productID = cfgProductID V
        \<and> product = cfgProduct V \<and> license = expectedLicense \<and> device = expectedDevice
        \<and> issuedAt \<le> now + kMaxClockSkewSeconds
        \<and> notBefore \<le> now + kMaxClockSkewSeconds \<and> expiresAt > now
        \<and> expiresAt > issuedAt \<and> expiresAt - issuedAt = kRequiredLifetimeSeconds
        \<and> notBefore \<le> expiresAt);
     Some \<lparr>vsValid = True, vsError = [], vsExpiresAt = Some expiresAt, vsSessionId = sessionID,
       vsTokenId = tokenID, vsThumbprint = thumbprint\<rparr> }"

definition verifyParts ::
    "qt \<Rightarrow> qtJson \<Rightarrow> 'k evp \<Rightarrow> int \<Rightarrow> SessionTokenVerifier \<Rightarrow> int \<Rightarrow> qstring \<Rightarrow> qstring
       \<Rightarrow> bytes \<Rightarrow> bytes \<Rightarrow> bytes \<Rightarrow> VerifiedSession option" where
  "verifyParts q J E ub V now expectedDevice expectedLicense part0 part1 part2 = do {
     headerBytes \<leftarrow> decodeCanonicalBase64Url q part0;
     payloadBytes \<leftarrow> decodeCanonicalBase64Url q part1;
     signature \<leftarrow> decodeCanonicalBase64Url q part2;
     _ \<leftarrow> require (length signature = 64 \<and> hasUniqueJsonMembers J headerBytes
        \<and> hasUniqueJsonMembers J payloadBytes);
     header \<leftarrow> objectOf J headerBytes;
     claims \<leftarrow> objectOf J payloadBytes;
     kid \<leftarrow> protectedHeaderKeyId header;
     key \<leftarrow> map_of (keys V) kid;
     _ \<leftarrow> require (verifySignature E key (part0 @ dotByte # part1) signature);
     verifyClaims q ub V now expectedDevice expectedLicense claims }"

definition verify ::
    "qt \<Rightarrow> qtJson \<Rightarrow> 'k evp \<Rightarrow> int \<Rightarrow> SessionTokenVerifier \<Rightarrow> int \<Rightarrow> qstring \<Rightarrow> qstring \<Rightarrow> qstring
       \<Rightarrow> VerifiedSession" where
  "verify q J E ub V now token expectedDevice expectedLicense =
     (let tokenBytes = qtToUtf8 q token; parts = splitOn dotByte tokenBytes in
      if \<not> verifierConfigured q V \<or> length tokenBytes > kMaximumTokenBytes \<or> length parts \<noteq> 3
          \<or> expectedDevice = [] \<or> expectedLicense = [] then invalidSession
      else case verifyParts q J E ub V now expectedDevice expectedLicense
          (parts ! 0) (parts ! 1) (parts ! 2) of
        None \<Rightarrow> invalidSession
      | Some session \<Rightarrow> session)"

section \<open>Claims\<close>

lemma require_Some [simp]: "require b = Some u \<longleftrightarrow> b"
  by (cases u) (simp add: require_def)

lemma validStringClaim_Some_iff:
  "validStringClaim claims name = Some v \<longleftrightarrow> map_of claims name = Some (JString v) \<and> v \<noteq> []"
  by (cases "map_of claims name"; cases "the (map_of claims name)")
     (auto simp: validStringClaim_def jsonValue_def jsonContains_def)

lemma int64ToDouble_small:
  assumes "\<bar>i\<bar> < 2 ^ 53"
  shows "int64ToDouble i = of_int i"
proof -
  have "excessBits (nat \<bar>i\<bar>) = 0"
    using assms by (subst excessBits.simps) (simp add: nat_less_iff)
  then have "int64ToDouble i = of_int (sgn i) * of_nat (nat \<bar>i\<bar>)"
    by (simp add: int64ToDouble_def)
  also have "\<dots> = of_int (sgn i * \<bar>i\<bar>)"
    by (simp only: of_int_mult of_nat_nat abs_ge_zero)
  finally show ?thesis by (simp only: sgn_mult_abs)
qed

lemma int64ToDouble_nonneg: "0 \<le> int64ToDouble i \<longleftrightarrow> 0 \<le> i"
proof -
  define m where "m = nat \<bar>i\<bar>"
  define p where "p = (2::nat) ^ excessBits m"
  have pos: "p > 0" by (simp add: p_def)
  have big: "m > 0 \<Longrightarrow> p \<le> m"
    unfolding p_def
  proof (induction m rule: excessBits.induct)
    case (1 m)
    show ?case
    proof (cases "m < 9007199254740992")
      case False
      then have "2 ^ excessBits (m div 2) \<le> m div 2" using 1 by simp
      with False show ?thesis by (subst excessBits.simps) simp
    qed (use 1 in \<open>subst excessBits.simps, simp\<close>)
  qed
  define k where "k = (if 2 * (m mod p) > p \<or> 2 * (m mod p) = p \<and> odd (m div p)
      then m div p + 1 else m div p) * p"
  have result: "int64ToDouble i = of_int (sgn i) * of_nat k"
    unfolding int64ToDouble_def Let_def m_def p_def k_def by simp
  have "m > 0 \<Longrightarrow> k > 0"
    using big pos by (simp add: k_def div_greater_zero_iff)
  then show ?thesis
    unfolding result by (cases "i = 0"; cases "i < 0") (simp_all add: m_def)
qed

lemma int64ToDouble_max: "int64ToDouble 9223372036854775807 = 9223372036854775808"
proof -
  have "excessBits 9223372036854775807 = 10"
    by (simp add: excessBits.simps)
  then show ?thesis by (simp add: int64ToDouble_def)
qed

lemma validIntegerClaim_nonneg:
  "validIntegerClaim ub claims name = Some i \<Longrightarrow> 0 \<le> i"
  using int64ToDouble_nonneg [of i]
  by (auto simp: validIntegerClaim_def Let_def split: if_splits json.splits double.splits)

lemma validIntegerClaim_exact:
  assumes "0 \<le> i" "i < 2 ^ 53" "map_of claims name = Some (JDouble (Finite (of_int i)))"
  shows "validIntegerClaim ub claims name = Some i"
proof -
  have "doubleToInt64 ub (of_int i) = i"
    using assms(1,2) by (simp add: doubleToInt64_def Let_def)
  moreover have "int64ToDouble i = of_int i"
    using assms(1,2) by (simp add: int64ToDouble_small)
  moreover have "(of_int i :: rat) \<le> int64ToDouble (2 ^ 63 - 1)"
    using assms(2) by (simp add: int64ToDouble_max)
  ultimately show ?thesis
    using assms by (simp add: validIntegerClaim_def jsonValue_def jsonContains_def Let_def not_less)
qed

section \<open>Accepted tokens\<close>

text \<open>
  What a verifier may accept: the claims a service issues for one session of a device and a
  license under the verifier's configuration, and when.
\<close>

definition stringClaim :: "jsonObject \<Rightarrow> string \<Rightarrow> qstring \<Rightarrow> bool" where
  "stringClaim claims name v \<longleftrightarrow> map_of claims (lit name) = Some (JString v) \<and> v \<noteq> []"

definition boundTo :: "SessionTokenVerifier \<Rightarrow> qstring \<Rightarrow> qstring \<Rightarrow> jsonObject \<Rightarrow> bool" where
  "boundTo V device license claims \<longleftrightarrow>
     stringClaim claims ''iss'' (cfgIssuer V) \<and> stringClaim claims ''aud'' (cfgAudience V)
     \<and> stringClaim claims ''app'' (cfgApplicationID V)
     \<and> stringClaim claims ''product_id'' (cfgProductID V)
     \<and> stringClaim claims ''product'' (cfgProduct V)
     \<and> stringClaim claims ''license_id'' license \<and> stringClaim claims ''device_id'' device"

text \<open>The instants at which a token issued at \<open>issuedAt\<close> may be used.\<close>

definition timely :: "int \<Rightarrow> int \<Rightarrow> int \<Rightarrow> int \<Rightarrow> bool" where
  "timely now issuedAt notBefore expiresAt \<longleftrightarrow>
     issuedAt \<le> now + 60 \<and> notBefore \<le> now + 60 \<and> now < expiresAt
     \<and> expiresAt = issuedAt + 600 \<and> notBefore \<le> expiresAt"

definition sessionClaims ::
    "qt \<Rightarrow> int \<Rightarrow> SessionTokenVerifier \<Rightarrow> int \<Rightarrow> qstring \<Rightarrow> qstring \<Rightarrow> jsonObject \<Rightarrow> VerifiedSession \<Rightarrow> bool" where
  "sessionClaims q ub V now device license claims session \<longleftrightarrow>
     boundTo V device license claims
     \<and> (\<exists>subject. stringClaim claims ''sub'' subject)
     \<and> stringClaim claims ''sid'' (vsSessionId session)
     \<and> stringClaim claims ''jti'' (vsTokenId session)
     \<and> (\<exists>issuedAt notBefore expiresAt.
          validIntegerClaim ub claims (lit ''iat'') = Some issuedAt
          \<and> validIntegerClaim ub claims (lit ''nbf'') = Some notBefore
          \<and> validIntegerClaim ub claims (lit ''exp'') = Some expiresAt
          \<and> timely now issuedAt notBefore expiresAt \<and> vsExpiresAt session = Some expiresAt)
     \<and> (\<exists>features. jsonValue claims (lit ''features'') = JArray features \<and> list_all isString features)
     \<and> (\<exists>confirmation thumbprint. jsonValue claims (lit ''cnf'') = JObject confirmation
          \<and> stringClaim confirmation ''jkt'' (vsThumbprint session)
          \<and> decodeCanonicalBase64Url q (qtToLatin1 q (vsThumbprint session)) = Some thumbprint
          \<and> length thumbprint = 32)
     \<and> vsValid session \<and> vsError session = []"

lemma confirmationThumbprint_Some_iff:
  "confirmationThumbprint q confirmation = Some t \<longleftrightarrow> stringClaim confirmation ''jkt'' t
     \<and> (\<exists>b. decodeCanonicalBase64Url q (qtToLatin1 q t) = Some b \<and> length b = 32)"
  by (auto simp: confirmationThumbprint_def bind_eq_Some_conv validStringClaim_Some_iff stringClaim_def)

lemma verifyClaims_sound:
  assumes "verifyClaims q ub V now device license claims = Some session"
  shows "sessionClaims q ub V now device license claims session"
  using assms
  unfolding verifyClaims_def bind_eq_Some_conv require_Some validStringClaim_Some_iff
    confirmationThumbprint_Some_iff asArray_Some_iff asObject_Some_iff
    kMaxClockSkewSeconds_def kRequiredLifetimeSeconds_def
  by (elim exE conjE, hypsubst)
     (auto simp: sessionClaims_def boundTo_def stringClaim_def timely_def)

lemma verifyClaims_complete:
  assumes "sessionClaims q ub V now device license claims session"
  shows "verifyClaims q ub V now device license claims = Some session"
proof -
  obtain sub iat nbf exp features confirmation b where c: "boundTo V device license claims"
    "stringClaim claims ''sub'' sub" "stringClaim claims ''sid'' (vsSessionId session)"
    "stringClaim claims ''jti'' (vsTokenId session)"
    "validIntegerClaim ub claims (lit ''iat'') = Some iat"
    "validIntegerClaim ub claims (lit ''nbf'') = Some nbf"
    "validIntegerClaim ub claims (lit ''exp'') = Some exp"
    "timely now iat nbf exp" "vsExpiresAt session = Some exp"
    "jsonValue claims (lit ''features'') = JArray features" "list_all isString features"
    "jsonValue claims (lit ''cnf'') = JObject confirmation"
    "stringClaim confirmation ''jkt'' (vsThumbprint session)"
    "decodeCanonicalBase64Url q (qtToLatin1 q (vsThumbprint session)) = Some b" "length b = 32"
    "vsValid session" "vsError session = []"
    using assms unfolding sessionClaims_def by blast
  have "confirmationThumbprint q confirmation = Some (vsThumbprint session)"
    using c by (auto simp: confirmationThumbprint_Some_iff)
  moreover have "stringClaim claims name v \<Longrightarrow> validStringClaim claims (lit name) = Some v" for name v
    by (simp add: stringClaim_def validStringClaim_Some_iff)
  moreover have "iat \<le> now + 60" "nbf \<le> now + 60" "now < exp" "iat < exp" "exp - iat = 600"
      "nbf \<le> exp"
    using c(8) by (simp_all add: timely_def)
  moreover have "session = \<lparr>vsValid = True, vsError = [], vsExpiresAt = Some exp,
      vsSessionId = vsSessionId session, vsTokenId = vsTokenId session,
      vsThumbprint = vsThumbprint session\<rparr>"
    using c by simp
  ultimately show ?thesis
    using c(1-7,10-13) unfolding boundTo_def
    by (elim conjE) (simp add: verifyClaims_def kMaxClockSkewSeconds_def
        kRequiredLifetimeSeconds_def require_def)
qed

lemma verifyClaims_iff:
  "verifyClaims q ub V now device license claims = Some session
    \<longleftrightarrow> sessionClaims q ub V now device license claims session"
  using verifyClaims_sound verifyClaims_complete by blast

definition acceptedToken ::
    "qt \<Rightarrow> qtJson \<Rightarrow> 'k evp \<Rightarrow> int \<Rightarrow> SessionTokenVerifier \<Rightarrow> int \<Rightarrow> bytes \<Rightarrow> qstring \<Rightarrow> qstring
       \<Rightarrow> VerifiedSession \<Rightarrow> bool" where
  "acceptedToken q J E ub V now tokenBytes device license session \<longleftrightarrow>
     verifierConfigured q V \<and> length tokenBytes \<le> 16384 \<and> device \<noteq> [] \<and> license \<noteq> []
     \<and> (\<exists>h p s header claims kid key.
          tokenBytes = compactToken h p s \<and> h \<noteq> [] \<and> p \<noteq> [] \<and> length s = 64
          \<and> hasUniqueJsonMembers J h \<and> hasUniqueJsonMembers J p
          \<and> fromJson J h = Some (JObject header) \<and> fromJson J p = Some (JObject claims)
          \<and> protectedHeaderKeyId header = Some kid \<and> map_of (keys V) kid = Some key
          \<and> verifySignature E key (rfcBase64Url h @ dotByte # rfcBase64Url p) s
          \<and> sessionClaims q ub V now device license claims session)"

lemma splitOn_three:
  assumes "length (splitOn c t) = 3"
  shows "t = splitOn c t ! 0 @ c # splitOn c t ! 1 @ c # splitOn c t ! 2"
proof -
  obtain a b d where "splitOn c t = [a, b, d]"
    using assms by (auto simp: numeral_3_eq_3 length_Suc_conv)
  then show ?thesis using join_splitOn [of c t] by simp
qed

lemma verifyParts_iff:
  assumes "qtUrlCodec q"
  shows "verifyParts q J E ub V now device license p0 p1 p2 = Some session \<longleftrightarrow>
    (\<exists>h p s header claims kid key.
       p0 = rfcBase64Url h \<and> p1 = rfcBase64Url p \<and> p2 = rfcBase64Url s \<and> h \<noteq> [] \<and> p \<noteq> []
       \<and> length s = 64 \<and> hasUniqueJsonMembers J h \<and> hasUniqueJsonMembers J p
       \<and> fromJson J h = Some (JObject header) \<and> fromJson J p = Some (JObject claims)
       \<and> protectedHeaderKeyId header = Some kid \<and> map_of (keys V) kid = Some key
       \<and> verifySignature E key (rfcBase64Url h @ dotByte # rfcBase64Url p) s
       \<and> sessionClaims q ub V now device license claims session)"
proof -
  have nonempty: "length s = 64 \<Longrightarrow> s \<noteq> []" for s :: bytes by auto
  show ?thesis
    unfolding verifyParts_def bind_eq_Some_conv require_Some verifyClaims_iff objectOf_Some_iff
      decodeCanonicalBase64Url_iff [OF assms]
    using nonempty by (fastforce simp del: length_0_conv)
qed

lemma sessionClaims_valid: "sessionClaims q ub V now device license claims session \<Longrightarrow> vsValid session"
  by (simp add: sessionClaims_def)

lemma invalidSession_not_valid [simp]: "\<not> vsValid invalidSession"
  by (simp add: invalidSession_def)

lemma verifyParts_valid:
  "verifyParts q J E ub V now device license p0 p1 p2 = Some session \<Longrightarrow> vsValid session"
  unfolding verifyParts_def bind_eq_Some_conv verifyClaims_iff
  by (elim exE conjE) (rule sessionClaims_valid)

lemma verify_valid_iff:
  assumes "qtUrlCodec q"
  shows "verify q J E ub V now token device license = session \<and> vsValid session
    \<longleftrightarrow> acceptedToken q J E ub V now (qtToUtf8 q token) device license session"
    (is "?l \<longleftrightarrow> ?r")
proof
  assume ?l
  define parts where "parts = splitOn dotByte (qtToUtf8 q token)"
  have guard: "verifierConfigured q V" "length (qtToUtf8 q token) \<le> 16384" "length parts = 3"
      "device \<noteq> []" "license \<noteq> []"
    using \<open>?l\<close> by (auto simp: verify_def Let_def kMaximumTokenBytes_def parts_def split: if_splits)
  then have "verifyParts q J E ub V now device license (parts ! 0) (parts ! 1) (parts ! 2) = Some session"
    using \<open>?l\<close>
    by (auto simp: verify_def Let_def kMaximumTokenBytes_def simp flip: parts_def split: option.splits)
  with guard show ?r
    using splitOn_three [OF guard(3) [unfolded parts_def]]
    unfolding verifyParts_iff [OF assms] acceptedToken_def compactToken_def
    by (fold parts_def) metis
next
  assume ?r
  then obtain h p s where token: "qtToUtf8 q token = compactToken h p s"
    and guard: "verifierConfigured q V" "length (qtToUtf8 q token) \<le> 16384" "device \<noteq> []" "license \<noteq> []"
    and parts: "verifyParts q J E ub V now device license
      (rfcBase64Url h) (rfcBase64Url p) (rfcBase64Url s) = Some session"
    and "vsValid session"
    unfolding acceptedToken_def verifyParts_iff [OF assms] using sessionClaims_valid by blast
  then show ?l
    by (simp add: verify_def splitOn_compactToken kMaximumTokenBytes_def)
qed

lemma verify_valid_parts:
  assumes "vsValid (verify q J E ub V now token device license)"
  obtains e where "vsExpiresAt (verify q J E ub V now token device license) = Some e"
    and "now < e" and "qtToUtf8 q token \<noteq> []"
proof -
  have three: "length (splitOn dotByte (qtToUtf8 q token)) = 3"
    using assms by (simp add: verify_def Let_def split: if_splits)
  then have "qtToUtf8 q token \<noteq> []" by auto
  moreover obtain claims where "sessionClaims q ub V now device license claims
      (verify q J E ub V now token device license)"
    using assms unfolding verify_def Let_def verifyParts_def
    by (auto simp: bind_eq_Some_conv verifyClaims_iff split: if_splits option.splits)
  ultimately show thesis
    using that unfolding sessionClaims_def timely_def by auto
qed

text \<open>
  C2. A token is accepted exactly when it is the canonical compact form of a header, a payload
  and a 64-byte signature, the header names EdDSA, JWT and a key of the configured ring, that
  key verifies the signature of header and payload, no JSON member is repeated, and the claims
  are those of a session of this verifier, device and license at this time; the session handed
  on is the one the claims describe.
\<close>

theorem verify_accepts_iff:
  assumes "qtUrlCodec q"
  shows "verify q J E ub V now token device license = session \<and> vsValid session
    \<longleftrightarrow> acceptedToken q J E ub V now (qtToUtf8 q token) device license session"
  by (rule verify_valid_iff [OF assms])

text \<open>Whatever is not accepted gives the one invalid session, with no part of the token in it.\<close>

theorem verify_uniform_rejection:
  "vsValid (verify q J E ub V now token device license)
   \<or> verify q J E ub V now token device license = invalidSession"
  by (auto simp: verify_def Let_def dest: verifyParts_valid split: option.splits)

lemma acceptedToken_claims:
  assumes "acceptedToken q J E ub V now t device license session"
  obtains claims p where "sessionClaims q ub V now device license claims session"
    "splitOn dotByte t ! 1 = rfcBase64Url p" "fromJson J p = Some (JObject claims)"
  using assms unfolding acceptedToken_def
  by (elim conjE exE) (auto simp: splitOn_compactToken)

text \<open>
  C22. An accepted session expires in the future, at most 660 seconds from now: ten minutes of
  lifetime and one of clock skew.
\<close>

theorem verify_expiry:
  assumes "qtUrlCodec q" and "vsValid (verify q J E ub V now token device license)"
  shows "\<exists>e. vsExpiresAt (verify q J E ub V now token device license) = Some e
    \<and> 0 \<le> e \<and> now < e \<and> e \<le> now + 660"
proof -
  obtain claims where "sessionClaims q ub V now device license claims
      (verify q J E ub V now token device license)"
    using verify_valid_iff [OF assms(1)] assms(2) by (meson acceptedToken_claims)
  then show ?thesis
    unfolding sessionClaims_def timely_def by (force dest: validIntegerClaim_nonneg)
qed

text \<open>
  One token is good for one device and one license only, describes one session, and the
  instants at which it can be accepted lie within 660 seconds of each other.
\<close>

theorem verify_one_session:
  assumes "qtUrlCodec q"
    and "vsValid (verify q J E ub V now token device license)"
    and "vsValid (verify q J E ub V now' token device' license')"
  shows "device = device' \<and> license = license'
    \<and> verify q J E ub V now token device license = verify q J E ub V now' token device' license'
    \<and> \<bar>now - now'\<bar> < 660"
proof -
  let ?v = "verify q J E ub V now token device license"
  let ?v' = "verify q J E ub V now' token device' license'"
  obtain c p c' p' where c: "sessionClaims q ub V now device license c ?v"
      "sessionClaims q ub V now' device' license' c' ?v'"
      "splitOn dotByte (qtToUtf8 q token) ! 1 = rfcBase64Url p" "fromJson J p = Some (JObject c)"
      "splitOn dotByte (qtToUtf8 q token) ! 1 = rfcBase64Url p'" "fromJson J p' = Some (JObject c')"
    using verify_valid_iff [OF assms(1)] assms(2,3) by (meson acceptedToken_claims)
  then have "p = p'" by (simp add: rfcUrl.enc_inject)
  with c have same: "c' = c" by simp
  have "?v = ?v'"
    using c(1,2) unfolding same sessionClaims_def stringClaim_def
    by (intro VerifiedSession.equality) auto
  with c(1,2) show ?thesis
    unfolding same sessionClaims_def boundTo_def stringClaim_def timely_def by auto
qed

section \<open>A concrete token\<close>

definition sampleJkt :: bytes where
  "sampleJkt = rfcBase64Url (replicate 32 7)"

definition sampleHeaderText :: bytes where
  "sampleHeaderText = printedObject [(lit ''alg'', quoted (lit ''EdDSA'')),
     (lit ''typ'', quoted (lit ''JWT'')), (lit ''kid'', quoted (lit ''k1''))]"

definition samplePayloadText :: bytes where
  "samplePayloadText = printedObject [(lit ''iss'', quoted (lit ''i'')), (lit ''aud'', quoted (lit ''a'')),
     (lit ''sub'', quoted (lit ''u'')), (lit ''app'', quoted (lit ''p'')),
     (lit ''product_id'', quoted (lit ''1'')), (lit ''product'', quoted (lit ''s'')),
     (lit ''license_id'', quoted (lit ''l'')), (lit ''device_id'', quoted (lit ''d'')),
     (lit ''sid'', quoted (lit ''x'')), (lit ''jti'', quoted (lit ''j'')),
     (lit ''iat'', lit ''1000''), (lit ''nbf'', lit ''1000''), (lit ''exp'', lit ''1600''),
     (lit ''features'', printedArray [quoted (lit ''f'')]),
     (lit ''cnf'', printedObject [(lit ''jkt'', quoted sampleJkt)])]"

definition sampleHeader :: jsonObject where
  "sampleHeader = [(lit ''alg'', JString (lit ''EdDSA'')), (lit ''typ'', JString (lit ''JWT'')),
     (lit ''kid'', JString (lit ''k1''))]"

definition sampleClaims :: jsonObject where
  "sampleClaims = [(lit ''iss'', JString (lit ''i'')), (lit ''aud'', JString (lit ''a'')),
     (lit ''sub'', JString (lit ''u'')), (lit ''app'', JString (lit ''p'')),
     (lit ''product_id'', JString (lit ''1'')), (lit ''product'', JString (lit ''s'')),
     (lit ''license_id'', JString (lit ''l'')), (lit ''device_id'', JString (lit ''d'')),
     (lit ''sid'', JString (lit ''x'')), (lit ''jti'', JString (lit ''j'')),
     (lit ''iat'', JDouble (Finite 1000)), (lit ''nbf'', JDouble (Finite 1000)),
     (lit ''exp'', JDouble (Finite 1600)), (lit ''features'', JArray [JString (lit ''f'')]),
     (lit ''cnf'', JObject [(lit ''jkt'', JString (fromLatin1 sampleJkt))])]"

text \<open>A parser that knows these two documents and the arrays of one plain string literal.\<close>

definition sampleJson :: qtJson where
  "sampleJson = \<lparr>fromJson = (\<lambda>t.
       if t = sampleHeaderText then Some (JObject sampleHeader)
       else if t = samplePayloadText then Some (JObject sampleClaims)
       else if take 2 t = [openBracket, quoteByte]
         then Some (JArray [JString (fromLatin1 (take (length t - 4) (drop 2 t)))]) else None),
     toJsonCompact = (\<lambda>v. [])\<rparr>"

definition sampleEvp :: "bytes evp" where
  "sampleEvp = \<lparr>evpNewRawPublicKey = (\<lambda>k. if length k = 32 then Some k else None),
     evpContextNew = True, evpDigestVerifyInit = (\<lambda>k. 1),
     evpDigestVerify = (\<lambda>k signature message. if signature = k @ k then 1 else 0)\<rparr>"

definition sampleVerifier :: SessionTokenVerifier where
  "sampleVerifier = \<lparr>keys = [(lit ''k1'', replicate 32 9)], cfgIssuer = lit ''i'',
     cfgAudience = lit ''a'', cfgApplicationID = lit ''p'', cfgProductID = lit ''1'',
     cfgProduct = lit ''s''\<rparr>"

definition sampleSession :: VerifiedSession where
  "sampleSession = \<lparr>vsValid = True, vsError = [], vsExpiresAt = Some 1600, vsSessionId = lit ''x'',
     vsTokenId = lit ''j'', vsThumbprint = fromLatin1 sampleJkt\<rparr>"

definition sampleToken :: qstring where
  "sampleToken = fromLatin1 (compactToken sampleHeaderText samplePayloadText (replicate 64 9))"

lemma sampleJson_plain: "readsPlainStrings sampleJson"
  by (simp add: readsPlainStrings_def sampleJson_def sampleHeaderText_def samplePayloadText_def
      printedObject_def)

lemma plainText_rfcBase64Url: "plainText (rfcBase64Url v)"
  unfolding plainText_def
proof
  fix c assume "c \<in> set (rfcBase64Url v)"
  then have "charSextet minusByte underscoreByte c \<noteq> None" by (rule rfcBase64Url_charset)
  then show "32 \<le> c \<and> c < 127 \<and> c \<noteq> quoteByte \<and> c \<noteq> backslashByte"
    by (auto simp: charSextet_def word_le_nat_alt word_less_nat_alt split: if_splits)
qed

lemma sampleHeader_unique: "hasUniqueJsonMembers sampleJson sampleHeaderText"
  unfolding sampleHeaderText_def
  by (rule hasUniqueJsonMembers_value, rule jvalue_printedObject)
     (auto simp: sampleJson_plain jvalue_quoted plainText_def lit_def)

lemma plainText_lit:
  "plainText (lit s) \<longleftrightarrow> list_all (\<lambda>c. 32 \<le> (of_char c :: byte) \<and> (of_char c :: byte) < 127
     \<and> of_char c \<noteq> quoteByte \<and> of_char c \<noteq> backslashByte) s"
  by (auto simp: plainText_def lit_def list_all_iff)

lemma sample_atoms: "jvalue J 1 (lit ''1000'')" "jvalue J 1 (lit ''1600'')"
  by (rule j_atom; simp add: lit_def atomText_def endsAtom_def isJsonSpace_def)+

lemma sample_nested:
  "jvalue sampleJson 1 (printedArray [quoted (lit ''f'')])"
  "jvalue sampleJson 1 (printedObject [(lit ''jkt'', quoted sampleJkt)])"
  by (rule jvalue_printedArray jvalue_printedObject;
      simp add: sampleJson_plain plainText_def lit_def jvalue_quoted)
     (rule jvalue_printedObject; simp add: sampleJson_plain plainText_def lit_def jvalue_quoted
       sampleJkt_def plainText_rfcBase64Url [unfolded plainText_def])

lemma samplePayload_unique: "hasUniqueJsonMembers sampleJson samplePayloadText"
  unfolding samplePayloadText_def
  by (rule hasUniqueJsonMembers_value, rule jvalue_printedObject [OF sampleJson_plain])
     (simp_all add: plainText_lit sample_atoms [simplified] sample_nested [simplified]
       jvalue_quoted [OF sampleJson_plain])

lemma sampleJkt_decodes:
  "decodeCanonicalBase64Url qtAscii sampleJkt = Some (replicate 32 7)"
  by (simp add: decodeCanonicalBase64Url_iff sampleJkt_def)

lemma sampleJkt_nonempty [simp]: "sampleJkt \<noteq> []"
  using sampleJkt_decodes by (auto simp: decodeCanonicalBase64Url_def)

lemma samplePayload_not_header: "samplePayloadText \<noteq> sampleHeaderText"
  by (simp add: samplePayloadText_def sampleHeaderText_def printedObject_def quoted_def lit_def)

lemma sample_documents:
  "fromJson sampleJson sampleHeaderText = Some (JObject sampleHeader)"
  "fromJson sampleJson samplePayloadText = Some (JObject sampleClaims)"
  by (simp_all add: sampleJson_def samplePayload_not_header)

lemma sampleClaims_session:
  assumes "940 \<le> now" "now < 1600"
  shows "sessionClaims qtAscii 0 sampleVerifier now (lit ''d'') (lit ''l'') sampleClaims sampleSession"
proof -
  have times: "validIntegerClaim 0 sampleClaims (lit ''iat'') = Some 1000"
    "validIntegerClaim 0 sampleClaims (lit ''nbf'') = Some 1000"
    "validIntegerClaim 0 sampleClaims (lit ''exp'') = Some 1600"
    by (rule validIntegerClaim_exact; simp add: sampleClaims_def)+
  show ?thesis
    using assms
    by (simp add: sessionClaims_def boundTo_def stringClaim_def timely_def times)
       (simp add: sampleClaims_def sampleVerifier_def sampleSession_def jsonValue_def
          sampleJkt_decodes qtAscii_simps)
qed

lemma sampleHeader_kid: "protectedHeaderKeyId sampleHeader = Some (lit ''k1'')"
  by (simp add: protectedHeaderKeyId_def sampleHeader_def jsonValue_def jsonContains_def)

lemma sampleSignature:
  "verifySignature sampleEvp (replicate 32 9) message (replicate 64 9)"
  by (simp add: verifySignature_def sampleEvp_def flip: replicate_add)

lemma sampleVerifier_configured: "verifierConfigured qtAscii sampleVerifier"
  by (simp add: verifierConfigured_def sampleVerifier_def trimmed_eq_Nil_iff qtAscii_simps
      lit_def validKeyId_def validKeyIdChar_def)

lemma sampleToken_length:
  "length (compactToken sampleHeaderText samplePayloadText (replicate 64 9)) \<le> 16384"
  by (simp add: compactToken_def length_rfcBase64Url sampleHeaderText_def samplePayloadText_def
      printedObject_def printedArray_def quoted_def lit_def sampleJkt_def)

lemma acceptedTokenI:
  assumes "t = compactToken h p s" "verifierConfigured q V" "length t \<le> 16384"
    "device \<noteq> []" "license \<noteq> []" "h \<noteq> []" "p \<noteq> []" "length s = 64"
    "hasUniqueJsonMembers J h" "hasUniqueJsonMembers J p"
    "fromJson J h = Some (JObject header)" "fromJson J p = Some (JObject claims)"
    "protectedHeaderKeyId header = Some kid" "map_of (keys V) kid = Some key"
    "verifySignature E key (rfcBase64Url h @ dotByte # rfcBase64Url p) s"
    "sessionClaims q ub V now device license claims session"
  shows "acceptedToken q J E ub V now t device license session"
  using assms unfolding acceptedToken_def by blast

lemma sample_accepted:
  assumes "940 \<le> now" "now < 1600"
  shows "acceptedToken qtAscii sampleJson sampleEvp 0 sampleVerifier now (qtToUtf8 qtAscii sampleToken)
     (lit ''d'') (lit ''l'') sampleSession"
proof (rule acceptedTokenI)
  show "qtToUtf8 qtAscii sampleToken
      = compactToken sampleHeaderText samplePayloadText (replicate 64 9)"
    by (simp add: sampleToken_def qtAscii_simps)
  then show "length (qtToUtf8 qtAscii sampleToken) \<le> 16384"
    using sampleToken_length by simp
  show "map_of (keys sampleVerifier) (lit ''k1'') = Some (replicate 32 9)"
    by (simp add: sampleVerifier_def)
  show "sampleHeaderText \<noteq> []" "samplePayloadText \<noteq> []"
    by (simp_all add: sampleHeaderText_def samplePayloadText_def printedObject_def)
qed (rule sampleVerifier_configured sampleHeader_unique samplePayload_unique sample_documents
    sampleHeader_kid sampleSignature sampleClaims_session assms | simp)+

lemma sample_verified:
  assumes "940 \<le> now" "now < 1600"
  shows "verify qtAscii sampleJson sampleEvp 0 sampleVerifier now sampleToken (lit ''d'') (lit ''l'')
     = sampleSession \<and> vsValid sampleSession"
  by (rule verify_valid_iff [OF qtAscii_codecs(1), THEN iffD2, OF sample_accepted [OF assms]])

theorem verify_accepts_iff_witness:
  "verify qtAscii sampleJson sampleEvp 0 sampleVerifier 1100 sampleToken (lit ''d'') (lit ''l'')
     = sampleSession \<and> vsValid sampleSession"
  by (rule verify_accepts_iff [OF qtAscii_codecs(1), THEN iffD2, OF sample_accepted]) simp_all

theorem verify_expiry_witness:
  "\<exists>e. vsExpiresAt (verify qtAscii sampleJson sampleEvp 0 sampleVerifier 1100 sampleToken
      (lit ''d'') (lit ''l'')) = Some e \<and> 0 \<le> e \<and> 1100 < e \<and> e \<le> 1100 + 660"
  by (rule verify_expiry [OF qtAscii_codecs(1)]) (simp add: sample_verified sampleSession_def)

theorem verify_one_session_witness:
  "verify qtAscii sampleJson sampleEvp 0 sampleVerifier 1000 sampleToken (lit ''d'') (lit ''l'')
   = verify qtAscii sampleJson sampleEvp 0 sampleVerifier 1500 sampleToken (lit ''d'') (lit ''l'')"
  using verify_one_session [OF qtAscii_codecs(1), of sampleJson sampleEvp 0 sampleVerifier 1000
      sampleToken "lit ''d''" "lit ''l''" 1500 "lit ''d''" "lit ''l''"]
  by (simp add: sample_verified sampleSession_def)

section \<open>The configured key ring\<close>

definition ringEntry :: "qstring \<times> bytes \<Rightarrow> bool" where
  "ringEntry e \<longleftrightarrow> validKeyId (fst e) \<and> length (snd e) = 32"

definition encodedEntry :: "qstring \<times> bytes \<Rightarrow> qstring" where
  "encodedEntry e = fst e @ equalsChar # fromLatin1 (rfcBase64 (snd e))"

lemma decodeKey_length: "decodeCanonicalStandardBase64Key q s = Some v \<Longrightarrow> length v = 32"
  by (auto simp: decodeCanonicalStandardBase64Key_def Let_def split: if_splits)

lemma keyRingFrom_wellformed:
  "keyRingFrom q ring entries = Some ring' \<Longrightarrow> list_all ringEntry ring \<Longrightarrow> distinct (map fst ring) \<Longrightarrow>
     list_all ringEntry ring' \<and> distinct (map fst ring') \<and> length ring' = length ring + length entries"
  by (induction q ring entries rule: keyRingFrom.induct)
     (auto simp: ringEntry_def Let_def map_of_eq_None_iff dest: decodeKey_length
       split: option.splits if_splits)

lemma indexOf_append: "c \<notin> set a \<Longrightarrow> indexOf c (a @ c # b) = Some (length a)"
  by (induction a) auto

lemma validKeyId_separators:
  assumes "validKeyId kid"
  shows "kid \<noteq> []" "equalsChar \<notin> set kid" "commaChar \<notin> set kid"
  using assms by (auto simp: validKeyId_def list_all_iff validKeyIdChar_def split: if_splits)

lemma rfcBase64_no_comma: "(44 :: byte) \<notin> set (rfcBase64 v)"
proof -
  have "(44 :: byte) \<noteq> sextetChar plusByte slashByte n" if "n < 64" for n
    using charSextet_sextetChar [OF goodPair_std that] by (auto simp: charSextet_def)
  then show ?thesis
    using sextets_less [OF bytes_less_256, of v] by (auto simp: rfcBase64_def)
qed

lemma encodedEntry_no_comma: "validKeyId (fst e) \<Longrightarrow> commaChar \<notin> set (encodedEntry e)"
  using validKeyId_separators [of "fst e"] rfcBase64_no_comma [of "snd e"]
    ucast_8_16_inject [of 44]
  by (auto simp: encodedEntry_def fromLatin1_def)

lemma keyRingFrom_encoded:
  assumes "qtStdCodec q" and "\<And>b. qtToLatin1 q (fromLatin1 b) = b"
  shows "list_all ringEntry es \<Longrightarrow> distinct (map fst (ring @ es)) \<Longrightarrow>
     keyRingFrom q ring (map encodedEntry es) = Some (rev es @ ring)"
proof (induction es arbitrary: ring)
  case (Cons e es)
  obtain kid key where e: "e = (kid, key)" by (cases e)
  have kid: "validKeyId kid" "length key = 32"
    using Cons.prems(1) by (simp_all add: e ringEntry_def)
  have key: "decodeCanonicalStandardBase64Key q (fromLatin1 (rfcBase64 key)) = Some key"
    using decodeCanonicalStandardBase64Key_iff [OF assms(1)] kid(2) assms(2) by simp
  have entry: "encodedEntry e = kid @ equalsChar # fromLatin1 (rfcBase64 key)"
    by (simp add: encodedEntry_def e)
  have pos: "indexOf equalsChar (kid @ equalsChar # fromLatin1 (rfcBase64 key)) = Some (length kid)"
    using validKeyId_separators [OF kid(1)] by (simp add: indexOf_append)
  have "length (fromLatin1 (rfcBase64 key)) = 44"
    using rfcBase64_key [OF kid(2)] by (simp add: fromLatin1_def)
  moreover have "map_of ring kid = None"
    using Cons.prems(2) by (simp add: e map_of_eq_None_iff)
  moreover have "keyRingFrom q ((kid, key) # ring) (map encodedEntry es) = Some (rev es @ (kid, key) # ring)"
    using Cons.prems by (intro Cons.IH) (auto simp: e)
  ultimately show ?case
    using kid key pos validKeyId_separators(1) [OF kid(1)] by (simp add: entry) (simp add: e)
qed simp

text \<open>
  A configured key ring is taken as a whole or not at all: the verifier made of it is empty,
  or holds one 32-byte key for each entry of the text, under distinct valid key ids.
\<close>

theorem keyRing_all_or_nothing:
  "fromConfiguredKeyRing q encodedKeys issuer audience applicationID productID product = emptyVerifier
   \<or> (let ring = keys (fromConfiguredKeyRing q encodedKeys issuer audience applicationID productID product)
      in list_all ringEntry ring \<and> distinct (map fst ring)
         \<and> length ring = length (splitOn commaChar encodedKeys))"
  using keyRingFrom_wellformed [of q "[]" "splitOn commaChar encodedKeys"]
  by (auto simp: fromConfiguredKeyRing_def Let_def split: option.splits)

text \<open>
  The text form of a key ring reads back: every non-empty ring of 32-byte keys under distinct
  valid ids, written as entries with the standard encoding, is the ring of the verifier.
\<close>

theorem keyRing_roundtrip:
  assumes "qtStdCodec q" and "\<And>b. qtToLatin1 q (fromLatin1 b) = b"
    and "es \<noteq> []" and "list_all ringEntry es" and "distinct (map fst es)"
  shows "keys (fromConfiguredKeyRing q (joinWith commaChar (map encodedEntry es))
      issuer audience applicationID productID product) = rev es"
proof -
  have "splitOn commaChar (joinWith commaChar (map encodedEntry es)) = map encodedEntry es"
    using assms(3,4) by (intro splitOn_joinWith) (auto simp: list_all_iff ringEntry_def
        encodedEntry_no_comma)
  with keyRingFrom_encoded [OF assms(1,2,4), of "[]"] assms(5) show ?thesis
    by (simp add: fromConfiguredKeyRing_def)
qed

theorem keyRing_roundtrip_witness:
  "keys (fromConfiguredKeyRing qtAscii (joinWith commaChar
      (map encodedEntry [(lit ''k1'', replicate 32 9), (lit ''k-2'', replicate 32 5)])) [1] [1] [1] [1] [1])
    = [(lit ''k-2'', replicate 32 5), (lit ''k1'', replicate 32 9)]"
  by (subst keyRing_roundtrip)
     (simp_all add: qtAscii_simps ringEntry_def validKeyId_def lit_def validKeyIdChar_def)

text \<open>
  The range check of an integer claim lets 2 to the 63 through, which the following cast cannot
  represent: the outcome is whatever the undefined cast gives.
\<close>

theorem integerClaim_cast_undefined:
  "validIntegerClaim ub [(lit ''exp'', JDouble (Finite 9223372036854775808))] (lit ''exp'')
    = (if int64ToDouble ub = 9223372036854775808 then Some ub else None)"
  by (simp add: validIntegerClaim_def jsonValue_def jsonContains_def doubleToInt64_def
      int64ToDouble_max)

end
