(* ===== verification/DeviceProof.thy ===== *)
theory DeviceProof
  imports TpmIdentity SessionToken Url
begin

text \<open>
  \<open>license-client/src/security/DeviceProof.cpp\<close>: the DPoP proof of a request, a compact JWS
  signed by the device key that binds the access token, the method, the canonical URL, the time
  and a fresh nonce. The signer is a record of the two virtual operations on a state, so that
  the key may change between the calls; clock and random source are the values they return.
\<close>

section \<open>Syntax checks\<close>

text \<open>The positions of the first two dots, -1 when absent; a third dot rejects.\<close>

fun scanDots :: "int \<Rightarrow> int \<Rightarrow> int \<Rightarrow> bytes \<Rightarrow> (int \<times> int) option" where
  "scanDots index firstDot secondDot [] = Some (firstDot, secondDot)"
| "scanDots index firstDot secondDot (c # cs) =
     (if c \<noteq> dotByte then scanDots (index + 1) firstDot secondDot cs
      else if firstDot < 0 then scanDots (index + 1) index secondDot cs
      else if secondDot < 0 then scanDots (index + 1) firstDot index cs
      else None)"

definition validCompactAccessToken :: "bytes \<Rightarrow> bool" where
  "validCompactAccessToken token =
     (if token = [] \<or> length token > kMaximumTokenBytes then False
      else case scanDots 0 (-1) (-1) token of None \<Rightarrow> False
      | Some (firstDot, secondDot) \<Rightarrow>
        if firstDot \<le> 0 \<or> secondDot \<le> firstDot + 1 \<or> secondDot \<ge> int (length token) - 1 then False
        else let header = take (nat firstDot) token;
                 payload = take (nat (secondDot - firstDot - 1)) (drop (nat (firstDot + 1)) token);
                 signature = drop (nat (secondDot + 1)) token
             in length signature = 86 \<and> canonicalBase64UrlSegment header
                \<and> canonicalBase64UrlSegment payload \<and> canonicalBase64UrlSegment signature)"

definition parsePublicBlob :: "bytes \<Rightarrow> (bytes \<times> bytes) option" where
  "parsePublicBlob blob =
     (if length blob \<noteq> publicBlobSize \<or> le32At blob 0 \<noteq> ecdsaP256Magic
          \<or> le32At blob 4 \<noteq> coordinateSize then None
      else Some (take coordinateSize (drop 8 blob),
                 take coordinateSize (drop (8 + coordinateSize) blob)))"

definition thumbprintText :: "bytes \<Rightarrow> bytes \<Rightarrow> bytes" where
  "thumbprintText xEncoded yEncoded =
     lit ''{\"crv\":\"P-256\",\"kty\":\"EC\",\"x\":\"'' @ xEncoded @ lit ''\",\"y\":\"'' @ yEncoded
       @ lit ''\"}''"

definition thumbprintFor :: "qt \<Rightarrow> bytes \<Rightarrow> bytes \<Rightarrow> qstring" where
  "thumbprintFor q xEncoded yEncoded =
     fromLatin1 (qtToBase64Url q (qtSha256 q (thumbprintText xEncoded yEncoded)))"

text \<open>\<open>localDevelopment\<close> is the compile-time switch \<open>STARLOADER_LOCAL_DEVELOPMENT\<close>.\<close>

definition canonicalHtu :: "qt \<Rightarrow> 'u qurl \<Rightarrow> bool \<Rightarrow> 'u \<Rightarrow> qstring option" where
  "canonicalHtu q U localDevelopment input =
     (if \<not> urlIsValid U input \<or> urlIsRelative U input \<or> urlHost U input = []
          \<or> urlUserName U input \<noteq> [] \<or> urlPassword U input \<noteq> [] then None
      else let scheme = qtToLower q (urlScheme U input) in
      if scheme \<noteq> lit ''https''
         \<and> (\<not> localDevelopment \<or> scheme \<noteq> lit ''http'' \<or> \<not> hostIsLoopback U (urlHost U input)) then None
      else let canonical = urlAdjusted U input;
               canonical = urlSetScheme U scheme canonical;
               canonical = urlSetHost U (qtToLower q (urlHost U input)) canonical;
               canonical = (if scheme = lit ''https'' \<and> urlPort U canonical = 443
                    \<or> scheme = lit ''http'' \<and> urlPort U canonical = 80
                  then urlSetPort U (-1) canonical else canonical)
      in if \<not> urlIsValid U canonical \<or> urlHost U canonical = [] then None
         else let htu = urlToEncoded U canonical in if htu = [] then None else Some htu)"

text \<open>Four words of the system's random generator, least significant byte first.\<close>

definition secureRandomJti :: "32 word \<Rightarrow> 32 word \<Rightarrow> 32 word \<Rightarrow> 32 word \<Rightarrow> bytes" where
  "secureRandomJti w0 w1 w2 w3 =
     concat (map (\<lambda>w. map (\<lambda>index. ucast (drop_bit (index * 8) w)) [0, 1, 2, 3]) [w0, w1, w2, w3])"

definition methodChar :: "qchar \<Rightarrow> bool" where
  "methodChar c \<longleftrightarrow> List.member (lit ''!#$%&'' @ [39] @ lit ''*+.^_`|~-'') c
     \<or> (48 \<le> c \<and> c \<le> 57) \<or> (65 \<le> c \<and> c \<le> 90) \<or> (97 \<le> c \<and> c \<le> 122)"

definition validMethod :: "qstring \<Rightarrow> bool" where
  "validMethod httpMethod = anchoredMatch (\<lambda>s. s \<noteq> [] \<and> list_all methodChar s) httpMethod"

section \<open>Signers\<close>

text \<open>Each operation returns its success, its outputs, the error text and the next state.\<close>

record 's proof_signer =
  signerPublicKeyBlob :: "'s \<Rightarrow> (bool \<times> bytes \<times> qstring) \<times> 's"
  signerSign :: "bytes \<Rightarrow> 's \<Rightarrow> (bool \<times> bytes \<times> bytes \<times> qstring) \<times> 's"

definition tpmPublicKeyBlob :: "'c cng \<Rightarrow> 'c \<Rightarrow> bool \<times> bytes \<times> qstring" where
  "tpmPublicKeyBlob C c =
     (let publicBlob = publicKeyBlob C c in
      if publicBlob \<noteq> [] then (True, publicBlob, [])
      else (False, publicBlob, lit ''The TPM public key is unavailable.''))"

definition tpmSign :: "qt \<Rightarrow> 'c cng \<Rightarrow> 'c \<Rightarrow> bytes \<Rightarrow> bool \<times> bytes \<times> bytes \<times> qstring" where
  "tpmSign q C c input =
     (if input = [] then (False, [], [], [])
      else let (ok, publicBlob, err) = tpmPublicKeyBlob C c in
      if \<not> ok then (False, [], publicBlob, err)
      else let (signature, err) = signChallenge q C c input in
        (signature \<noteq> [], signature, publicBlob, err))"

definition tpmProofSigner :: "qt \<Rightarrow> 'c cng \<Rightarrow> 'c proof_signer" where
  "tpmProofSigner q C = \<lparr>
     signerPublicKeyBlob = (\<lambda>c. (tpmPublicKeyBlob C c, c)),
     signerSign = (\<lambda>input c. (tpmSign q C c input, c))\<rparr>"

section \<open>The proof\<close>

record ProofResult =
  prValid :: bool
  prCompactJws :: qstring
  prJwkThumbprint :: qstring
  prError :: qstring

definition rejected :: ProofResult where
  "rejected = \<lparr>prValid = False, prCompactJws = [], prJwkThumbprint = [],
     prError = lit ''Device proof could not be created.''\<rparr>"

definition jwkOf :: "bytes \<Rightarrow> bytes \<Rightarrow> jsonObject" where
  "jwkOf xEncoded yEncoded =
     [(lit ''crv'', JString (lit ''P-256'')), (lit ''kty'', JString (lit ''EC'')),
      (lit ''x'', JString (fromLatin1 xEncoded)), (lit ''y'', JString (fromLatin1 yEncoded))]"

definition publicJwk :: "qt \<Rightarrow> bytes \<Rightarrow> jsonObject" where
  "publicJwk q publicBlob =
     (case parsePublicBlob publicBlob of None \<Rightarrow> []
      | Some (x, y) \<Rightarrow> jwkOf (qtToBase64Url q x) (qtToBase64Url q y))"

definition proofHeader :: "bytes \<Rightarrow> bytes \<Rightarrow> json" where
  "proofHeader xEncoded yEncoded = JObject
     [(lit ''alg'', JString (lit ''ES256'')), (lit ''jwk'', JObject (jwkOf xEncoded yEncoded)),
      (lit ''typ'', JString (lit ''dpop+jwt''))]"

definition proofPayload :: "qstring \<Rightarrow> qstring \<Rightarrow> qstring \<Rightarrow> int \<Rightarrow> qstring \<Rightarrow> json" where
  "proofPayload ath dpopMethod htu issuedAt jti = JObject
     [(lit ''ath'', JString ath), (lit ''htm'', JString dpopMethod), (lit ''htu'', JString htu),
      (lit ''iat'', JDouble (Finite (of_int issuedAt))), (lit ''jti'', JString jti)]"

definition build ::
    "qt \<Rightarrow> qtJson \<Rightarrow> 'u qurl \<Rightarrow> bool \<Rightarrow> 's proof_signer \<Rightarrow> int \<Rightarrow> bytes
       \<Rightarrow> qstring \<Rightarrow> 'u \<Rightarrow> qstring \<Rightarrow> qstring \<Rightarrow> 's \<Rightarrow> ProofResult \<times> 's" where
  "build q J U localDevelopment signer clock random httpMethod url accessToken expectedThumbprint s =
     (let tokenBytes = qtToLatin1 q accessToken in
      if \<not> validCompactAccessToken tokenBytes then (rejected, s)
      else let ath = fromLatin1 (qtToBase64Url q (qtSha256 q tokenBytes)) in
      if \<not> validMethod httpMethod then (rejected, s)
      else case canonicalHtu q U localDevelopment url of None \<Rightarrow> (rejected, s)
      | Some htu \<Rightarrow>
        let ((gotKey, publicBlob, _), s) = signerPublicKeyBlob signer s in
        if \<not> gotKey then (rejected, s)
        else case parsePublicBlob publicBlob of None \<Rightarrow> (rejected, s)
        | Some (x, y) \<Rightarrow>
          let xEncoded = qtToBase64Url q x; yEncoded = qtToBase64Url q y;
              thumbprint = thumbprintFor q xEncoded yEncoded in
          if expectedThumbprint \<noteq> thumbprint then (rejected, s)
          else if length random \<noteq> 16 then (rejected, s)
          else let jti = fromLatin1 (qtToBase64Url q random);
                   encodedHeader = qtToBase64Url q (toJsonCompact J (proofHeader xEncoded yEncoded));
                   encodedPayload = qtToBase64Url q (toJsonCompact J
                     (proofPayload ath (qtToUpper q httpMethod) htu clock jti));
                   signingInput = encodedHeader @ dotByte # encodedPayload;
                   ((signedSuccessfully, signature, signedPublicBlob, _), s) = signerSign signer signingInput s
          in if \<not> signedSuccessfully \<or> length signature \<noteq> 64 \<or> signedPublicBlob \<noteq> publicBlob
             then (rejected, s)
             else (\<lparr>prValid = True,
               prCompactJws = fromLatin1 (encodedHeader @ dotByte # encodedPayload @ dotByte #
                 qtToBase64Url q signature),
               prJwkThumbprint = thumbprint, prError = []\<rparr>, s))"

section \<open>Access tokens\<close>

lemma scanDots_append:
  "dotByte \<notin> set a \<Longrightarrow> scanDots index f s (a @ r) = scanDots (index + int (length a)) f s r"
  by (induction a arbitrary: index) (auto simp: algebra_simps)

lemma scanDots_no_dot: "dotByte \<notin> set a \<Longrightarrow> scanDots index f s a = Some (f, s)"
  using scanDots_append [of a index f s "[]"] by simp

lemma scanDots_two:
  assumes "dotByte \<notin> set a" "dotByte \<notin> set b" "dotByte \<notin> set c"
  shows "scanDots 0 (-1) (-1) (a @ dotByte # b @ dotByte # c)
    = Some (int (length a), int (length a) + 1 + int (length b))"
  using assms by (simp add: scanDots_append scanDots_no_dot)

lemma scanDots_accepted:
  assumes "scanDots 0 (-1) (-1) t = Some (f, s)" "f > 0" "s > f + 1"
  obtains a b c where "t = a @ dotByte # b @ dotByte # c" "f = int (length a)"
    "s = int (length a) + 1 + int (length b)"
proof -
  have "dotByte \<in> set t" using assms scanDots_no_dot [of t 0 "-1" "-1"] by auto
  then obtain a r where a: "t = a @ dotByte # r" "dotByte \<notin> set a" by (meson split_list_first)
  have "dotByte \<in> set r"
  proof (rule ccontr)
    assume "dotByte \<notin> set r"
    with assms a show False by (simp add: scanDots_append scanDots_no_dot)
  qed
  then obtain b c where b: "r = b @ dotByte # c" "dotByte \<notin> set b" by (meson split_list_first)
  have "dotByte \<notin> set c"
  proof
    assume "dotByte \<in> set c"
    then obtain c1 c2 where "c = c1 @ dotByte # c2" "dotByte \<notin> set c1" by (meson split_list_first)
    with assms a b show False by (simp add: scanDots_append)
  qed
  with assms(1) a b scanDots_two [of a b c] show thesis by (intro that) auto
qed

lemma validCompact_segments:
  "validCompactAccessToken t \<longleftrightarrow> length t \<le> 16384 \<and>
    (\<exists>a b c. t = a @ dotByte # b @ dotByte # c \<and> length c = 86 \<and> canonicalBase64UrlSegment a
       \<and> canonicalBase64UrlSegment b \<and> canonicalBase64UrlSegment c)"
    (is "?l \<longleftrightarrow> ?r")
proof
  assume ?l
  then obtain f s where fs: "scanDots 0 (-1) (-1) t = Some (f, s)" "f > 0" "s > f + 1"
    by (auto simp: validCompactAccessToken_def split: if_splits option.splits)
  then obtain a b c where t: "t = a @ dotByte # b @ dotByte # c" "f = int (length a)"
    "s = int (length a) + 1 + int (length b)" by (rule scanDots_accepted)
  have drops: "drop (nat (f + 1)) t = b @ dotByte # c" "drop (nat (s + 1)) t = c"
    "nat (s - f - 1) = length b" "take (nat f) t = a"
    unfolding t(2,3) by (simp_all add: t(1) nat_add_distrib)
  have "length t \<le> 16384 \<and> length (drop (nat (s + 1)) t) = 86
      \<and> canonicalBase64UrlSegment (take (nat f) t)
      \<and> canonicalBase64UrlSegment (take (nat (s - f - 1)) (drop (nat (f + 1)) t))
      \<and> canonicalBase64UrlSegment (drop (nat (s + 1)) t)"
    using \<open>?l\<close> fs(1) unfolding validCompactAccessToken_def kMaximumTokenBytes_def Let_def
    by (simp split: if_splits)
  then show ?r unfolding drops by (auto simp: t(1))
next
  assume ?r
  then obtain a b c where t: "t = a @ dotByte # b @ dotByte # c" "length c = 86"
    "canonicalBase64UrlSegment a" "canonicalBase64UrlSegment b" "canonicalBase64UrlSegment c"
    "length t \<le> 16384" by blast
  have nodot: "canonicalBase64UrlSegment x \<Longrightarrow> dotByte \<notin> set x \<and> x \<noteq> []" for x
    using canonical_segment_iff_encoding [of x] dot_not_in_rfcBase64Url
    by (auto simp: canonicalBase64UrlSegment_def)
  have "scanDots 0 (-1) (-1) t = Some (int (length a), int (length a) + 1 + int (length b))"
    unfolding t(1) by (rule scanDots_two) (use t nodot in auto)
  then show ?l
    using t nodot [OF t(3)] nodot [OF t(4)]
    by (simp add: validCompactAccessToken_def kMaximumTokenBytes_def nat_add_distrib)
qed

lemma validCompact_iff_token:
  "validCompactAccessToken t \<longleftrightarrow> length t \<le> 16384 \<and>
    (\<exists>h p s. h \<noteq> [] \<and> p \<noteq> [] \<and> length s = 64 \<and> t = compactToken h p s)"
proof -
  have len: "length (rfcBase64Url s) = 86 \<longleftrightarrow> length s = 64" for s
    by (simp add: length_rfcBase64Url) presburger
  have "length s = 64 \<Longrightarrow> s \<noteq> []" for s :: bytes by auto
  then show ?thesis
    unfolding validCompact_segments canonical_segment_iff_encoding compactToken_def
    by (auto simp: len simp del: length_greater_0_conv) (metis len)+
qed

text \<open>
  The proof builder's hand-written scan of an access token accepts exactly the compact forms
  of a header, a payload and a 64-byte signature of at most 16384 bytes.
\<close>

theorem validCompactAccessToken_iff:
  "validCompactAccessToken t \<longleftrightarrow> length t \<le> 16384 \<and>
    (\<exists>h p s. h \<noteq> [] \<and> p \<noteq> [] \<and> length s = 64 \<and> t = compactToken h p s)"
  by (rule validCompact_iff_token)

section \<open>The blob, the thumbprint and the nonce\<close>

lemma parsePublicBlob_isP256: "parsePublicBlob blob \<noteq> None \<longleftrightarrow> isP256PublicBlob blob"
  by (simp add: parsePublicBlob_def isP256PublicBlob_def)

lemma parsePublicBlob_Some:
  assumes "parsePublicBlob blob = Some (x, y)"
  shows "length x = 32" "length y = 32" "drop 8 blob = x @ y"
proof -
  have "length blob = 72" "x = take 32 (drop 8 blob)" "y = take 32 (drop 40 blob)"
    using assms by (auto simp: parsePublicBlob_def publicBlobSize_def coordinateSize_def split: if_splits)
  then show "length x = 32" "length y = 32" "drop 8 blob = x @ y"
    using append_take_drop_id [of 32 "drop 8 blob"] by simp_all
qed

lemma quote_not_in_rfcBase64Url: "(34 :: byte) \<notin> set (rfcBase64Url v)"
  using rfcBase64Url_charset [of 34 v] by (auto simp: charSextet_def)

lemma thumbprintText_inject:
  assumes "thumbprintText (rfcBase64Url x) (rfcBase64Url y) = thumbprintText (rfcBase64Url x') (rfcBase64Url y')"
  shows "x = x' \<and> y = y'"
proof -
  have split: "splitOn 34 (rfcBase64Url v @ lit ''\",\"y\":\"'' @ rfcBase64Url w @ lit ''\"}'')
      = [rfcBase64Url v, [44], [121], [58], rfcBase64Url w, [125]]" for v w
    by (simp add: lit_def splitOn_append_sep quote_not_in_rfcBase64Url)
  have "splitOn 34 (rfcBase64Url x @ lit ''\",\"y\":\"'' @ rfcBase64Url y @ lit ''\"}'')
      = splitOn 34 (rfcBase64Url x' @ lit ''\",\"y\":\"'' @ rfcBase64Url y' @ lit ''\"}'')"
    using assms unfolding thumbprintText_def same_append_eq by (rule arg_cong)
  then have "rfcBase64Url x = rfcBase64Url x' \<and> rfcBase64Url y = rfcBase64Url y'"
    unfolding split by simp
  then show ?thesis by (simp add: rfcUrl.enc_inject)
qed

text \<open>
  The text a thumbprint is taken of determines the key: two public blobs with the same text
  have the same coordinates.
\<close>

theorem thumbprintText_determines_key:
  assumes "parsePublicBlob b = Some (x, y)" and "parsePublicBlob b' = Some (x', y')"
    and "thumbprintText (rfcBase64Url x) (rfcBase64Url y) = thumbprintText (rfcBase64Url x') (rfcBase64Url y')"
  shows "drop 8 b = drop 8 b'"
  using thumbprintText_inject [OF assms(3)] parsePublicBlob_Some [OF assms(1)]
    parsePublicBlob_Some [OF assms(2)] by simp

theorem thumbprintText_determines_key_witness:
  "drop 8 sampleBlob = drop 8 sampleBlob"
proof -
  obtain x y where xy: "parsePublicBlob sampleBlob = Some (x, y)"
    using parsePublicBlob_isP256 [of sampleBlob] sampleBlob_valid by auto
  show ?thesis by (rule thumbprintText_determines_key [OF xy xy refl])
qed

lemma ucast_byte_nth: "n < 8 \<Longrightarrow> bit (ucast (w :: 32 word) :: byte) n = bit w n"
  by (simp add: bit_unsigned_iff)

lemma word32_bytes_inject:
  assumes "(ucast w :: byte) = ucast v" "(ucast (drop_bit 8 w) :: byte) = ucast (drop_bit 8 v)"
    "(ucast (drop_bit 16 w) :: byte) = ucast (drop_bit 16 v)"
    "(ucast (drop_bit 24 w) :: byte) = ucast (drop_bit 24 v)"
  shows "w = (v :: 32 word)"
proof (rule bit_word_eqI)
  fix n assume "n < LENGTH(32)"
  have byte_at: "bit (u :: 32 word) (k + m) = bit (ucast (drop_bit k u) :: byte) m" if "m < 8" for u k m
    using that by (simp add: ucast_byte_nth bit_drop_bit_eq)
  have "n div 8 < 4" using \<open>n < LENGTH(32)\<close> by simp
  then consider "n div 8 = 0" | "n div 8 = 1" | "n div 8 = 2" | "n div 8 = 3" by linarith
  then have "n = 0 + n mod 8 \<or> n = 8 + n mod 8 \<or> n = 16 + n mod 8 \<or> n = 24 + n mod 8"
    by cases presburger+
  then show "bit w n = bit v n"
    using assms byte_at [of "n mod 8" w 0] byte_at [of "n mod 8" v 0] byte_at [of "n mod 8" w 8]
      byte_at [of "n mod 8" v 8] byte_at [of "n mod 8" w 16] byte_at [of "n mod 8" v 16]
      byte_at [of "n mod 8" w 24] byte_at [of "n mod 8" v 24]
    by (elim disjE) simp_all
qed

text \<open>The nonce is sixteen bytes that determine the four random words it is made of.\<close>

theorem secureRandomJti_injective:
  "length (secureRandomJti a b c d) = 16
   \<and> (secureRandomJti a b c d = secureRandomJti a' b' c' d' \<longleftrightarrow> a = a' \<and> b = b' \<and> c = c' \<and> d = d')"
  by (auto simp: secureRandomJti_def intro: word32_bytes_inject)

section \<open>The canonical URL\<close>

text \<open>What a release build writes of an acceptable URL, in terms of its parts.\<close>

definition htuParts :: "qt \<Rightarrow> (qstring \<Rightarrow> qstring) \<Rightarrow> url_parts \<Rightarrow> url_parts" where
  "htuParts q normalPath u = \<lparr>upScheme = lit ''https'', upUserName = [], upPassword = [],
     upHost = qtToLower q (upHost u), upPort = (if upPort u = 443 then -1 else upPort u),
     upPath = normalPath (upPath u), upQuery = [], upFragment = []\<rparr>"

definition httpsTarget :: "qt \<Rightarrow> (url_parts \<Rightarrow> bool) \<Rightarrow> url_parts \<Rightarrow> bool" where
  "httpsTarget q partsValid u \<longleftrightarrow> partsValid u \<and> upScheme u \<noteq> [] \<and> qtToLower q (upScheme u) = lit ''https''
     \<and> upHost u \<noteq> [] \<and> upUserName u = [] \<and> upPassword u = []"

context url_contract begin

lemma canonicalHtu_release:
  "canonicalHtu q U False u =
     (let c = htuParts q normalPath (parts u) in
      if httpsTarget q partsValid (parts u) \<and> partsValid c \<and> upHost c \<noteq> [] \<and> partsText c \<noteq> []
      then Some (partsText c) else None)"
proof (cases "httpsTarget q partsValid (parts u)")
  case True
  let ?c = "urlSetHost U (qtToLower q (urlHost U u)) (urlSetScheme U (lit ''https'') (urlAdjusted U u))"
  let ?d = "if urlPort U ?c = 443 then urlSetPort U (-1) ?c else ?c"
  have "parts ?d = htuParts q normalPath (parts u)"
    using True by (simp add: httpsTarget_def htuParts_def host_parts port_parts set_port_parts
        set_host_parts set_scheme_parts adjusted_parts)
  moreover have "canonicalHtu q U False u =
      (if \<not> urlIsValid U ?d \<or> urlHost U ?d = [] then None
       else if urlToEncoded U ?d = [] then None else Some (urlToEncoded U ?d))"
    using True by (simp add: canonicalHtu_def httpsTarget_def Let_def valid_parts relative_parts
        host_parts user_parts password_parts scheme_parts)
  ultimately show ?thesis
    using True by (simp add: Let_def valid_parts host_parts text_parts)
next
  case False
  then show ?thesis
    by (auto simp: canonicalHtu_def httpsTarget_def Let_def valid_parts relative_parts
        host_parts user_parts password_parts scheme_parts)
qed

lemma same_target:
  assumes "httpsTarget q partsValid (parts u)" "httpsTarget q partsValid (parts v)"
    and "qtToLower q (upHost (parts u)) = qtToLower q (upHost (parts v))"
    and "upPort (parts u) = upPort (parts v)
      \<or> {upPort (parts u), upPort (parts v)} = {-1, 443}"
    and "normalPath (upPath (parts u)) = normalPath (upPath (parts v))"
  shows "canonicalHtu q U False u = canonicalHtu q U False v"
proof -
  have "htuParts q normalPath (parts u) = htuParts q normalPath (parts v)"
    using assms(3-5) by (auto simp: htuParts_def doubleton_eq_iff)
  with assms(1,2) show ?thesis by (simp add: canonicalHtu_release Let_def)
qed

end

text \<open>
  A release build signs one text for one target: two https URLs that differ only in the case
  of scheme and host, an explicit default port, the query, the fragment or an equivalent path
  have the same canonical form.
\<close>

theorem canonicalHtu_same_target:
  assumes "url_contract U parts partsValid partsText normalPath"
    and "httpsTarget q partsValid (parts u)" and "httpsTarget q partsValid (parts v)"
    and "qtToLower q (upHost (parts u)) = qtToLower q (upHost (parts v))"
    and "upPort (parts u) = upPort (parts v) \<or> {upPort (parts u), upPort (parts v)} = {-1, 443}"
    and "normalPath (upPath (parts u)) = normalPath (upPath (parts v))"
  shows "canonicalHtu q U False u = canonicalHtu q U False v"
  using assms(2-6) by (rule url_contract.same_target [OF assms(1)])

definition sampleUrl :: url_parts where
  "sampleUrl = \<lparr>upScheme = lit ''https'', upUserName = [], upPassword = [], upHost = lit ''h.example'',
     upPort = -1, upPath = lit ''/v1/me'', upQuery = [], upFragment = []\<rparr>"

theorem canonicalHtu_same_target_witness:
  "canonicalHtu qtAscii partsUrl False
     (sampleUrl\<lparr>upScheme := lit ''HTTPS'', upHost := lit ''H.Example'', upPort := 443, upQuery := lit ''a=b''\<rparr>)
   = Some (lit ''https://h.example/v1/me'')"
proof -
  let ?u = "sampleUrl\<lparr>upScheme := lit ''HTTPS'', upHost := lit ''H.Example'', upPort := 443, upQuery := lit ''a=b''\<rparr>"
  have "canonicalHtu qtAscii partsUrl False ?u = canonicalHtu qtAscii partsUrl False sampleUrl"
    by (rule canonicalHtu_same_target [OF urlParts.url_contract_axioms])
       (simp_all add: sampleUrl_def httpsTarget_def qtAscii_simps lit_def insert_commute)
  also have "\<dots> = Some (lit ''https://h.example/v1/me'')"
    by (simp add: urlParts.canonicalHtu_release Let_def httpsTarget_def htuParts_def sampleUrl_def
        qtAscii_simps lit_def)
  finally show ?thesis .
qed

section \<open>The proof\<close>

text \<open>
  What an accepted proof is: the compact form of a header with the public key, a payload with
  the hash of the token, the method, the canonical URL, the time and the nonce, and a signature
  the signer made over exactly the first two segments with the key it had reported before.
\<close>

definition proofOf ::
    "qt \<Rightarrow> qtJson \<Rightarrow> 'u qurl \<Rightarrow> bool \<Rightarrow> 's proof_signer \<Rightarrow> int \<Rightarrow> bytes
       \<Rightarrow> qstring \<Rightarrow> 'u \<Rightarrow> qstring \<Rightarrow> qstring \<Rightarrow> 's \<Rightarrow> ProofResult \<Rightarrow> 's \<Rightarrow> bool" where
  "proofOf q J U localDevelopment signer clock random httpMethod url accessToken expected s r s'' \<longleftrightarrow>
     (\<exists>htu publicBlob err x y header payload signature err' s'.
        validCompactAccessToken (qtToLatin1 q accessToken) \<and> validMethod httpMethod
        \<and> canonicalHtu q U localDevelopment url = Some htu
        \<and> signerPublicKeyBlob signer s = ((True, publicBlob, err), s')
        \<and> parsePublicBlob publicBlob = Some (x, y)
        \<and> expected = thumbprintFor q (qtToBase64Url q x) (qtToBase64Url q y)
        \<and> length random = 16
        \<and> header = qtToBase64Url q (toJsonCompact J (proofHeader (qtToBase64Url q x) (qtToBase64Url q y)))
        \<and> payload = qtToBase64Url q (toJsonCompact J (proofPayload
             (fromLatin1 (qtToBase64Url q (qtSha256 q (qtToLatin1 q accessToken))))
             (qtToUpper q httpMethod) htu clock (fromLatin1 (qtToBase64Url q random))))
        \<and> signerSign signer (header @ dotByte # payload) s' = ((True, signature, publicBlob, err'), s'')
        \<and> length signature = 64
        \<and> r = \<lparr>prValid = True,
             prCompactJws = fromLatin1 (header @ dotByte # payload @ dotByte # qtToBase64Url q signature),
             prJwkThumbprint = expected, prError = []\<rparr>)"

lemma rejected_not_valid [simp]: "\<not> prValid rejected"
  by (simp add: rejected_def)

lemma build_valid_sound:
  assumes "build q J U dev signer clock random m url token expected s = (r, s'')" and "prValid r"
  shows "proofOf q J U dev signer clock random m url token expected s r s''"
  using assms unfolding build_def Let_def
  by (auto simp: proofOf_def split: if_splits option.splits prod.splits)

lemma build_valid_complete:
  assumes "proofOf q J U dev signer clock random m url token expected s r s''"
  shows "build q J U dev signer clock random m url token expected s = (r, s'') \<and> prValid r"
  using assms unfolding proofOf_def
  by (elim exE conjE) (simp add: build_def Let_def)


text \<open>Every other outcome is the one rejected result: no JWS, no thumbprint, a fixed error.\<close>

theorem build_uniform_rejection:
  "prValid (fst (build q J U dev signer clock random m url token expected s))
   \<or> fst (build q J U dev signer clock random m url token expected s) = rejected"
  by (auto simp: build_def Let_def split: option.splits prod.splits)

text \<open>
  A method with a line feed at its end passes the syntax check, because the dollar sign of
  the pattern also matches before it.
\<close>

theorem validMethod_line_feed:
  "validMethod (lit ''GET'' @ [10])"
  by (simp add: validMethod_def anchoredMatch_def methodChar_def lit_def)

end
