(* ===== verification/TlsPinPolicy.thy ===== *)
theory TlsPinPolicy
  imports Base64 Url
begin

text \<open>
  \<open>license-client/src/security/TlsPinPolicy.cpp\<close>: decoding the configured pins, the policy made
  of them, and the check of a request URL and a peer certificate. Certificates and OpenSSL's
  X.509 calls are parameters; the pointer size of the platform is one too, since the source
  takes the length of the pin prefix from it.
\<close>

section \<open>Pins\<close>

definition PinPrefix :: bytes where "PinPrefix = lit ''sha256/''"

text \<open>\<open>sizeof(PinPrefix) - 1\<close> is one less than the size of a pointer.\<close>

definition decodePin :: "nat \<Rightarrow> qt \<Rightarrow> bytes \<Rightarrow> bytes option" where
  "decodePin pointerSize q encodedPin =
     (if \<not> startsWith encodedPin PinPrefix then None
      else let encodedDigest = drop (pointerSize - 1) encodedPin in
        case qtFromBase64Strict q encodedDigest of None \<Rightarrow> None
        | Some decoded \<Rightarrow>
          if length decoded \<noteq> 32 \<or> qtToBase64 q decoded \<noteq> encodedDigest then None
          else Some decoded)"

section \<open>Certificates\<close>

text \<open>
  \<open>d2iX509\<close> gives the parsed certificate and the bytes it consumed; \<open>i2dLength\<close> and \<open>i2dWrite\<close>
  are the two calls of \<open>i2d_X509_PUBKEY\<close>, without and with an output buffer.
\<close>

record ('x, 'p, 'k) x509 =
  certIsNull :: "'x \<Rightarrow> bool"
  certToDer :: "'x \<Rightarrow> bytes"
  d2iX509 :: "bytes \<Rightarrow> ('p \<times> nat) option"
  x509PubKey :: "'p \<Rightarrow> 'k option"
  i2dLength :: "'k \<Rightarrow> int"
  i2dWrite :: "'k \<Rightarrow> int \<times> bytes"

definition certificateSpkiDigest :: "qt \<Rightarrow> ('x, 'p, 'k) x509 \<Rightarrow> 'x \<Rightarrow> bytes" where
  "certificateSpkiDigest q X certificate =
     (let certificateDer = certToDer X certificate in
      if certificateDer = [] then []
      else case d2iX509 X certificateDer of None \<Rightarrow> []
      | Some (rawCertificate, consumed) \<Rightarrow>
        if consumed \<noteq> length certificateDer then []
        else case x509PubKey X rawCertificate of None \<Rightarrow> []
        | Some publicKey \<Rightarrow>
          let spkiLength = i2dLength X publicKey in
          if spkiLength \<le> 0 then []
          else let (written, spki) = i2dWrite X publicKey in
            if written \<noteq> spkiLength then [] else qtSha256 q spki)"

section \<open>The policy\<close>

record TlsPinPolicy =
  expectedHost :: qstring
  pinDigests :: "bytes list"
  localDevelopment :: bool
  policyValid :: bool

text \<open>The pins decoded up to the first that does not decode, and whether all did.\<close>

fun decodePins :: "nat \<Rightarrow> qt \<Rightarrow> bytes list \<Rightarrow> bytes list \<times> bool" where
  "decodePins pointerSize q [] = ([], True)"
| "decodePins pointerSize q (pin # pins) =
     (case decodePin pointerSize q pin of None \<Rightarrow> ([], False)
      | Some digest \<Rightarrow> let (digests, ok) = decodePins pointerSize q pins in (digest # digests, ok))"

definition newTlsPinPolicy ::
    "nat \<Rightarrow> qt \<Rightarrow> 'u qurl \<Rightarrow> qstring \<Rightarrow> bytes list \<Rightarrow> bool \<Rightarrow> TlsPinPolicy" where
  "newTlsPinPolicy pointerSize q U host sha256Pins dev =
     (let host = qtToLower q (qtTrimmed q host);
          policy = \<lparr>expectedHost = host, pinDigests = [], localDevelopment = dev, policyValid = False\<rparr> in
      if host = [] then policy
      else if dev then policy\<lparr>policyValid := (sha256Pins = [] \<and> hostIsLoopback U host)\<rparr>
      else if length sha256Pins \<noteq> 2 then policy
      else let (digests, ok) = decodePins pointerSize q sha256Pins;
               policy = policy\<lparr>pinDigests := digests\<rparr> in
        if \<not> ok then policy
        else policy\<lparr>policyValid := (digests ! 0 \<noteq> digests ! 1)\<rparr>)"

definition permitsRequestUrl :: "qt \<Rightarrow> 'u qurl \<Rightarrow> TlsPinPolicy \<Rightarrow> 'u \<Rightarrow> bool" where
  "permitsRequestUrl q U policy requestUrl =
     (if \<not> policyValid policy \<or> \<not> urlIsValid U requestUrl \<or> urlUserInfo U requestUrl \<noteq> []
         \<or> qtCaseFold q (urlHost U requestUrl) \<noteq> qtCaseFold q (expectedHost policy) then False
      else if localDevelopment policy
        then qtCaseFold q (urlScheme U requestUrl) = qtCaseFold q (lit ''http'')
          \<and> hostIsLoopback U (urlHost U requestUrl)
      else qtCaseFold q (urlScheme U requestUrl) = qtCaseFold q (lit ''https''))"

definition verifyPeer ::
    "qt \<Rightarrow> 'u qurl \<Rightarrow> ('x, 'p, 'k) x509 \<Rightarrow> TlsPinPolicy \<Rightarrow> 'u \<Rightarrow> 'x \<Rightarrow> bool" where
  "verifyPeer q U X policy requestUrl peer =
     (if \<not> permitsRequestUrl q U policy requestUrl then False
      else if localDevelopment policy then certIsNull X peer
      else if certIsNull X peer then False
      else let actualDigest = certificateSpkiDigest q X peer in
        if length actualDigest \<noteq> 32 then False
        else fold (\<lambda>pinDigest matched. matched \<or> take 32 pinDigest = actualDigest)
          (pinDigests policy) False)"

section \<open>Lemmas\<close>

text \<open>The strict decoder is documented to decode what the encoder writes.\<close>

definition qtStrictCodec :: "qt \<Rightarrow> bool" where
  "qtStrictCodec q \<longleftrightarrow> qtToBase64 q = rfcBase64 \<and> (\<forall>v. qtFromBase64Strict q (rfcBase64 v) = Some v)"

lemma qtAscii_strict [simp]: "qtStrictCodec qtAscii"
  using rfcStd.dec_enc by (simp add: qtStrictCodec_def qtAscii_simps)

lemma PinPrefix_length: "length PinPrefix = 7"
  by (simp add: PinPrefix_def lit_def)

lemma decodePin_Some_iff:
  assumes "qtStrictCodec q"
  shows "decodePin 8 q pin = Some d \<longleftrightarrow> pin = PinPrefix @ rfcBase64 d \<and> length d = 32"
proof -
  show ?thesis
  proof (cases "startsWith pin PinPrefix")
    case True
    then obtain r where r: "pin = PinPrefix @ r" by (auto simp: startsWith_iff)
    then have "drop 7 pin = r" by (simp add: PinPrefix_length)
    with assms r show ?thesis
      by (auto simp: decodePin_def qtStrictCodec_def Let_def split: option.splits if_splits)
  next
    case False
    then show ?thesis by (auto simp: decodePin_def)
  qed
qed

lemma decodePin_length: "decodePin n q pin = Some d \<Longrightarrow> length d = 32"
  by (auto simp: decodePin_def Let_def split: if_splits option.splits)

lemma decodePins_two:
  assumes "length pins = 2" "decodePins n q pins = (digests, ok)"
  shows "ok \<longleftrightarrow> (\<exists>d e. digests = [d, e] \<and> decodePin n q (pins ! 0) = Some d
    \<and> decodePin n q (pins ! 1) = Some e)"
  using assms by (auto simp: numeral_2_eq_2 length_Suc_conv split: option.splits)

lemma fold_or: "fold (\<lambda>x m. m \<or> P x) xs b \<longleftrightarrow> b \<or> (\<exists>x \<in> set xs. P x)"
  by (induction xs arbitrary: b) auto

text \<open>
  On a 64-bit platform a pin decodes exactly when it is \<open>sha256/\<close> followed by the padded
  standard encoding of 32 bytes.
\<close>

theorem decodePin_correct:
  assumes "qtStrictCodec q"
  shows "decodePin 8 q pin = Some d \<longleftrightarrow> pin = PinPrefix @ rfcBase64 d \<and> length d = 32"
  by (rule decodePin_Some_iff [OF assms])

theorem decodePin_correct_witness:
  "decodePin 8 qtAscii (PinPrefix @ rfcBase64 (replicate 32 5)) = Some (replicate 32 5)"
  by (subst decodePin_correct) simp_all

text \<open>
  The length of the prefix is taken from the size of a pointer: where pointers have four
  bytes, no well-formed pin decodes.
\<close>

theorem decodePin_pointer_size:
  assumes "qtStrictCodec q" and "length d = 32"
  shows "decodePin 4 q (PinPrefix @ rfcBase64 d) = None"
proof -
  have len: "length (rfcBase64 v) = 44" if "length v = 32" for v
    using rfcBase64_key [OF that] by simp
  have sliced: "length (drop 3 (PinPrefix @ rfcBase64 d)) = 48"
    using len [OF assms(2)] by (simp add: PinPrefix_length)
  have "rfcBase64 v \<noteq> drop 3 (PinPrefix @ rfcBase64 d)" if "length v = 32" for v
    using len [OF that] sliced by (auto dest: arg_cong [of _ _ length])
  then show ?thesis
    using assms(1) by (simp add: decodePin_def qtStrictCodec_def Let_def split: option.splits)
qed

theorem decodePin_pointer_size_witness:
  "decodePin 4 qtAscii (PinPrefix @ rfcBase64 (replicate 32 5)) = None"
  by (rule decodePin_pointer_size) simp_all

text \<open>
  A release policy is valid exactly for a host and two pins that decode to different
  digests; a development policy exactly for a numeric loopback host without pins.
\<close>

theorem newTlsPinPolicy_valid_iff:
  "policyValid (newTlsPinPolicy n q U host pins dev) \<longleftrightarrow>
     qtToLower q (qtTrimmed q host) \<noteq> [] \<and>
     (if dev then pins = [] \<and> hostIsLoopback U (qtToLower q (qtTrimmed q host))
      else \<exists>p1 p2 d1 d2. pins = [p1, p2] \<and> decodePin n q p1 = Some d1 \<and> decodePin n q p2 = Some d2
        \<and> d1 \<noteq> d2)"
proof (cases "\<not> dev \<and> length pins = 2")
  case True
  then obtain p1 p2 where "pins = [p1, p2]" by (auto simp: numeral_2_eq_2 length_Suc_conv)
  with True show ?thesis
    by (auto simp: newTlsPinPolicy_def Let_def split: option.splits)
qed (auto simp: newTlsPinPolicy_def Let_def)

lemma newTlsPinPolicy_release_digests:
  assumes "policyValid (newTlsPinPolicy n q U host pins False)"
  shows "set (pinDigests (newTlsPinPolicy n q U host pins False)) = {d. \<exists>p \<in> set pins. decodePin n q p = Some d}"
proof -
  obtain p1 p2 d1 d2 where "pins = [p1, p2]" "decodePin n q p1 = Some d1" "decodePin n q p2 = Some d2"
    "qtToLower q (qtTrimmed q host) \<noteq> []"
    using assms by (auto simp: newTlsPinPolicy_valid_iff)
  then show ?thesis by (auto simp: newTlsPinPolicy_def Let_def)
qed


lemma certificateSpkiDigest_iff:
  assumes "\<And>b. length (qtSha256 q b) = 32"
  shows "certificateSpkiDigest q X c = digest \<and> length digest = 32 \<longleftrightarrow>
    (\<exists>raw key spki. certToDer X c \<noteq> [] \<and> d2iX509 X (certToDer X c) = Some (raw, length (certToDer X c))
       \<and> x509PubKey X raw = Some key \<and> i2dLength X key > 0
       \<and> i2dWrite X key = (i2dLength X key, spki) \<and> digest = qtSha256 q spki)"
  using assms by (auto simp: certificateSpkiDigest_def Let_def split: option.splits prod.splits)

text \<open>
  C35. A release policy accepts a connection exactly when the URL is https, names the expected
  host and carries no user information, and the public key of the peer's certificate, parsed
  without a rest, has one of the two configured digests.
\<close>

theorem verifyPeer_release_iff:
  assumes "\<And>b. length (qtSha256 q b) = 32"
    and "policyValid (newTlsPinPolicy n q U host pins False)"
  shows "verifyPeer q U X (newTlsPinPolicy n q U host pins False) url peer \<longleftrightarrow>
    urlIsValid U url \<and> urlUserInfo U url = []
    \<and> qtCaseFold q (urlScheme U url) = qtCaseFold q (lit ''https'')
    \<and> qtCaseFold q (urlHost U url) = qtCaseFold q (qtToLower q (qtTrimmed q host))
    \<and> \<not> certIsNull X peer
    \<and> (\<exists>pin \<in> set pins. \<exists>d. decodePin n q pin = Some d \<and> certificateSpkiDigest q X peer = d)"
proof -
  let ?P = "newTlsPinPolicy n q U host pins False"
  have fields: "localDevelopment ?P = False" "expectedHost ?P = qtToLower q (qtTrimmed q host)"
    by (auto simp: newTlsPinPolicy_def Let_def split: prod.splits)
  have pinned: "(\<exists>d \<in> set (pinDigests ?P). take 32 d = a) \<longleftrightarrow>
      (\<exists>pin \<in> set pins. \<exists>d. decodePin n q pin = Some d \<and> a = d)" for a
    unfolding newTlsPinPolicy_release_digests [OF assms(2)] using decodePin_length by fastforce
  have "verifyPeer q U X ?P url peer \<longleftrightarrow> permitsRequestUrl q U ?P url \<and> \<not> certIsNull X peer
      \<and> length (certificateSpkiDigest q X peer) = 32
      \<and> (\<exists>pin \<in> set pins. \<exists>d. decodePin n q pin = Some d \<and> certificateSpkiDigest q X peer = d)"
    by (simp add: verifyPeer_def fields Let_def fold_or pinned)
  then show ?thesis
    using assms(2) decodePin_length [of n q] by (auto simp: permitsRequestUrl_def fields)
qed

definition sampleX509 :: "(bytes, bytes, bytes) x509" where
  "sampleX509 = \<lparr>certIsNull = (\<lambda>c. c = []), certToDer = (\<lambda>c. c), d2iX509 = (\<lambda>b. Some (b, length b)),
     x509PubKey = Some, i2dLength = (\<lambda>k. int (length k)), i2dWrite = (\<lambda>k. (int (length k), k))\<rparr>"

definition sampleDigest :: "byte \<Rightarrow> bytes" where
  "sampleDigest b = replicate 31 0 @ [b]"

lemma sampleDigest_inject [simp]: "sampleDigest a = sampleDigest b \<longleftrightarrow> a = b"
  by (simp add: sampleDigest_def)

definition samplePins :: "bytes list" where
  "samplePins = [PinPrefix @ rfcBase64 (sampleDigest 1), PinPrefix @ rfcBase64 (sampleDigest 2)]"

lemma samplePins_decode:
  "decodePin 8 qtAscii (PinPrefix @ rfcBase64 (sampleDigest b)) = Some (sampleDigest b)"
  by (simp add: decodePin_Some_iff sampleDigest_def)

definition samplePolicy :: TlsPinPolicy where
  "samplePolicy = newTlsPinPolicy 8 qtAscii partsUrl (lit ''h'') samplePins False"

lemma samplePolicy_valid: "policyValid (newTlsPinPolicy 8 qtAscii partsUrl (lit ''h'') samplePins False)"
  by (simp add: newTlsPinPolicy_valid_iff samplePins_def samplePins_decode
      qtAscii_simps trimmed_def lit_def)

theorem verifyPeer_release_iff_witness:
  "verifyPeer qtAscii partsUrl sampleX509 samplePolicy
     \<lparr>upScheme = lit ''https'', upUserName = [], upPassword = [], upHost = lit ''H'', upPort = -1,
      upPath = [], upQuery = [], upFragment = []\<rparr> [2]"
proof -
  have "length (qtSha256 qtAscii b) = 32" for b by (simp add: qtAscii_simps)
  moreover have "certificateSpkiDigest qtAscii sampleX509 [2] = sampleDigest 2"
    by (simp add: certificateSpkiDigest_def sampleX509_def qtAscii_simps sampleDigest_def)
  moreover have "\<not> certIsNull sampleX509 [2]" by (simp add: sampleX509_def)
  ultimately show ?thesis
    unfolding samplePolicy_def using verifyPeer_release_iff [OF _ samplePolicy_valid, of sampleX509]
    by (simp add: samplePins_def samplePins_decode partsUrl_simps qtAscii_simps trimmed_def lit_def)
qed

end
