(* ===== verification/ApiTypes.thy ===== *)
theory ApiTypes
  imports DeviceIdentity
begin

text \<open>
  The messages of \<open>license-client/src/api/ApiClient.h\<close> that the API client and the
  authentication manager exchange, and the pattern both use for request ids. A \<open>QDateTime\<close> is
  the optional number of seconds since the epoch; \<open>None\<close> is an invalid one.
\<close>

record ApiError =
  errCode :: qstring
  errMessage :: qstring
  errRequestId :: qstring

definition apiError :: "qstring \<Rightarrow> qstring \<Rightarrow> qstring \<Rightarrow> ApiError" where
  "apiError code message requestId = \<lparr>errCode = code, errMessage = message, errRequestId = requestId\<rparr>"

lemma apiError_simps [simp]:
  "errCode (apiError c m r) = c" "errMessage (apiError c m r) = m" "errRequestId (apiError c m r) = r"
  by (simp_all add: apiError_def)

record HardwareSignals =
  hsSmbiosUuid :: qstring
  hsMotherboardSerial :: qstring
  hsBiosSerial :: qstring
  hsSystemDiskSerial :: qstring
  hsMachineGuid :: qstring
  hsFingerprint :: qstring

record LoginRequest =
  lrEmail :: qstring
  lrPassword :: qstring
  lrDeviceFingerprint :: qstring

record LoginResponse =
  lrsSessionId :: qstring
  lrsChallenge :: qstring
  lrsChallengeExpiresAt :: qstring
  lrsRequestId :: qstring

record DeviceVerifyRequest =
  dvSessionId :: qstring
  dvChallenge :: qstring
  dvChallengeSignature :: qstring
  dvTpmPublicKey :: qstring
  dvHardware :: HardwareSignals

record DeviceVerifyResponse =
  dvrToken :: qstring
  dvrTokenExpiresAt :: qstring
  dvrLicenseId :: qstring
  dvrDeviceId :: qstring
  dvrRequestId :: qstring

record ProtectedSession =
  psAccessToken :: qstring
  psDeviceKeyThumbprint :: qstring
  psExpiresAt :: "int option"

record UserProfileResponse =
  upEmail :: qstring
  upAccountStatus :: qstring
  upProduct :: qstring
  upLicenseStatus :: qstring
  upLicenseExpiresAt :: "int option"
  upMaxDevices :: int
  upDeviceId :: qstring
  upDeviceStatus :: qstring
  upSessionExpiresAt :: "int option"
  upRequestId :: qstring

definition emptyProfile :: UserProfileResponse where
  "emptyProfile = \<lparr>upEmail = [], upAccountStatus = [], upProduct = [], upLicenseStatus = [],
     upLicenseExpiresAt = None, upMaxDevices = 0, upDeviceId = [], upDeviceStatus = [],
     upSessionExpiresAt = None, upRequestId = []\<rparr>"

section \<open>Request ids\<close>

text \<open>One predicate for each character of the pattern of a UUID.\<close>

definition hexLower :: "qchar \<Rightarrow> bool" where
  "hexLower c \<longleftrightarrow> (48 \<le> c \<and> c \<le> 57) \<or> (97 \<le> c \<and> c \<le> 102)"

definition uuidPattern :: "(qchar \<Rightarrow> bool) list" where
  "uuidPattern =
     (let dash = (\<lambda>c. c = dashChar);
          version = (\<lambda>c. 49 \<le> c \<and> c \<le> 56);
          variant = (\<lambda>c. c = 56 \<or> c = 57 \<or> c = 97 \<or> c = 98)
      in replicate 8 hexLower @ dash # replicate 4 hexLower @ dash # version # replicate 3 hexLower
         @ dash # variant # replicate 3 hexLower @ dash # replicate 12 hexLower)"

definition isUuidText :: "qstring \<Rightarrow> bool" where
  "isUuidText s \<longleftrightarrow> list_all2 (\<lambda>P c. P c) uuidPattern s"

definition safeRequestId :: "qstring \<Rightarrow> bool" where
  "safeRequestId requestId = anchoredMatch isUuidText requestId"

lemma safeRequestId_length: "safeRequestId s \<Longrightarrow> length s = 36 \<or> length s = 37"
proof -
  have "isUuidText t \<Longrightarrow> length t = 36" for t
    by (drule list_all2_lengthD [OF isUuidText_def [THEN iffD1]]) (simp add: uuidPattern_def Let_def)
  then show "safeRequestId s \<Longrightarrow> ?thesis"
    using length_butlast [of s] by (fastforce simp: safeRequestId_def anchoredMatch_def)
qed

lemma safeRequestId_charset:
  assumes "safeRequestId s" and "c \<in> set s"
  shows "hexLower c \<or> c = dashChar \<or> c = 10"
proof -
  have uuid: "isUuidText t \<Longrightarrow> c \<in> set t \<Longrightarrow> hexLower c \<or> c = dashChar" for t
  proof -
    assume "isUuidText t" "c \<in> set t"
    then obtain P where "P \<in> set uuidPattern" "P c"
      unfolding isUuidText_def list_all2_conv_all_nth by (metis in_set_conv_nth)
    moreover have "P c \<longrightarrow> hexLower c \<or> c = dashChar" if "P \<in> set uuidPattern" for P
      using that by (auto simp: uuidPattern_def hexLower_def Let_def word_le_nat_alt)
    ultimately show "hexLower c \<or> c = dashChar" by blast
  qed
  from assms consider "isUuidText s" | "isUuidText (butlast s)" "last s = 10" "s \<noteq> []"
    by (auto simp: safeRequestId_def anchoredMatch_def)
  then show ?thesis
  proof cases
    case 2
    then have "c \<in> set (butlast s) \<or> c = 10"
      using assms(2) by (metis append_butlast_last_id in_set_conv_decomp last_in_set
          set_append Un_iff set_ConsD empty_iff list.set(1))
    with 2 uuid show ?thesis by blast
  qed (use assms uuid in blast)
qed

end
