(* ===== verification/AuthManager.thy ===== *)
theory AuthManager
  imports ApiTypes SessionToken
begin

text \<open>
  \<open>license-client/src/auth/AuthManager.cpp\<close>: the state machine of a session, from collecting the
  device identity through login, challenge, verification and profile to expiry. A handler maps
  the object's state to the next one and the list of its effects in order: signals, calls of
  the API, of the expiry timer and of the two background tasks. \<open>authStep\<close> runs the handler of
  an event, \<open>authReachable\<close> is the set of states the events lead to.
\<close>

section \<open>State\<close>

datatype AuthState =
  LoggedOut | CollectingDevice | Authenticating | WaitingForDeviceChallenge | VerifyingDevice
  | Authenticated | Failed

datatype auth_effect =
    StateChanged AuthState
  | StatusChanged qstring
  | FailedSignal ApiError
  | AuthenticatedSignal
  | ReauthenticationRequired qstring
  | StartCollection "64 word"
  | StartSigning bytes "64 word"
  | ApiLogin LoginRequest "64 word"
  | ApiVerifyDevice DeviceVerifyRequest "64 word"
  | ApiLoadProfile ProtectedSession "64 word"
  | ApiCancelProfile
  | TimerSchedule int
  | TimerCancel

text \<open>What the signing task captured when it was started.\<close>

record signing_job =
  sjAttempt :: "64 word"
  sjEncodedChallenge :: qstring
  sjRequestId :: qstring

text \<open>
  \<open>amCollection\<close> and \<open>amSigning\<close> are the futures of the two watchers, with what their tasks
  captured; \<open>amTimer\<close> is the generation captured by the callback of the running expiry timer.
\<close>

record AuthManager =
  amState :: AuthState
  amHardware :: HardwareIdentity
  amSessionId :: qstring
  amChallenge :: bytes
  amSessionToken :: qstring
  amUserProfile :: UserProfileResponse
  amProfileLoading :: bool
  amExpiresAt :: "int option"
  amPendingEmail :: qstring
  amPendingPassword :: qstring
  amAttempt :: "64 word"
  amCollection :: "64 word option"
  amSigning :: "signing_job option"
  amTimer :: "64 word option"

definition initialAuth :: AuthManager where
  "initialAuth = \<lparr>amState = LoggedOut, amHardware = emptyIdentity, amSessionId = [], amChallenge = [],
     amSessionToken = [], amUserProfile = emptyProfile, amProfileLoading = False, amExpiresAt = None,
     amPendingEmail = [], amPendingPassword = [], amAttempt = 0, amCollection = None,
     amSigning = None, amTimer = None\<rparr>"

text \<open>What the manager is constructed with: Qt, the JSON parser, EVP and the token verifier.\<close>

record 'k auth_env =
  aeQt :: qt
  aeJson :: qtJson
  aeEvp :: "'k evp"
  aeCast :: int
  aeVerifier :: SessionTokenVerifier

definition deviceDisplayId :: "AuthManager \<Rightarrow> qstring" where
  "deviceDisplayId s = (if finalFingerprint (amHardware s) = [] then [] else displayId (amHardware s))"

section \<open>Building blocks\<close>

type_synonym handler = "AuthManager \<Rightarrow> AuthManager \<times> auth_effect list"

definition transition :: "AuthState \<Rightarrow> qstring \<Rightarrow> handler" where
  "transition state status s = (s\<lparr>amState := state\<rparr>, [StateChanged state, StatusChanged status])"

definition clearSession :: "AuthManager \<Rightarrow> AuthManager" where
  "clearSession s = s\<lparr>amPendingPassword := [], amPendingEmail := [], amHardware := emptyIdentity,
     amSessionId := [], amChallenge := [], amSessionToken := [], amUserProfile := emptyProfile,
     amProfileLoading := False, amExpiresAt := None\<rparr>"

definition timerCancel :: handler where
  "timerCancel s = (s\<lparr>amTimer := None\<rparr>, [TimerCancel])"

definition timerSchedule :: "int \<Rightarrow> 64 word \<Rightarrow> handler" where
  "timerSchedule delayMs generation s =
     (s\<lparr>amTimer := Some generation\<rparr>, [TimerSchedule (max 0 (min delayMs 2147483647))])"

definition allowedCodes :: "qstring list" where
  "allowedCodes = [
     lit ''INVALID_CREDENTIALS'', lit ''LICENSE_EXPIRED'', lit ''LICENSE_REVOKED'',
     lit ''DEVICE_LIMIT_REACHED'', lit ''DEVICE_REVOKED'', lit ''RATE_LIMITED'',
     lit ''TPM_UNAVAILABLE'', lit ''TOKEN_VERIFIER_UNAVAILABLE'', lit ''INVALID_CHALLENGE'',
     lit ''DEVICE_SIGNING_FAILED'', lit ''INVALID_SESSION_TOKEN'', lit ''INVALID_SESSION'',
     lit ''SESSION_EXPIRED'', lit ''DEVICE_PROOF_FAILED'', lit ''NETWORK_ERROR'',
     lit ''INSECURE_TRANSPORT'', lit ''TIMEOUT'', lit ''RESPONSE_TOO_LARGE'',
     lit ''MALFORMED_RESPONSE'', lit ''REQUEST_IN_PROGRESS'']"

definition withoutOneSecret :: "qstring \<Rightarrow> ApiError \<Rightarrow> ApiError" where
  "withoutOneSecret secret e =
     (if secret = [] then e
      else e\<lparr>errCode := (if containsSub (errCode e) secret then lit ''AUTHENTICATION_FAILED'' else errCode e),
             errMessage := (if containsSub (errMessage e) secret then lit ''Authentication failed.''
               else errMessage e),
             errRequestId := (if containsSub (errRequestId e) secret then [] else errRequestId e)\<rparr>)"

definition safeErrorFor :: "AuthManager \<Rightarrow> ApiError \<Rightarrow> ApiError" where
  "safeErrorFor s e =
     (let e = withoutOneSecret (amSessionToken s) e;
          e = withoutOneSecret (amPendingPassword s) e;
          e = (if \<not> List.member allowedCodes (errCode e)
               then e\<lparr>errCode := lit ''AUTHENTICATION_FAILED''\<rparr> else e);
          e = e\<lparr>errMessage := lit ''Authentication failed.''\<rparr>
      in if \<not> safeRequestId (errRequestId e) then e\<lparr>errRequestId := []\<rparr> else e)"

definition fail :: "ApiError \<Rightarrow> handler" where
  "fail e s =
     (let safeError = safeErrorFor s e; profile = amProfileLoading s;
          (s, es1) = timerCancel s;
          es2 = (if profile then [ApiCancelProfile] else []);
          s = s\<lparr>amAttempt := amAttempt s + 1\<rparr>;
          s = clearSession s;
          (s, es3) = transition Failed (lit ''Authentication failed.'') s
      in (s, es1 @ es2 @ es3 @ [FailedSignal safeError]))"

definition requireReauthentication :: "64 word \<Rightarrow> handler" where
  "requireReauthentication generation s =
     (if generation \<noteq> amAttempt s \<or> amSessionToken s = [] then (s, [])
      else let (s, es1) = timerCancel s;
               s = s\<lparr>amAttempt := amAttempt s + 1\<rparr>;
               s = clearSession s;
               reason = lit ''Session expired. Sign in again.'';
               (s, es2) = transition LoggedOut reason s
           in (s, es1 @ [ApiCancelProfile] @ es2 @ [ReauthenticationRequired reason]))"

section \<open>Handlers\<close>

definition login :: "qstring \<Rightarrow> qstring \<Rightarrow> handler" where
  "login email password s =
     (if amState s \<noteq> LoggedOut \<and> amState s \<noteq> Failed then (s, [])
      else let (s, es1) = timerCancel s;
               s = clearSession s;
               s = s\<lparr>amPendingEmail := email, amPendingPassword := password\<rparr>;
               s = s\<lparr>amAttempt := amAttempt s + 1\<rparr>;
               (s, es2) = transition CollectingDevice (lit ''Collecting device identity.'') s;
               s = s\<lparr>amCollection := Some (amAttempt s)\<rparr>
           in (s, es1 @ es2 @ [StartCollection (amAttempt s)]))"

definition cancelAndWait :: "AuthManager \<Rightarrow> AuthManager" where
  "cancelAndWait s = s\<lparr>amAttempt := amAttempt s + 1, amCollection := None, amSigning := None\<rparr>"

definition signOut :: handler where
  "signOut s =
     (let s = cancelAndWait s;
          (s, es1) = timerCancel s;
          s = clearSession s;
          (s, es2) = transition LoggedOut (lit ''Signed out.'') s
      in (s, es1 @ [ApiCancelProfile] @ es2))"

definition handleLoginFailed :: "ApiError \<Rightarrow> 64 word \<Rightarrow> handler" where
  "handleLoginFailed e generation s =
     (if generation = amAttempt s \<and> amState s = Authenticating \<and> \<not> amProfileLoading s
      then fail e s else (s, []))"

text \<open>
  \<open>sync\<close> is the error when the call of \<open>login\<close> fails at once and emits its signal before it
  returns; the password is cleared after the call.
\<close>

definition completeCollection ::
    "'k auth_env \<Rightarrow> bool \<Rightarrow> HardwareIdentity \<Rightarrow> ApiError option \<Rightarrow> handler" where
  "completeCollection C success identity sync s =
     (case amCollection s of None \<Rightarrow> (s, [])
      | Some attempt \<Rightarrow>
        let s = s\<lparr>amCollection := None\<rparr> in
        if attempt \<noteq> amAttempt s \<or> amState s \<noteq> CollectingDevice then (s, [])
        else if \<not> success
        then fail (apiError (lit ''TPM_UNAVAILABLE'') (lit ''Device security is unavailable.'') []) s
        else let s = s\<lparr>amHardware := identity\<rparr> in
        if \<not> verifierConfigured (aeQt C) (aeVerifier C)
        then fail (apiError (lit ''TOKEN_VERIFIER_UNAVAILABLE'')
               (lit ''Client security configuration is unavailable.'') []) s
        else let (s, es1) = transition Authenticating (lit ''Authenticating.'') s;
                 call = ApiLogin \<lparr>lrEmail = amPendingEmail s, lrPassword = amPendingPassword s,
                   lrDeviceFingerprint = finalFingerprint (amHardware s)\<rparr> (amAttempt s);
                 (s, es2) = (case sync of None \<Rightarrow> (s, []) | Some e \<Rightarrow> handleLoginFailed e (amAttempt s) s)
             in (s\<lparr>amPendingPassword := []\<rparr>, es1 @ [call] @ es2))"

definition handleLoginSucceeded :: "'k auth_env \<Rightarrow> LoginResponse \<Rightarrow> 64 word \<Rightarrow> handler" where
  "handleLoginSucceeded C response generation s =
     (if generation \<noteq> amAttempt s \<or> amState s \<noteq> Authenticating \<or> amProfileLoading s then (s, [])
      else let (s, es1) = transition WaitingForDeviceChallenge (lit ''Verifying device challenge.'') s in
        case strictBase64 (aeQt C) (lrsChallenge response) of
          None \<Rightarrow> (let (s, es2) = fail (apiError (lit ''INVALID_CHALLENGE'')
              (lit ''Server challenge is invalid.'') (lrsRequestId response)) s in (s, es1 @ es2))
        | Some challenge \<Rightarrow>
          let s = s\<lparr>amChallenge := challenge\<rparr>;
              s = s\<lparr>amSessionId := lrsSessionId response\<rparr>;
              (s, es2) = transition VerifyingDevice (lit ''Signing device challenge.'') s;
              s = s\<lparr>amSigning := Some \<lparr>sjAttempt = amAttempt s, sjEncodedChallenge = lrsChallenge response,
                   sjRequestId = lrsRequestId response\<rparr>\<rparr>
          in (s, es1 @ es2 @ [StartSigning (amChallenge s) (amAttempt s)]))"

definition hardwareSignals :: "HardwareIdentity \<Rightarrow> HardwareSignals" where
  "hardwareSignals h = \<lparr>hsSmbiosUuid = smbiosUuid h, hsMotherboardSerial = motherboardSerial h,
     hsBiosSerial = biosSerial h, hsSystemDiskSerial = systemDiskSerial h,
     hsMachineGuid = machineGuid h, hsFingerprint = finalFingerprint h\<rparr>"

definition completeSigning :: "'k auth_env \<Rightarrow> bool \<Rightarrow> bytes \<Rightarrow> bytes \<Rightarrow> handler" where
  "completeSigning C success signature publicKey s =
     (case amSigning s of None \<Rightarrow> (s, [])
      | Some job \<Rightarrow>
        let s = s\<lparr>amSigning := None\<rparr> in
        if sjAttempt job \<noteq> amAttempt s \<or> amState s \<noteq> VerifyingDevice then (s, [])
        else if \<not> success
        then fail (apiError (lit ''DEVICE_SIGNING_FAILED'') (lit ''Device proof could not be created.'')
               (sjRequestId job)) s
        else (s, [ApiVerifyDevice
          \<lparr>dvSessionId = amSessionId s, dvChallenge = sjEncodedChallenge job,
           dvChallengeSignature = qtFromUtf8 (aeQt C) (qtToBase64 (aeQt C) signature),
           dvTpmPublicKey = qtFromUtf8 (aeQt C) (qtToBase64 (aeQt C) publicKey),
           dvHardware = hardwareSignals (amHardware s)\<rparr> (amAttempt s)]))"

text \<open>
  The instants are the readings of the clocks in the order of the calls: seconds for the token
  check, milliseconds for the expiry check and for the delay of the timer.
\<close>

definition expiryMs :: "AuthManager \<Rightarrow> int" where
  "expiryMs s = (case amExpiresAt s of None \<Rightarrow> 0 | Some e \<Rightarrow> 1000 * e)"

definition handleDeviceVerified ::
    "'k auth_env \<Rightarrow> int \<Rightarrow> int \<Rightarrow> int \<Rightarrow> DeviceVerifyResponse \<Rightarrow> 64 word \<Rightarrow> handler" where
  "handleDeviceVerified C nowSec nowMs laterMs response generation s =
     (if generation \<noteq> amAttempt s \<or> amState s \<noteq> VerifyingDevice then (s, [])
      else let verified = verify (aeQt C) (aeJson C) (aeEvp C) (aeCast C) (aeVerifier C) nowSec
             (dvrToken response) (dvrDeviceId response) (dvrLicenseId response) in
      if \<not> vsValid verified
      then fail (apiError (lit ''INVALID_SESSION_TOKEN'') (lit ''Server session token is invalid.'')
             (dvrRequestId response)) s
      else let s = s\<lparr>amSessionToken := dvrToken response, amExpiresAt := vsExpiresAt verified\<rparr> in
      if expiryMs s \<le> nowMs then requireReauthentication generation s
      else let (s, es1) = timerSchedule (max 0 (expiryMs s - laterMs)) generation s;
               s = s\<lparr>amUserProfile := emptyProfile, amProfileLoading := True\<rparr>;
               (s, es2) = transition Authenticating (lit ''Loading profile.'') s
           in (s, es1 @ es2 @ [ApiLoadProfile \<lparr>psAccessToken = amSessionToken s,
                 psDeviceKeyThumbprint = vsThumbprint verified, psExpiresAt = vsExpiresAt verified\<rparr>
                 (amAttempt s)]))"

definition handleDeviceVerificationFailed :: "ApiError \<Rightarrow> 64 word \<Rightarrow> handler" where
  "handleDeviceVerificationFailed e generation s =
     (if generation = amAttempt s \<and> amState s = VerifyingDevice then fail e s else (s, []))"

definition handleProfileLoaded :: "int \<Rightarrow> UserProfileResponse \<Rightarrow> 64 word \<Rightarrow> handler" where
  "handleProfileLoaded nowMs response generation s =
     (if generation \<noteq> amAttempt s \<or> amState s \<noteq> Authenticating \<or> \<not> amProfileLoading s
          \<or> amSessionToken s = [] then (s, [])
      else if amExpiresAt s = None \<or> expiryMs s \<le> nowMs then requireReauthentication generation s
      else let s = s\<lparr>amUserProfile := response, amProfileLoading := False, amState := Authenticated\<rparr>
           in (s, [StateChanged Authenticated, StatusChanged (lit ''Authenticated.''), AuthenticatedSignal]))"

definition handleProfileFailed :: "ApiError \<Rightarrow> 64 word \<Rightarrow> handler" where
  "handleProfileFailed e generation s =
     (if generation = amAttempt s \<and> amState s = Authenticating \<and> amProfileLoading s
      then fail e s else (s, []))"

text \<open>The single-shot timer takes its callback out before it runs it.\<close>

definition timerFired :: handler where
  "timerFired s =
     (case amTimer s of None \<Rightarrow> (s, [])
      | Some generation \<Rightarrow> requireReauthentication generation (s\<lparr>amTimer := None\<rparr>))"

section \<open>Events\<close>

datatype auth_event =
    Login qstring qstring
  | SignOut
  | CollectionFinished bool HardwareIdentity "ApiError option"
  | LoginSucceeded LoginResponse "64 word"
  | LoginFailed ApiError "64 word"
  | SigningFinished bool bytes bytes
  | DeviceVerified int int int DeviceVerifyResponse "64 word"
  | DeviceVerificationFailed ApiError "64 word"
  | ProfileLoaded int UserProfileResponse "64 word"
  | ProfileFailed ApiError "64 word"
  | TimerFired

fun authStep :: "'k auth_env \<Rightarrow> auth_event \<Rightarrow> handler" where
  "authStep C (Login email password) = login email password"
| "authStep C SignOut = signOut"
| "authStep C (CollectionFinished success identity sync) = completeCollection C success identity sync"
| "authStep C (LoginSucceeded response g) = handleLoginSucceeded C response g"
| "authStep C (LoginFailed e g) = handleLoginFailed e g"
| "authStep C (SigningFinished success signature key) = completeSigning C success signature key"
| "authStep C (DeviceVerified nowSec nowMs laterMs response g) =
     handleDeviceVerified C nowSec nowMs laterMs response g"
| "authStep C (DeviceVerificationFailed e g) = handleDeviceVerificationFailed e g"
| "authStep C (ProfileLoaded nowMs response g) = handleProfileLoaded nowMs response g"
| "authStep C (ProfileFailed e g) = handleProfileFailed e g"
| "authStep C TimerFired = timerFired"

fun authRun :: "'k auth_env \<Rightarrow> auth_event list \<Rightarrow> handler" where
  "authRun C [] s = (s, [])"
| "authRun C (ev # evs) s =
     (let (s, es) = authStep C ev s; (s, es') = authRun C evs s in (s, es @ es'))"

inductive authReachable :: "'k auth_env \<Rightarrow> AuthManager \<Rightarrow> bool" for C where
  initial: "authReachable C initialAuth"
| step: "authReachable C s \<Longrightarrow> authReachable C (fst (authStep C ev s))"

inductive_cases authReachableE: "authReachable C s"

section \<open>The invariant\<close>

lemmas auth_block_defs = transition_def timerCancel_def timerSchedule_def Let_def

lemma fail_state:
  "fst (fail e s) = (clearSession s)\<lparr>amTimer := None, amAttempt := amAttempt s + 1, amState := Failed\<rparr>"
  by (simp add: fail_def auth_block_defs clearSession_def)

lemma requireReauthentication_state:
  "fst (requireReauthentication g s) =
    (if g \<noteq> amAttempt s \<or> amSessionToken s = [] then s
     else (clearSession s)\<lparr>amTimer := None, amAttempt := amAttempt s + 1, amState := LoggedOut\<rparr>)"
  by (simp add: requireReauthentication_def auth_block_defs clearSession_def)

text \<open>A session token that the verifier accepted, with the expiry it gave.\<close>

definition verifiedToken :: "'k auth_env \<Rightarrow> qstring \<Rightarrow> int option \<Rightarrow> bool" where
  "verifiedToken C token expires \<longleftrightarrow> (\<exists>now device license session.
     verify (aeQt C) (aeJson C) (aeEvp C) (aeCast C) (aeVerifier C) now token device license = session
     \<and> vsValid session \<and> vsExpiresAt session = expires \<and> expires \<noteq> None)"

text \<open>Nothing of a session is left.\<close>

definition cleared :: "AuthManager \<Rightarrow> bool" where
  "cleared s \<longleftrightarrow> amPendingPassword s = [] \<and> amPendingEmail s = [] \<and> amHardware s = emptyIdentity
     \<and> amSessionId s = [] \<and> amChallenge s = [] \<and> amSessionToken s = [] \<and> amUserProfile s = emptyProfile
     \<and> amExpiresAt s = None \<and> \<not> amProfileLoading s \<and> amTimer s = None"

definition authInv :: "'k auth_env \<Rightarrow> AuthManager \<Rightarrow> bool" where
  "authInv C s \<longleftrightarrow>
     amState s \<noteq> WaitingForDeviceChallenge
     \<and> (amPendingPassword s \<noteq> [] \<longrightarrow> amState s = CollectingDevice)
     \<and> amCollection s = (if amState s = CollectingDevice then Some (amAttempt s) else None)
     \<and> (amProfileLoading s \<longrightarrow> amState s = Authenticating)
     \<and> (amSessionToken s \<noteq> [] \<longleftrightarrow> amState s = Authenticated \<or> amProfileLoading s)
     \<and> amTimer s = (if amSessionToken s = [] then None else Some (amAttempt s))
     \<and> (amSessionToken s \<noteq> [] \<longrightarrow> verifiedToken C (amSessionToken s) (amExpiresAt s))
     \<and> (amState s \<in> {LoggedOut, Failed} \<longrightarrow> cleared s)"

lemma authInv_initial: "authInv C initialAuth"
  by (simp add: authInv_def initialAuth_def cleared_def)

lemma authInv_cleared:
  "amCollection s = None \<Longrightarrow> st \<in> {LoggedOut, Failed} \<Longrightarrow>
    authInv C ((clearSession s)\<lparr>amTimer := None, amAttempt := a, amState := st\<rparr>)"
  by (auto simp: authInv_def clearSession_def cleared_def)

lemma authInv_fail: "amCollection s = None \<Longrightarrow> authInv C (fst (fail e s))"
  by (simp add: fail_state authInv_cleared)

lemma authInv_collection: "authInv C s \<Longrightarrow> amState s \<noteq> CollectingDevice \<Longrightarrow> amCollection s = None"
  by (simp add: authInv_def)

lemma authInv_reauth:
  "authInv C s \<Longrightarrow> amState s \<noteq> CollectingDevice \<Longrightarrow> authInv C (fst (requireReauthentication g s))"
  by (simp add: requireReauthentication_state authInv_cleared authInv_collection)

lemma login_state:
  "fst (login email password s) =
    (if amState s \<noteq> LoggedOut \<and> amState s \<noteq> Failed then s
     else (clearSession s)\<lparr>amTimer := None, amPendingEmail := email, amPendingPassword := password,
       amAttempt := amAttempt s + 1, amState := CollectingDevice,
       amCollection := Some (amAttempt s + 1)\<rparr>)"
  by (simp add: login_def auth_block_defs clearSession_def)

lemma signOut_state:
  "fst (signOut s) = (clearSession (cancelAndWait s))\<lparr>amTimer := None,
     amAttempt := amAttempt s + 1, amState := LoggedOut\<rparr>"
  by (simp add: signOut_def auth_block_defs clearSession_def cancelAndWait_def)

lemma authInv_collecting:
  "authInv C ((clearSession s)\<lparr>amTimer := None, amPendingEmail := email, amPendingPassword := password,
     amAttempt := a, amState := CollectingDevice, amCollection := Some a\<rparr>)"
  by (simp add: authInv_def clearSession_def)

lemma authInv_login: "authInv C s \<Longrightarrow> authInv C (fst (login email password s))"
  by (simp add: login_state authInv_collecting)

lemma authInv_signOut: "authInv C s \<Longrightarrow> authInv C (fst (signOut s))"
  unfolding signOut_state by (rule authInv_cleared) (simp_all add: cancelAndWait_def)

lemma authInv_handleLoginFailed: "authInv C s \<Longrightarrow> authInv C (fst (handleLoginFailed e g s))"
  by (auto simp: handleLoginFailed_def intro!: authInv_fail authInv_collection)

lemma fail_password [simp]: "(fst (fail e s))\<lparr>amPendingPassword := []\<rparr> = fst (fail e s)"
  by (simp add: fail_state clearSession_def)

text \<open>The future of the signing task is not part of the invariant.\<close>

lemma authInv_cong:
  assumes "amState t = amState s"
    and "amHardware t = amHardware s"
    and "amSessionId t = amSessionId s"
    and "amChallenge t = amChallenge s"
    and "amSessionToken t = amSessionToken s"
    and "amUserProfile t = amUserProfile s"
    and "amProfileLoading t = amProfileLoading s"
    and "amExpiresAt t = amExpiresAt s"
    and "amPendingEmail t = amPendingEmail s"
    and "amPendingPassword t = amPendingPassword s"
    and "amAttempt t = amAttempt s"
    and "amCollection t = amCollection s"
    and "amTimer t = amTimer s"
  shows "authInv C t \<longleftrightarrow> authInv C s"
  unfolding authInv_def cleared_def assms by (rule refl)

lemma authInv_signing [simp]: "authInv C (s\<lparr>amSigning := job\<rparr>) \<longleftrightarrow> authInv C s"
  by (rule authInv_cong) simp_all

lemma authInv_authenticating:
  "amCollection s = None \<Longrightarrow> amSessionToken s = [] \<Longrightarrow> amTimer s = None \<Longrightarrow> \<not> amProfileLoading s \<Longrightarrow>
    amState s = Authenticating \<or> amState s = VerifyingDevice \<Longrightarrow> amPendingPassword s = [] \<Longrightarrow>
    authInv C s"
  unfolding authInv_def by (elim disjE) simp_all

lemma completeCollection_state:
  "fst (completeCollection C success identity sync s) =
    (if amCollection s = None then s
     else let s' = s\<lparr>amCollection := None\<rparr>; started = s'\<lparr>amHardware := identity, amState := Authenticating\<rparr> in
       if the (amCollection s) \<noteq> amAttempt s \<or> amState s \<noteq> CollectingDevice then s'
       else if \<not> success then fst (fail (apiError (lit ''TPM_UNAVAILABLE'')
         (lit ''Device security is unavailable.'') []) s')
       else if \<not> verifierConfigured (aeQt C) (aeVerifier C)
       then fst (fail (apiError (lit ''TOKEN_VERIFIER_UNAVAILABLE'')
         (lit ''Client security configuration is unavailable.'') []) (s'\<lparr>amHardware := identity\<rparr>))
       else (case sync of None \<Rightarrow> started
         | Some e \<Rightarrow> fst (handleLoginFailed e (amAttempt s) started))\<lparr>amPendingPassword := []\<rparr>)"
  by (cases "amCollection s"; cases sync)
     (simp_all add: completeCollection_def auth_block_defs case_prod_unfold)

lemma authInv_completeCollection:
  assumes "authInv C s"
  shows "authInv C (fst (completeCollection C success identity sync s))"
proof (cases "amCollection s")
  case (Some attempt)
  with assms have s: "amState s = CollectingDevice" "attempt = amAttempt s" "\<not> amProfileLoading s"
      "amSessionToken s = []" "amTimer s = None"
    by (auto simp: authInv_def split: if_splits)
  let ?started = "s\<lparr>amCollection := None, amHardware := identity, amState := Authenticating,
    amPendingPassword := []\<rparr>"
  have "authInv C ?started"
    by (rule authInv_authenticating) (simp_all add: s)
  then show ?thesis
    using Some s by (simp add: completeCollection_state Let_def authInv_fail handleLoginFailed_def
        split: option.splits)
qed (use assms in \<open>simp add: completeCollection_state\<close>)

lemma authInv_handleLoginSucceeded:
  assumes "authInv C s"
  shows "authInv C (fst (handleLoginSucceeded C response g s))"
proof (cases "g \<noteq> amAttempt s \<or> amState s \<noteq> Authenticating \<or> amProfileLoading s")
  case True
  with assms show ?thesis by (simp add: handleLoginSucceeded_def)
next
  case False
  with assms have s: "amCollection s = None" "amSessionToken s = []" "amTimer s = None"
      "amPendingPassword s = []"
    by (auto simp: authInv_def)
  show ?thesis
  proof (cases "strictBase64 (aeQt C) (lrsChallenge response)")
    case None
    with False s show ?thesis
      by (simp add: handleLoginSucceeded_def auth_block_defs case_prod_unfold authInv_fail)
  next
    case (Some challenge)
    let ?s = "s\<lparr>amChallenge := challenge, amSessionId := lrsSessionId response,
      amState := VerifyingDevice, amSigning := Some \<lparr>sjAttempt = amAttempt s, sjEncodedChallenge = lrsChallenge response,
        sjRequestId = lrsRequestId response\<rparr>\<rparr>"
    have "authInv C ?s"
      using False s by (intro authInv_authenticating) simp_all
    with False Some show ?thesis
      by (simp add: handleLoginSucceeded_def auth_block_defs)
  qed
qed

lemma authInv_completeSigning:
  assumes "authInv C s"
  shows "authInv C (fst (completeSigning C success signature key s))"
proof (cases "amSigning s")
  case (Some job)
  have "authInv C (s\<lparr>amSigning := None\<rparr>)" using assms by simp
  moreover have "amState s = VerifyingDevice \<Longrightarrow> amCollection s = None"
    using assms by (simp add: authInv_def)
  ultimately show ?thesis
    using Some by (auto simp: completeSigning_def Let_def intro!: authInv_fail)
qed (use assms in \<open>simp add: completeSigning_def\<close>)

lemma authInv_handleDeviceVerified:
  assumes "authInv C s" and "qtToUtf8 (aeQt C) [] = []"
  shows "authInv C (fst (handleDeviceVerified C nowSec nowMs laterMs response g s))"
proof (cases "g \<noteq> amAttempt s \<or> amState s \<noteq> VerifyingDevice")
  case True
  with assms show ?thesis by (simp add: handleDeviceVerified_def)
next
  case False
  with assms have s: "amCollection s = None" "amPendingPassword s = []" "g = amAttempt s"
    by (auto simp: authInv_def)
  let ?v = "verify (aeQt C) (aeJson C) (aeEvp C) (aeCast C) (aeVerifier C) nowSec
             (dvrToken response) (dvrDeviceId response) (dvrLicenseId response)"
  show ?thesis
  proof (cases "vsValid ?v")
    case True
    then obtain e where e: "vsExpiresAt ?v = Some e" "qtToUtf8 (aeQt C) (dvrToken response) \<noteq> []"
      by (rule verify_valid_parts)
    with assms(2) have token: "dvrToken response \<noteq> []" by auto
    from True e have verified: "verifiedToken C (dvrToken response) (Some e)"
      unfolding verifiedToken_def by blast
    let ?s = "s\<lparr>amSessionToken := dvrToken response, amExpiresAt := Some e\<rparr>"
    show ?thesis
    proof (cases "expiryMs ?s \<le> nowMs")
      case True
      with False \<open>vsValid ?v\<close> s e token show ?thesis
        by (simp add: handleDeviceVerified_def Let_def requireReauthentication_state authInv_cleared)
    next
      case running: False
      have "authInv C (?s\<lparr>amTimer := Some (amAttempt s), amUserProfile := emptyProfile,
          amProfileLoading := True, amState := Authenticating\<rparr>)"
        using s token verified by (simp add: authInv_def)
      with False running \<open>vsValid ?v\<close> s e show ?thesis
        by (simp add: handleDeviceVerified_def auth_block_defs)
    qed
  next
    case invalid: False
    with False s show ?thesis by (simp add: handleDeviceVerified_def authInv_fail)
  qed
qed

lemma authInv_handleDeviceVerificationFailed:
  "authInv C s \<Longrightarrow> authInv C (fst (handleDeviceVerificationFailed e g s))"
  by (auto simp: handleDeviceVerificationFailed_def intro!: authInv_fail authInv_collection)

lemma authInv_handleProfileLoaded: "authInv C s \<Longrightarrow> authInv C (fst (handleProfileLoaded nowMs response g s))"
  by (auto simp: handleProfileLoaded_def Let_def intro!: authInv_reauth) (auto simp: authInv_def)

lemma authInv_handleProfileFailed: "authInv C s \<Longrightarrow> authInv C (fst (handleProfileFailed e g s))"
  by (auto simp: handleProfileFailed_def intro!: authInv_fail authInv_collection)

lemma authInv_timerFired:
  assumes "authInv C s"
  shows "authInv C (fst (timerFired s))"
proof (cases "amTimer s")
  case (Some g)
  with assms have "g = amAttempt s" "amSessionToken s \<noteq> []" "amCollection s = None"
    by (auto simp: authInv_def split: if_splits)
  with Some show ?thesis
    by (simp add: timerFired_def requireReauthentication_state clearSession_def)
       (simp add: authInv_def cleared_def)
qed (use assms in \<open>simp add: timerFired_def\<close>)

lemmas authInv_handlers = authInv_login authInv_signOut authInv_completeCollection
  authInv_handleLoginSucceeded authInv_handleLoginFailed authInv_completeSigning
  authInv_handleDeviceVerified authInv_handleDeviceVerificationFailed authInv_handleProfileLoaded
  authInv_handleProfileFailed authInv_timerFired

lemma authInv_step:
  "qtToUtf8 (aeQt C) [] = [] \<Longrightarrow> authInv C s \<Longrightarrow> authInv C (fst (authStep C ev s))"
  by (cases ev) (simp_all add: authInv_handlers)

lemma authReachable_inv:
  "authReachable C s \<Longrightarrow> qtToUtf8 (aeQt C) [] = [] \<Longrightarrow> authInv C s"
  by (induction rule: authReachable.induct) (simp_all add: authInv_initial authInv_step)

section \<open>Effects\<close>

lemma fail_effects:
  "snd (fail e s) = TimerCancel # (if amProfileLoading s then [ApiCancelProfile] else [])
     @ [StateChanged Failed, StatusChanged (lit ''Authentication failed.''), FailedSignal (safeErrorFor s e)]"
  by (simp add: fail_def auth_block_defs)

lemma requireReauthentication_effects:
  "snd (requireReauthentication g s) =
    (if g \<noteq> amAttempt s \<or> amSessionToken s = [] then []
     else [TimerCancel, ApiCancelProfile, StateChanged LoggedOut,
       StatusChanged (lit ''Session expired. Sign in again.''),
       ReauthenticationRequired (lit ''Session expired. Sign in again.'')])"
  by (simp add: requireReauthentication_def auth_block_defs)

lemmas effect_simps = fail_effects requireReauthentication_effects

lemma step_failed_from_fail:
  "FailedSignal x \<in> set (snd (authStep C ev s)) \<Longrightarrow> \<exists>t e. x = safeErrorFor t e"
  by (cases ev)
     (auto simp: login_def signOut_def completeCollection_def handleLoginSucceeded_def
       handleLoginFailed_def completeSigning_def handleDeviceVerified_def
       handleDeviceVerificationFailed_def handleProfileLoaded_def handleProfileFailed_def
       timerFired_def effect_simps auth_block_defs case_prod_unfold
       split: if_splits option.splits)

definition safeError :: "ApiError \<Rightarrow> bool" where
  "safeError e \<longleftrightarrow> errCode e \<in> insert (lit ''AUTHENTICATION_FAILED'') (set allowedCodes)
     \<and> errMessage e = lit ''Authentication failed.''
     \<and> (errRequestId e = [] \<or> safeRequestId (errRequestId e))"

lemma safeErrorFor_safe: "safeError (safeErrorFor s e)"
  by (simp add: safeErrorFor_def safeError_def Let_def)

text \<open>An API signal and the generation it answers.\<close>

fun answers :: "auth_event \<Rightarrow> 64 word option" where
  "answers (LoginSucceeded response g) = Some g"
| "answers (LoginFailed e g) = Some g"
| "answers (DeviceVerified nowSec nowMs laterMs response g) = Some g"
| "answers (DeviceVerificationFailed e g) = Some g"
| "answers (ProfileLoaded nowMs response g) = Some g"
| "answers (ProfileFailed e g) = Some g"
| "answers _ = None"

lemma step_stale: "answers ev = Some g \<Longrightarrow> g \<noteq> amAttempt s \<Longrightarrow> authStep C ev s = (s, [])"
  by (cases ev) (auto simp: handleLoginSucceeded_def handleLoginFailed_def handleDeviceVerified_def
      handleDeviceVerificationFailed_def handleProfileLoaded_def handleProfileFailed_def)

lemma word_succ_neq: "(x :: 64 word) \<noteq> x + 1"
  by simp

section \<open>Properties\<close>

text \<open>
  C1. Every state the events lead to satisfies the invariant: the password is held only while the
  device is collected, a collection runs exactly in that state and for the current attempt, a
  session token is held exactly while a profile is loading or the user is authenticated, it is
  one the verifier accepted, and the expiry timer is then armed for the current attempt.
\<close>

theorem authReachable_invariant:
  assumes "authReachable C s" and "qtToUtf8 (aeQt C) [] = []"
  shows "authInv C s"
  using assms by (rule authReachable_inv)

text \<open>
  An authenticated manager holds a token its verifier accepted, with the expiry the verifier
  gave, no password, and an expiry timer that ends this very session.
\<close>

theorem authenticated_is_verified:
  assumes "authReachable C s" and "qtToUtf8 (aeQt C) [] = []" and "amState s = Authenticated"
  shows "amSessionToken s \<noteq> [] \<and> verifiedToken C (amSessionToken s) (amExpiresAt s)
    \<and> amPendingPassword s = [] \<and> amTimer s = Some (amAttempt s)"
  using authReachable_inv [OF assms(1,2)] assms(3) by (auto simp: authInv_def)

text \<open>
  Logged out and after a failure nothing of a session is left: no password, token, challenge,
  hardware identity, profile or armed timer.
\<close>

theorem idle_is_cleared:
  assumes "authReachable C s" and "qtToUtf8 (aeQt C) [] = []" and "amState s \<in> {LoggedOut, Failed}"
  shows "cleared s"
  using authReachable_inv [OF assms(1,2)] assms(3) unfolding authInv_def by blast

text \<open>
  Whatever an event brings, the error the manager reports has a code of the fixed list, the
  fixed message and no request id or one in the form of a UUID.
\<close>

theorem reported_errors_safe:
  assumes "FailedSignal e \<in> set (snd (authStep C ev s))"
  shows "safeError e"
  using step_failed_from_fail [OF assms] safeErrorFor_safe by auto

text \<open>
  Signing out, whatever the state, clears everything, and answers to requests of the session
  that was left are ignored from then on.
\<close>

theorem signOut_cuts_off:
  "amState (fst (authStep C SignOut s)) = LoggedOut \<and> cleared (fst (authStep C SignOut s))
   \<and> (answers ev = Some (amAttempt s) \<longrightarrow>
       authStep C ev (fst (authStep C SignOut s)) = (fst (authStep C SignOut s), []))"
proof -
  have "amAttempt (fst (signOut s)) = amAttempt s + 1" by (simp add: signOut_state)
  then have "answers ev = Some (amAttempt s) \<Longrightarrow> authStep C ev (fst (signOut s)) = (fst (signOut s), [])"
    using word_succ_neq [of "amAttempt s"] step_stale by metis
  then show ?thesis
    by (simp add: signOut_state cleared_def clearSession_def)
qed

text \<open>A signal that does not answer the current attempt changes nothing and has no effect.\<close>

theorem stale_signals_ignored:
  assumes "answers ev = Some g" and "g \<noteq> amAttempt s"
  shows "authStep C ev s = (s, [])"
  using assms by (rule step_stale)

text \<open>
  The only way to become authenticated is the profile of the current attempt arriving while
  it is awaited and before the session's expiry.
\<close>

theorem authenticated_only_by_profile:
  assumes "amState s \<noteq> Authenticated" and "amState (fst (authStep C ev s)) = Authenticated"
  shows "\<exists>nowMs response e. ev = ProfileLoaded nowMs response (amAttempt s)
    \<and> amState s = Authenticating \<and> amProfileLoading s \<and> amSessionToken s \<noteq> []
    \<and> amExpiresAt s = Some e \<and> nowMs < 1000 * e"
  using assms
  by (cases ev)
     (auto simp: login_state signOut_state completeCollection_state handleLoginSucceeded_def
       handleLoginFailed_def completeSigning_def handleDeviceVerified_def
       handleDeviceVerificationFailed_def handleProfileLoaded_def handleProfileFailed_def
       timerFired_def fail_state requireReauthentication_state clearSession_def auth_block_defs
       case_prod_unfold expiryMs_def split: if_splits option.splits)

text \<open>
  The password leaves the manager in one call only, the login of the current attempt after a
  successful collection, and is gone from the state when the step ends.
\<close>

theorem password_leaves_once:
  assumes "ApiLogin request g \<in> set (snd (authStep C ev s))"
  shows "amState s = CollectingDevice \<and> g = amAttempt s \<and> lrPassword request = amPendingPassword s
    \<and> amPendingPassword (fst (authStep C ev s)) = []
    \<and> (\<exists>identity sync. ev = CollectionFinished True identity sync)"
  using assms
  by (cases ev)
     (auto simp: login_def signOut_def completeCollection_def handleLoginSucceeded_def
       handleLoginFailed_def completeSigning_def handleDeviceVerified_def
       handleDeviceVerificationFailed_def handleProfileLoaded_def handleProfileFailed_def
       timerFired_def effect_simps auth_block_defs case_prod_unfold
       split: if_splits option.splits)

text \<open>
  When the expiry timer fires in an authenticated session, the session ends at once: the
  manager is logged out, cleared, and asks for a new sign-in.
\<close>

theorem expiry_ends_session:
  assumes "authReachable C s" and "qtToUtf8 (aeQt C) [] = []" and "amState s = Authenticated"
  shows "amState (fst (authStep C TimerFired s)) = LoggedOut \<and> cleared (fst (authStep C TimerFired s))
    \<and> ReauthenticationRequired (lit ''Session expired. Sign in again.'') \<in> set (snd (authStep C TimerFired s))"
proof -
  from authReachable_inv [OF assms(1,2)] assms(3)
  have "amTimer s = Some (amAttempt s)" "amSessionToken s \<noteq> []" by (auto simp: authInv_def)
  then show ?thesis
    by (simp add: timerFired_def requireReauthentication_state requireReauthentication_effects
        cleared_def clearSession_def)
qed


definition sessionEvents ::
    "64 word \<Rightarrow> qstring \<Rightarrow> qstring \<Rightarrow> HardwareIdentity \<Rightarrow> LoginResponse \<Rightarrow> bytes \<Rightarrow> bytes \<Rightarrow>
     DeviceVerifyResponse \<Rightarrow> int \<Rightarrow> int \<Rightarrow> int \<Rightarrow> UserProfileResponse \<Rightarrow> int \<Rightarrow> auth_event list" where
  "sessionEvents g email password identity loginResponse signature key verifyResponse nowSec nowMs laterMs
     profile profileMs =
     [Login email password, CollectionFinished True identity None, LoginSucceeded loginResponse g,
      SigningFinished True signature key, DeviceVerified nowSec nowMs laterMs verifyResponse g,
      ProfileLoaded profileMs profile g]"

lemma authRun_append: "authRun C (xs @ ys) s =
  (let (s, es) = authRun C xs s; (s, es') = authRun C ys s in (s, es @ es'))"
  by (induction xs arbitrary: s) (simp_all add: case_prod_unfold Let_def)

text \<open>The five steps of a normal run, each with the facts the next one needs.\<close>

lemma login_step:
  assumes "amState s = LoggedOut \<or> amState s = Failed" "s1 = fst (authStep C (Login email password) s)"
  shows "amState s1 = CollectingDevice" "amAttempt s1 = amAttempt s + 1" "amPendingEmail s1 = email"
    "amPendingPassword s1 = password" "amCollection s1 = Some (amAttempt s + 1)" "\<not> amProfileLoading s1"
  using assms by (auto simp: login_state clearSession_def)

lemma collection_step:
  assumes "amState s = CollectingDevice" "amCollection s = Some (amAttempt s)" "\<not> amProfileLoading s"
    "verifierConfigured (aeQt C) (aeVerifier C)"
    "authStep C (CollectionFinished True identity None) s = (s', es)"
  shows "amState s' = Authenticating" "amAttempt s' = amAttempt s" "amHardware s' = identity"
    "\<not> amProfileLoading s'"
    "ApiLogin \<lparr>lrEmail = amPendingEmail s, lrPassword = amPendingPassword s,
       lrDeviceFingerprint = finalFingerprint identity\<rparr> (amAttempt s) \<in> set es"
  using assms by (auto simp: completeCollection_def auth_block_defs)

lemma challenge_step:
  assumes "amState s = Authenticating" "\<not> amProfileLoading s"
    "strictBase64 (aeQt C) (lrsChallenge response) = Some c"
    "authStep C (LoginSucceeded response (amAttempt s)) s = (s', es)"
  shows "amState s' = VerifyingDevice" "amAttempt s' = amAttempt s" "amHardware s' = amHardware s"
    "amSigning s' \<noteq> None" "sjAttempt (the (amSigning s')) = amAttempt s"
    "StartSigning c (amAttempt s) \<in> set es"
  using assms by (auto simp: handleLoginSucceeded_def auth_block_defs)

lemma signing_step:
  assumes "amState s = VerifyingDevice" "amSigning s \<noteq> None" "sjAttempt (the (amSigning s)) = amAttempt s"
    "authStep C (SigningFinished True signature key) s = (s', es)"
  shows "amState s' = VerifyingDevice" "amAttempt s' = amAttempt s" "amHardware s' = amHardware s"
  using assms by (auto simp: completeSigning_def Let_def)

lemma verified_step:
  assumes "amState s = VerifyingDevice" "vsValid session" "vsExpiresAt session = Some e" "nowMs < 1000 * e"
    "verify (aeQt C) (aeJson C) (aeEvp C) (aeCast C) (aeVerifier C) nowSec
      (dvrToken response) (dvrDeviceId response) (dvrLicenseId response) = session"
    "authStep C (DeviceVerified nowSec nowMs laterMs response (amAttempt s)) s = (s', es)"
  shows "amState s' = Authenticating" "amAttempt s' = amAttempt s" "amHardware s' = amHardware s"
    "amProfileLoading s'" "amSessionToken s' = dvrToken response" "amExpiresAt s' = Some e"
    "ApiLoadProfile \<lparr>psAccessToken = dvrToken response, psDeviceKeyThumbprint = vsThumbprint session,
       psExpiresAt = Some e\<rparr> (amAttempt s) \<in> set es"
  using assms by (auto simp: handleDeviceVerified_def auth_block_defs expiryMs_def)

lemma profile_step:
  assumes "amState s = Authenticating" "amProfileLoading s" "amSessionToken s \<noteq> []"
    "amExpiresAt s = Some e" "nowMs < 1000 * e"
    "authStep C (ProfileLoaded nowMs profile (amAttempt s)) s = (s', es)"
  shows "s' = s\<lparr>amUserProfile := profile, amProfileLoading := False, amState := Authenticated\<rparr>"
    "AuthenticatedSignal \<in> set es"
  using assms by (auto simp: handleProfileLoaded_def expiryMs_def)

lemma authRun_Cons_split:
  assumes "authRun C (ev # evs) s = (s', es)"
  obtains t es1 es2 where "authStep C ev s = (t, es1)" "authRun C evs t = (s', es2)" "es = es1 @ es2"
  using assms by (auto simp: Let_def split: prod.splits)

lemma session_run:
  assumes idle: "amState s = LoggedOut \<or> amState s = Failed"
    and configured: "verifierConfigured (aeQt C) (aeVerifier C)"
    and challenge: "strictBase64 (aeQt C) (lrsChallenge loginResponse) = Some c"
    and verified: "verify (aeQt C) (aeJson C) (aeEvp C) (aeCast C) (aeVerifier C) nowSec
      (dvrToken verifyResponse) (dvrDeviceId verifyResponse) (dvrLicenseId verifyResponse) = session"
      "vsValid session" "vsExpiresAt session = Some e" "dvrToken verifyResponse \<noteq> []"
    and times: "nowMs < 1000 * e" "profileMs < 1000 * e"
    and run: "authRun C (sessionEvents (amAttempt s + 1) email password identity loginResponse
      signature key verifyResponse nowSec nowMs laterMs profile profileMs) s = (s', es)"
  shows "amState s' = Authenticated \<and> amSessionToken s' = dvrToken verifyResponse
    \<and> amUserProfile s' = profile \<and> amHardware s' = identity \<and> amExpiresAt s' = Some e
    \<and> AuthenticatedSignal \<in> set es \<and> StartSigning c (amAttempt s + 1) \<in> set es
    \<and> ApiLogin \<lparr>lrEmail = email, lrPassword = password, lrDeviceFingerprint = finalFingerprint identity\<rparr>
        (amAttempt s + 1) \<in> set es
    \<and> ApiLoadProfile \<lparr>psAccessToken = dvrToken verifyResponse, psDeviceKeyThumbprint = vsThumbprint session,
        psExpiresAt = Some e\<rparr> (amAttempt s + 1) \<in> set es"
proof -
  obtain s1 e1 s2 e2 s3 e3 s4 e4 s5 e5 s6 e6 where
    r1: "authStep C (Login email password) s = (s1, e1)" and
    r2: "authStep C (CollectionFinished True identity None) s1 = (s2, e2)" and
    r3: "authStep C (LoginSucceeded loginResponse (amAttempt s + 1)) s2 = (s3, e3)" and
    r4: "authStep C (SigningFinished True signature key) s3 = (s4, e4)" and
    r5: "authStep C (DeviceVerified nowSec nowMs laterMs verifyResponse (amAttempt s + 1)) s4 = (s5, e5)" and
    r6: "authStep C (ProfileLoaded profileMs profile (amAttempt s + 1)) s5 = (s6, e6)" and
    fin: "s' = s6" "es = e1 @ e2 @ e3 @ e4 @ e5 @ e6"
    using run unfolding sessionEvents_def
    by (elim authRun_Cons_split) (simp only: authRun.simps prod.inject append_Nil2)
  note l = login_step [OF idle, of s1 C email password]
  have s1: "amState s1 = CollectingDevice" "amAttempt s1 = amAttempt s + 1" "amPendingEmail s1 = email"
      "amPendingPassword s1 = password" "amCollection s1 = Some (amAttempt s + 1)" "\<not> amProfileLoading s1"
    using l r1 by simp_all
  note c = collection_step [OF s1(1) _ s1(6) configured r2]
  have s2: "amState s2 = Authenticating" "amAttempt s2 = amAttempt s + 1" "\<not> amProfileLoading s2"
      "amHardware s2 = identity" "ApiLogin \<lparr>lrEmail = email, lrPassword = password,
        lrDeviceFingerprint = finalFingerprint identity\<rparr> (amAttempt s + 1) \<in> set e2"
    using c s1 by simp_all
  have s3: "amState s3 = VerifyingDevice" "amAttempt s3 = amAttempt s + 1" "amHardware s3 = identity"
      "amSigning s3 \<noteq> None" "sjAttempt (the (amSigning s3)) = amAttempt s3"
      "StartSigning c (amAttempt s + 1) \<in> set e3"
    using challenge_step [OF s2(1,3) challenge, of s3 e3] r3 s2 by simp_all
  note s4 = signing_step [OF s3(1,4,5) r4]
  have s5: "amState s5 = Authenticating" "amAttempt s5 = amAttempt s + 1" "amHardware s5 = identity"
      "amProfileLoading s5" "amSessionToken s5 = dvrToken verifyResponse" "amExpiresAt s5 = Some e"
      "ApiLoadProfile \<lparr>psAccessToken = dvrToken verifyResponse, psDeviceKeyThumbprint = vsThumbprint session,
        psExpiresAt = Some e\<rparr> (amAttempt s + 1) \<in> set e5"
    using verified_step [OF s4(1) verified(2,3) times(1) verified(1), of laterMs s5 e5] r5 s3 s4 by simp_all
  show ?thesis
    using profile_step [OF s5(1,4) _ s5(6) times(2), of C profile s6 e6] r6 s5 s3(6) s2(5) verified(4)
    by (simp add: fin)
qed

text \<open>
  C4. The normal run reaches its end: from an idle manager, a sign-in whose collection, challenge,
  signature, token and profile are good leads to an authenticated session with that token and
  profile, and the collected hardware, the decoded challenge and the token are what was passed
  on on the way.
\<close>

theorem session_completes:
  assumes idle: "amState s = LoggedOut \<or> amState s = Failed"
    and configured: "verifierConfigured (aeQt C) (aeVerifier C)"
    and challenge: "strictBase64 (aeQt C) (lrsChallenge loginResponse) = Some c"
    and verified: "verify (aeQt C) (aeJson C) (aeEvp C) (aeCast C) (aeVerifier C) nowSec
      (dvrToken verifyResponse) (dvrDeviceId verifyResponse) (dvrLicenseId verifyResponse) = session"
      "vsValid session" "vsExpiresAt session = Some e" "dvrToken verifyResponse \<noteq> []"
    and times: "nowMs < 1000 * e" "profileMs < 1000 * e"
    and run: "authRun C (sessionEvents (amAttempt s + 1) email password identity loginResponse
      signature key verifyResponse nowSec nowMs laterMs profile profileMs) s = (s', es)"
  shows "amState s' = Authenticated \<and> amSessionToken s' = dvrToken verifyResponse
    \<and> amUserProfile s' = profile \<and> amHardware s' = identity \<and> amExpiresAt s' = Some e
    \<and> AuthenticatedSignal \<in> set es \<and> StartSigning c (amAttempt s + 1) \<in> set es
    \<and> ApiLogin \<lparr>lrEmail = email, lrPassword = password, lrDeviceFingerprint = finalFingerprint identity\<rparr>
        (amAttempt s + 1) \<in> set es
    \<and> ApiLoadProfile \<lparr>psAccessToken = dvrToken verifyResponse, psDeviceKeyThumbprint = vsThumbprint session,
        psExpiresAt = Some e\<rparr> (amAttempt s + 1) \<in> set es"
  using session_run [OF assms] .

section \<open>A concrete session\<close>

definition sampleEnv :: "bytes auth_env" where
  "sampleEnv = \<lparr>aeQt = qtAscii, aeJson = sampleJson, aeEvp = sampleEvp, aeCast = 0,
     aeVerifier = sampleVerifier\<rparr>"

definition sampleLoginResponse :: LoginResponse where
  "sampleLoginResponse = \<lparr>lrsSessionId = lit ''s'', lrsChallenge = fromLatin1 (rfcBase64 [1, 2, 3]),
     lrsChallengeExpiresAt = [], lrsRequestId = []\<rparr>"

definition sampleVerifyResponse :: DeviceVerifyResponse where
  "sampleVerifyResponse = \<lparr>dvrToken = sampleToken, dvrTokenExpiresAt = [], dvrLicenseId = lit ''l'',
     dvrDeviceId = lit ''d'', dvrRequestId = []\<rparr>"

definition sampleEvents :: "auth_event list" where
  "sampleEvents = sessionEvents 1 (lit ''a@b'') (lit ''pw'') emptyIdentity sampleLoginResponse [4] [5]
     sampleVerifyResponse 1100 1100000 1100001 emptyProfile 1100002"

lemma authRun_reachable: "authReachable C s \<Longrightarrow> authReachable C (fst (authRun C evs s))"
  by (induction evs arbitrary: s) (simp_all add: case_prod_unfold Let_def authReachable.step)

lemma sampleEnv_simps [simp]:
  "aeQt sampleEnv = qtAscii" "aeJson sampleEnv = sampleJson" "aeEvp sampleEnv = sampleEvp"
  "aeCast sampleEnv = 0" "aeVerifier sampleEnv = sampleVerifier" "qtToUtf8 qtAscii [] = []"
  by (simp_all add: sampleEnv_def qtAscii_simps)

lemma sampleToken_nonempty: "sampleToken \<noteq> []"
  by (simp add: sampleToken_def compactToken_def)

lemma sampleChallenge: "strictBase64 qtAscii (lrsChallenge sampleLoginResponse) = Some [1, 2, 3]"
  using strictBase64_iff [OF qtAscii_codecs(2)] by (simp add: sampleLoginResponse_def qtAscii_simps)

lemma sample_run:
  assumes "authRun sampleEnv sampleEvents initialAuth = (s', es)"
  shows "amState s' = Authenticated"
  using session_run [of initialAuth sampleEnv sampleLoginResponse "[1, 2, 3]" 1100
        sampleVerifyResponse sampleSession 1600 1100000 1100002 "lit ''a@b''" "lit ''pw''" emptyIdentity
        "[4]" "[5]" 1100001 emptyProfile s' es]
      assms sampleChallenge sampleVerifier_configured sample_verified [of 1100] sampleToken_nonempty
  by (simp add: sampleEvents_def initialAuth_def sampleVerifyResponse_def sampleSession_def)

definition sampleState :: AuthManager where
  "sampleState = fst (authRun sampleEnv sampleEvents initialAuth)"

lemma sampleState_reachable: "authReachable sampleEnv sampleState"
  unfolding sampleState_def by (rule authRun_reachable [OF authReachable.initial])

lemma sampleState_authenticated: "amState sampleState = Authenticated"
  unfolding sampleState_def by (metis prod.collapse sample_run)

theorem session_completes_witness:
  "\<exists>s' es. authRun sampleEnv sampleEvents initialAuth = (s', es) \<and> AuthenticatedSignal \<in> set es"
proof -
  obtain s' es where run: "authRun sampleEnv sampleEvents initialAuth = (s', es)" by fastforce
  have "AuthenticatedSignal \<in> set es"
    using session_completes [of initialAuth sampleEnv sampleLoginResponse "[1, 2, 3]" 1100
        sampleVerifyResponse sampleSession 1600 1100000 1100002 "lit ''a@b''" "lit ''pw''" emptyIdentity
        "[4]" "[5]" 1100001 emptyProfile s' es]
      run sampleChallenge sampleVerifier_configured sample_verified [of 1100] sampleToken_nonempty
    by (simp add: sampleEvents_def initialAuth_def sampleVerifyResponse_def sampleSession_def)
  with run show ?thesis by simp
qed

theorem authReachable_invariant_witness: "authInv sampleEnv sampleState"
  by (rule authReachable_invariant [OF sampleState_reachable]) simp

theorem authenticated_is_verified_witness:
  "amSessionToken sampleState \<noteq> [] \<and> amPendingPassword sampleState = []"
  using authenticated_is_verified [OF sampleState_reachable _ sampleState_authenticated] by simp

theorem idle_is_cleared_witness: "cleared (fst (authStep sampleEnv SignOut sampleState))"
  by (rule idle_is_cleared [OF authReachable.step [OF sampleState_reachable]])
     (simp_all add: signOut_state)

theorem expiry_ends_session_witness:
  "amState (fst (authStep sampleEnv TimerFired sampleState)) = LoggedOut"
  using expiry_ends_session [OF sampleState_reachable _ sampleState_authenticated] by simp

theorem reported_errors_safe_witness:
  "safeError (safeErrorFor (initialAuth\<lparr>amState := Authenticating\<rparr>) (apiError [1] [2] [3]))"
  by (rule reported_errors_safe [of _ sampleEnv "LoginFailed (apiError [1] [2] [3]) 0"
        "initialAuth\<lparr>amState := Authenticating\<rparr>"])
     (simp add: handleLoginFailed_def fail_effects initialAuth_def)

theorem stale_signals_ignored_witness:
  "authStep sampleEnv (LoginFailed (apiError [1] [2] [3]) 7) initialAuth = (initialAuth, [])"
  by (rule stale_signals_ignored [of _ 7]) (simp_all add: initialAuth_def)

theorem signOut_cuts_off_witness:
  "authStep sampleEnv (ProfileFailed (apiError [1] [2] [3]) (amAttempt sampleState))
      (fst (authStep sampleEnv SignOut sampleState)) = (fst (authStep sampleEnv SignOut sampleState), [])"
  using signOut_cuts_off [of sampleEnv sampleState
      "ProfileFailed (apiError [1] [2] [3]) (amAttempt sampleState)"] by simp

definition awaitingProfile :: AuthManager where
  "awaitingProfile = initialAuth\<lparr>amState := Authenticating, amProfileLoading := True,
     amSessionToken := [1], amExpiresAt := Some 10\<rparr>"

theorem authenticated_only_by_profile_witness:
  "\<exists>nowMs response. ProfileLoaded 9999 emptyProfile 0 = ProfileLoaded nowMs response (amAttempt awaitingProfile)"
  using authenticated_only_by_profile [of awaitingProfile sampleEnv "ProfileLoaded 9999 emptyProfile 0"]
  by (auto simp: awaitingProfile_def handleProfileLoaded_def expiryMs_def initialAuth_def)

definition collectingState :: AuthManager where
  "collectingState = fst (authStep sampleEnv (Login (lit ''a@b'') (lit ''pw'')) initialAuth)"

theorem password_leaves_once_witness:
  "amPendingPassword collectingState = lit ''pw''
   \<and> amPendingPassword (fst (authStep sampleEnv (CollectionFinished True emptyIdentity None) collectingState)) = []"
proof -
  have s: "amState collectingState = CollectingDevice" "amCollection collectingState = Some (amAttempt collectingState)"
    "\<not> amProfileLoading collectingState" "amPendingPassword collectingState = lit ''pw''"
    by (simp_all add: collectingState_def login_state initialAuth_def clearSession_def)
  obtain s' es where run: "authStep sampleEnv (CollectionFinished True emptyIdentity None) collectingState = (s', es)"
    by fastforce
  from collection_step(5) [OF s(1-3) _ run] sampleVerifier_configured
  have "ApiLogin \<lparr>lrEmail = amPendingEmail collectingState, lrPassword = amPendingPassword collectingState,
      lrDeviceFingerprint = finalFingerprint emptyIdentity\<rparr> (amAttempt collectingState)
    \<in> set (snd (authStep sampleEnv (CollectionFinished True emptyIdentity None) collectingState))"
    using run by simp
  from password_leaves_once [OF this] s(4) show ?thesis by simp
qed

end
