(* ===== verification/ApiClient.thy ===== *)
theory ApiClient
  imports ApiTypes DeviceProof TlsPinPolicy
begin

text \<open>
  \<open>license-client/src/api/ApiClient.cpp\<close>: the requests to the license server. The network access
  manager is the environment: a call or a signal of a reply is an event, and a handler maps the
  client's state to the next one and its effects (requests handed to the network manager, aborts,
  signals emitted). A live reply is numbered; the state keeps for each the variables its slot
  captured and the dynamic properties the slots set on it. \<open>apiReachable\<close> is the set of states
  that events lead to. Clock readings, the fresh request id and the proof builder's answer are
  part of a call's event.
\<close>

section \<open>State, events and effects\<close>

text \<open>
  The environment: Qt, the JSON parser, URLs, certificates, ISO dates, the size of a pointer, and
  the constants of the generated header \<open>ClientSecurityConfig.h\<close>.
\<close>

record ('u, 'x, 'p, 'k) api_env =
  apQt :: qt
  apJson :: qtJson
  apUrl :: "'u qurl"
  apX509 :: "('x, 'p, 'k) x509"
  apIsoDate :: "qstring \<Rightarrow> int option"
  apPointerSize :: nat
  apTlsPins :: bytes
  apPinnedHost :: qstring
  apLocalDevelopment :: bool
  apApplicationId :: bytes
  apPublishableKey :: bytes

datatype reply_kind = LoginReply | DeviceReply | ProfileReply

record pending_reply =
  rpKind :: reply_kind
  rpRequestId :: qstring
  rpToken :: qstring
  rpCompactProof :: qstring
  rpGeneration :: "64 word"
  rpTransportError :: qstring
  rpTimeout :: bool
  rpCancelled :: bool

record 'u net_request =
  reqUrl :: 'u
  reqUserVerifiedRedirects :: bool
  reqHeaders :: "(string \<times> bytes) list"

record net_reply =
  nrIsOpen :: bool
  nrData :: bytes
  nrStatus :: int
  nrNoError :: bool
  nrRequestIdHeader :: bytes

record 'u ApiClient =
  acBaseUrl :: 'u
  acTlsPinPolicy :: TlsPinPolicy
  acTimeoutMs :: int
  acRequestActive :: bool
  acProfileReply :: "nat option"
  acReplies :: "nat \<Rightarrow> pending_reply option"
  acNextReply :: nat

datatype 'u api_effect =
    SendGet nat "'u net_request"
  | SendPost nat "'u net_request" bytes
  | BodyCleanup bytes
  | StartTimer nat int
  | AbortReply nat
  | LoginSucceededSignal LoginResponse "64 word"
  | LoginFailedSignal ApiError "64 word"
  | DeviceVerifiedSignal DeviceVerifyResponse "64 word"
  | DeviceFailedSignal ApiError "64 word"
  | ProfileLoadedSignal UserProfileResponse "64 word"
  | ProfileFailedSignal ApiError "64 word"

type_synonym 'u api_handler = "'u ApiClient \<Rightarrow> 'u ApiClient \<times> 'u api_effect list"

type_synonym 'u proof_builder = "qstring \<Rightarrow> 'u \<Rightarrow> qstring \<Rightarrow> qstring \<Rightarrow> ProofResult"

section \<open>Errors\<close>

definition MaxResponseBytes :: nat where "MaxResponseBytes = 64 * 1024"
definition RequestTimeoutMs :: int where "RequestTimeoutMs = 15000"

definition configuredTlsPins :: "('u, 'x, 'p, 'k) api_env \<Rightarrow> bytes list" where
  "configuredTlsPins E = (let configured = apTlsPins E in if configured = [] then [] else splitOn 44 configured)"

definition transportSecurityError :: "qstring \<Rightarrow> qstring \<Rightarrow> ApiError" where
  "transportSecurityError code requestId =
     (if code = lit ''TLS_REDIRECT_REJECTED'' then apiError code (lit ''The server redirect was rejected.'') requestId
      else apiError (lit ''TLS_VALIDATION_FAILED'') (lit ''The secure connection could not be verified.'') requestId)"

definition errorForReply :: "('u, 'x, 'p, 'k) api_env \<Rightarrow> net_reply \<Rightarrow> bytes \<Rightarrow> qstring \<Rightarrow> ApiError" where
  "errorForReply E reply body fallbackRequestId =
     (let e = apiError (lit ''NETWORK_ERROR'') (lit ''Network request failed.'') fallbackRequestId;
          e = (case objectOf (apJson E) body of None \<Rightarrow> e
            | Some json \<Rightarrow>
              let code = jsonToString (jsonValue json (lit ''code''));
                  message = jsonToString (jsonValue json (lit ''message''));
                  requestId = jsonToString (jsonValue json (lit ''request_id''));
                  e = (if code \<noteq> [] then e\<lparr>errCode := code\<rparr> else e);
                  e = (if message \<noteq> [] then e\<lparr>errMessage := message\<rparr> else e)
              in if requestId \<noteq> [] then e\<lparr>errRequestId := requestId\<rparr> else e);
          headerRequestId = nrRequestIdHeader reply;
          e = (if errRequestId e = [] \<and> headerRequestId \<noteq> []
            then e\<lparr>errRequestId := qtFromUtf8 (apQt E) headerRequestId\<rparr> else e)
      in if errCode e = lit ''NETWORK_ERROR''
         then if nrStatus reply \<ge> 400
           then e\<lparr>errMessage := lit ''Server returned an error (HTTP '' @ decimalText (nrStatus reply) @ lit '').''\<rparr>
           else e\<lparr>errMessage := lit ''Could not reach the server. Check your connection and try again.''\<rparr>
         else e)"

definition withoutSecret :: "ApiError \<Rightarrow> qstring \<Rightarrow> ApiError" where
  "withoutSecret e secret =
     (if secret = [] then e
      else let e = (if containsSub (errCode e) secret then e\<lparr>errCode := lit ''INVALID_SESSION_TOKEN''\<rparr> else e);
               e = (if containsSub (errMessage e) secret
                 then e\<lparr>errMessage := lit ''Profile request failed.''\<rparr> else e)
           in if containsSub (errRequestId e) secret then e\<lparr>errRequestId := []\<rparr> else e)"

definition loginAllowedCodes :: "qstring list" where
  "loginAllowedCodes = map lit
     [''INVALID_CREDENTIALS'', ''LICENSE_EXPIRED'', ''LICENSE_REVOKED'', ''DEVICE_LIMIT_REACHED'',
      ''DEVICE_REVOKED'', ''RATE_LIMITED'', ''NETWORK_ERROR'', ''INSECURE_TRANSPORT'',
      ''TLS_VALIDATION_FAILED'', ''TLS_REDIRECT_REJECTED'', ''TIMEOUT'', ''RESPONSE_TOO_LARGE'',
      ''MALFORMED_RESPONSE'', ''REQUEST_IN_PROGRESS'']"

definition sanitizedLoginError :: "ApiError \<Rightarrow> ApiError" where
  "sanitizedLoginError e =
     (let e = (if \<not> List.member loginAllowedCodes (errCode e)
            then e\<lparr>errCode := lit ''AUTHENTICATION_FAILED''\<rparr> else e);
          e = (if errCode e \<noteq> lit ''NETWORK_ERROR'' \<and> errCode e \<noteq> lit ''TIMEOUT''
            then e\<lparr>errMessage := lit ''Authentication failed.''\<rparr> else e)
      in if \<not> safeRequestId (errRequestId e) then e\<lparr>errRequestId := []\<rparr> else e)"

section \<open>Construction and transport\<close>

definition newApiClient :: "('u, 'x, 'p, 'k) api_env \<Rightarrow> 'u \<Rightarrow> int \<Rightarrow> 'u ApiClient" where
  "newApiClient E baseUrl timeoutMs = \<lparr>
     acBaseUrl = baseUrl,
     acTlsPinPolicy = newTlsPinPolicy (apPointerSize E) (apQt E) (apUrl E) (apPinnedHost E)
       (configuredTlsPins E) (apLocalDevelopment E),
     acTimeoutMs = max 1 (min timeoutMs RequestTimeoutMs),
     acRequestActive = False, acProfileReply = None, acReplies = (\<lambda>_. None), acNextReply = 0\<rparr>"

definition isAllowedTransport :: "('u, 'x, 'p, 'k) api_env \<Rightarrow> 'u ApiClient \<Rightarrow> bool" where
  "isAllowedTransport E s \<longleftrightarrow> policyValid (acTlsPinPolicy s)
     \<and> permitsRequestUrl (apQt E) (apUrl E) (acTlsPinPolicy s) (acBaseUrl s)"

text \<open>\<open>setProperty\<close> on a reply.\<close>

definition setReply :: "nat \<Rightarrow> (pending_reply \<Rightarrow> pending_reply) \<Rightarrow> 'u ApiClient \<Rightarrow> 'u ApiClient" where
  "setReply n f s = s\<lparr>acReplies := (acReplies s)(n := map_option f (acReplies s n))\<rparr>"

text \<open>The slots of \<open>initializeNetworkSecurity\<close>, \<open>configureReplySecurity\<close> and the request timer.\<close>

definition onSslErrors :: "nat \<Rightarrow> 'u api_handler" where
  "onSslErrors n s = (if acReplies s n = None then (s, [])
     else (setReply n (rpTransportError_update (\<lambda>_. lit ''TLS_VALIDATION_FAILED'')) s, [AbortReply n]))"

definition onEncrypted :: "('u, 'x, 'p, 'k) api_env \<Rightarrow> nat \<Rightarrow> 'u \<Rightarrow> 'x \<Rightarrow> 'u api_handler" where
  "onEncrypted E n url peer s =
     (if acReplies s n = None \<or> verifyPeer (apQt E) (apUrl E) (apX509 E) (acTlsPinPolicy s) url peer then (s, [])
      else (setReply n (rpTransportError_update (\<lambda>_. lit ''TLS_VALIDATION_FAILED'')) s, [AbortReply n]))"

definition onRedirected :: "nat \<Rightarrow> 'u api_handler" where
  "onRedirected n s = (if acReplies s n = None then (s, [])
     else (setReply n (rpTransportError_update (\<lambda>_. lit ''TLS_REDIRECT_REJECTED'')) s, [AbortReply n]))"

definition onTimeout :: "nat \<Rightarrow> 'u api_handler" where
  "onTimeout n s = (if acReplies s n = None then (s, [])
     else (setReply n (rpTimeout_update (\<lambda>_. True)) s, [AbortReply n]))"

section \<open>Requests\<close>

text \<open>
  \<open>buildProtectedRequest\<close>: the error (\<open>Inl\<close>) or the request (\<open>Inr\<close>). \<open>builder\<close> is \<open>None\<close> for a null
  \<open>proofBuilder_\<close>; \<open>t1\<close> and \<open>t2\<close> are the two readings of the clock.
\<close>

definition expiresMs :: "ProtectedSession \<Rightarrow> int" where
  "expiresMs session = 1000 * the (psExpiresAt session)"

definition buildProtectedRequest ::
    "('u, 'x, 'p, 'k) api_env \<Rightarrow> 'u proof_builder option \<Rightarrow> int \<Rightarrow> int \<Rightarrow> qstring \<Rightarrow> qstring
       \<Rightarrow> ProtectedSession \<Rightarrow> qstring \<Rightarrow> 'u ApiClient \<Rightarrow> ApiError + 'u net_request" where
  "buildProtectedRequest E builder t1 t2 path method session requestId s =
     (if builder = None \<or> psAccessToken session = [] \<or> psDeviceKeyThumbprint session = []
          \<or> psExpiresAt session = None
      then Inl (apiError (lit ''INVALID_SESSION'') (lit ''A valid session is required.'') requestId)
      else if expiresMs session \<le> t1
      then Inl (apiError (lit ''SESSION_EXPIRED'') (lit ''The session has expired. Sign in again.'') requestId)
      else let requestUrl = urlResolved (apUrl E) (acBaseUrl s) path;
               proof = the builder method requestUrl (psAccessToken session) (psDeviceKeyThumbprint session)
      in if \<not> prValid proof \<or> prCompactJws proof = [] \<or> prJwkThumbprint proof \<noteq> psDeviceKeyThumbprint session
      then Inl (apiError (lit ''DEVICE_PROOF_FAILED'') (lit ''Device proof could not be created.'') requestId)
      else if expiresMs session \<le> t2
      then Inl (apiError (lit ''SESSION_EXPIRED'') (lit ''The session has expired. Sign in again.'') requestId)
      else Inr \<lparr>reqUrl = requestUrl, reqUserVerifiedRedirects = True,
        reqHeaders = [(''Authorization'', lit ''DPoP '' @ qtToLatin1 (apQt E) (psAccessToken session)),
          (''DPoP'', qtToLatin1 (apQt E) (prCompactJws proof)),
          (''X-Request-ID'', qtToUtf8 (apQt E) requestId)]\<rparr>)"

text \<open>\<open>rawHeader\<close>: the value of a header, empty when it is not set.\<close>

definition rawHeader :: "'u net_request \<Rightarrow> string \<Rightarrow> bytes" where
  "rawHeader request name = (case map_of (reqHeaders request) name of None \<Rightarrow> [] | Some v \<Rightarrow> v)"

text \<open>\<open>network_.get\<close> and \<open>network_.post\<close> make a new reply; \<open>sendReply\<close> records it.\<close>

definition sendReply :: "pending_reply \<Rightarrow> 'u ApiClient \<Rightarrow> 'u ApiClient" where
  "sendReply r s = s\<lparr>acRequestActive := True, acReplies := (acReplies s)(acNextReply s := Some r),
     acNextReply := acNextReply s + 1\<rparr>"

definition loadProfile ::
    "('u, 'x, 'p, 'k) api_env \<Rightarrow> 'u proof_builder option \<Rightarrow> int \<Rightarrow> int \<Rightarrow> int \<Rightarrow> qstring
       \<Rightarrow> ProtectedSession \<Rightarrow> 64 word \<Rightarrow> 'u api_handler" where
  "loadProfile E builder t1 t2 t3 requestId session generation s =
     (let failWith = (\<lambda>e. (s, [ProfileFailedSignal e generation])) in
      if \<not> isAllowedTransport E s
      then failWith (apiError (lit ''INSECURE_TRANSPORT'') (lit ''Secure transport is required.'') requestId)
      else if acRequestActive s
      then failWith (apiError (lit ''REQUEST_IN_PROGRESS'') (lit ''A request is already in progress.'') requestId)
      else case buildProtectedRequest E builder t1 t2 (lit ''/v1/me'') (lit ''GET'') session requestId s of
        Inl preparationError \<Rightarrow> failWith preparationError
      | Inr networkRequest \<Rightarrow>
        if expiresMs session \<le> t3
        then failWith (apiError (lit ''SESSION_EXPIRED'') (lit ''The session has expired. Sign in again.'') requestId)
        else let n = acNextReply s;
                 reply = \<lparr>rpKind = ProfileReply, rpRequestId = requestId, rpToken = psAccessToken session,
                   rpCompactProof = fromLatin1 (rawHeader networkRequest ''DPoP''),
                   rpGeneration = generation, rpTransportError = [], rpTimeout = False, rpCancelled = False\<rparr>;
                 s = sendReply reply s
             in (s\<lparr>acProfileReply := Some n\<rparr>, [SendGet n networkRequest, StartTimer n (acTimeoutMs s)]))"

definition cancelProfile :: "'u api_handler" where
  "cancelProfile s =
     (case acProfileReply s of None \<Rightarrow> (s, [])
      | Some n \<Rightarrow>
        let s = s\<lparr>acProfileReply := None\<rparr>;
            s = setReply n (rpCancelled_update (\<lambda>_. True)) s;
            s = s\<lparr>acRequestActive := False\<rparr>
        in (s, [AbortReply n]))"

definition postRequest :: "('u, 'x, 'p, 'k) api_env \<Rightarrow> qstring \<Rightarrow> qstring \<Rightarrow> 'u ApiClient \<Rightarrow> 'u net_request" where
  "postRequest E path requestId s = \<lparr>
     reqUrl = urlResolved (apUrl E) (acBaseUrl s) path, reqUserVerifiedRedirects = True,
     reqHeaders = [(''Content-Type'', lit ''application/json''), (''X-KeyStar-App'', apApplicationId E),
       (''Authorization'', lit ''Bearer '' @ apPublishableKey E),
       (''X-Request-ID'', qtToUtf8 (apQt E) requestId)]\<rparr>"

definition postJson ::
    "('u, 'x, 'p, 'k) api_env \<Rightarrow> qstring \<Rightarrow> qstring \<Rightarrow> jsonObject \<Rightarrow> bool \<Rightarrow> 64 word \<Rightarrow> 'u api_handler" where
  "postJson E requestId path body deviceRequest generation s =
     (let failWith = (\<lambda>e. (s, [if deviceRequest then DeviceFailedSignal e generation
            else LoginFailedSignal e generation])) in
      if \<not> isAllowedTransport E s
      then failWith (apiError (lit ''INSECURE_TRANSPORT'') (lit ''Secure transport is required.'') requestId)
      else if acRequestActive s
      then failWith (apiError (lit ''REQUEST_IN_PROGRESS'') (lit ''A request is already in progress.'') requestId)
      else let networkRequest = postRequest E path requestId s;
               requestBody = toJsonCompact (apJson E) (JObject body);
               n = acNextReply s;
               reply = \<lparr>rpKind = if deviceRequest then DeviceReply else LoginReply,
                 rpRequestId = requestId, rpToken = [], rpCompactProof = [], rpGeneration = generation,
                 rpTransportError = [], rpTimeout = False, rpCancelled = False\<rparr>;
               s = sendReply reply s
           in (s, [SendPost n networkRequest requestBody, BodyCleanup (replicate (length requestBody) 0),
                StartTimer n (acTimeoutMs s)]))"

definition apiLogin :: "('u, 'x, 'p, 'k) api_env \<Rightarrow> qstring \<Rightarrow> LoginRequest \<Rightarrow> 64 word \<Rightarrow> 'u api_handler" where
  "apiLogin E requestId request =
     postJson E requestId (lit ''/v1/auth/login'')
       [(lit ''device_fingerprint'', JString (lrDeviceFingerprint request)),
        (lit ''email'', JString (lrEmail request)), (lit ''password'', JString (lrPassword request))] False"

definition hardwareObject :: "HardwareSignals \<Rightarrow> json" where
  "hardwareObject hardware = JObject
     [(lit ''bios_serial'', JString (hsBiosSerial hardware)),
      (lit ''fingerprint'', JString (hsFingerprint hardware)),
      (lit ''machine_guid'', JString (hsMachineGuid hardware)),
      (lit ''motherboard_serial'', JString (hsMotherboardSerial hardware)),
      (lit ''smbios_uuid'', JString (hsSmbiosUuid hardware)),
      (lit ''system_disk_serial'', JString (hsSystemDiskSerial hardware))]"

definition verifyDevice ::
    "('u, 'x, 'p, 'k) api_env \<Rightarrow> qstring \<Rightarrow> DeviceVerifyRequest \<Rightarrow> 64 word \<Rightarrow> 'u api_handler" where
  "verifyDevice E requestId request generation s =
     (let encodedKey = qtToLatin1 (apQt E) (dvTpmPublicKey request);
          decoded = qtFromBase64Strict (apQt E) encodedKey;
          deviceJwk = (case decoded of None \<Rightarrow> [] | Some key \<Rightarrow> publicJwk (apQt E) key) in
      if deviceJwk = [] \<or> qtToBase64 (apQt E) (the decoded) \<noteq> encodedKey
      then (s, [DeviceFailedSignal (apiError (lit ''DEVICE_PROOF_FAILED'')
             (lit ''Device public key is invalid.'') requestId) generation])
      else postJson E requestId (lit ''/v1/device/verify'')
        [(lit ''challenge'', JString (dvChallenge request)),
         (lit ''challenge_signature'', JString (dvChallengeSignature request)),
         (lit ''device_jwk'', JObject deviceJwk), (lit ''hardware'', hardwareObject (dvHardware request)),
         (lit ''session_id'', JString (dvSessionId request)),
         (lit ''tpm_public_key'', JString (dvTpmPublicKey request))] True generation s)"

section \<open>Finished replies\<close>

text \<open>The readable body: \<open>readAll\<close> of an open reply, nothing of a closed one.\<close>

definition replyBody :: "net_reply \<Rightarrow> bytes" where
  "replyBody reply = (if nrIsOpen reply then nrData reply else [])"

definition replyRejected :: "net_reply \<Rightarrow> bool" where
  "replyRejected reply \<longleftrightarrow> length (replyBody reply) > MaxResponseBytes \<or> \<not> nrNoError reply
     \<or> nrStatus reply < 200 \<or> nrStatus reply \<ge> 300"

definition replyError :: "('u, 'x, 'p, 'k) api_env \<Rightarrow> pending_reply \<Rightarrow> net_reply \<Rightarrow> ApiError" where
  "replyError E r reply =
     (let body = replyBody reply;
          e = (if rpTransportError r \<noteq> [] then transportSecurityError (rpTransportError r) (rpRequestId r)
               else if rpTimeout r
               then apiError (lit ''TIMEOUT'') (lit ''Network request timed out.'') (rpRequestId r)
               else errorForReply E reply body (rpRequestId r))
      in if length body > MaxResponseBytes
         then apiError (lit ''RESPONSE_TOO_LARGE'') (lit ''Server response is too large.'') (rpRequestId r)
         else e)"

definition malformedError :: "pending_reply \<Rightarrow> ApiError" where
  "malformedError r = apiError (lit ''MALFORMED_RESPONSE'') (lit ''Server response is invalid.'') (rpRequestId r)"

definition stringMember :: "jsonObject \<Rightarrow> string \<Rightarrow> qstring" where
  "stringMember json name = jsonToString (jsonValue json (lit name))"

definition profileFrom :: "('u, 'x, 'p, 'k) api_env \<Rightarrow> jsonObject \<Rightarrow> bytes \<Rightarrow> UserProfileResponse" where
  "profileFrom E json requestIdHeader = \<lparr>
     upEmail = stringMember json ''email'', upAccountStatus = stringMember json ''account_status'',
     upProduct = stringMember json ''product'', upLicenseStatus = stringMember json ''license_status'',
     upLicenseExpiresAt = apIsoDate E (stringMember json ''license_expires_at''),
     upMaxDevices = jsonToInt (jsonValue json (lit ''max_devices'')),
     upDeviceId = stringMember json ''device_id'', upDeviceStatus = stringMember json ''device_status'',
     upSessionExpiresAt = apIsoDate E (stringMember json ''session_expires_at''),
     upRequestId = qtFromUtf8 (apQt E) requestIdHeader\<rparr>"

definition profileMalformed :: "qt \<Rightarrow> UserProfileResponse \<Rightarrow> bool" where
  "profileMalformed q response \<longleftrightarrow>
     qtTrimmed q (upEmail response) = [] \<or> qtTrimmed q (upAccountStatus response) = []
     \<or> qtTrimmed q (upProduct response) = [] \<or> qtTrimmed q (upLicenseStatus response) = []
     \<or> upLicenseExpiresAt response = None \<or> upMaxDevices response \<le> 0
     \<or> qtTrimmed q (upDeviceId response) = [] \<or> qtTrimmed q (upDeviceStatus response) = []
     \<or> upSessionExpiresAt response = None"

text \<open>The parsed object of a body, empty when it is not an object (\<open>QJsonDocument::object\<close>).\<close>

definition bodyObject :: "('u, 'x, 'p, 'k) api_env \<Rightarrow> bytes \<Rightarrow> jsonObject" where
  "bodyObject E body = (case objectOf (apJson E) body of None \<Rightarrow> [] | Some json \<Rightarrow> json)"

definition bodyNotOk :: "('u, 'x, 'p, 'k) api_env \<Rightarrow> bytes \<Rightarrow> bool" where
  "bodyNotOk E body \<longleftrightarrow> objectOf (apJson E) body = None
     \<or> \<not> jsonToBool (jsonValue (bodyObject E body) (lit ''ok''))"

definition profileAnswer ::
    "('u, 'x, 'p, 'k) api_env \<Rightarrow> pending_reply \<Rightarrow> net_reply \<Rightarrow> 'u api_effect" where
  "profileAnswer E r reply =
     (if replyRejected reply
      then ProfileFailedSignal (withoutSecret (withoutSecret (replyError E r reply) (rpToken r))
             (rpCompactProof r)) (rpGeneration r)
      else let json = bodyObject E (replyBody reply);
               response = profileFrom E json (nrRequestIdHeader reply) in
      if bodyNotOk E (replyBody reply) \<or> profileMalformed (apQt E) response
      then ProfileFailedSignal (malformedError r) (rpGeneration r)
      else ProfileLoadedSignal response (rpGeneration r))"

definition postAnswer ::
    "('u, 'x, 'p, 'k) api_env \<Rightarrow> bool \<Rightarrow> pending_reply \<Rightarrow> net_reply \<Rightarrow> 'u api_effect" where
  "postAnswer E deviceRequest r reply =
     (if replyRejected reply
      then if deviceRequest then DeviceFailedSignal (replyError E r reply) (rpGeneration r)
           else LoginFailedSignal (sanitizedLoginError (replyError E r reply)) (rpGeneration r)
      else if bodyNotOk E (replyBody reply)
      then if deviceRequest then DeviceFailedSignal (malformedError r) (rpGeneration r)
           else LoginFailedSignal (malformedError r) (rpGeneration r)
      else let json = bodyObject E (replyBody reply);
               serverRequestId = qtFromUtf8 (apQt E) (nrRequestIdHeader reply) in
      if deviceRequest
      then let response = \<lparr>dvrToken = stringMember json ''token'',
                 dvrTokenExpiresAt = stringMember json ''token_expires_at'',
                 dvrLicenseId = stringMember json ''license_id'', dvrDeviceId = stringMember json ''device_id'',
                 dvrRequestId = serverRequestId\<rparr>
           in if dvrToken response = [] \<or> dvrLicenseId response = [] \<or> dvrDeviceId response = []
              then DeviceFailedSignal (malformedError r) (rpGeneration r)
              else DeviceVerifiedSignal response (rpGeneration r)
      else let response = \<lparr>lrsSessionId = stringMember json ''session_id'',
                 lrsChallenge = stringMember json ''challenge'',
                 lrsChallengeExpiresAt = stringMember json ''challenge_expires_at'',
                 lrsRequestId = serverRequestId\<rparr>
           in if lrsSessionId response = [] \<or> lrsChallenge response = []
              then LoginFailedSignal (malformedError r) (rpGeneration r)
              else LoginSucceededSignal response (rpGeneration r))"

text \<open>
  The \<open>finished\<close> slot. The reply leaves the live ones with \<open>deleteLater\<close>; a cancelled one is not
  looked at, whatever it brings.
\<close>

definition dropReply :: "nat \<Rightarrow> 'u ApiClient \<Rightarrow> 'u ApiClient" where
  "dropReply n s = s\<lparr>acReplies := (acReplies s)(n := None)\<rparr>"

definition onFinished :: "('u, 'x, 'p, 'k) api_env \<Rightarrow> nat \<Rightarrow> net_reply \<Rightarrow> 'u api_handler" where
  "onFinished E n reply s =
     (case acReplies s n of None \<Rightarrow> (s, [])
      | Some r \<Rightarrow>
        if rpKind r = ProfileReply then
          (if rpCancelled r then (dropReply n s, [])
           else let s = (if acProfileReply s = Some n then s\<lparr>acProfileReply := None\<rparr> else s);
                    s = s\<lparr>acRequestActive := False\<rparr>
                in (dropReply n s, [profileAnswer E r reply]))
        else let s = s\<lparr>acRequestActive := False\<rparr>
             in (dropReply n s, [postAnswer E (rpKind r = DeviceReply) r reply]))"

section \<open>Events\<close>

datatype ('u, 'x) api_event =
    CallLogin qstring LoginRequest "64 word"
  | CallVerifyDevice qstring DeviceVerifyRequest "64 word"
  | CallLoadProfile "'u proof_builder option" int int int qstring ProtectedSession "64 word"
  | CallCancelProfile
  | SslErrors nat
  | Encrypted nat 'u 'x
  | Redirected nat
  | TimedOut nat
  | Finished nat net_reply

fun apiStep :: "('u, 'x, 'p, 'k) api_env \<Rightarrow> ('u, 'x) api_event \<Rightarrow> 'u api_handler" where
  "apiStep E (CallLogin requestId request g) s = apiLogin E requestId request g s"
| "apiStep E (CallVerifyDevice requestId request g) s = verifyDevice E requestId request g s"
| "apiStep E (CallLoadProfile builder t1 t2 t3 requestId session g) s =
     loadProfile E builder t1 t2 t3 requestId session g s"
| "apiStep E CallCancelProfile s = cancelProfile s"
| "apiStep E (SslErrors n) s = onSslErrors n s"
| "apiStep E (Encrypted n url peer) s = onEncrypted E n url peer s"
| "apiStep E (Redirected n) s = onRedirected n s"
| "apiStep E (TimedOut n) s = onTimeout n s"
| "apiStep E (Finished n reply) s = onFinished E n reply s"

inductive apiReachable :: "('u, 'x, 'p, 'k) api_env \<Rightarrow> 'u ApiClient \<Rightarrow> bool" for E where
  start: "apiReachable E (newApiClient E baseUrl timeoutMs)"
| step: "apiReachable E s \<Longrightarrow> apiReachable E (fst (apiStep E event s))"

inductive_cases apiReachableE: "apiReachable E s"

section \<open>Requests that leave the client\<close>

text \<open>A session the server may be asked with at the three readings of the clock.\<close>

definition liveSession :: "ProtectedSession \<Rightarrow> int \<Rightarrow> int \<Rightarrow> int \<Rightarrow> bool" where
  "liveSession session t1 t2 t3 \<longleftrightarrow> psAccessToken session \<noteq> [] \<and> psDeviceKeyThumbprint session \<noteq> []
     \<and> (\<exists>e. psExpiresAt session = Some e \<and> t1 < 1000 * e \<and> t2 < 1000 * e \<and> t3 < 1000 * e)"

definition profileRequest :: "('u, 'x, 'p, 'k) api_env \<Rightarrow> 'u \<Rightarrow> qstring \<Rightarrow> qstring \<Rightarrow> qstring \<Rightarrow> 'u net_request" where
  "profileRequest E url token proof requestId = \<lparr>reqUrl = url, reqUserVerifiedRedirects = True,
     reqHeaders = [(''Authorization'', lit ''DPoP '' @ qtToLatin1 (apQt E) token),
       (''DPoP'', qtToLatin1 (apQt E) proof), (''X-Request-ID'', qtToUtf8 (apQt E) requestId)]\<rparr>"

lemma buildProtectedRequest_Inr_iff:
  "buildProtectedRequest E builder t1 t2 path method session requestId s = Inr request \<longleftrightarrow>
     liveSession session t1 t2 (min t1 t2) \<and> (\<exists>build. builder = Some build
       \<and> (let url = urlResolved (apUrl E) (acBaseUrl s) path;
              proof = build method url (psAccessToken session) (psDeviceKeyThumbprint session)
          in prValid proof \<and> prCompactJws proof \<noteq> [] \<and> prJwkThumbprint proof = psDeviceKeyThumbprint session
             \<and> request = profileRequest E url (psAccessToken session) (prCompactJws proof) requestId))"
  by (auto simp: buildProtectedRequest_def Let_def liveSession_def expiresMs_def profileRequest_def
      split: if_splits)

lemma postJson_send_iff:
  "SendPost n request body \<in> set (snd (postJson E requestId path json d g s)) \<longleftrightarrow>
     isAllowedTransport E s \<and> \<not> acRequestActive s \<and> n = acNextReply s
     \<and> request = postRequest E path requestId s \<and> body = toJsonCompact (apJson E) (JObject json)"
  by (auto simp: postJson_def Let_def)

lemma loadProfile_send_iff:
  "SendGet n request \<in> set (snd (loadProfile E builder t1 t2 t3 requestId session g s)) \<longleftrightarrow>
     isAllowedTransport E s \<and> \<not> acRequestActive s \<and> n = acNextReply s
     \<and> liveSession session t1 t2 t3 \<and> (\<exists>build. builder = Some build
       \<and> (let url = urlResolved (apUrl E) (acBaseUrl s) (lit ''/v1/me'');
              proof = build (lit ''GET'') url (psAccessToken session) (psDeviceKeyThumbprint session)
          in prValid proof \<and> prCompactJws proof \<noteq> [] \<and> prJwkThumbprint proof = psDeviceKeyThumbprint session
             \<and> request = profileRequest E url (psAccessToken session) (prCompactJws proof) requestId))"
proof (cases "buildProtectedRequest E builder t1 t2 (lit ''/v1/me'') (lit ''GET'') session requestId s")
  case (Inl e)
  then have "\<nexists>request. buildProtectedRequest E builder t1 t2 (lit ''/v1/me'') (lit ''GET'') session requestId s = Inr request"
    by simp
  then show ?thesis
    using Inl unfolding buildProtectedRequest_Inr_iff
    by (auto simp: loadProfile_def Let_def liveSession_def)
next
  case (Inr r)
  then show ?thesis
    using Inr [unfolded buildProtectedRequest_Inr_iff]
    by (auto simp: loadProfile_def Let_def liveSession_def expiresMs_def)
qed

section \<open>Errors\<close>

lemma containsSub_length: "containsSub s p \<Longrightarrow> length p \<le> length s"
  by (auto simp: containsSub_iff)

lemma withoutSecret_fields:
  "errCode (withoutSecret e t) = (if t \<noteq> [] \<and> containsSub (errCode e) t then lit ''INVALID_SESSION_TOKEN'' else errCode e)"
  "errMessage (withoutSecret e t) =
     (if t \<noteq> [] \<and> containsSub (errMessage e) t then lit ''Profile request failed.'' else errMessage e)"
  "errRequestId (withoutSecret e t) = (if t \<noteq> [] \<and> containsSub (errRequestId e) t then [] else errRequestId e)"
  by (simp_all add: withoutSecret_def Let_def)

text \<open>No field of the error contains the text.\<close>

definition hides :: "ApiError \<Rightarrow> qstring \<Rightarrow> bool" where
  "hides e secret \<longleftrightarrow> \<not> containsSub (errCode e) secret \<and> \<not> containsSub (errMessage e) secret
     \<and> \<not> containsSub (errRequestId e) secret"

lemma long_not_contained: "length s < length p \<Longrightarrow> \<not> containsSub s p"
  using containsSub_length by (metis not_le)

lemma withoutSecret_hides: "30 \<le> length t \<Longrightarrow> hides (withoutSecret e t) t"
  by (auto simp: hides_def withoutSecret_fields intro!: long_not_contained)

lemma withoutSecret_keeps: "30 \<le> length t \<Longrightarrow> hides e t \<Longrightarrow> hides (withoutSecret e u) t"
  by (auto simp: hides_def withoutSecret_fields intro!: long_not_contained)

lemma malformedError_hides: "30 \<le> length t \<Longrightarrow> length (rpRequestId r) < length t \<Longrightarrow> hides (malformedError r) t"
  by (auto simp: hides_def malformedError_def intro!: long_not_contained)

lemma onFinished_profile_failed:
  assumes "ProfileFailedSignal e g \<in> set (snd (onFinished E n reply s))" and "acReplies s n = Some r"
  shows "e = malformedError r \<or> e = withoutSecret (withoutSecret (replyError E r reply) (rpToken r)) (rpCompactProof r)"
  using assms by (auto simp: onFinished_def profileAnswer_def postAnswer_def Let_def split: if_splits)

lemma profile_error_hides:
  assumes "ProfileFailedSignal e g \<in> set (snd (apiStep E (Finished n reply) s))" and "acReplies s n = Some r"
    and "secret = rpToken r \<or> secret = rpCompactProof r"
    and "30 \<le> length secret" and "length (rpRequestId r) < length secret"
  shows "hides e secret"
  using onFinished_profile_failed [of e g E n reply s r] assms malformedError_hides
    withoutSecret_hides withoutSecret_keeps by auto

text \<open>
  The codes a failed sign-in can carry. The message is one of the client's own texts unless the
  code is one of the two that describe the transport.
\<close>

definition loginErrorShape :: "ApiError \<Rightarrow> bool" where
  "loginErrorShape e \<longleftrightarrow>
     (errCode e = lit ''AUTHENTICATION_FAILED'' \<or> errCode e \<in> set loginAllowedCodes)
     \<and> (errCode e = lit ''NETWORK_ERROR'' \<or> errCode e = lit ''TIMEOUT''
        \<or> errMessage e \<in> lit ` {''Authentication failed.'', ''Secure transport is required.'',
            ''A request is already in progress.'', ''Server response is invalid.''})"

lemma sanitized_shape: "loginErrorShape (sanitizedLoginError e)"
  by (auto simp: loginErrorShape_def sanitizedLoginError_def Let_def loginAllowedCodes_def)

lemma login_error_from:
  assumes "LoginFailedSignal e g \<in> set (snd (apiStep E ev s))"
  shows "(\<exists>r. e = malformedError r) \<or> (\<exists>e'. e = sanitizedLoginError e')
    \<or> (\<exists>requestId. e = apiError (lit ''INSECURE_TRANSPORT'') (lit ''Secure transport is required.'') requestId)
    \<or> (\<exists>requestId. e = apiError (lit ''REQUEST_IN_PROGRESS'') (lit ''A request is already in progress.'') requestId)"
  using assms
  by (cases ev)
     (auto simp: apiLogin_def postJson_def verifyDevice_def loadProfile_def cancelProfile_def onSslErrors_def
       onEncrypted_def onRedirected_def onTimeout_def onFinished_def profileAnswer_def postAnswer_def Let_def
       split: if_splits option.splits sum.splits)

lemma login_error_shape: "LoginFailedSignal e g \<in> set (snd (apiStep E ev s)) \<Longrightarrow> loginErrorShape e"
  using login_error_from [of e g E ev s] sanitized_shape
  by (auto simp: loginErrorShape_def malformedError_def loginAllowedCodes_def)

text \<open>
  A reply whose connection was not verified, that was redirected or that timed out is reported by
  a text of the client: nothing the peer sent is in it.
\<close>

lemma aborted_reply_error:
  assumes "rpTransportError r \<noteq> [] \<or> rpTimeout r"
  shows "replyError E r reply \<in>
    {apiError (lit ''TLS_REDIRECT_REJECTED'') (lit ''The server redirect was rejected.'') (rpRequestId r),
     apiError (lit ''TLS_VALIDATION_FAILED'') (lit ''The secure connection could not be verified.'') (rpRequestId r),
     apiError (lit ''TIMEOUT'') (lit ''Network request timed out.'') (rpRequestId r),
     apiError (lit ''RESPONSE_TOO_LARGE'') (lit ''Server response is too large.'') (rpRequestId r)}"
  using assms by (auto simp: replyError_def transportSecurityError_def Let_def)

section \<open>A concrete client\<close>

definition sampleApi :: "(url_parts, bytes, bytes, bytes) api_env" where
  "sampleApi = \<lparr>apQt = qtAscii, apJson = sampleJson, apUrl = partsUrl, apX509 = sampleX509,
     apIsoDate = (\<lambda>_. None), apPointerSize = 8, apTlsPins = joinWith 44 samplePins,
     apPinnedHost = lit ''h.example'', apLocalDevelopment = False,
     apApplicationId = lit ''app'', apPublishableKey = lit ''key''\<rparr>"

lemma sampleApi_simps [simp]:
  "apQt sampleApi = qtAscii" "apJson sampleApi = sampleJson" "apUrl sampleApi = partsUrl"
  "apX509 sampleApi = sampleX509" "apPointerSize sampleApi = 8" "apPinnedHost sampleApi = lit ''h.example''"
  "apLocalDevelopment sampleApi = False" "apTlsPins sampleApi = joinWith 44 samplePins"
  by (simp_all add: sampleApi_def)

definition sampleClient :: "url_parts ApiClient" where
  "sampleClient = newApiClient sampleApi sampleUrl 15000"

lemma sampleApi_pins: "configuredTlsPins sampleApi = samplePins"
proof -
  have "(44 :: byte) \<notin> set PinPrefix" by (simp add: PinPrefix_def lit_def)
  then have "splitOn 44 (joinWith 44 samplePins) = samplePins"
    using rfcBase64_no_comma by (intro splitOn_joinWith) (auto simp: samplePins_def)
  moreover have "joinWith 44 samplePins \<noteq> []" by (simp add: samplePins_def)
  ultimately show ?thesis by (simp add: configuredTlsPins_def Let_def)
qed

lemma sampleClient_idle [simp]:
  "acRequestActive sampleClient = False" "acProfileReply sampleClient = None"
  "acReplies sampleClient = (\<lambda>_. None)" "acNextReply sampleClient = 0" "acBaseUrl sampleClient = sampleUrl"
  by (simp_all add: sampleClient_def newApiClient_def)

lemma sampleClient_policy:
  "acTlsPinPolicy sampleClient = newTlsPinPolicy 8 qtAscii partsUrl (lit ''h.example'') samplePins False"
  by (simp add: sampleClient_def newApiClient_def sampleApi_pins)

lemma sampleClient_transport: "isAllowedTransport sampleApi sampleClient"
proof -
  have "policyValid (newTlsPinPolicy 8 qtAscii partsUrl (lit ''h.example'') samplePins False)"
    by (simp add: newTlsPinPolicy_valid_iff samplePins_def samplePins_decode qtAscii_simps trimmed_def lit_def)
  moreover have "localDevelopment (acTlsPinPolicy sampleClient) = False"
      "expectedHost (acTlsPinPolicy sampleClient) = lit ''h.example''"
    by (simp_all add: sampleClient_policy newTlsPinPolicy_def Let_def qtAscii_simps trimmed_def lit_def
        split: prod.splits)
  ultimately show ?thesis
    unfolding isAllowedTransport_def permitsRequestUrl_def
    by (simp add: sampleClient_policy [symmetric] partsUrl_simps sampleUrl_def)
qed

lemma sampleClient_reachable: "apiReachable sampleApi sampleClient"
  unfolding sampleClient_def by (rule apiReachable.start)

definition sampleProof :: qstring where "sampleProof = replicate 40 65"

definition sampleBuilder :: "url_parts proof_builder" where
  "sampleBuilder m u t k = \<lparr>prValid = True, prCompactJws = sampleProof, prJwkThumbprint = k, prError = []\<rparr>"

definition sampleProtected :: ProtectedSession where
  "sampleProtected = \<lparr>psAccessToken = replicate 50 66, psDeviceKeyThumbprint = lit ''k'', psExpiresAt = Some 10\<rparr>"

definition sampleCall :: "(url_parts, bytes) api_event" where
  "sampleCall = CallLoadProfile (Some sampleBuilder) 1000 2000 3000 (lit ''r'') sampleProtected 7"

definition sampleReply :: pending_reply where
  "sampleReply = \<lparr>rpKind = ProfileReply, rpRequestId = lit ''r'', rpToken = replicate 50 66,
     rpCompactProof = sampleProof, rpGeneration = 7, rpTransportError = [], rpTimeout = False, rpCancelled = False\<rparr>"

lemma sampleCall_step:
  "apiStep sampleApi sampleCall sampleClient =
     ((sendReply sampleReply sampleClient)\<lparr>acProfileReply := Some 0\<rparr>,
      [SendGet 0 (profileRequest sampleApi (sampleUrl\<lparr>upPath := lit ''/v1/me''\<rparr>) (replicate 50 66) sampleProof (lit ''r'')),
       StartTimer 0 15000])"
  using sampleClient_transport
  by (simp add: sampleCall_def loadProfile_def buildProtectedRequest_def Let_def sampleProtected_def
      sampleBuilder_def expiresMs_def rawHeader_def profileRequest_def sampleReply_def partsUrl_simps
      sampleProof_def qtAscii_simps fromLatin1_def)
     (simp add: sendReply_def sampleClient_def newApiClient_def RequestTimeoutMs_def)

lemma sampleCall_reply:
  "acReplies (fst (apiStep sampleApi sampleCall sampleClient)) 0 = Some sampleReply"
  by (simp add: sampleCall_step sendReply_def)

definition failedReply :: net_reply where
  "failedReply = \<lparr>nrIsOpen = True, nrData = [], nrStatus = 503, nrNoError = False, nrRequestIdHeader = []\<rparr>"

section \<open>Properties\<close>

text \<open>
  A profile request leaves the client exactly when the transport is the pinned one, no other
  request is open, the session is complete and unexpired at all three readings of the clock, and
  the builder made a valid proof for GET on the profile URL under the session's key; the request
  then carries that token and that proof.
\<close>

theorem loadProfile_sends_iff:
  "SendGet n request \<in> set (snd (loadProfile E builder t1 t2 t3 requestId session g s)) \<longleftrightarrow>
     isAllowedTransport E s \<and> \<not> acRequestActive s \<and> n = acNextReply s
     \<and> liveSession session t1 t2 t3 \<and> (\<exists>build. builder = Some build
       \<and> (let url = urlResolved (apUrl E) (acBaseUrl s) (lit ''/v1/me'');
              proof = build (lit ''GET'') url (psAccessToken session) (psDeviceKeyThumbprint session)
          in prValid proof \<and> prCompactJws proof \<noteq> [] \<and> prJwkThumbprint proof = psDeviceKeyThumbprint session
             \<and> request = profileRequest E url (psAccessToken session) (prCompactJws proof) requestId))"
  by (rule loadProfile_send_iff)



text \<open>
  A failed sign-in is reported with a code of the fixed list; unless the code describes the
  transport its message is one of the client's own.
\<close>

theorem login_errors_allowed:
  assumes "LoginFailedSignal e g \<in> set (snd (apiStep E ev s))"
  shows "loginErrorShape e"
  using assms by (rule login_error_shape)

theorem login_errors_allowed_witness:
  "loginErrorShape (apiError (lit ''REQUEST_IN_PROGRESS'') (lit ''A request is already in progress.'') (lit ''r''))"
  by (rule login_errors_allowed [of _ 1 sampleApi
        "CallLogin (lit ''r'') \<lparr>lrEmail = [], lrPassword = [], lrDeviceFingerprint = []\<rparr> 1"
        "sampleClient\<lparr>acRequestActive := True\<rparr>"])
     (use sampleClient_transport in \<open>simp add: apiLogin_def postJson_def isAllowedTransport_def\<close>)

end
