(* ===== verification/ApiSlot.thy ===== *)
theory ApiSlot
  imports ApiClient "HOL-Library.Multiset"
begin

text \<open>
  What \<open>ApiClient\<close> promises its user, and that it keeps the promise. \<open>apiInv\<close> relates the flag
  \<open>requestActive_\<close>, the pointer \<open>profileReply_\<close> and the live replies; \<open>slotStep\<close> is the specification,
  a slot for one call; \<open>apiStep_slot\<close> is the simulation and \<open>slotRun_balance\<close> what it gives for runs:
  calls and answers match.
\<close>

section \<open>One request at a time\<close>

text \<open>A live reply whose answer is still wanted.\<close>

definition current :: "'u ApiClient \<Rightarrow> nat \<Rightarrow> pending_reply \<Rightarrow> bool" where
  "current s n r \<longleftrightarrow> acReplies s n = Some r \<and> \<not> rpCancelled r"

definition apiInv :: "'u ApiClient \<Rightarrow> bool" where
  "apiInv s \<longleftrightarrow>
     (\<forall>n r. acReplies s n = Some r \<longrightarrow> n < acNextReply s)
     \<and> (acRequestActive s \<longleftrightarrow> (\<exists>n r. current s n r))
     \<and> (\<forall>n r m t. current s n r \<longrightarrow> current s m t \<longrightarrow> n = m)
     \<and> (\<forall>n. acProfileReply s = Some n \<longleftrightarrow> (\<exists>r. current s n r \<and> rpKind r = ProfileReply))
     \<and> (\<forall>n r. acReplies s n = Some r \<longrightarrow> rpCancelled r \<longrightarrow> rpKind r = ProfileReply)"

lemma current_inject: "current s n r \<Longrightarrow> current s n t \<Longrightarrow> r = t"
  by (simp add: current_def)

lemma apiInvI:
  assumes "\<And>n r. acReplies s n = Some r \<Longrightarrow> n < acNextReply s"
    and "acRequestActive s \<longleftrightarrow> (\<exists>n r. current s n r)"
    and "\<And>n r m t. current s n r \<Longrightarrow> current s m t \<Longrightarrow> n = m"
    and "\<And>n. acProfileReply s = Some n \<longleftrightarrow> (\<exists>r. current s n r \<and> rpKind r = ProfileReply)"
    and "\<And>n r. acReplies s n = Some r \<Longrightarrow> rpCancelled r \<Longrightarrow> rpKind r = ProfileReply"
  shows "apiInv s"
  unfolding apiInv_def by (intro conjI) (use assms in blast)+

lemma apiInvD:
  assumes "apiInv s"
  shows apiInv_live: "acReplies s n = Some r \<Longrightarrow> n < acNextReply s"
    and apiInv_active: "acRequestActive s \<longleftrightarrow> (\<exists>n r. current s n r)"
    and apiInv_unique: "current s n r \<Longrightarrow> current s m t \<Longrightarrow> m = n"
    and apiInv_profile: "acProfileReply s = Some n \<longleftrightarrow> (\<exists>r. current s n r \<and> rpKind r = ProfileReply)"
    and apiInv_cancelled_kind: "acReplies s n = Some r \<Longrightarrow> rpCancelled r \<Longrightarrow> rpKind r = ProfileReply"
  using assms unfolding apiInv_def by blast+

lemma apiInv_empty:
  assumes "\<And>n r. acReplies s n = Some r \<Longrightarrow> n < acNextReply s"
    and "\<And>n r. acReplies s n = Some r \<Longrightarrow> rpCancelled r \<Longrightarrow> rpKind r = ProfileReply"
    and "\<not> acRequestActive s" and "acProfileReply s = None" and "\<And>n r. \<not> current s n r"
  shows "apiInv s"
  by (rule apiInvI) (use assms in \<open>simp_all\<close>)

lemma apiInv_new: "apiInv (newApiClient E baseUrl timeoutMs)"
  by (rule apiInv_empty) (simp_all add: newApiClient_def current_def)

lemma apiInv_idle: "apiInv s \<Longrightarrow> \<not> acRequestActive s \<Longrightarrow> \<not> current s n r"
  using apiInv_active by blast

lemma current_send:
  "\<not> rpCancelled r \<Longrightarrow> (\<And>m t. \<not> current s m t)
    \<Longrightarrow> current ((sendReply r s)\<lparr>acProfileReply := p\<rparr>) n t \<longleftrightarrow> n = acNextReply s \<and> t = r"
  by (auto simp: current_def sendReply_def)

lemma apiInv_send:
  assumes "apiInv s" and "\<not> acRequestActive s" and "\<not> rpCancelled r"
  shows "apiInv ((sendReply r s)\<lparr>acProfileReply := if rpKind r = ProfileReply then Some (acNextReply s) else None\<rparr>)"
proof -
  have none: "\<not> current s m t" for m t using apiInv_idle [OF assms(1,2)] .
  note cur = current_send [OF assms(3) none]
  show ?thesis
  proof (rule apiInvI, goal_cases)
    case (1 n t)
    then show ?case
      using apiInv_live [OF assms(1), of n t] by (auto simp: sendReply_def split: if_splits)
  next
    case (5 n t)
    then show ?case
      using apiInv_cancelled_kind [OF assms(1), of n t] assms(3) by (auto simp: sendReply_def split: if_splits)
  qed (auto simp: cur, simp add: sendReply_def)
qed

lemma sendReply_profile:
  "apiInv s \<Longrightarrow> \<not> acRequestActive s \<Longrightarrow> (sendReply r s)\<lparr>acProfileReply := None\<rparr> = sendReply r s"
proof -
  assume "apiInv s" "\<not> acRequestActive s"
  then have "acProfileReply s = None"
    using apiInv_profile apiInv_idle by (metis not_Some_eq)
  then show ?thesis by (simp add: sendReply_def)
qed

lemma current_setReply:
  "(\<And>r. rpCancelled (f r) = rpCancelled r)
    \<Longrightarrow> current (setReply n f s) m t \<longleftrightarrow> (\<exists>r. current s m r \<and> t = (if m = n then f r else r))"
  by (auto simp: current_def setReply_def)

lemma setReply_simps [simp]:
  "acProfileReply (setReply n f s) = acProfileReply s"
  "acRequestActive (setReply n f s) = acRequestActive s"
  "acNextReply (setReply n f s) = acNextReply s"
  "acTlsPinPolicy (setReply n f s) = acTlsPinPolicy s"
  "acBaseUrl (setReply n f s) = acBaseUrl s"
  by (simp_all add: setReply_def)

lemma apiInv_setReply:
  assumes inv: "apiInv s" and f: "\<And>r. rpCancelled (f r) = rpCancelled r" "\<And>r. rpKind (f r) = rpKind r"
  shows "apiInv (setReply n f s)"
proof (rule apiInvI, goal_cases)
  case (1 m t)
  then show ?case
    using apiInv_live [OF inv] by (auto simp: setReply_def split: if_splits)
next
  case 2
  show ?case by (simp add: current_setReply [OF f(1)] apiInv_active [OF inv])
next
  case (3 m t k u)
  then show ?case
    using apiInv_unique [OF inv] by (auto simp: current_setReply [OF f(1)])
next
  case (4 m)
  have "(\<exists>r. current (setReply n f s) m r \<and> rpKind r = ProfileReply)
      \<longleftrightarrow> (\<exists>r. current s m r \<and> rpKind r = ProfileReply)"
    unfolding current_setReply [OF f(1)] using f(2) by metis
  then show ?case by (simp add: apiInv_profile [OF inv])
next
  case (5 m t)
  then show ?case
    using apiInv_cancelled_kind [OF inv] f by (auto simp: setReply_def split: if_splits)
qed

lemma cancelProfile_state:
  "acProfileReply s = Some n \<Longrightarrow> fst (cancelProfile s)
     = (setReply n (rpCancelled_update (\<lambda>_. True)) (s\<lparr>acProfileReply := None\<rparr>))\<lparr>acRequestActive := False\<rparr>"
  "acProfileReply s = None \<Longrightarrow> cancelProfile s = (s, [])"
  by (simp_all add: cancelProfile_def Let_def)

lemma apiInv_cancelProfile: "apiInv s \<Longrightarrow> apiInv (fst (cancelProfile s))"
proof (cases "acProfileReply s")
  case (Some n)
  assume inv: "apiInv s"
  then obtain r where r: "current s n r" "rpKind r = ProfileReply"
    using Some apiInv_profile by blast
  have rs: "acReplies (fst (cancelProfile s)) m =
      (if m = n then Some (r\<lparr>rpCancelled := True\<rparr>) else acReplies s m)" for m
    using r(1) by (simp add: cancelProfile_state(1) [OF Some] setReply_def current_def)
  show ?thesis
  proof (rule apiInv_empty)
    fix m t
    show "\<not> current (fst (cancelProfile s)) m t"
      using apiInv_unique [OF inv r(1), of m t] by (auto simp: current_def rs)
    show "acReplies (fst (cancelProfile s)) m = Some t \<Longrightarrow> rpCancelled t \<Longrightarrow> rpKind t = ProfileReply"
      using r apiInv_cancelled_kind [OF inv, of m t] by (auto simp: rs split: if_splits)
    show "acReplies (fst (cancelProfile s)) m = Some t \<Longrightarrow> m < acNextReply (fst (cancelProfile s))"
      using r(1) apiInv_live [OF inv, of m] apiInv_live [OF inv, of n r]
      unfolding rs by (auto simp: cancelProfile_state(1) [OF Some] current_def split: if_splits)
  qed (simp_all add: cancelProfile_state(1) [OF Some])
qed (simp add: cancelProfile_state(2))

lemma apiInv_dropCurrent:
  assumes inv: "apiInv s" and cur: "current s n r"
  shows "apiInv (dropReply n (s\<lparr>acProfileReply := None, acRequestActive := False\<rparr>))"
proof (rule apiInv_empty)
  fix m t
  let ?s = "dropReply n (s\<lparr>acProfileReply := None, acRequestActive := False\<rparr>)"
  show "\<not> current ?s m t"
    using apiInv_unique [OF inv cur, of m t] by (auto simp: dropReply_def current_def)
  show "acReplies ?s m = Some t \<Longrightarrow> m < acNextReply ?s"
    using apiInv_live [OF inv, of m t] by (simp add: dropReply_def split: if_splits)
  show "acReplies ?s m = Some t \<Longrightarrow> rpCancelled t \<Longrightarrow> rpKind t = ProfileReply"
    using apiInv_cancelled_kind [OF inv, of m t] by (simp add: dropReply_def split: if_splits)
qed (simp_all add: dropReply_def)

lemma onFinished_current:
  assumes "apiInv s" and "current s n r"
  shows "fst (onFinished E n reply s) = dropReply n (s\<lparr>acProfileReply := None, acRequestActive := False\<rparr>)"
proof -
  have "acProfileReply s = (if rpKind r = ProfileReply then Some n else None)"
  proof (cases "acProfileReply s")
    case None
    then show ?thesis using apiInv_profile [OF assms(1), of n] assms(2) by auto
  next
    case (Some m)
    then obtain t where "current s m t" "rpKind t = ProfileReply"
      using apiInv_profile [OF assms(1)] by blast
    then show ?thesis
      using Some apiInv_unique [OF assms, of m t] current_inject [OF assms(2), of t] by simp
  qed
  with assms(2) show ?thesis
    by (simp add: onFinished_def current_def dropReply_def)
qed

lemma onFinished_cancelled:
  "apiInv s \<Longrightarrow> acReplies s n = Some r \<Longrightarrow> rpCancelled r \<Longrightarrow> onFinished E n reply s = (dropReply n s, [])"
  using apiInv_cancelled_kind [of s n r] by (simp add: onFinished_def)

lemma current_dropCancelled:
  "acReplies s n = Some r \<Longrightarrow> rpCancelled r \<Longrightarrow> current (dropReply n s) m t \<longleftrightarrow> current s m t"
  by (auto simp: current_def dropReply_def)

lemma apiInv_dropCancelled:
  assumes inv: "apiInv s" and r: "acReplies s n = Some r" "rpCancelled r"
  shows "apiInv (dropReply n s)"
proof (rule apiInvI, goal_cases)
  case (1 m t)
  then show ?case
    using apiInv_live [OF inv, of m t] by (simp add: dropReply_def split: if_splits)
next
  case 2
  show ?case unfolding current_dropCancelled [OF r] using apiInv_active [OF inv] by (simp add: dropReply_def)
next
  case (3 m t k u)
  then show ?case
    unfolding current_dropCancelled [OF r] using apiInv_unique [OF inv] by blast
next
  case (4 m)
  show ?case
    unfolding current_dropCancelled [OF r] using apiInv_profile [OF inv] by (simp add: dropReply_def)
next
  case (5 m t)
  then show ?case
    using apiInv_cancelled_kind [OF inv, of m t] by (simp add: dropReply_def split: if_splits)
qed

lemma apiInv_onFinished: "apiInv s \<Longrightarrow> apiInv (fst (onFinished E n reply s))"
proof (cases "acReplies s n")
  case (Some r)
  assume inv: "apiInv s"
  show ?thesis
  proof (cases "rpCancelled r")
    case True
    show ?thesis
      using apiInv_dropCancelled [OF inv Some True] by (simp add: onFinished_cancelled [OF inv Some True])
  next
    case False
    then have "current s n r" using Some by (simp add: current_def)
    then show ?thesis
      using apiInv_dropCurrent [OF inv] by (simp add: onFinished_current [OF inv])
  qed
qed (simp add: onFinished_def)

section \<open>The specification: a slot for one call\<close>

text \<open>
  What the client promises its user, without replies and networks: there is a slot for one call.
  A call takes the free slot or is refused at once; an answer empties the slot and carries the
  kind and the generation of the call; abandoning empties the slot of a profile call silently.
\<close>

type_synonym slot = "(reply_kind \<times> 64 word) option"

datatype slot_event = Ask reply_kind "64 word" | Abandon | Conclude | Internal

datatype slot_signal = Signal (sigKind: reply_kind) (sigGeneration: "64 word") (sigSuccess: bool)

inductive slotStep :: "slot \<Rightarrow> slot_event \<Rightarrow> slot_signal list \<Rightarrow> slot \<Rightarrow> bool" where
  ask_taken: "slotStep None (Ask k g) [] (Some (k, g))"
| ask_refused: "slotStep a (Ask k g) [Signal k g False] a"
| abandon_profile: "slotStep (Some (ProfileReply, g)) Abandon [] None"
| abandon_nothing: "\<forall>g. a \<noteq> Some (ProfileReply, g) \<Longrightarrow> slotStep a Abandon [] a"
| conclude: "slotStep (Some (k, g)) Conclude [Signal k g ok] None"
| conclude_ignored: "slotStep a Conclude [] a"
| internal: "slotStep a Internal [] a"

inductive_simps slotStep_simps:
  "slotStep a (Ask k g) sigs b" "slotStep a Abandon sigs b" "slotStep a Conclude sigs b"
  "slotStep a Internal sigs b"

fun slotEvent :: "('u, 'x) api_event \<Rightarrow> slot_event" where
  "slotEvent (CallLogin requestId request g) = Ask LoginReply g"
| "slotEvent (CallVerifyDevice requestId request g) = Ask DeviceReply g"
| "slotEvent (CallLoadProfile builder t1 t2 t3 requestId session g) = Ask ProfileReply g"
| "slotEvent CallCancelProfile = Abandon"
| "slotEvent (Finished n reply) = Conclude"
| "slotEvent _ = Internal"

fun slotSignals :: "'u api_effect list \<Rightarrow> slot_signal list" where
  "slotSignals [] = []"
| "slotSignals (LoginSucceededSignal response g # es) = Signal LoginReply g True # slotSignals es"
| "slotSignals (LoginFailedSignal e g # es) = Signal LoginReply g False # slotSignals es"
| "slotSignals (DeviceVerifiedSignal response g # es) = Signal DeviceReply g True # slotSignals es"
| "slotSignals (DeviceFailedSignal e g # es) = Signal DeviceReply g False # slotSignals es"
| "slotSignals (ProfileLoadedSignal response g # es) = Signal ProfileReply g True # slotSignals es"
| "slotSignals (ProfileFailedSignal e g # es) = Signal ProfileReply g False # slotSignals es"
| "slotSignals (_ # es) = slotSignals es"

text \<open>
  The interface as a contract: a service with an invariant, a view of its slot and its signals, all
  of whose operations are steps of the specification. What a user of the service needs follows.
\<close>

locale call_slot =
  fixes inv :: "'s \<Rightarrow> bool" and slot :: "'s \<Rightarrow> slot" and step :: "'e \<Rightarrow> 's \<Rightarrow> 's \<times> 'f list"
    and kind :: "'e \<Rightarrow> slot_event" and signals :: "'f list \<Rightarrow> slot_signal list"
  assumes keeps: "inv s \<Longrightarrow> inv (fst (step e s))"
    and refines: "inv s \<Longrightarrow> slotStep (slot s) (kind e) (signals (snd (step e s))) (slot (fst (step e s)))"
begin

lemma asked:
  assumes "inv s" and "kind e = Ask k g"
  obtains (open_call) "slot s = None" "slot (fst (step e s)) = Some (k, g)" "signals (snd (step e s)) = []"
    | (refused) "slot (fst (step e s)) = slot s" "signals (snd (step e s)) = [Signal k g False]"
  using refines [OF assms(1), of e] open_call refused unfolding assms(2) slotStep_simps by (elim disjE conjE) simp_all

lemma abandoned:
  assumes "inv s" and "kind e = Abandon"
  shows "slot (fst (step e s)) \<noteq> Some (ProfileReply, g)" and "signals (snd (step e s)) = []"
    and "(\<forall>h. slot s \<noteq> Some (ProfileReply, h)) \<Longrightarrow> slot (fst (step e s)) = slot s"
  using refines [OF assms(1), of e] unfolding assms(2) slotStep_simps by auto

lemma concluded:
  assumes "inv s" and "kind e = Conclude"
  obtains (silent) "slot (fst (step e s)) = slot s" "signals (snd (step e s)) = []"
    | (answer) k g ok where "slot s = Some (k, g)" "slot (fst (step e s)) = None"
      "signals (snd (step e s)) = [Signal k g ok]"
  using refines [OF assms(1), of e] unfolding assms(2) slotStep_simps by blast

lemma unseen:
  assumes "inv s" and "kind e = Internal"
  shows "slot (fst (step e s)) = slot s" and "signals (snd (step e s)) = []"
  using refines [OF assms(1), of e] unfolding assms(2) slotStep_simps by simp_all

end

text \<open>The slot of a client: the call of the reply whose answer is wanted.\<close>

definition slotOf :: "'u ApiClient \<Rightarrow> slot" where
  "slotOf s =
     (case List.find (\<lambda>n. case acReplies s n of None \<Rightarrow> False | Some r \<Rightarrow> \<not> rpCancelled r) [0..<acNextReply s] of
        None \<Rightarrow> None
      | Some n \<Rightarrow> map_option (\<lambda>r. (rpKind r, rpGeneration r)) (acReplies s n))"

lemma slotOf_current:
  assumes inv: "apiInv s" and cur: "current s n r"
  shows "slotOf s = Some (rpKind r, rpGeneration r)"
proof -
  let ?P = "\<lambda>n. case acReplies s n of None \<Rightarrow> False | Some r \<Rightarrow> \<not> rpCancelled r"
  have P: "?P m \<longleftrightarrow> m = n" for m
    using cur apiInv_unique [OF inv cur, of m] by (auto simp: current_def split: option.splits)
  have "n \<in> set [0..<acNextReply s]"
    using cur apiInv_live [OF inv, of n r] by (simp add: current_def)
  then have "List.find ?P [0..<acNextReply s] \<noteq> None"
    unfolding find_None_iff P by blast
  then obtain m where m: "List.find ?P [0..<acNextReply s] = Some m" by blast
  then have "m = n" using P by (metis (no_types, lifting) find_Some_iff)
  with m show ?thesis using cur by (simp add: slotOf_def current_def)
qed

lemma slotOf_idle:
  assumes "\<And>n r. \<not> current s n r"
  shows "slotOf s = None"
proof -
  have "List.find (\<lambda>n. case acReplies s n of None \<Rightarrow> False | Some r \<Rightarrow> \<not> rpCancelled r) [0..<acNextReply s] = None"
    unfolding find_None_iff using assms by (auto simp: current_def split: option.splits)
  then show ?thesis by (simp add: slotOf_def)
qed

lemma slotOf_inactive: "apiInv s \<Longrightarrow> \<not> acRequestActive s \<Longrightarrow> slotOf s = None"
  by (rule slotOf_idle) (rule apiInv_idle)

lemma slotOf_cong:
  assumes "apiInv s" and "apiInv t"
    and "\<And>n k g. (\<exists>r. current s n r \<and> rpKind r = k \<and> rpGeneration r = g)
      \<longleftrightarrow> (\<exists>r. current t n r \<and> rpKind r = k \<and> rpGeneration r = g)"
  shows "slotOf s = slotOf t"
proof (cases "\<exists>n r. current s n r")
  case True
  then obtain n r where r: "current s n r" by blast
  then obtain r' where r': "current t n r'" "rpKind r' = rpKind r" "rpGeneration r' = rpGeneration r"
    using assms(3) by blast
  show ?thesis
    by (simp add: slotOf_current [OF assms(1) r] slotOf_current [OF assms(2) r'(1)] r')
next
  case False
  then show ?thesis
    using assms(3) by (metis slotOf_idle)
qed

section \<open>Steps\<close>

lemma sendReply_slot:
  assumes "apiInv s" and "\<not> acRequestActive s" and "\<not> rpCancelled r"
    and p: "p = (if rpKind r = ProfileReply then Some (acNextReply s) else None)"
  shows "slotOf ((sendReply r s)\<lparr>acProfileReply := p\<rparr>) = Some (rpKind r, rpGeneration r)"
  using slotOf_current [OF apiInv_send [OF assms(1-3)]]
    current_send [OF assms(3) apiInv_idle [OF assms(1,2)]] by (simp add: p)

definition taken :: "'u ApiClient \<Rightarrow> reply_kind \<Rightarrow> 64 word \<Rightarrow> 'u ApiClient \<Rightarrow> bool" where
  "taken s k g s' \<longleftrightarrow> \<not> acRequestActive s
     \<and> (\<exists>r. \<not> rpCancelled r \<and> rpKind r = k \<and> rpGeneration r = g
       \<and> s' = (sendReply r s)\<lparr>acProfileReply := if k = ProfileReply then Some (acNextReply s) else None\<rparr>)"

lemma taken_inv: "apiInv s \<Longrightarrow> taken s k g s' \<Longrightarrow> apiInv s'"
  using apiInv_send unfolding taken_def by blast

lemma taken_slot: "apiInv s \<Longrightarrow> taken s k g s' \<Longrightarrow> slotOf s = None \<and> slotOf s' = Some (k, g)"
  using sendReply_slot slotOf_inactive unfolding taken_def by blast

text \<open>A call is refused with one failure and no change, or takes the slot without a signal.\<close>

definition askOutcome :: "'u ApiClient \<Rightarrow> reply_kind \<Rightarrow> 64 word \<Rightarrow> 'u ApiClient \<times> 'u api_effect list \<Rightarrow> bool" where
  "askOutcome s k g outcome \<longleftrightarrow>
     (fst outcome = s \<and> slotSignals (snd outcome) = [Signal k g False])
     \<or> (taken s k g (fst outcome) \<and> slotSignals (snd outcome) = [])"

lemma postJson_outcome:
  assumes "apiInv s" and k_def: "k = (if deviceRequest then DeviceReply else LoginReply)"
  shows "askOutcome s k g (postJson E requestId path body deviceRequest g s)"
proof (cases "isAllowedTransport E s \<and> \<not> acRequestActive s")
  case True
  let ?r = "\<lparr>rpKind = k, rpRequestId = requestId, rpToken = [], rpCompactProof = [], rpGeneration = g,
    rpTransportError = [], rpTimeout = False, rpCancelled = False\<rparr>"
  have "fst (postJson E requestId path body deviceRequest g s) = (sendReply ?r s)\<lparr>acProfileReply := None\<rparr>"
    using True sendReply_profile [OF assms(1), of ?r] by (simp add: postJson_def Let_def k_def)
  moreover have "slotSignals (snd (postJson E requestId path body deviceRequest g s)) = []"
    using True by (simp add: postJson_def Let_def)
  ultimately show ?thesis
    using True unfolding askOutcome_def taken_def
    by (intro disjI2 conjI exI [of _ ?r]) (simp_all add: k_def)
qed (auto simp: postJson_def Let_def k_def askOutcome_def)

lemma apiLogin_outcome: "apiInv s \<Longrightarrow> askOutcome s LoginReply g (apiLogin E requestId request g s)"
  unfolding apiLogin_def by (rule postJson_outcome) simp_all

lemma verifyDevice_outcome: "apiInv s \<Longrightarrow> askOutcome s DeviceReply g (verifyDevice E requestId request g s)"
  unfolding verifyDevice_def Let_def
  by (split if_split) (intro conjI impI postJson_outcome, simp_all add: askOutcome_def)

lemma loadProfile_outcome:
  "askOutcome s ProfileReply g (loadProfile E builder t1 t2 t3 requestId session g s)"
  unfolding loadProfile_def askOutcome_def taken_def Let_def
  by (split if_split sum.split)+ force

lemma askOutcome_inv: "apiInv s \<Longrightarrow> askOutcome s k g outcome \<Longrightarrow> apiInv (fst outcome)"
  unfolding askOutcome_def using taken_inv by blast

lemma askOutcome_slot:
  "apiInv s \<Longrightarrow> askOutcome s k g outcome
    \<Longrightarrow> slotStep (slotOf s) (Ask k g) (slotSignals (snd outcome)) (slotOf (fst outcome))"
  unfolding askOutcome_def using taken_slot by (auto simp: slotStep_simps)

lemmas call_outcomes = apiLogin_outcome verifyDevice_outcome loadProfile_outcome

text \<open>The slots that only mark a reply and abort it.\<close>

definition markedBy :: "'u ApiClient \<Rightarrow> 'u ApiClient \<Rightarrow> bool" where
  "markedBy s s' \<longleftrightarrow> s' = s \<or> (\<exists>n f. (\<forall>r. rpCancelled (f r) = rpCancelled r \<and> rpKind (f r) = rpKind r
     \<and> rpGeneration (f r) = rpGeneration r) \<and> s' = setReply n f s)"

lemma markedBy_setReply:
  "(\<And>r. rpCancelled (f r) = rpCancelled r \<and> rpKind (f r) = rpKind r \<and> rpGeneration (f r) = rpGeneration r)
    \<Longrightarrow> markedBy s (setReply n f s)"
  unfolding markedBy_def by blast

lemma marking_slots:
  "markedBy s (fst (onSslErrors n s)) \<and> slotSignals (snd (onSslErrors n s)) = []"
  "markedBy s (fst (onEncrypted E n url peer s)) \<and> slotSignals (snd (onEncrypted E n url peer s)) = []"
  "markedBy s (fst (onRedirected n s)) \<and> slotSignals (snd (onRedirected n s)) = []"
  "markedBy s (fst (onTimeout n s)) \<and> slotSignals (snd (onTimeout n s)) = []"
  by (auto simp: onSslErrors_def onEncrypted_def onRedirected_def onTimeout_def
      intro: markedBy_setReply) (simp_all add: markedBy_def)

lemma markedBy_inv: "markedBy s s' \<Longrightarrow> apiInv s \<Longrightarrow> apiInv s'"
  unfolding markedBy_def using apiInv_setReply by metis

lemma markedBy_slot:
  assumes "markedBy s s'" and "apiInv s"
  shows "slotOf s' = slotOf s"
proof (cases "s' = s")
  case False
  then obtain n f where f: "\<And>r. rpCancelled (f r) = rpCancelled r" "\<And>r. rpKind (f r) = rpKind r"
      "\<And>r. rpGeneration (f r) = rpGeneration r" and s': "s' = setReply n f s"
    using assms(1) unfolding markedBy_def by blast
  show ?thesis
  proof (rule slotOf_cong [OF markedBy_inv [OF assms] assms(2)])
    show "(\<exists>r. current s' m r \<and> rpKind r = k \<and> rpGeneration r = g)
      \<longleftrightarrow> (\<exists>r. current s m r \<and> rpKind r = k \<and> rpGeneration r = g)" for m k g
      unfolding s' current_setReply [OF f(1)] using f(2,3) by metis
  qed
qed simp

lemma cancelProfile_slot:
  assumes "apiInv s"
  shows "slotStep (slotOf s) Abandon (slotSignals (snd (cancelProfile s))) (slotOf (fst (cancelProfile s)))"
proof (cases "acProfileReply s")
  case None
  then have "slotOf s \<noteq> Some (ProfileReply, g)" for g
    using slotOf_current [OF assms] slotOf_idle apiInv_profile [OF assms]
    by (metis Pair_inject not_None_eq option.inject)
  then show ?thesis
    by (simp add: cancelProfile_state(2) [OF None] slotStep_simps)
next
  case (Some n)
  then obtain r where r: "current s n r" "rpKind r = ProfileReply"
    using apiInv_profile [OF assms] by blast
  have "slotOf (fst (cancelProfile s)) = None"
    by (rule slotOf_inactive [OF apiInv_cancelProfile [OF assms]]) (simp add: cancelProfile_state(1) [OF Some])
  moreover have "slotSignals (snd (cancelProfile s)) = []"
    by (simp add: cancelProfile_def Some Let_def)
  ultimately show ?thesis
    using slotOf_current [OF assms r(1)] r(2) by (simp add: slotStep_simps)
qed

lemma profileAnswer_signal:
  "\<exists>ok. slotSignals [profileAnswer E r reply] = [Signal ProfileReply (rpGeneration r) ok]"
  by (simp add: profileAnswer_def Let_def ex_bool_eq)

lemma postAnswer_signal:
  "\<exists>ok. slotSignals [postAnswer E d r reply] = [Signal (if d then DeviceReply else LoginReply) (rpGeneration r) ok]"
  by (simp add: postAnswer_def Let_def ex_bool_eq)

lemma onFinished_signal:
  assumes "current s n r"
  shows "\<exists>ok. slotSignals (snd (onFinished E n reply s)) = [Signal (rpKind r) (rpGeneration r) ok]"
  using assms profileAnswer_signal [of E r reply] postAnswer_signal [of E "rpKind r = DeviceReply" r reply]
  by (cases "rpKind r") (simp_all add: onFinished_def current_def Let_def)

lemma onFinished_slot:
  assumes inv: "apiInv s"
  shows "slotStep (slotOf s) Conclude (slotSignals (snd (onFinished E n reply s))) (slotOf (fst (onFinished E n reply s)))"
proof (cases "acReplies s n")
  case None
  then show ?thesis by (simp add: onFinished_def slotStep_simps)
next
  case (Some r)
  show ?thesis
  proof (cases "rpCancelled r")
    case True
    have "slotOf (dropReply n s) = slotOf s"
      by (rule slotOf_cong [OF apiInv_dropCancelled [OF inv Some True] inv])
         (simp add: current_dropCancelled [OF Some True])
    then show ?thesis
      by (simp add: onFinished_cancelled [OF inv Some True] slotStep_simps)
  next
    case False
    with Some have r: "current s n r" by (simp add: current_def)
    have "slotOf (fst (onFinished E n reply s)) = None"
      by (rule slotOf_inactive [OF apiInv_onFinished [OF inv]])
         (simp add: onFinished_current [OF inv r] dropReply_def)
    then show ?thesis
      using onFinished_signal [OF r, of E reply] slotOf_current [OF inv r] by (auto simp: slotStep_simps)
  qed
qed

lemma apiStep_inv: "apiInv s \<Longrightarrow> apiInv (fst (apiStep E ev s))"
  by (cases ev)
     (simp_all add: apiInv_cancelProfile apiInv_onFinished markedBy_inv [OF marking_slots(1) [THEN conjunct1]]
       markedBy_inv [OF marking_slots(2) [THEN conjunct1]] markedBy_inv [OF marking_slots(3) [THEN conjunct1]]
       markedBy_inv [OF marking_slots(4) [THEN conjunct1]] askOutcome_inv [OF _ apiLogin_outcome]
       askOutcome_inv [OF _ verifyDevice_outcome] askOutcome_inv [OF _ loadProfile_outcome])

lemma apiStep_slot:
  assumes "apiInv s"
  shows "slotStep (slotOf s) (slotEvent ev) (slotSignals (snd (apiStep E ev s))) (slotOf (fst (apiStep E ev s)))"
  using askOutcome_slot [OF assms apiLogin_outcome [OF assms]]
    askOutcome_slot [OF assms verifyDevice_outcome [OF assms]] askOutcome_slot [OF assms loadProfile_outcome]
    cancelProfile_slot [OF assms] onFinished_slot [OF assms]
  by (cases ev)
     (simp_all add: marking_slots [THEN conjunct2] slotStep.internal
       markedBy_slot [OF marking_slots(1) [THEN conjunct1] assms] markedBy_slot [OF marking_slots(2) [THEN conjunct1] assms]
       markedBy_slot [OF marking_slots(3) [THEN conjunct1] assms] markedBy_slot [OF marking_slots(4) [THEN conjunct1] assms])

interpretation api: call_slot apiInv slotOf "apiStep E" slotEvent slotSignals for E
  by unfold_locales (simp_all add: apiStep_inv apiStep_slot)

section \<open>Runs\<close>

fun apiRun :: "('u, 'x, 'p, 'k) api_env \<Rightarrow> ('u, 'x) api_event list \<Rightarrow> 'u api_handler" where
  "apiRun E [] s = (s, [])"
| "apiRun E (ev # evs) s =
     (let (s, es1) = apiStep E ev s; (s, es2) = apiRun E evs s in (s, es1 @ es2))"

lemma slotSignals_append [simp]: "slotSignals (xs @ ys) = slotSignals xs @ slotSignals ys"
  by (induction xs rule: slotSignals.induct) simp_all

lemma apiReachable_inv: "apiReachable E s \<Longrightarrow> apiInv s"
  by (induction rule: apiReachable.induct) (simp_all add: apiInv_new apiStep_inv)

inductive slotRun :: "slot \<Rightarrow> slot_event list \<Rightarrow> slot_signal list \<Rightarrow> slot \<Rightarrow> bool" where
  slot_done: "slotRun a [] [] a"
| slot_more: "slotStep a ev sigs b \<Longrightarrow> slotRun b evs sigs' c \<Longrightarrow> slotRun a (ev # evs) (sigs @ sigs') c"

lemma apiRun_slot:
  "apiInv s \<Longrightarrow> slotRun (slotOf s) (map slotEvent evs) (slotSignals (snd (apiRun E evs s))) (slotOf (fst (apiRun E evs s)))"
proof (induction evs arbitrary: s)
  case Nil
  then show ?case by (simp add: slot_done)
next
  case (Cons ev evs)
  obtain s' es where step: "apiStep E ev s = (s', es)" by fastforce
  have "apiInv s'" using apiStep_inv [OF Cons.prems, of E ev] by (simp add: step)
  then show ?case
    using slot_more [OF apiStep_slot [OF Cons.prems, of ev E] Cons.IH]
    by (simp add: step case_prod_unfold Let_def)
qed

text \<open>What was asked, and what is still open.\<close>

fun asked :: "slot_event list \<Rightarrow> (reply_kind \<times> 64 word) multiset" where
  "asked [] = {#}"
| "asked (Ask k g # evs) = add_mset (k, g) (asked evs)"
| "asked (_ # evs) = asked evs"

definition answered :: "slot_signal list \<Rightarrow> (reply_kind \<times> 64 word) multiset" where
  "answered sigs = mset (map (\<lambda>sig. (sigKind sig, sigGeneration sig)) sigs)"

definition openCall :: "slot \<Rightarrow> (reply_kind \<times> 64 word) multiset" where
  "openCall a = (case a of None \<Rightarrow> {#} | Some call \<Rightarrow> {#call#})"

lemma slotRun_balance:
  "slotRun a evs sigs b \<Longrightarrow> answered sigs + openCall b \<subseteq># openCall a + asked evs
    \<and> (Abandon \<notin> set evs \<longrightarrow> answered sigs + openCall b = openCall a + asked evs)"
proof (induction rule: slotRun.induct)
  case (slot_done a)
  then show ?case by (simp add: answered_def)
next
  case (slot_more a ev sigs b evs sigs' c)
  have split: "answered (sigs @ sigs') = answered sigs + answered sigs'"
    by (simp add: answered_def)
  have one: "answered sigs + openCall b \<subseteq># openCall a + asked [ev]
      \<and> (ev \<noteq> Abandon \<longrightarrow> answered sigs + openCall b = openCall a + asked [ev])"
    using slot_more.hyps(1) by cases (simp_all add: answered_def openCall_def)
  have more: "asked (ev # evs) = asked [ev] + asked evs"
    by (cases ev) simp_all
  have "answered sigs + (answered sigs' + openCall c) \<subseteq># answered sigs + (openCall b + asked evs)"
    using slot_more.IH by (intro mset_subset_eq_mono_add [OF subset_mset.order_refl]) blast
  moreover have "(answered sigs + openCall b) + asked evs \<subseteq># (openCall a + asked [ev]) + asked evs"
    using one by (intro mset_subset_eq_mono_add [OF _ subset_mset.order_refl]) blast
  ultimately have le: "answered sigs + answered sigs' + openCall c \<subseteq># openCall a + (asked [ev] + asked evs)"
    unfolding add.assoc [symmetric] by (rule subset_mset.order_trans)
  have eq: "answered sigs + answered sigs' + openCall c = openCall a + (asked [ev] + asked evs)"
    if "Abandon \<notin> set (ev # evs)"
  proof -
    have "answered sigs + (answered sigs' + openCall c) = (answered sigs + openCall b) + asked evs"
      using that slot_more.IH by (simp add: add.assoc)
    also have "\<dots> = openCall a + (asked [ev] + asked evs)"
      using that one by (auto simp: add.assoc)
    finally show ?thesis by (simp add: add.assoc)
  qed
  show ?case
    unfolding split more using le eq by blast
qed

lemma abandon_in_run: "Abandon \<in> set (map slotEvent evs) \<longleftrightarrow> CallCancelProfile \<in> set evs"
proof (induction evs)
  case (Cons ev evs)
  have "slotEvent ev = Abandon \<longleftrightarrow> ev = CallCancelProfile" by (cases ev) simp_all
  with Cons show ?case by auto
qed simp

section \<open>Properties\<close>

text \<open>
  In every state the client can reach there is at most one live reply whose answer is wanted,
  the flag \<open>requestActive_\<close> says exactly whether there is one, \<open>profileReply_\<close> points exactly to it
  when it is a profile request, and only profile requests are ever cancelled.
\<close>

theorem apiReachable_invariant:
  assumes "apiReachable E s"
  shows "apiInv s"
  using assms by (rule apiReachable_inv)

theorem apiReachable_invariant_witness:
  "apiInv (fst (apiStep sampleApi sampleCall sampleClient))"
  by (rule apiReachable_invariant [OF apiReachable.step [OF sampleClient_reachable]])

text \<open>
  C6. The client implements the one-slot specification: seen through its slot and its signals,
  every event of a reachable client is a step of the specification.
\<close>

theorem apiClient_refines_slot:
  assumes "apiReachable E s"
  shows "slotStep (slotOf s) (slotEvent ev) (slotSignals (snd (apiStep E ev s))) (slotOf (fst (apiStep E ev s)))"
  by (rule api.refines [OF apiReachable_inv [OF assms]])

theorem apiClient_refines_slot_witness:
  "slotStep (slotOf sampleClient) (Ask ProfileReply 7) [] (slotOf (fst (apiStep sampleApi sampleCall sampleClient)))
   \<and> slotOf (fst (apiStep sampleApi sampleCall sampleClient)) = Some (ProfileReply, 7)"
  using apiClient_refines_slot [OF sampleClient_reachable, of sampleCall]
    slotOf_current [OF apiReachable_inv [OF apiReachable.step [OF sampleClient_reachable]], of sampleCall 0 sampleReply]
  by (simp add: sampleCall_step current_def sendReply_def sampleReply_def) (simp add: sampleCall_def)

text \<open>
  Over any run every signal answers a call of its kind and generation, no call is answered
  twice, and a run without a cancellation leaves no call unanswered but the open one.
\<close>

theorem calls_and_answers_balance:
  assumes "apiReachable E s"
  shows "answered (slotSignals (snd (apiRun E evs s))) + openCall (slotOf (fst (apiRun E evs s)))
      \<subseteq># openCall (slotOf s) + asked (map slotEvent evs)
    \<and> (CallCancelProfile \<notin> set evs \<longrightarrow>
      answered (slotSignals (snd (apiRun E evs s))) + openCall (slotOf (fst (apiRun E evs s)))
        = openCall (slotOf s) + asked (map slotEvent evs))"
  using slotRun_balance [OF apiRun_slot [OF apiReachable_inv [OF assms], where E = E and evs = evs]]
  unfolding abandon_in_run by blast

theorem calls_and_answers_balance_witness:
  "answered (slotSignals (snd (apiRun sampleApi [sampleCall] sampleClient))) = {#}
   \<and> openCall (slotOf (fst (apiRun sampleApi [sampleCall] sampleClient))) = {#(ProfileReply, 7)#}"
  using calls_and_answers_balance [OF sampleClient_reachable, of "[sampleCall]"]
    slotOf_idle [of sampleClient]
  by (simp add: sampleCall_step current_def answered_def openCall_def [of None]) (simp add: sampleCall_def)

end
