(* ===== verification/Client.thy ===== *)
theory Client
  imports AuthManager ApiSlot
begin

text \<open>
  \<open>AuthManager\<close> and \<open>ApiClient\<close> together, as \<open>LoginWindow.cpp\<close> builds them: the manager calls the
  client, and the client's signals are connected to the manager's handlers (the constructor of
  \<open>AuthManager.cpp\<close>). A call is made inside a handler and a signal runs the handler connected to
  it before it returns, so one outside event is a nest of handlers: \<open>settle\<close> runs the handlers of
  the signals a step emits, down to a given depth, and \<open>clientStep\<close> is one outside event.
\<close>

section \<open>Composition\<close>

record 'u client =
  clAuth :: AuthManager
  clApi :: "'u ApiClient"

text \<open>What one event reads of the world: the request id, the proof builder and the clocks.\<close>

record 'u client_world =
  cwRequestId :: qstring
  cwBuilder :: "'u proof_builder option"
  cwT1 :: int
  cwT2 :: int
  cwT3 :: int
  cwNowSec :: int
  cwNowMs :: int
  cwLaterMs :: int

datatype 'u client_effect = AuthEffect auth_effect | ApiEffect "'u api_effect" | Deeper

text \<open>The calls of the manager, and the connections of the client's signals.\<close>

fun callOf :: "'u client_world \<Rightarrow> auth_effect \<Rightarrow> ('u, 'x) api_event option" where
  "callOf W (ApiLogin request g) = Some (CallLogin (cwRequestId W) request g)"
| "callOf W (ApiVerifyDevice request g) = Some (CallVerifyDevice (cwRequestId W) request g)"
| "callOf W (ApiLoadProfile session g) =
     Some (CallLoadProfile (cwBuilder W) (cwT1 W) (cwT2 W) (cwT3 W) (cwRequestId W) session g)"
| "callOf W ApiCancelProfile = Some CallCancelProfile"
| "callOf W _ = None"

fun signalOf :: "'u client_world \<Rightarrow> 'u api_effect \<Rightarrow> auth_event option" where
  "signalOf W (LoginSucceededSignal response g) = Some (LoginSucceeded response g)"
| "signalOf W (LoginFailedSignal e g) = Some (LoginFailed e g)"
| "signalOf W (DeviceVerifiedSignal response g) =
     Some (DeviceVerified (cwNowSec W) (cwNowMs W) (cwLaterMs W) response g)"
| "signalOf W (DeviceFailedSignal e g) = Some (DeviceVerificationFailed e g)"
| "signalOf W (ProfileLoadedSignal response g) = Some (ProfileLoaded (cwNowMs W) response g)"
| "signalOf W (ProfileFailedSignal e g) = Some (ProfileFailed e g)"
| "signalOf W _ = None"

fun callApi :: "('u, 'x, 'p, 'k) api_env \<Rightarrow> 'u client_world \<Rightarrow> auth_effect list \<Rightarrow> 'u api_handler" where
  "callApi E W [] s = (s, [])"
| "callApi E W (e # es) s =
     (case callOf W e of None \<Rightarrow> callApi E W es s
      | Some call \<Rightarrow>
        let (s, fs1) = apiStep E call s; (s, fs2) = callApi E W es s in (s, fs1 @ fs2))"

text \<open>
  \<open>settle\<close> handles the signals of a list of effects. The calls that can signal at once,
  \<open>verifyDevice\<close> and \<open>loadProfile\<close>, are the last action of their handlers, so their signals are
  handled when the handler is done.
\<close>

fun settle ::
    "'j auth_env \<Rightarrow> ('u, 'x, 'p, 'k) api_env \<Rightarrow> 'u client_world \<Rightarrow> nat \<Rightarrow> 'u api_effect list
       \<Rightarrow> 'u client \<Rightarrow> 'u client \<times> 'u client_effect list" where
  "settle C E W depth [] c = (c, [])"
| "settle C E W depth (f # fs) c =
     (case signalOf W f of
        None \<Rightarrow> let (c, out) = settle C E W depth fs c in (c, ApiEffect f # out)
      | Some ev \<Rightarrow>
        (case depth of 0 \<Rightarrow> (c, [ApiEffect f, Deeper])
         | Suc depth' \<Rightarrow>
           let (a, es) = authStep C ev (clAuth c);
               (p, fs') = callApi E W es (clApi c);
               (c, out1) = settle C E W depth' fs' \<lparr>clAuth = a, clApi = p\<rparr>;
               (c, out2) = settle C E W (Suc depth') fs c
           in (c, ApiEffect f # map AuthEffect es @ out1 @ out2)))"

definition react ::
    "'j auth_env \<Rightarrow> ('u, 'x, 'p, 'k) api_env \<Rightarrow> 'u client_world \<Rightarrow> nat \<Rightarrow> auth_event
       \<Rightarrow> 'u client \<Rightarrow> 'u client \<times> 'u client_effect list" where
  "react C E W depth ev c =
     (let (a, es) = authStep C ev (clAuth c);
          (p, fs) = callApi E W es (clApi c);
          (c, out) = settle C E W depth fs \<lparr>clAuth = a, clApi = p\<rparr>
      in (c, map AuthEffect es @ out))"

text \<open>
  The collection's handler clears the password after the call of \<open>login\<close>, so a failure of that
  call is handled inside it: \<open>syncError\<close> is that failure.
\<close>

definition syncError ::
    "('u, 'x, 'p, 'k) api_env \<Rightarrow> 'u client_world \<Rightarrow> HardwareIdentity \<Rightarrow> 'u client \<Rightarrow> ApiError option" where
  "syncError E W identity c =
     (case snd (apiLogin E (cwRequestId W) \<lparr>lrEmail = amPendingEmail (clAuth c),
         lrPassword = amPendingPassword (clAuth c), lrDeviceFingerprint = finalFingerprint identity\<rparr>
         (amAttempt (clAuth c)) (clApi c)) of
        LoginFailedSignal e g # _ \<Rightarrow> Some e
      | _ \<Rightarrow> None)"

datatype ('u, 'x) client_event =
    SignIn qstring qstring
  | SignOutClicked
  | Collected bool HardwareIdentity
  | Signed bool bytes bytes
  | ExpiryTimer
  | Network "('u, 'x) api_event"

fun networkEvent :: "('u, 'x) api_event \<Rightarrow> bool" where
  "networkEvent (SslErrors n) = True"
| "networkEvent (Encrypted n url peer) = True"
| "networkEvent (Redirected n) = True"
| "networkEvent (TimedOut n) = True"
| "networkEvent (Finished n reply) = True"
| "networkEvent _ = False"

fun clientStep ::
    "'j auth_env \<Rightarrow> ('u, 'x, 'p, 'k) api_env \<Rightarrow> 'u client_world \<Rightarrow> ('u, 'x) client_event
       \<Rightarrow> 'u client \<Rightarrow> 'u client \<times> 'u client_effect list" where
  "clientStep C E W (SignIn email password) c = react C E W 2 (Login email password) c"
| "clientStep C E W SignOutClicked c = react C E W 2 SignOut c"
| "clientStep C E W (Collected success identity) c =
     (let (a, es) = authStep C (CollectionFinished success identity (syncError E W identity c)) (clAuth c);
          (p, fs) = callApi E W es (clApi c)
      in (\<lparr>clAuth = a, clApi = p\<rparr>, map AuthEffect es @ map ApiEffect fs))"
| "clientStep C E W (Signed success signature key) c = react C E W 2 (SigningFinished success signature key) c"
| "clientStep C E W ExpiryTimer c = react C E W 2 TimerFired c"
| "clientStep C E W (Network ev) c =
     (if \<not> networkEvent ev then (c, [])
      else let (p, fs) = apiStep E ev (clApi c) in settle C E W 2 fs (c\<lparr>clApi := p\<rparr>))"

inductive clientReachable :: "'j auth_env \<Rightarrow> ('u, 'x, 'p, 'k) api_env \<Rightarrow> 'u client \<Rightarrow> bool" for C E where
  start: "clientReachable C E \<lparr>clAuth = initialAuth, clApi = newApiClient E baseUrl timeoutMs\<rparr>"
| step: "clientReachable C E c \<Longrightarrow> clientReachable C E (fst (clientStep C E W ev c))"

section \<open>Calls and signals\<close>

lemma silent_no_signal: "slotSignals fs = [] \<Longrightarrow> f \<in> set fs \<Longrightarrow> signalOf W f = None"
  by (induction fs rule: slotSignals.induct) auto

lemma settle_silent: "slotSignals fs = [] \<Longrightarrow> settle C E W d fs c = (c, map ApiEffect fs)"
proof (induction fs)
  case (Cons f fs)
  have "signalOf W f = None" using silent_no_signal [OF Cons.prems] by simp
  moreover have "slotSignals fs = []" using Cons.prems by (cases f) simp_all
  ultimately show ?case using Cons.IH by simp
qed simp

lemma settle_signal:
  "signalOf W f = Some ev \<Longrightarrow> settle C E W (Suc d) [f] c
    = (fst (react C E W d ev c), ApiEffect f # snd (react C E W d ev c))"
  by (simp add: react_def split_beta Let_def)

text \<open>A refused call emits its failure and nothing else.\<close>

lemma call_shapes:
  "slotSignals (snd (apiLogin E rid request g s)) = []
    \<or> (\<exists>e. apiLogin E rid request g s = (s, [LoginFailedSignal e g]))"
  "slotSignals (snd (verifyDevice E rid dr g s)) = []
    \<or> (\<exists>e. verifyDevice E rid dr g s = (s, [DeviceFailedSignal e g]))"
  "slotSignals (snd (loadProfile E builder t1 t2 t3 rid session g s)) = []
    \<or> (\<exists>e. loadProfile E builder t1 t2 t3 rid session g s = (s, [ProfileFailedSignal e g]))"
  by (auto simp: apiLogin_def verifyDevice_def postJson_def loadProfile_def Let_def split: if_splits sum.split)

lemma cancel_silent: "slotSignals (snd (cancelProfile s)) = []"
  by (simp add: cancelProfile_def Let_def split: option.split)

text \<open>What a call leaves in the slot, from the one-slot specification.\<close>

lemma login_call:
  assumes "apiInv s"
  obtains (open_call) "slotOf (fst (apiLogin E rid request g s)) = Some (LoginReply, g)"
      "slotSignals (snd (apiLogin E rid request g s)) = []" "slotOf s = None"
    | (refused) e where "apiLogin E rid request g s = (s, [LoginFailedSignal e g])"
  by (rule api.asked [OF assms, of "CallLogin rid request g" LoginReply g E])
     (use call_shapes(1) [of E rid request g s] in auto)

lemma device_call:
  assumes "apiInv s"
  obtains (open_call) "slotOf (fst (verifyDevice E rid request g s)) = Some (DeviceReply, g)"
      "slotSignals (snd (verifyDevice E rid request g s)) = []" "slotOf s = None"
    | (refused) e where "verifyDevice E rid request g s = (s, [DeviceFailedSignal e g])"
  by (rule api.asked [OF assms, of "CallVerifyDevice rid request g" DeviceReply g E])
     (use call_shapes(2) [of E rid request g s] in auto)

lemma profile_call:
  assumes "apiInv s"
  obtains (open_call) "slotOf (fst (loadProfile E builder t1 t2 t3 rid session g s)) = Some (ProfileReply, g)"
      "slotSignals (snd (loadProfile E builder t1 t2 t3 rid session g s)) = []" "slotOf s = None"
    | (refused) e where "loadProfile E builder t1 t2 t3 rid session g s = (s, [ProfileFailedSignal e g])"
  by (rule api.asked [OF assms, of "CallLoadProfile builder t1 t2 t3 rid session g" ProfileReply g E])
     (use call_shapes(3) [of E builder t1 t2 t3 rid session g s] in auto)

section \<open>What a handler asks of the client\<close>

fun apiCall :: "auth_effect \<Rightarrow> bool" where
  "apiCall (ApiLogin request g) = True"
| "apiCall (ApiVerifyDevice request g) = True"
| "apiCall (ApiLoadProfile session g) = True"
| "apiCall ApiCancelProfile = True"
| "apiCall _ = False"

lemma callApi_filter: "callApi E W es s = callApi E W (filter apiCall es) s"
proof (induction es arbitrary: s)
  case (Cons e es)
  then show ?case by (cases e) simp_all
qed simp

text \<open>The ways a handler can end, with the calls it makes.\<close>

inductive authOutcome :: "AuthManager \<Rightarrow> AuthManager \<Rightarrow> auth_effect list \<Rightarrow> bool" for s where
  unchanged: "authOutcome s s []"
| ended: "amState s' \<in> {LoggedOut, Failed} \<Longrightarrow> \<not> amProfileLoading s' \<Longrightarrow> calls \<in> {[], [ApiCancelProfile]}
    \<Longrightarrow> (amProfileLoading s \<longrightarrow> calls \<noteq> []) \<Longrightarrow> authOutcome s s' calls"
| collecting: "amState s' = CollectingDevice \<Longrightarrow> \<not> amProfileLoading s' \<Longrightarrow> \<not> amProfileLoading s
    \<Longrightarrow> authOutcome s s' []"
| signing: "amState s' = VerifyingDevice \<Longrightarrow> \<not> amProfileLoading s' \<Longrightarrow> amSigning s' = Some job
    \<Longrightarrow> sjAttempt job = amAttempt s' \<Longrightarrow> \<not> amProfileLoading s \<Longrightarrow> authOutcome s s' []"
| stale_job: "amSigning s = Some job \<Longrightarrow> sjAttempt job \<noteq> amAttempt s \<or> amState s \<noteq> VerifyingDevice
    \<Longrightarrow> authOutcome s (s\<lparr>amSigning := None\<rparr>) []"
| verifying: "amState s = VerifyingDevice \<Longrightarrow> authOutcome s (s\<lparr>amSigning := None\<rparr>) [ApiVerifyDevice request (amAttempt s)]"
| loading: "amState s = VerifyingDevice \<Longrightarrow> amState s' = Authenticating \<Longrightarrow> amProfileLoading s'
    \<Longrightarrow> amAttempt s' = amAttempt s \<Longrightarrow> authOutcome s s' [ApiLoadProfile session (amAttempt s)]"
| authenticated: "amState s' = Authenticated \<Longrightarrow> \<not> amProfileLoading s' \<Longrightarrow> amProfileLoading s \<Longrightarrow> authOutcome s s' []"

lemma clearSession_simps [simp]:
  "amState (clearSession s) = amState s" "\<not> amProfileLoading (clearSession s)"
  "amAttempt (clearSession s) = amAttempt s" "amSigning (clearSession s) = amSigning s"
  by (simp_all add: clearSession_def)

lemma fail_outcome:
  assumes "amProfileLoading t = amProfileLoading s"
  shows "authOutcome s (fst (fail e t)) (filter apiCall (snd (fail e t)))"
  by (rule ended) (simp_all add: assms fail_def auth_block_defs)

lemma reauth_outcome:
  assumes "g = amAttempt t" and "amSessionToken t \<noteq> []"
  shows "authOutcome s (fst (requireReauthentication g t)) (filter apiCall (snd (requireReauthentication g t)))"
  by (rule ended) (simp_all add: assms requireReauthentication_def auth_block_defs)

lemma login_outcome:
  "authInv C s \<Longrightarrow> authOutcome s (fst (login email password s)) (filter apiCall (snd (login email password s)))"
proof (cases "amState s \<noteq> LoggedOut \<and> amState s \<noteq> Failed")
  case False
  assume "authInv C s"
  with False have "\<not> amProfileLoading s" by (auto simp: authInv_def)
  moreover from False have "amState (fst (login email password s)) = CollectingDevice"
      "\<not> amProfileLoading (fst (login email password s))"
    by (auto simp: login_state)
  moreover have "filter apiCall (snd (login email password s)) = []"
    by (simp add: login_def auth_block_defs)
  ultimately show ?thesis by (simp add: collecting)
qed (simp add: login_def unchanged)

lemma signOut_outcome: "authOutcome s (fst (signOut s)) (filter apiCall (snd (signOut s)))"
  by (rule ended) (simp_all add: signOut_def auth_block_defs)

lemma timerFired_outcome:
  assumes "authInv C s"
  shows "authOutcome s (fst (timerFired s)) (filter apiCall (snd (timerFired s)))"
proof (cases "amTimer s")
  case (Some g)
  with assms have "g = amAttempt s" "amSessionToken s \<noteq> []" by (auto simp: authInv_def split: if_splits)
  then show ?thesis using reauth_outcome [of g "s\<lparr>amTimer := None\<rparr>" s] Some by (simp add: timerFired_def)
qed (simp add: timerFired_def unchanged)

lemma completeSigning_outcome:
  "authOutcome s (fst (completeSigning C success signature key s)) (filter apiCall (snd (completeSigning C success signature key s)))"
proof (cases "amSigning s")
  case (Some job)
  consider "sjAttempt job \<noteq> amAttempt s \<or> amState s \<noteq> VerifyingDevice"
    | "sjAttempt job = amAttempt s" "amState s = VerifyingDevice" "\<not> success"
    | "sjAttempt job = amAttempt s" "amState s = VerifyingDevice" success by blast
  then show ?thesis
  proof cases
    case 1
    then show ?thesis using stale_job [OF Some] Some by (simp add: completeSigning_def)
  next
    case 2
    then show ?thesis using fail_outcome [of "s\<lparr>amSigning := None\<rparr>" s] Some by (simp add: completeSigning_def)
  next
    case 3
    then show ?thesis using Some by (simp add: completeSigning_def verifying)
  qed
qed (simp add: completeSigning_def unchanged)

text \<open>The handlers of the signals, when they answer what the manager waits for.\<close>

lemma handleLoginSucceeded_outcome:
  "authOutcome s (fst (handleLoginSucceeded C response g s)) (filter apiCall (snd (handleLoginSucceeded C response g s)))
   \<and> (g = amAttempt s \<and> amState s = Authenticating \<and> \<not> amProfileLoading s
        \<longrightarrow> amState (fst (handleLoginSucceeded C response g s)) \<noteq> Authenticating)"
proof (cases "g \<noteq> amAttempt s \<or> amState s \<noteq> Authenticating \<or> amProfileLoading s")
  case False
  then show ?thesis
  proof (cases "strictBase64 (aeQt C) (lrsChallenge response)")
    case None
    with False show ?thesis using fail_outcome [of "s\<lparr>amState := WaitingForDeviceChallenge\<rparr>" s]
      by (simp add: handleLoginSucceeded_def auth_block_defs split_beta fail_state)
  next
    case (Some challenge)
    let ?s = "fst (handleLoginSucceeded C response g s)"
    have "amState ?s = VerifyingDevice" "\<not> amProfileLoading ?s"
        "amSigning ?s = Some \<lparr>sjAttempt = amAttempt ?s, sjEncodedChallenge = lrsChallenge response,
           sjRequestId = lrsRequestId response\<rparr>"
        "filter apiCall (snd (handleLoginSucceeded C response g s)) = []"
      using False Some by (simp_all add: handleLoginSucceeded_def auth_block_defs)
    with False show ?thesis using signing [of ?s _ s] by simp
  qed
qed (auto simp: handleLoginSucceeded_def unchanged)

lemma handleDeviceVerified_outcome:
  assumes "qtToUtf8 (aeQt C) [] = []"
  shows "authOutcome s (fst (handleDeviceVerified C nowSec nowMs laterMs response g s))
      (filter apiCall (snd (handleDeviceVerified C nowSec nowMs laterMs response g s)))
    \<and> (g = amAttempt s \<and> amState s = VerifyingDevice
        \<longrightarrow> amState (fst (handleDeviceVerified C nowSec nowMs laterMs response g s)) \<noteq> VerifyingDevice)"
proof (cases "g \<noteq> amAttempt s \<or> amState s \<noteq> VerifyingDevice")
  case False
  let ?v = "verify (aeQt C) (aeJson C) (aeEvp C) (aeCast C) (aeVerifier C) nowSec
    (dvrToken response) (dvrDeviceId response) (dvrLicenseId response)"
  let ?t = "s\<lparr>amSessionToken := dvrToken response, amExpiresAt := vsExpiresAt ?v\<rparr>"
  consider (invalid) "\<not> vsValid ?v" | (late) "vsValid ?v" "expiryMs ?t \<le> nowMs"
    | (good) "vsValid ?v" "\<not> expiryMs ?t \<le> nowMs" by blast
  then show ?thesis
  proof cases
    case invalid
    with False show ?thesis using fail_outcome [of s s] by (simp add: handleDeviceVerified_def Let_def fail_state)
  next
    case late
    from late(1) obtain e where "qtToUtf8 (aeQt C) (dvrToken response) \<noteq> []"
      by (rule verify_valid_parts)
    then have "dvrToken response \<noteq> []" using assms by auto
    with False late show ?thesis using reauth_outcome [of g ?t s]
      by (simp add: handleDeviceVerified_def Let_def requireReauthentication_state)
  next
    case good
    let ?r = "handleDeviceVerified C nowSec nowMs laterMs response g s"
    have "amState (fst ?r) = Authenticating" "amProfileLoading (fst ?r)" "amAttempt (fst ?r) = amAttempt s"
        "\<exists>session. filter apiCall (snd ?r) = [ApiLoadProfile session (amAttempt s)]"
      using False good by (simp_all add: handleDeviceVerified_def auth_block_defs)
    with False show ?thesis using loading [of s "fst ?r"] by auto
  qed
qed (auto simp: handleDeviceVerified_def unchanged)

lemma handleProfileLoaded_outcome:
  assumes "authInv C s"
  shows "authOutcome s (fst (handleProfileLoaded nowMs response g s))
      (filter apiCall (snd (handleProfileLoaded nowMs response g s)))
    \<and> (g = amAttempt s \<and> amState s = Authenticating \<and> amProfileLoading s
        \<longrightarrow> amState (fst (handleProfileLoaded nowMs response g s)) \<noteq> Authenticating)"
proof (cases "g \<noteq> amAttempt s \<or> amState s \<noteq> Authenticating \<or> \<not> amProfileLoading s \<or> amSessionToken s = []")
  case True
  moreover have "amProfileLoading s \<Longrightarrow> amSessionToken s \<noteq> []" using assms by (simp add: authInv_def)
  ultimately show ?thesis by (auto simp: handleProfileLoaded_def unchanged)
next
  case False
  then show ?thesis
  proof (cases "amExpiresAt s = None \<or> expiryMs s \<le> nowMs")
    case True
    with False show ?thesis using reauth_outcome [of g s s]
      by (simp add: handleProfileLoaded_def requireReauthentication_state)
  next
    case live: False
    let ?s = "fst (handleProfileLoaded nowMs response g s)"
    have "amState ?s = Authenticated" "\<not> amProfileLoading ?s"
        "filter apiCall (snd (handleProfileLoaded nowMs response g s)) = []"
      using False live by (auto simp: handleProfileLoaded_def Let_def)
    with False show ?thesis using authenticated [of ?s s] by simp
  qed
qed

lemma handleFailed_outcomes:
  "authOutcome s (fst (handleLoginFailed e g s)) (filter apiCall (snd (handleLoginFailed e g s)))
    \<and> (g = amAttempt s \<and> amState s = Authenticating \<and> \<not> amProfileLoading s
        \<longrightarrow> amState (fst (handleLoginFailed e g s)) \<noteq> Authenticating)"
  "authOutcome s (fst (handleDeviceVerificationFailed e g s)) (filter apiCall (snd (handleDeviceVerificationFailed e g s)))
    \<and> (g = amAttempt s \<and> amState s = VerifyingDevice
        \<longrightarrow> amState (fst (handleDeviceVerificationFailed e g s)) \<noteq> VerifyingDevice)"
  "authOutcome s (fst (handleProfileFailed e g s)) (filter apiCall (snd (handleProfileFailed e g s)))
    \<and> (g = amAttempt s \<and> amState s = Authenticating \<and> amProfileLoading s
        \<longrightarrow> amState (fst (handleProfileFailed e g s)) \<noteq> Authenticating)"
  using fail_outcome [of s s e]
  by (simp_all add: handleLoginFailed_def handleDeviceVerificationFailed_def handleProfileFailed_def
      unchanged fail_state)

section \<open>The invariant of the two\<close>

text \<open>The call whose answer the manager waits for.\<close>

definition wants :: "AuthManager \<Rightarrow> reply_kind \<times> 64 word \<Rightarrow> bool" where
  "wants s call \<longleftrightarrow> snd call = amAttempt s \<and> (case fst call of
     LoginReply \<Rightarrow> amState s = Authenticating \<and> \<not> amProfileLoading s
   | DeviceReply \<Rightarrow> amState s = VerifyingDevice
   | ProfileReply \<Rightarrow> amState s = Authenticating \<and> amProfileLoading s)"

text \<open>Whenever the manager waits, what it waits for is under way, and no other profile request is.\<close>

definition awaits :: "AuthManager \<Rightarrow> slot \<Rightarrow> bool" where
  "awaits s a \<longleftrightarrow>
     (amState s = Authenticating \<longrightarrow> (\<exists>call. a = Some call \<and> wants s call))
     \<and> (amState s = VerifyingDevice \<longrightarrow>
          (\<exists>job. amSigning s = Some job \<and> sjAttempt job = amAttempt s) \<or> (\<exists>call. a = Some call \<and> wants s call))
     \<and> (\<forall>g. a = Some (ProfileReply, g) \<longrightarrow> amProfileLoading s \<and> g = amAttempt s)"

definition clientInv :: "'j auth_env \<Rightarrow> 'u client \<Rightarrow> bool" where
  "clientInv C c \<longleftrightarrow> authInv C (clAuth c) \<and> apiInv (clApi c) \<and> awaits (clAuth c) (slotOf (clApi c))"

definition settled :: "'j auth_env \<Rightarrow> 'u client \<times> 'u client_effect list \<Rightarrow> bool" where
  "settled C r \<longleftrightarrow> clientInv C (fst r) \<and> Deeper \<notin> set (snd r)"

lemma silent_settled:
  assumes "slotSignals fs = []" and "clientInv C c"
  shows "settled C (settle C E W d fs c)"
  using assms by (auto simp: settled_def settle_silent)

lemma settled_prefix: "settled C r \<Longrightarrow> settled C (fst r, map AuthEffect es @ snd r)"
  by (auto simp: settled_def)

lemma settled_signal:
  "signalOf W f = Some ev \<Longrightarrow> settled C (react C E W d ev c) \<Longrightarrow> settled C (settle C E W (Suc d) [f] c)"
  by (auto simp: settle_signal settled_def simp del: settle.simps)

lemma react_eq:
  "react C E W d ev c =
     (let r = callApi E W (filter apiCall (snd (authStep C ev (clAuth c)))) (clApi c);
          out = settle C E W d (snd r) \<lparr>clAuth = fst (authStep C ev (clAuth c)), clApi = fst r\<rparr>
      in (fst out, map AuthEffect (snd (authStep C ev (clAuth c))) @ snd out))"
  by (simp add: react_def split_beta Let_def callApi_filter [symmetric])

text \<open>Over is over: the ended states wait for nothing.\<close>

lemma cancel_closes: "apiInv p \<Longrightarrow> slotOf (fst (cancelProfile p)) \<noteq> Some (ProfileReply, g)"
  using api.abandoned(1) [of p CallCancelProfile] by simp

lemma awaits_idle:
  assumes "amState s \<noteq> Authenticating" and "amState s \<noteq> VerifyingDevice" and "\<And>g. a \<noteq> Some (ProfileReply, g)"
  shows "awaits s a"
  using assms by (simp add: awaits_def)

lemma ended_settled:
  assumes "authInv C (fst (authStep C ev (clAuth c)))" and "apiInv (clApi c)"
    and "amState (fst (authStep C ev (clAuth c))) \<in> {LoggedOut, Failed}"
    and "filter apiCall (snd (authStep C ev (clAuth c))) \<in> {[], [ApiCancelProfile]}"
    and "filter apiCall (snd (authStep C ev (clAuth c))) = [] \<Longrightarrow> \<forall>g. slotOf (clApi c) \<noteq> Some (ProfileReply, g)"
  shows "settled C (react C E W d ev c)"
proof -
  let ?s = "fst (authStep C ev (clAuth c))" and ?calls = "filter apiCall (snd (authStep C ev (clAuth c)))"
  let ?r = "callApi E W ?calls (clApi c)"
  have "slotSignals (snd ?r) = []" "apiInv (fst ?r)"
    using assms(2,4) by (auto simp: split_beta cancel_silent apiInv_cancelProfile)
  moreover have "slotOf (fst ?r) \<noteq> Some (ProfileReply, g)" for g
    using assms(2,4,5) by (auto simp: split_beta cancel_closes)
  ultimately show ?thesis
    unfolding react_eq Let_def using assms(1,3)
    by (intro settled_prefix silent_settled) (auto simp: clientInv_def intro!: awaits_idle)
qed

lemma wants_signing [simp]: "wants (s\<lparr>amSigning := job\<rparr>) call \<longleftrightarrow> wants s call"
  by (cases "fst call") (simp_all add: wants_def)

lemma quiet_settled:
  assumes "authInv C (fst (authStep C ev (clAuth c)))" and "apiInv (clApi c)"
    and "filter apiCall (snd (authStep C ev (clAuth c))) = []"
    and "awaits (fst (authStep C ev (clAuth c))) (slotOf (clApi c))"
  shows "settled C (react C E W d ev c)"
  using assms by (simp add: react_eq settled_def clientInv_def image_iff)

text \<open>A call that opens a request leaves the manager waiting for it; a refused one ends the session.\<close>

lemma failure_settled:
  assumes "qtToUtf8 (aeQt C) [] = []" and "authInv C s" and "apiInv p" and "wants s (k, g)"
    and "\<And>h. slotOf p \<noteq> Some (ProfileReply, h)"
    and "ev = (case k of LoginReply \<Rightarrow> LoginFailed e g | DeviceReply \<Rightarrow> DeviceVerificationFailed e g
      | ProfileReply \<Rightarrow> ProfileFailed e g)"
  shows "settled C (react C E W d ev \<lparr>clAuth = s, clApi = p\<rparr>)"
proof -
  have "authStep C ev s = fail e s"
    using assms(4,6) by (cases k) (simp_all add: wants_def handleLoginFailed_def
      handleDeviceVerificationFailed_def handleProfileFailed_def)
  then show ?thesis
    using assms(3,5) authInv_step [OF assms(1,2), of ev]
    by (intro ended_settled) (simp_all add: fail_state fail_effects)
qed

definition collectionEvent :: "auth_event \<Rightarrow> bool" where
  "collectionEvent ev \<longleftrightarrow> (\<exists>success identity sync. ev = CollectionFinished success identity sync)"

lemma step_outcome:
  assumes "qtToUtf8 (aeQt C) [] = []" and "authInv C s" and "\<not> collectionEvent ev"
  shows "authOutcome s (fst (authStep C ev s)) (filter apiCall (snd (authStep C ev s)))"
  using assms handleLoginSucceeded_outcome [of s C] handleDeviceVerified_outcome [OF assms(1), of s]
    handleProfileLoaded_outcome [OF assms(2)] handleFailed_outcomes [of s]
  by (cases ev) (simp_all add: collectionEvent_def login_outcome signOut_outcome timerFired_outcome
    completeSigning_outcome)

lemma react_settled:
  assumes utf8: "qtToUtf8 (aeQt C) [] = []" and auth: "authInv C (clAuth c)" and api: "apiInv (clApi c)"
    and ev: "\<not> collectionEvent ev"
    and waiting: "awaits (clAuth c) (slotOf (clApi c))
        \<and> \<not> (amProfileLoading (clAuth c) \<and> amState (fst (authStep C ev (clAuth c))) = Authenticated)
      \<or> slotOf (clApi c) = None
        \<and> (awaits (clAuth c) None \<or> amState (fst (authStep C ev (clAuth c))) \<noteq> amState (clAuth c))"
  shows "settled C (react C E W (Suc d) ev c)"
proof -
  let ?s = "clAuth c" and ?a = "slotOf (clApi c)" and ?r = "authStep C ev (clAuth c)"
  have inv: "authInv C (fst ?r)" by (rule authInv_step [OF utf8 auth])
  have closed: "\<not> amProfileLoading ?s \<Longrightarrow> ?a \<noteq> Some (ProfileReply, g)" for g
    using waiting by (auto simp: awaits_def)
  from step_outcome [OF utf8 auth ev] show ?thesis
  proof (cases rule: authOutcome.cases)
    case unchanged
    with waiting have "awaits ?s ?a" by auto
    then show ?thesis using unchanged quiet_settled [OF inv api] by simp
  next
    case ended
    then show ?thesis using ended_settled [OF inv api] closed by auto
  next
    case collecting
    then show ?thesis using closed by (intro quiet_settled [OF inv api] awaits_idle) simp_all
  next
    case signing
    then show ?thesis using closed by (intro quiet_settled [OF inv api]) (auto simp: awaits_def)
  next
    case (stale_job job)
    with waiting have "awaits ?s ?a" by auto
    with stale_job have "awaits (fst ?r) ?a" by (auto simp: awaits_def)
    then show ?thesis using stale_job quiet_settled [OF inv api] by simp
  next
    case authenticated
    have "?a = None" using authenticated waiting by auto
    with authenticated show ?thesis by (intro quiet_settled [OF inv api] awaits_idle) simp_all
  next
    case (verifying request)
    have wants: "wants (fst ?r) (DeviceReply, amAttempt ?s)" using verifying by (simp add: wants_def)
    have "\<not> amProfileLoading ?s" using auth verifying by (auto simp: authInv_def)
    note closed = closed [OF this]
    let ?call = "verifyDevice E (cwRequestId W) request (amAttempt ?s) (clApi c)"
    have eq: "callApi E W (filter apiCall (snd ?r)) (clApi c) = ?call"
      by (simp add: verifying split_beta)
    show ?thesis unfolding react_eq Let_def eq
    proof (rule settled_prefix, cases rule: device_call [OF api, of E "cwRequestId W" request "amAttempt ?s"])
      case 1
      then show "settled C (settle C E W (Suc d) (snd ?call) \<lparr>clAuth = fst ?r, clApi = fst ?call\<rparr>)"
        using inv wants askOutcome_inv [OF api verifyDevice_outcome [OF api]]
        by (intro silent_settled) (auto simp: clientInv_def awaits_def)
    next
      case (2 e)
      then show "settled C (settle C E W (Suc d) (snd ?call) \<lparr>clAuth = fst ?r, clApi = fst ?call\<rparr>)"
        using failure_settled [OF utf8 inv api wants closed, of _ e E W d]
        by (simp del: settle.simps) (rule settled_signal, simp_all)
    qed
  next
    case (loading session)
    have wants: "wants (fst ?r) (ProfileReply, amAttempt ?s)" using loading by (simp add: wants_def)
    have "\<not> amProfileLoading ?s" using auth loading by (auto simp: authInv_def)
    note closed = closed [OF this]
    let ?call = "loadProfile E (cwBuilder W) (cwT1 W) (cwT2 W) (cwT3 W) (cwRequestId W) session (amAttempt ?s) (clApi c)"
    have eq: "callApi E W (filter apiCall (snd ?r)) (clApi c) = ?call"
      by (simp add: loading split_beta)
    show ?thesis unfolding react_eq Let_def eq
    proof (rule settled_prefix, cases rule: profile_call [OF api, of E "cwBuilder W" "cwT1 W" "cwT2 W" "cwT3 W"
        "cwRequestId W" session "amAttempt ?s"])
      case 1
      then show "settled C (settle C E W (Suc d) (snd ?call) \<lparr>clAuth = fst ?r, clApi = fst ?call\<rparr>)"
        using inv wants loading askOutcome_inv [OF api loadProfile_outcome]
        by (intro silent_settled) (auto simp: clientInv_def awaits_def)
    next
      case (2 e)
      then show "settled C (settle C E W (Suc d) (snd ?call) \<lparr>clAuth = fst ?r, clApi = fst ?call\<rparr>)"
        using failure_settled [OF utf8 inv api wants closed, of _ e E W d]
        by (simp del: settle.simps) (rule settled_signal, simp_all)
    qed
  qed
qed

section \<open>Events\<close>

lemma signal_event:
  assumes "slotSignals [f] = [Signal k g ok]" and "authInv C s" and "qtToUtf8 (aeQt C) [] = []"
  obtains ev where "signalOf W f = Some ev" "\<not> collectionEvent ev"
    "wants s (k, g) \<longrightarrow> amState (fst (authStep C ev s)) \<noteq> amState s"
  using assms(1) handleLoginSucceeded_outcome [of s C] handleDeviceVerified_outcome [OF assms(3), of s]
    handleProfileLoaded_outcome [OF assms(2)] handleFailed_outcomes [of s]
  by (cases f) (auto simp: wants_def collectionEvent_def)

lemma finished_effects:
  "\<exists>f. snd (onFinished E n reply s) = [] \<or> snd (onFinished E n reply s) = [f]"
  by (simp add: onFinished_def Let_def split: option.split)

lemma finished_cases:
  assumes "apiInv s"
  obtains (silent) "slotSignals (snd (onFinished E n reply s)) = []" "slotOf (fst (onFinished E n reply s)) = slotOf s"
    | (answer) f k g ok where "snd (onFinished E n reply s) = [f]" "slotSignals [f] = [Signal k g ok]"
      "slotOf s = Some (k, g)" "slotOf (fst (onFinished E n reply s)) = None"
proof -
  obtain f where f: "snd (onFinished E n reply s) = [] \<or> snd (onFinished E n reply s) = [f]"
    using finished_effects by blast
  show thesis
  proof (rule api.concluded [OF assms, of "Finished n reply" E], simp_all)
    fix k g ok
    assume "slotOf s = Some (k, g)" "slotOf (fst (onFinished E n reply s)) = None"
      "slotSignals (snd (onFinished E n reply s)) = [Signal k g ok]"
    with f show thesis by (intro answer [of f]) auto
  qed (rule silent)
qed

lemma marked_network:
  assumes "apiInv s" and "networkEvent ev" and "\<And>n reply. ev \<noteq> Finished n reply"
  shows "slotSignals (snd (apiStep E ev s)) = [] \<and> slotOf (fst (apiStep E ev s)) = slotOf s"
proof -
  have "slotEvent ev = Internal" using assms(2,3) by (cases ev) auto
  then show ?thesis using api.unseen [OF assms(1), of ev E] by simp
qed

lemma network_settled:
  assumes utf8: "qtToUtf8 (aeQt C) [] = []" and inv: "clientInv C c"
  shows "settled C (clientStep C E W (Network ev) c)"
proof (cases "networkEvent ev")
  case True
  have auth: "authInv C (clAuth c)" and api: "apiInv (clApi c)" and aw: "awaits (clAuth c) (slotOf (clApi c))"
    using inv by (simp_all add: clientInv_def)
  let ?p = "apiStep E ev (clApi c)"
  have p: "apiInv (fst ?p)" by (rule apiStep_inv [OF api])
  have step: "clientStep C E W (Network ev) c = settle C E W 2 (snd ?p) (c\<lparr>clApi := fst ?p\<rparr>)"
    using True by (simp add: split_beta)
  show ?thesis
  proof (cases "\<exists>n reply. ev = Finished n reply")
    case False
    then have "slotSignals (snd ?p) = []" "slotOf (fst ?p) = slotOf (clApi c)"
      using marked_network [OF api True] by blast+
    with auth p aw show ?thesis unfolding step
      by (intro silent_settled) (simp_all add: clientInv_def)
  next
    case True
    then obtain n reply where ev: "ev = Finished n reply" by blast
    show ?thesis
    proof (cases rule: finished_cases [OF api, of E n reply])
      case 1
      with auth p aw ev show ?thesis unfolding step
        by (intro silent_settled) (simp_all add: clientInv_def)
    next
      case (2 f k g ok)
      obtain ev' where ev': "signalOf W f = Some ev'" "\<not> collectionEvent ev'"
          "wants (clAuth c) (k, g) \<longrightarrow> amState (fst (authStep C ev' (clAuth c))) \<noteq> amState (clAuth c)"
        using signal_event [OF 2(2) auth utf8] by blast
      have "awaits (clAuth c) None \<or> wants (clAuth c) (k, g)"
        using aw 2(3) by (auto simp: awaits_def)
      then have "settled C (react C E W (Suc 0) ev' (c\<lparr>clApi := fst ?p\<rparr>))"
        using auth p 2(4) ev ev' by (intro react_settled [OF utf8]) auto
      then show ?thesis
        using settled_signal [OF ev'(1), where d = 1 and C = C and E = E] 2(1) ev unfolding step by (simp add: numeral_2_eq_2 del: settle.simps)
    qed
  qed
qed (use assms in \<open>simp add: settled_def\<close>)

lemma direct_settled:
  assumes utf8: "qtToUtf8 (aeQt C) [] = []" and inv: "clientInv C c"
    and ev: "ev = Login email password \<or> ev = SignOut \<or> ev = SigningFinished success signature key \<or> ev = TimerFired"
  shows "settled C (react C E W 2 ev c)"
proof -
  let ?s = "clAuth c"
  have auth: "authInv C ?s" using inv by (simp add: clientInv_def)
  have "amState (fst (authStep C ev ?s)) \<noteq> Authenticated" if loading: "amProfileLoading ?s"
  proof -
    have s: "amState ?s = Authenticating" using auth loading by (simp add: authInv_def)
    show ?thesis using ev
      by (cases "amSigning ?s"; cases "amTimer ?s")
         (auto simp: s login_state signOut_state timerFired_def requireReauthentication_state completeSigning_def
           split: if_splits)
  qed
  then have "settled C (react C E W (Suc 1) ev c)"
    using inv ev by (intro react_settled [OF utf8]) (auto simp: clientInv_def collectionEvent_def)
  then show ?thesis by (simp add: numeral_2_eq_2)
qed

lemma callApi_noCall: "filter apiCall es = [] \<Longrightarrow> callApi E W es s = (s, [])"
  using callApi_filter [of E W es s] by simp

lemma syncError_call:
  assumes "apiInv (clApi c)" and "request = \<lparr>lrEmail = amPendingEmail (clAuth c),
    lrPassword = amPendingPassword (clAuth c), lrDeviceFingerprint = finalFingerprint identity\<rparr>"
  obtains (open_call) "syncError E W identity c = None"
      "slotOf (fst (apiLogin E (cwRequestId W) request (amAttempt (clAuth c)) (clApi c))) = Some (LoginReply, amAttempt (clAuth c))"
    | (refused) e where "syncError E W identity c = Some e"
      "apiLogin E (cwRequestId W) request (amAttempt (clAuth c)) (clApi c)
        = (clApi c, [LoginFailedSignal e (amAttempt (clAuth c))])"
proof (cases rule: login_call [OF assms(1), of E "cwRequestId W" request "amAttempt (clAuth c)"])
  case 1
  then have "syncError E W identity c = None"
    by (auto simp: syncError_def assms(2) split: list.split api_effect.split)
  then show thesis using 1(1) by (rule open_call)
next
  case (2 e)
  then show thesis by (intro refused) (simp_all add: syncError_def assms(2))
qed

text \<open>The end of the collection, when it succeeds for the current attempt.\<close>

definition startedLogin :: "HardwareIdentity \<Rightarrow> AuthManager \<Rightarrow> AuthManager" where
  "startedLogin identity s = s\<lparr>amCollection := None, amHardware := identity, amState := Authenticating,
     amPendingPassword := []\<rparr>"

definition loginRequest :: "HardwareIdentity \<Rightarrow> AuthManager \<Rightarrow> LoginRequest" where
  "loginRequest identity s = \<lparr>lrEmail = amPendingEmail s, lrPassword = amPendingPassword s,
     lrDeviceFingerprint = finalFingerprint identity\<rparr>"

lemma completeCollection_cases:
  assumes "authInv C s"
  obtains (idle) "completeCollection C success identity sync s = (s, [])" "amCollection s = None"
    | (failed) "amState (fst (completeCollection C success identity sync s)) = Failed"
      "filter apiCall (snd (completeCollection C success identity sync s)) = []" "\<not> amProfileLoading s"
    | (started) "amState s = CollectingDevice" "\<not> amProfileLoading s" "sync = None"
      "fst (completeCollection C success identity sync s) = startedLogin identity s"
      "filter apiCall (snd (completeCollection C success identity sync s)) = [ApiLogin (loginRequest identity s) (amAttempt s)]"
    | (refused) e where "amState s = CollectingDevice" "\<not> amProfileLoading s" "sync = Some e"
      "amState (fst (completeCollection C success identity sync s)) = Failed"
      "filter apiCall (snd (completeCollection C success identity sync s)) = [ApiLogin (loginRequest identity s) (amAttempt s)]"
proof (cases "amCollection s")
  case (Some attempt)
  with assms have s: "amState s = CollectingDevice" "attempt = amAttempt s" "\<not> amProfileLoading s"
    by (auto simp: authInv_def split: if_splits)
  show thesis
  proof (cases "success \<and> verifierConfigured (aeQt C) (aeVerifier C)")
    case False
    with Some s show thesis
      by (intro failed) (auto simp: completeCollection_def Let_def fail_state fail_effects)
  next
    case True
    show thesis
    proof (cases sync)
      case None
      with True Some s show thesis
        by (intro started) (simp_all add: completeCollection_def auth_block_defs startedLogin_def loginRequest_def)
    next
      case (Some e)
      with True \<open>amCollection s = _\<close> s show thesis
        by (intro refused) (simp_all add: completeCollection_def auth_block_defs loginRequest_def handleLoginFailed_def
          split_beta fail_state fail_effects)
    qed
  qed
qed (use idle in \<open>simp add: completeCollection_def\<close>)

lemma collected_settled:
  assumes utf8: "qtToUtf8 (aeQt C) [] = []" and inv: "clientInv C c"
  shows "settled C (clientStep C E W (Collected success identity) c)"
proof -
  let ?s = "clAuth c" and ?sync = "syncError E W identity c"
  let ?r = "completeCollection C success identity ?sync ?s"
  have auth: "authInv C ?s" and api: "apiInv (clApi c)" and aw: "awaits ?s (slotOf (clApi c))"
    using inv by (simp_all add: clientInv_def)
  have auth': "authInv C (fst ?r)" using authInv_step [OF utf8 auth, of "CollectionFinished success identity ?sync"] by simp
  have closed: "\<not> amProfileLoading ?s \<Longrightarrow> slotOf (clApi c) \<noteq> Some (ProfileReply, g)" for g
    using aw by (auto simp: awaits_def)
  have step: "clientStep C E W (Collected success identity) c = (let p = callApi E W (filter apiCall (snd ?r)) (clApi c) in
      (\<lparr>clAuth = fst ?r, clApi = fst p\<rparr>, map AuthEffect (snd ?r) @ map ApiEffect (snd p)))"
    by (simp add: split_beta Let_def callApi_filter [symmetric])
  let ?call = "apiLogin E (cwRequestId W) (loginRequest identity ?s) (amAttempt ?s) (clApi c)"
  have call: "callApi E W [ApiLogin (loginRequest identity ?s) (amAttempt ?s)] (clApi c) = ?call"
    by (simp add: split_beta)
  have api': "apiInv (fst ?call)" by (rule askOutcome_inv [OF api apiLogin_outcome [OF api]])
  have "clientInv C (fst (clientStep C E W (Collected success identity) c))"
  proof (cases rule: completeCollection_cases [OF auth, of success identity ?sync])
    case 1
    then show ?thesis unfolding step using inv by (simp add: clientInv_def)
  next
    case 2
    then show ?thesis unfolding step using auth' api closed
      by (simp add: clientInv_def awaits_idle)
  next
    case 3
    then show ?thesis
    proof (cases rule: syncError_call [OF api loginRequest_def [of identity ?s], of E W])
      case open_call: 1
      have "awaits (fst ?r) (slotOf (fst ?call))"
        using 3 open_call(2) by (simp add: awaits_def wants_def startedLogin_def)
      then show ?thesis unfolding step 3(5) call using auth' api' by (simp add: clientInv_def Let_def)
    next
      case (2 e)
      with 3 show ?thesis by simp
    qed
  next
    case (4 e)
    then show ?thesis
    proof (cases rule: syncError_call [OF api loginRequest_def [of identity ?s], of E W])
      case 1
      with 4 show ?thesis by simp
    next
      case refused: (2 e)
      have "awaits (fst ?r) (slotOf (clApi c))" using 4 closed by (intro awaits_idle) simp_all
      then show ?thesis unfolding step 4(5) call refused(2) using auth' api by (simp add: clientInv_def Let_def)
    qed
  qed
  moreover have "Deeper \<notin> set (snd (clientStep C E W (Collected success identity) c))"
    unfolding step by (auto simp: Let_def)
  ultimately show ?thesis by (simp add: settled_def)
qed

lemma clientStep_settled:
  assumes "qtToUtf8 (aeQt C) [] = []" and "clientInv C c"
  shows "settled C (clientStep C E W ev c)"
proof (cases ev)
  case (Network ev')
  then show ?thesis using network_settled [OF assms] by (simp only:)
next
  case (Collected success identity)
  then show ?thesis using collected_settled [OF assms] by (simp only:)
qed (simp, rule direct_settled [OF assms], blast)+

lemma clientReachable_inv:
  "clientReachable C E c \<Longrightarrow> qtToUtf8 (aeQt C) [] = [] \<Longrightarrow> clientInv C c"
proof (induction rule: clientReachable.induct)
  case (start baseUrl timeoutMs)
  have "slotOf (newApiClient E baseUrl timeoutMs) = None"
    by (rule slotOf_inactive [OF apiInv_new]) (simp add: newApiClient_def)
  moreover have "awaits initialAuth None" by (rule awaits_idle) (simp_all add: initialAuth_def)
  ultimately show ?case by (simp add: clientInv_def authInv_initial apiInv_new)
next
  case (step c W ev)
  then show ?case using clientStep_settled [of C c E W ev] by (simp add: settled_def)
qed

end
