(* ===== verification/ClientSafety.thy ===== *)
theory ClientSafety
  imports Client
begin

text \<open>
  What the composed client of \<open>Client\<close> guarantees: a session token leaves it only when verified,
  unexpired and over the permitted transport (\<open>token_leaves_verified\<close>), a sign-in never hangs
  (\<open>busy_is_under_way\<close>), the chain of handlers of an event ends (\<open>signals_settle\<close>), and what happens
  to a sign-in after a request that was left behind (\<open>abandoned_request_blocks\<close>).
\<close>

section \<open>Requests with the session token\<close>

definition sameConfig :: "'u ApiClient \<Rightarrow> 'u ApiClient \<Rightarrow> bool" where
  "sameConfig p p' \<longleftrightarrow> acBaseUrl p' = acBaseUrl p \<and> acTlsPinPolicy p' = acTlsPinPolicy p"

lemma sameConfig_refl [simp]: "sameConfig p p"
  by (simp add: sameConfig_def)

lemma sameConfig_trans: "sameConfig p p' \<Longrightarrow> sameConfig p' p'' \<Longrightarrow> sameConfig p p''"
  by (simp add: sameConfig_def)

lemma sameConfig_transport: "sameConfig p p' \<Longrightarrow> isAllowedTransport E p' \<longleftrightarrow> isAllowedTransport E p"
  by (simp add: sameConfig_def isAllowedTransport_def)

lemma postJson_config: "sameConfig p (fst (postJson E requestId path body d g p))"
  by (simp add: postJson_def sendReply_def sameConfig_def Let_def)

lemma apiStep_config: "sameConfig p (fst (apiStep E ev p))"
proof (cases ev)
  case (CallLoadProfile builder t1 t2 t3 requestId session g)
  then show ?thesis
    by (simp add: loadProfile_def sendReply_def sameConfig_def Let_def split: sum.split)
next
  case (CallVerifyDevice requestId request g)
  then show ?thesis by (simp add: verifyDevice_def postJson_config Let_def)
next
  case (CallLogin requestId request g)
  then show ?thesis by (simp add: apiLogin_def postJson_config)
qed (simp_all add: cancelProfile_def onSslErrors_def onEncrypted_def onRedirected_def onTimeout_def onFinished_def
      setReply_def dropReply_def sameConfig_def Let_def split: option.split)

lemma callApi_config: "sameConfig p (fst (callApi E W es p))"
proof (induction es arbitrary: p)
  case (Cons e es)
  show ?case
    by (simp add: split_beta Cons.IH sameConfig_trans [OF apiStep_config Cons.IH] split: option.split)
qed simp

lemma settle_config: "sameConfig (clApi c) (clApi (fst (settle C E W d fs c)))"
proof (induction C E W d fs c rule: settle.induct)
  case (2 C E W d f fs c)
  show ?case
  proof (cases "signalOf W f")
    case None
    with 2 show ?thesis by (simp add: split_beta)
  next
    case (Some ev)
    show ?thesis
    proof (cases d)
      case (Suc d')
      let ?r = "authStep C ev (clAuth c)" and ?p = "callApi E W (snd (authStep C ev (clAuth c))) (clApi c)"
      let ?c1 = "\<lparr>clAuth = fst ?r, clApi = fst ?p\<rparr>"
      let ?c2 = "fst (settle C E W d' (snd ?p) ?c1)"
      have "sameConfig (clApi ?c1) (clApi ?c2)"
        using 2(2) [OF Some Suc, of ?r "fst ?r" "snd ?r" ?p "fst ?p" "snd ?p"] by simp
      moreover have "sameConfig (clApi ?c2) (clApi (fst (settle C E W (Suc d') fs ?c2)))"
        using 2(3) [OF Some Suc, of ?r "fst ?r" "snd ?r" ?p "fst ?p" "snd ?p" "settle C E W d' (snd ?p) ?c1"
          ?c2 "snd (settle C E W d' (snd ?p) ?c1)"] by simp
      moreover have "sameConfig (clApi c) (clApi ?c1)" using callApi_config by simp
      ultimately show ?thesis using Some Suc by (simp add: split_beta) (blast intro: sameConfig_trans)
    qed (simp add: Some)
  qed
qed simp

text \<open>A profile request with a verified and unexpired token, over the pinned transport.\<close>

definition soundRequest ::
    "'j auth_env \<Rightarrow> ('u, 'x, 'p, 'k) api_env \<Rightarrow> 'u client_world \<Rightarrow> 'u ApiClient \<Rightarrow> 'u net_request \<Rightarrow> bool" where
  "soundRequest C E W p request \<longleftrightarrow> isAllowedTransport E p \<and> (\<exists>token expires proof.
     verifiedToken C token (Some expires) \<and> cwT1 W < 1000 * expires \<and> cwT2 W < 1000 * expires \<and> cwT3 W < 1000 * expires
     \<and> request = profileRequest E (urlResolved (apUrl E) (acBaseUrl p) (lit ''/v1/me'')) token proof (cwRequestId W))"

lemma soundRequest_config: "sameConfig p p' \<Longrightarrow> soundRequest C E W p' request \<longleftrightarrow> soundRequest C E W p request"
  by (simp add: soundRequest_def sameConfig_transport) (simp add: sameConfig_def)

lemma loadProfile_sound:
  assumes "SendGet n request \<in> set (snd (loadProfile E (cwBuilder W) (cwT1 W) (cwT2 W) (cwT3 W) (cwRequestId W) session g p))"
    and "verifiedToken C (psAccessToken session) (psExpiresAt session)"
  shows "soundRequest C E W p request"
proof -
  from assms(1) obtain e jws where "isAllowedTransport E p" "psExpiresAt session = Some e"
      "cwT1 W < 1000 * e" "cwT2 W < 1000 * e" "cwT3 W < 1000 * e"
      "request = profileRequest E (urlResolved (apUrl E) (acBaseUrl p) (lit ''/v1/me''))
        (psAccessToken session) jws (cwRequestId W)"
    unfolding loadProfile_send_iff liveSession_def Let_def by blast
  with assms(2) show ?thesis unfolding soundRequest_def by metis
qed

lemma no_get:
  "SendGet n request \<notin> set (snd (apiLogin E requestId lr g s))"
  "SendGet n request \<notin> set (snd (verifyDevice E requestId dr g s))"
  "SendGet n request \<notin> set (snd (cancelProfile s))"
  "networkEvent ev \<Longrightarrow> SendGet n request \<notin> set (snd (apiStep E ev s))"
proof -
  show "SendGet n request \<notin> set (snd (apiLogin E requestId lr g s))"
    "SendGet n request \<notin> set (snd (verifyDevice E requestId dr g s))"
    by (auto simp: apiLogin_def verifyDevice_def postJson_def Let_def)
  show "SendGet n request \<notin> set (snd (cancelProfile s))"
    by (simp add: cancelProfile_def Let_def split: option.split)
  have "SendGet n request \<notin> set (snd (onFinished E m reply s))" for m reply
    by (auto simp: onFinished_def profileAnswer_def postAnswer_def Let_def split: option.split)
  then show "networkEvent ev \<Longrightarrow> SendGet n request \<notin> set (snd (apiStep E ev s))"
    by (cases ev) (simp_all add: onSslErrors_def onEncrypted_def onRedirected_def onTimeout_def)
qed

lemma load_verified:
  assumes "ApiLoadProfile session g \<in> set (snd (authStep C ev s))"
  shows "verifiedToken C (psAccessToken session) (psExpiresAt session)"
proof (cases ev)
  case (DeviceVerified nowSec nowMs laterMs response h)
  let ?v = "verify (aeQt C) (aeJson C) (aeEvp C) (aeCast C) (aeVerifier C) nowSec
    (dvrToken response) (dvrDeviceId response) (dvrLicenseId response)"
  from assms DeviceVerified have v: "vsValid ?v" and session: "psAccessToken session = dvrToken response"
      "psExpiresAt session = vsExpiresAt ?v"
    by (simp_all add: handleDeviceVerified_def auth_block_defs effect_simps split: if_splits)
  from v obtain e where "vsExpiresAt ?v = Some e" by (rule verify_valid_parts)
  with v session show ?thesis unfolding verifiedToken_def by force
next
  case (CollectionFinished success identity sync)
  with assms show ?thesis
    by (auto simp: completeCollection_def handleLoginFailed_def auth_block_defs effect_simps split_beta
        split: option.splits if_splits)
qed (use assms in \<open>auto simp: login_def signOut_def handleLoginSucceeded_def handleLoginFailed_def
      completeSigning_def handleDeviceVerificationFailed_def handleProfileLoaded_def handleProfileFailed_def
      timerFired_def auth_block_defs effect_simps split_beta split: option.splits if_splits\<close>)

lemma callApi_sound:
  fixes E :: "('u, 'x, 'p, 'k) api_env"
  assumes "SendGet n request \<in> set (snd (callApi E W es p))"
    and "\<And>session g. ApiLoadProfile session g \<in> set es \<Longrightarrow> verifiedToken C (psAccessToken session) (psExpiresAt session)"
  shows "soundRequest C E W p request"
  using assms
proof (induction es arbitrary: p)
  case (Cons e es)
  have rest: "soundRequest C E W p request"
    if "SendGet n request \<in> set (snd (callApi E W es p'))" "sameConfig p p'" for p'
  proof -
    have "soundRequest C E W p' request"
      by (rule Cons.IH [OF that(1)], rule Cons.prems(2)) auto
    then show ?thesis by (simp add: soundRequest_config [OF that(2)])
  qed
  show ?case
  proof (cases "callOf W e :: ('u, 'x) api_event option")
    case None
    with Cons.prems(1) rest [of p] show ?thesis by simp
  next
    case (Some call)
    with Cons.prems(1) consider "SendGet n request \<in> set (snd (apiStep E call p))"
      | "SendGet n request \<in> set (snd (callApi E W es (fst (apiStep E call p))))"
      by (auto simp: split_beta)
    then show ?thesis
    proof cases
      case 1
      show ?thesis
      proof (cases e)
        case (ApiLoadProfile session g)
        have "verifiedToken C (psAccessToken session) (psExpiresAt session)"
          by (rule Cons.prems(2) [of _ g]) (simp add: ApiLoadProfile)
        with 1 Some show ?thesis by (simp add: ApiLoadProfile) (metis apiStep.simps(3) loadProfile_sound)
      qed (use 1 Some in \<open>auto simp: no_get\<close>)
    next
      case 2
      then show ?thesis using apiStep_config by (rule rest)
    qed
  qed
qed simp

lemma handler_sound:
  "SendGet n request \<in> set (snd (callApi E W (snd (authStep C ev s)) p)) \<Longrightarrow> soundRequest C E W p request"
  by (erule callApi_sound) (rule load_verified)

lemma settle_sound:
  "ApiEffect (SendGet n request) \<in> set (snd (settle C E W d fs c)) \<Longrightarrow>
    SendGet n request \<in> set fs \<or> soundRequest C E W (clApi c) request"
proof (induction C E W d fs c rule: settle.induct)
  case (2 C E W d f fs c)
  show ?case
  proof (cases "signalOf W f")
    case None
    with 2 show ?thesis by (auto simp: split_beta)
  next
    case (Some ev)
    then have f: "f \<noteq> SendGet n request" by auto
    show ?thesis
    proof (cases d)
      case 0
      with Some f 2 show ?thesis by auto
    next
      case (Suc d')
      let ?r = "authStep C ev (clAuth c)" and ?p = "callApi E W (snd (authStep C ev (clAuth c))) (clApi c)"
      let ?c1 = "\<lparr>clAuth = fst ?r, clApi = fst ?p\<rparr>"
      let ?s1 = "settle C E W d' (snd ?p) ?c1"
      have c1: "sameConfig (clApi c) (clApi ?c1)" using callApi_config by simp
      have c2: "sameConfig (clApi c) (clApi (fst ?s1))" by (rule sameConfig_trans [OF c1 settle_config])
      from Some Suc f 2(4) consider "ApiEffect (SendGet n request) \<in> set (snd ?s1)"
        | "ApiEffect (SendGet n request) \<in> set (snd (settle C E W (Suc d') fs (fst ?s1)))"
        by (auto simp: split_beta)
      then show ?thesis
      proof cases
        case 1
        then have "SendGet n request \<in> set (snd ?p) \<or> soundRequest C E W (clApi ?c1) request"
          using 2(2) [OF Some Suc, of ?r "fst ?r" "snd ?r" ?p "fst ?p" "snd ?p"] by simp
        then show ?thesis
          by (auto simp: soundRequest_config [OF c1, simplified] dest: handler_sound)
      next
        case 2: 2
        then have "SendGet n request \<in> set fs \<or> soundRequest C E W (clApi (fst ?s1)) request"
          using "2.IH"(3) [OF Some Suc, of ?r "fst ?r" "snd ?r" ?p "fst ?p" "snd ?p" ?s1 "fst ?s1" "snd ?s1"] by simp
        then show ?thesis by (simp add: soundRequest_config [OF c2])
      qed
    qed
  qed
qed simp

lemma react_sound:
  assumes "ApiEffect (SendGet n request) \<in> set (snd (react C E W d ev c))"
  shows "soundRequest C E W (clApi c) request"
proof -
  let ?r = "authStep C ev (clAuth c)" and ?p = "callApi E W (snd (authStep C ev (clAuth c))) (clApi c)"
  have c1: "sameConfig (clApi c) (fst ?p)" by (rule callApi_config)
  from assms have "ApiEffect (SendGet n request) \<in> set (snd (settle C E W d (snd ?p) \<lparr>clAuth = fst ?r, clApi = fst ?p\<rparr>))"
    by (auto simp: react_def split_beta Let_def)
  then have "SendGet n request \<in> set (snd ?p) \<or> soundRequest C E W (fst ?p) request"
    using settle_sound by fastforce
  then show ?thesis
    by (auto simp: soundRequest_config [OF c1, simplified] dest: handler_sound)
qed

lemma clientStep_sound:
  assumes "ApiEffect (SendGet n request) \<in> set (snd (clientStep C E W ev c))"
  shows "soundRequest C E W (clApi c) request"
proof (cases ev)
  case (Network ev')
  with assms have net: "networkEvent ev'" and
      sent: "ApiEffect (SendGet n request) \<in> set (snd (settle C E W 2 (snd (apiStep E ev' (clApi c)))
        (c\<lparr>clApi := fst (apiStep E ev' (clApi c))\<rparr>)))"
    by (auto simp: split_beta split: if_splits)
  from settle_sound [OF sent] show ?thesis
    by (simp add: no_get(4) [OF net] soundRequest_config [OF apiStep_config])
next
  case (Collected success identity)
  let ?r = "authStep C (CollectionFinished success identity (syncError E W identity c)) (clAuth c)"
  from assms Collected have "SendGet n request \<in> set (snd (callApi E W (snd ?r) (clApi c)))"
    by (auto simp: split_beta Let_def)
  then show ?thesis by (rule handler_sound)
qed (use assms react_sound in fastforce)+

section \<open>A request that outlives its sign-in\<close>

lemma signIn_step:
  assumes "amState (clAuth c) \<in> {LoggedOut, Failed}"
  shows "fst (clientStep C E W (SignIn email password) c) = c\<lparr>clAuth := fst (login email password (clAuth c))\<rparr>"
proof -
  have "filter apiCall (snd (login email password (clAuth c))) = []"
    using assms by (auto simp: login_def auth_block_defs)
  then show ?thesis by (simp add: react_eq)
qed

lemma signOut_step:
  "fst (clientStep C E W SignOutClicked c) =
     \<lparr>clAuth = fst (signOut (clAuth c)), clApi = fst (cancelProfile (clApi c))\<rparr>"
proof -
  have "filter apiCall (snd (signOut (clAuth c))) = [ApiCancelProfile]"
    by (simp add: signOut_def auth_block_defs)
  then show ?thesis by (simp add: react_eq split_beta settle_silent cancel_silent Let_def)
qed

lemma cancel_other:
  assumes "apiInv p" and "slotOf p = Some (k, g)" and "k \<noteq> ProfileReply"
  shows "cancelProfile p = (p, [])"
proof (cases "acProfileReply p")
  case (Some n)
  then obtain r where "current p n r" "rpKind r = ProfileReply" using apiInv_profile [OF assms(1)] by blast
  with slotOf_current [OF assms(1)] assms(2,3) have False by fastforce
  then show ?thesis ..
qed (simp add: cancelProfile_state)

definition inProgress :: "qstring \<Rightarrow> ApiError" where
  "inProgress requestId = apiError (lit ''REQUEST_IN_PROGRESS'') (lit ''A request is already in progress.'') requestId"

lemma login_in_progress:
  assumes "isAllowedTransport E p" and "acRequestActive p"
  shows "apiLogin E requestId request g p = (p, [LoginFailedSignal (inProgress requestId) g])"
  using assms by (simp add: apiLogin_def postJson_def inProgress_def)

lemma refused_collection:
  assumes "amState s = CollectingDevice" and "amCollection s = Some (amAttempt s)" and "\<not> amProfileLoading s"
    and "verifierConfigured (aeQt C) (aeVerifier C)"
  shows "amState (fst (completeCollection C True identity (Some e) s)) = Failed
    \<and> (\<exists>e'. FailedSignal e' \<in> set (snd (completeCollection C True identity (Some e) s)))"
  using assms by (simp add: completeCollection_def auth_block_defs handleLoginFailed_def split_beta fail_state fail_effects)

lemma abandoned_request_refuses:
  assumes reach: "clientReachable C E c" and utf8: "qtToUtf8 (aeQt C) [] = []"
    and slot: "slotOf (clApi c) = Some (k, g)" "k \<noteq> ProfileReply"
    and transport: "isAllowedTransport E (clApi c)" and configured: "verifierConfigured (aeQt C) (aeVerifier C)"
    and c2: "c2 = fst (clientStep C E W2 (SignIn email password) (fst (clientStep C E W1 SignOutClicked c)))"
  shows "syncError E W3 identity c2 = Some (inProgress (cwRequestId W3))
    \<and> amState (clAuth (fst (clientStep C E W3 (Collected True identity) c2))) = Failed
    \<and> (\<exists>e. AuthEffect (FailedSignal e) \<in> set (snd (clientStep C E W3 (Collected True identity) c2)))"
proof -
  have api: "apiInv (clApi c)" using clientReachable_inv [OF reach utf8] by (simp add: clientInv_def)
  have active: "acRequestActive (clApi c)" using slotOf_inactive [OF api] slot(1) by auto
  let ?c1 = "fst (clientStep C E W1 SignOutClicked c)"
  have c1: "clApi ?c1 = clApi c" "amState (clAuth ?c1) = LoggedOut"
    by (simp_all add: signOut_step cancel_other [OF api slot] signOut_state del: clientStep.simps)
  have c2': "clApi c2 = clApi c" "amState (clAuth c2) = CollectingDevice"
      "amCollection (clAuth c2) = Some (amAttempt (clAuth c2))" "\<not> amProfileLoading (clAuth c2)"
    unfolding c2 using c1 by (simp_all add: signIn_step login_state del: clientStep.simps)
  have sync: "syncError E W3 identity c2 = Some (inProgress (cwRequestId W3))"
    by (simp add: syncError_def c2'(1) login_in_progress [OF transport active])
  from refused_collection [OF c2'(2-4) configured, of identity "inProgress (cwRequestId W3)"] sync show ?thesis
    by (auto simp: split_beta Let_def)
qed

section \<open>A concrete run\<close>

definition sampleClientWorld :: "url_parts client_world" where
  "sampleClientWorld = \<lparr>cwRequestId = lit ''r'', cwBuilder = Some sampleBuilder, cwT1 = 1100002, cwT2 = 1100003,
     cwT3 = 1100004, cwNowSec = 1100, cwNowMs = 1100000, cwLaterMs = 1100001\<rparr>"

definition sampleStart :: "url_parts client" where
  "sampleStart = \<lparr>clAuth = initialAuth, clApi = sampleClient\<rparr>"

text \<open>Signed in, collected and waiting for the answer to the login.\<close>

definition sampleCollecting :: "url_parts client" where
  "sampleCollecting = fst (clientStep sampleEnv sampleApi sampleClientWorld (SignIn (lit ''a@b'') (lit ''pw'')) sampleStart)"

definition sampleWaiting :: "url_parts client" where
  "sampleWaiting = fst (clientStep sampleEnv sampleApi sampleClientWorld (Collected True emptyIdentity) sampleCollecting)"

lemma sampleWaiting_reachable: "clientReachable sampleEnv sampleApi sampleWaiting"
  unfolding sampleWaiting_def sampleCollecting_def sampleStart_def sampleClient_def
  by (intro clientReachable.step clientReachable.start)

lemma sampleCollecting_eq:
  "sampleCollecting = \<lparr>clAuth = fst (login (lit ''a@b'') (lit ''pw'') initialAuth), clApi = sampleClient\<rparr>"
  unfolding sampleCollecting_def by (subst signIn_step) (simp_all add: sampleStart_def initialAuth_def)

lemma sampleLogin_open:
  "snd (apiLogin sampleApi requestId request g sampleClient) \<noteq> [LoginFailedSignal e g']"
  using sampleClient_transport by (simp add: apiLogin_def postJson_def Let_def)

lemma sampleWaiting_state:
  "slotOf (clApi sampleWaiting) = Some (LoginReply, 1)" "amState (clAuth sampleWaiting) = Authenticating"
  "sameConfig sampleClient (clApi sampleWaiting)"
proof -
  have api: "apiInv sampleClient" by (rule apiReachable_inv [OF sampleClient_reachable])
  let ?s = "fst (login (lit ''a@b'') (lit ''pw'') initialAuth)"
  have s: "amState ?s = CollectingDevice" "amCollection ?s = Some 1" "amAttempt ?s = 1"
    by (simp_all add: login_state initialAuth_def clearSession_def)
  have sync: "syncError sampleApi sampleClientWorld emptyIdentity sampleCollecting = None"
    using sampleLogin_open syncError_call [of sampleCollecting, OF _ refl, of sampleApi sampleClientWorld emptyIdentity] api
    by (simp add: sampleCollecting_eq s) (metis snd_conv)
  have fin: "fst (completeCollection sampleEnv True emptyIdentity None ?s) = startedLogin emptyIdentity ?s"
      "filter apiCall (snd (completeCollection sampleEnv True emptyIdentity None ?s)) = [ApiLogin (loginRequest emptyIdentity ?s) 1]"
    using s sampleVerifier_configured
    by (simp_all add: completeCollection_def auth_block_defs startedLogin_def loginRequest_def)
  let ?call = "apiLogin sampleApi (cwRequestId sampleClientWorld) (loginRequest emptyIdentity ?s) 1 sampleClient"
  have w: "sampleWaiting = \<lparr>clAuth = startedLogin emptyIdentity ?s, clApi = fst ?call\<rparr>"
    unfolding sampleWaiting_def using fin(1) sync
    by (simp add: sampleCollecting_eq split_beta Let_def callApi_filter [of _ _ "snd _"] fin(2))
  show "amState (clAuth sampleWaiting) = Authenticating" by (simp add: w startedLogin_def)
  show "sameConfig sampleClient (clApi sampleWaiting)"
    using apiStep_config [of sampleClient sampleApi "CallLogin (cwRequestId sampleClientWorld) (loginRequest emptyIdentity ?s) 1"]
    by (simp add: w)
  show "slotOf (clApi sampleWaiting) = Some (LoginReply, 1)"
    using login_call [OF api, of sampleApi "cwRequestId sampleClientWorld" "loginRequest emptyIdentity ?s" 1]
      sampleLogin_open [of "cwRequestId sampleClientWorld" "loginRequest emptyIdentity ?s" 1 _ 1]
    by (simp add: w) (metis snd_conv)
qed

section \<open>Properties\<close>

text \<open>
  C3. A sign-in never hangs: in every state the two can reach, while the manager is busy the thing
  it waits for is under way, which is the collection of this attempt, the signing of this attempt,
  or exactly the open request of this attempt; and a profile request is open only while the
  manager waits for that profile.
\<close>

theorem busy_is_under_way:
  assumes "clientReachable C E c" and "qtToUtf8 (aeQt C) [] = []"
  shows "awaits (clAuth c) (slotOf (clApi c))
    \<and> amState (clAuth c) \<noteq> WaitingForDeviceChallenge
    \<and> (amState (clAuth c) = CollectingDevice \<longrightarrow> amCollection (clAuth c) = Some (amAttempt (clAuth c)))"
  using clientReachable_inv [OF assms] by (simp add: clientInv_def authInv_def)

text \<open>
  C20. The chain of handlers that one event sets off ends: a call made by a handler may signal at
  once, but the handler of that signal makes no call that signals again.
\<close>

theorem signals_settle:
  assumes "clientReachable C E c" and "qtToUtf8 (aeQt C) [] = []"
  shows "Deeper \<notin> set (snd (clientStep C E W ev c))"
  using clientStep_settled [OF assms(2) clientReachable_inv [OF assms], of E W ev]
  unfolding settled_def by (rule conjunct2)

text \<open>
  C7. A request that carries a session token leaves the client only over the permitted transport, to
  the profile URL, with a token the verifier accepted and before the expiry it was accepted with.
\<close>

theorem token_leaves_verified:
  assumes "ApiEffect (SendGet n request) \<in> set (snd (clientStep C E W ev c))"
  shows "isAllowedTransport E (clApi c) \<and> (\<exists>token expires proof.
     verifiedToken C token (Some expires) \<and> cwT1 W < 1000 * expires \<and> cwT2 W < 1000 * expires \<and> cwT3 W < 1000 * expires
     \<and> request = profileRequest E (urlResolved (apUrl E) (acBaseUrl (clApi c)) (lit ''/v1/me'')) token proof
         (cwRequestId W))"
  using clientStep_sound [OF assms] by (simp add: soundRequest_def)

text \<open>
  C37. Signing out does not abort a login or device request. Whoever signs in again while such a
  request is still open collects the device identity and is then refused, with the error that a
  request is in progress, although the new sign-in made none.
\<close>

theorem abandoned_request_blocks:
  assumes "clientReachable C E c" and "qtToUtf8 (aeQt C) [] = []"
    and "slotOf (clApi c) = Some (k, g)" and "k \<noteq> ProfileReply"
    and "isAllowedTransport E (clApi c)" and "verifierConfigured (aeQt C) (aeVerifier C)"
    and "c2 = fst (clientStep C E W2 (SignIn email password) (fst (clientStep C E W1 SignOutClicked c)))"
  shows "syncError E W3 identity c2 = Some (inProgress (cwRequestId W3))
    \<and> amState (clAuth (fst (clientStep C E W3 (Collected True identity) c2))) = Failed
    \<and> (\<exists>e. AuthEffect (FailedSignal e) \<in> set (snd (clientStep C E W3 (Collected True identity) c2)))"
  using abandoned_request_refuses [OF assms] .

theorem busy_is_under_way_witness:
  "awaits (clAuth sampleWaiting) (slotOf (clApi sampleWaiting)) \<and> amState (clAuth sampleWaiting) = Authenticating"
  using busy_is_under_way [OF sampleWaiting_reachable] sampleWaiting_state(2) by simp

theorem signals_settle_witness:
  "Deeper \<notin> set (snd (clientStep sampleEnv sampleApi sampleClientWorld (Network (Finished 0 failedReply)) sampleWaiting))"
  by (rule signals_settle [OF sampleWaiting_reachable]) simp

theorem abandoned_request_blocks_witness:
  "\<exists>e. AuthEffect (FailedSignal e) \<in> set (snd (clientStep sampleEnv sampleApi sampleClientWorld (Collected True emptyIdentity)
     (fst (clientStep sampleEnv sampleApi sampleClientWorld (SignIn (lit ''a@b'') (lit ''pw''))
       (fst (clientStep sampleEnv sampleApi sampleClientWorld SignOutClicked sampleWaiting))))))"
  using abandoned_request_blocks [OF sampleWaiting_reachable _ sampleWaiting_state(1) _ _ _ refl,
      of sampleClientWorld emptyIdentity sampleClientWorld "lit ''a@b''" "lit ''pw''" sampleClientWorld]
    sampleWaiting_state(3) sampleClient_transport sampleVerifier_configured
  by (simp add: sameConfig_transport del: clientStep.simps)

text \<open>A client that waits for the device answer, and an answer with the sample token.\<close>

definition sampleDeviceReply :: pending_reply where
  "sampleDeviceReply = \<lparr>rpKind = DeviceReply, rpRequestId = lit ''r'', rpToken = [], rpCompactProof = [],
     rpGeneration = 1, rpTransportError = [], rpTimeout = False, rpCancelled = False\<rparr>"

definition sampleAnswerApi :: "(url_parts, bytes, bytes, bytes) api_env" where
  "sampleAnswerApi = sampleApi\<lparr>apJson := \<lparr>fromJson = (\<lambda>_. Some (JObject [(lit ''ok'', JBool True),
       (lit ''token'', JString sampleToken), (lit ''license_id'', JString (lit ''l'')),
       (lit ''device_id'', JString (lit ''d''))])), toJsonCompact = (\<lambda>v. [])\<rparr>\<rparr>"

definition okReply :: net_reply where
  "okReply = \<lparr>nrIsOpen = True, nrData = [], nrStatus = 200, nrNoError = True, nrRequestIdHeader = []\<rparr>"

definition sampleVerifying :: "url_parts client" where
  "sampleVerifying = \<lparr>clAuth = initialAuth\<lparr>amState := VerifyingDevice, amAttempt := 1\<rparr>,
     clApi = sendReply sampleDeviceReply sampleClient\<rparr>"

definition sampleAnswer :: DeviceVerifyResponse where
  "sampleAnswer = \<lparr>dvrToken = sampleToken, dvrTokenExpiresAt = [], dvrLicenseId = lit ''l'', dvrDeviceId = lit ''d'',
     dvrRequestId = []\<rparr>"

lemma sampleAnswer_signal:
  "apiStep sampleAnswerApi (Finished 0 okReply) (clApi sampleVerifying)
     = (dropReply 0 ((clApi sampleVerifying)\<lparr>acRequestActive := False\<rparr>), [DeviceVerifiedSignal sampleAnswer 1])"
  using sampleToken_nonempty
  by (simp add: onFinished_def sampleVerifying_def sendReply_def postAnswer_def replyRejected_def
      replyBody_def okReply_def MaxResponseBytes_def bodyNotOk_def bodyObject_def objectOf_def sampleAnswerApi_def
      jsonValue_def stringMember_def sampleAnswer_def qtAscii_simps lit_def Let_def)
    (simp add: sampleDeviceReply_def)

definition sampleTokenSession :: ProtectedSession where
  "sampleTokenSession = \<lparr>psAccessToken = sampleToken, psDeviceKeyThumbprint = fromLatin1 sampleJkt, psExpiresAt = Some 1600\<rparr>"

lemma sampleAnswer_calls:
  "filter apiCall (snd (authStep sampleEnv (DeviceVerified 1100 1100000 1100001 sampleAnswer 1) (clAuth sampleVerifying)))
     = [ApiLoadProfile sampleTokenSession 1]"
proof -
  have "verify qtAscii sampleJson sampleEvp 0 sampleVerifier 1100 sampleToken (lit ''d'') (lit ''l'') = sampleSession"
    using sample_verified [of 1100] by simp
  then show ?thesis
    by (simp add: handleDeviceVerified_def auth_block_defs sampleVerifying_def initialAuth_def sampleAnswer_def
        sampleSession_def expiryMs_def sampleTokenSession_def)
qed

definition sampleFreed :: "url_parts ApiClient" where
  "sampleFreed = dropReply 0 ((clApi sampleVerifying)\<lparr>acRequestActive := False\<rparr>)"

lemma sampleFreed_transport: "isAllowedTransport sampleAnswerApi sampleFreed"
  using sampleClient_transport
  by (simp add: isAllowedTransport_def sampleAnswerApi_def sampleFreed_def sampleVerifying_def dropReply_def sendReply_def)

lemma sampleProfile_sent:
  "\<exists>n request. SendGet n request \<in> set (snd (loadProfile sampleAnswerApi (Some sampleBuilder) 1100002 1100003 1100004
      (lit ''r'') sampleTokenSession 1 sampleFreed))"
  unfolding loadProfile_send_iff
  using sampleFreed_transport sampleToken_nonempty sampleJkt_nonempty
  by (simp add: liveSession_def sampleTokenSession_def Let_def)
     (simp add: sampleBuilder_def sampleProof_def sampleFreed_def dropReply_def fromLatin1_def)

lemma sampleVerifying_sends:
  "\<exists>n request. ApiEffect (SendGet n request)
     \<in> set (snd (clientStep sampleEnv sampleAnswerApi sampleClientWorld (Network (Finished 0 okReply)) sampleVerifying))"
proof -
  let ?load = "loadProfile sampleAnswerApi (Some sampleBuilder) 1100002 1100003 1100004 (lit ''r'') sampleTokenSession 1 sampleFreed"
  obtain n request where sent: "SendGet n request \<in> set (snd ?load)" using sampleProfile_sent by blast
  then have silent: "slotSignals (snd ?load) = []"
    using call_shapes(3) [of sampleAnswerApi "Some sampleBuilder" 1100002 1100003 1100004 "lit ''r''" sampleTokenSession 1 sampleFreed]
    by auto
  let ?c = "sampleVerifying\<lparr>clApi := sampleFreed\<rparr>"
  let ?ev = "DeviceVerified 1100 1100000 1100001 sampleAnswer 1"
  have "ApiEffect (SendGet n request) \<in> set (snd (react sampleEnv sampleAnswerApi sampleClientWorld 1 ?ev ?c))"
    using sent silent
    by (simp add: react_eq sampleAnswer_calls [simplified] sampleClientWorld_def split_beta settle_silent Let_def)
  then have "ApiEffect (SendGet n request) \<in> set (snd (settle sampleEnv sampleAnswerApi sampleClientWorld (Suc 1)
      [DeviceVerifiedSignal sampleAnswer 1] ?c))"
    by (subst settle_signal [of _ _ ?ev]) (simp_all add: sampleClientWorld_def)
  moreover have "clientStep sampleEnv sampleAnswerApi sampleClientWorld (Network (Finished 0 okReply)) sampleVerifying
      = settle sampleEnv sampleAnswerApi sampleClientWorld (Suc 1) [DeviceVerifiedSignal sampleAnswer 1] ?c"
    using sampleAnswer_signal by (simp add: numeral_2_eq_2 sampleFreed_def del: settle.simps)
  ultimately show ?thesis by metis
qed

theorem token_leaves_verified_witness:
  "isAllowedTransport sampleAnswerApi (clApi sampleVerifying)
   \<and> (\<exists>token expires. verifiedToken sampleEnv token (Some expires))"
proof -
  obtain n request where sent: "ApiEffect (SendGet n request)
      \<in> set (snd (clientStep sampleEnv sampleAnswerApi sampleClientWorld (Network (Finished 0 okReply)) sampleVerifying))"
    using sampleVerifying_sends by blast
  show ?thesis using token_leaves_verified [OF sent] by blast
qed

end
