(* ===== verification/LoginWindow.thy ===== *)
theory LoginWindow
  imports ClientSafety
begin

text \<open>
  \<open>license-client/src/ui/LoginWindow.cpp\<close> on top of the composed client: what the window shows and
  what the user can do in it. The window's slots are connected to the signals of \<open>AuthManager\<close>;
  \<open>windowSignal\<close> is the slot of one signal, and \<open>appStep\<close> one event of the program: the client's
  step followed by the window's slots. Layout and styling are left out.
\<close>

section \<open>State\<close>

record dashboard =
  dbProfile :: UserProfileResponse
  dbHwid :: qstring

record LoginWindow =
  lwEmail :: qstring
  lwPassword :: qstring
  lwSubtitle :: qstring
  lwEmailEnabled :: bool
  lwPasswordEnabled :: bool
  lwLoginEnabled :: bool
  lwHwidEnabled :: bool
  lwVisible :: bool
  lwDashboard :: "dashboard option"
  lwErrorDialog :: "(qstring \<times> qstring) option"

definition initialWindow :: LoginWindow where
  "initialWindow = \<lparr>lwEmail = [], lwPassword = [], lwSubtitle = lit ''Sign in to continue to your account'',
     lwEmailEnabled = True, lwPasswordEnabled = True, lwLoginEnabled = True, lwHwidEnabled = True,
     lwVisible = True, lwDashboard = None, lwErrorDialog = None\<rparr>"

section \<open>Slots\<close>

definition busyState :: "AuthState \<Rightarrow> bool" where
  "busyState state \<longleftrightarrow> state = CollectingDevice \<or> state = Authenticating \<or> state = WaitingForDeviceChallenge
     \<or> state = VerifyingDevice"

definition applyState :: "AuthState \<Rightarrow> LoginWindow \<Rightarrow> LoginWindow" where
  "applyState state w = (let busy = busyState state in
     w\<lparr>lwEmailEnabled := \<not> busy, lwPasswordEnabled := \<not> busy, lwLoginEnabled := \<not> busy, lwHwidEnabled := \<not> busy\<rparr>)"

definition showReauthentication :: "qstring \<Rightarrow> LoginWindow \<Rightarrow> LoginWindow" where
  "showReauthentication reason w =
     (let w = (if lwDashboard w \<noteq> None then w\<lparr>lwDashboard := None\<rparr> else w);
          w = w\<lparr>lwPassword := []\<rparr>;
          w = w\<lparr>lwSubtitle := reason\<rparr>;
          w = applyState LoggedOut w
      in w\<lparr>lwVisible := True\<rparr>)"

definition showDashboard :: "AuthManager \<Rightarrow> LoginWindow \<Rightarrow> LoginWindow" where
  "showDashboard manager w =
     (let w = (if lwDashboard w = None
            then w\<lparr>lwDashboard := Some \<lparr>dbProfile = amUserProfile manager, dbHwid = deviceDisplayId manager\<rparr>\<rparr> else w)
      in w\<lparr>lwVisible := False\<rparr>)"

definition safeMessage :: "ApiError \<Rightarrow> qstring" where
  "safeMessage e =
     (if errCode e = lit ''INVALID_CREDENTIALS'' then lit ''Email address or password is incorrect.''
      else if errCode e = lit ''LICENSE_EXPIRED'' then lit ''Your license has expired.''
      else if errCode e = lit ''LICENSE_REVOKED'' then lit ''Your license has been revoked.''
      else if errCode e = lit ''DEVICE_LIMIT_REACHED'' then lit ''The device limit has been reached.''
      else if errCode e = lit ''DEVICE_REVOKED'' then lit ''This device has been revoked.''
      else if errCode e = lit ''RATE_LIMITED'' then lit ''Too many attempts. Please wait and try again.''
      else if errCode e = lit ''TPM_UNAVAILABLE'' then lit ''Device security hardware is unavailable.''
      else if errCode e = lit ''NETWORK_ERROR'' then errMessage e
      else if errCode e = lit ''INSECURE_TRANSPORT''
      then lit ''A secure connection is required. The server must be reachable over HTTPS.''
      else if errCode e = lit ''TIMEOUT''
      then lit ''The request timed out. Please check your connection and try again.''
      else lit ''Sign-in could not be completed. Please try again.'')"

text \<open>\<open>QString::toHtmlEscaped\<close>.\<close>

definition htmlEscaped :: "qstring \<Rightarrow> qstring" where
  "htmlEscaped s = concat (map (\<lambda>c. if c = 60 then lit ''&lt;'' else if c = 62 then lit ''&gt;''
     else if c = 38 then lit ''&amp;'' else if c = 34 then lit ''&quot;'' else [c]) s)"

definition showErrorDialog :: "qstring \<Rightarrow> qstring \<Rightarrow> LoginWindow \<Rightarrow> LoginWindow" where
  "showErrorDialog code text w =
     (let w = (if lwErrorDialog w \<noteq> None then w\<lparr>lwErrorDialog := None\<rparr> else w)
      in w\<lparr>lwErrorDialog := Some (lit ''<b>'' @ htmlEscaped text @ lit ''</b>'', lit ''Error code: '' @ htmlEscaped code)\<rparr>)"

definition showFailure :: "ApiError \<Rightarrow> LoginWindow \<Rightarrow> LoginWindow" where
  "showFailure e w = showErrorDialog (errCode e) (safeMessage e) w"

text \<open>The connections of the constructor; \<open>manager\<close> is the manager when the signal is emitted.\<close>

fun windowSignal :: "AuthManager \<Rightarrow> auth_effect \<Rightarrow> LoginWindow \<Rightarrow> LoginWindow" where
  "windowSignal manager (StateChanged state) w = applyState state w"
| "windowSignal manager (FailedSignal e) w = showFailure e w"
| "windowSignal manager AuthenticatedSignal w = showDashboard manager w"
| "windowSignal manager (ReauthenticationRequired reason) w = showReauthentication reason w"
| "windowSignal manager _ w = w"

fun windowRun :: "AuthManager \<Rightarrow> 'u client_effect list \<Rightarrow> LoginWindow \<Rightarrow> LoginWindow" where
  "windowRun manager [] w = w"
| "windowRun manager (AuthEffect e # out) w = windowRun manager out (windowSignal manager e w)"
| "windowRun manager (_ # out) w = windowRun manager out w"

section \<open>The program\<close>

record 'u app =
  apWindow :: LoginWindow
  apClient :: "'u client"

text \<open>
  The user acts on what is visible and enabled. \<open>deleteLater\<close> takes effect before the next event,
  so a dashboard that is left is gone when its event ends.
\<close>

datatype ('u, 'x) app_event =
    EditEmail qstring
  | EditPassword qstring
  | LoginClicked
  | SignOutRequested
  | DashboardClosed
  | ErrorDialogClosed
  | Background "('u, 'x) client_event"

fun backgroundEvent :: "('u, 'x) client_event \<Rightarrow> bool" where
  "backgroundEvent (SignIn email password) = False"
| "backgroundEvent SignOutClicked = False"
| "backgroundEvent _ = True"

definition clientSlots ::
    "'j auth_env \<Rightarrow> ('u, 'x, 'p, 'k) api_env \<Rightarrow> 'u client_world \<Rightarrow> ('u, 'x) client_event \<Rightarrow> 'u app \<Rightarrow> 'u app" where
  "clientSlots C E W ev s =
     (let (c, out) = clientStep C E W ev (apClient s)
      in \<lparr>apWindow = windowRun (clAuth c) out (apWindow s), apClient = c\<rparr>)"

definition startLogin ::
    "'j auth_env \<Rightarrow> ('u, 'x, 'p, 'k) api_env \<Rightarrow> 'u client_world \<Rightarrow> 'u app \<Rightarrow> 'u app" where
  "startLogin C E W s =
     (let s = s\<lparr>apWindow := (apWindow s)\<lparr>lwSubtitle := lit ''Sign in to continue to your account''\<rparr>\<rparr>;
          s = clientSlots C E W (SignIn (lwEmail (apWindow s)) (lwPassword (apWindow s))) s
      in s\<lparr>apWindow := (apWindow s)\<lparr>lwPassword := []\<rparr>\<rparr>)"

definition signOutWindow ::
    "'j auth_env \<Rightarrow> ('u, 'x, 'p, 'k) api_env \<Rightarrow> 'u client_world \<Rightarrow> 'u app \<Rightarrow> 'u app" where
  "signOutWindow C E W s =
     (let s = clientSlots C E W SignOutClicked s
      in s\<lparr>apWindow := (apWindow s)\<lparr>lwEmail := [], lwPassword := [], lwVisible := True, lwDashboard := None\<rparr>\<rparr>)"

fun appStep ::
    "'j auth_env \<Rightarrow> ('u, 'x, 'p, 'k) api_env \<Rightarrow> 'u client_world \<Rightarrow> ('u, 'x) app_event \<Rightarrow> 'u app \<Rightarrow> 'u app" where
  "appStep C E W (EditEmail text) s =
     (if lwVisible (apWindow s) \<and> lwEmailEnabled (apWindow s) then s\<lparr>apWindow := (apWindow s)\<lparr>lwEmail := text\<rparr>\<rparr> else s)"
| "appStep C E W (EditPassword text) s =
     (if lwVisible (apWindow s) \<and> lwPasswordEnabled (apWindow s) then s\<lparr>apWindow := (apWindow s)\<lparr>lwPassword := text\<rparr>\<rparr> else s)"
| "appStep C E W LoginClicked s =
     (if lwVisible (apWindow s) \<and> lwLoginEnabled (apWindow s) then startLogin C E W s else s)"
| "appStep C E W SignOutRequested s = (if lwDashboard (apWindow s) \<noteq> None then signOutWindow C E W s else s)"
| "appStep C E W DashboardClosed s = s\<lparr>apWindow := (apWindow s)\<lparr>lwDashboard := None\<rparr>\<rparr>"
| "appStep C E W ErrorDialogClosed s = s\<lparr>apWindow := (apWindow s)\<lparr>lwErrorDialog := None\<rparr>\<rparr>"
| "appStep C E W (Background ev) s = (if backgroundEvent ev then clientSlots C E W ev s else s)"

inductive appReachable :: "'j auth_env \<Rightarrow> ('u, 'x, 'p, 'k) api_env \<Rightarrow> 'u app \<Rightarrow> bool" for C E where
  start: "appReachable C E \<lparr>apWindow = initialWindow,
    apClient = \<lparr>clAuth = initialAuth, clApi = newApiClient E baseUrl timeoutMs\<rparr>\<rparr>"
| step: "appReachable C E s \<Longrightarrow> appReachable C E (appStep C E W ev s)"

section \<open>The window follows the session\<close>

definition shownTexts :: "qstring list" where
  "shownTexts = map lit [''Email address or password is incorrect.'', ''Your license has expired.'',
     ''Your license has been revoked.'', ''The device limit has been reached.'', ''This device has been revoked.'',
     ''Too many attempts. Please wait and try again.'', ''Device security hardware is unavailable.'',
     ''Authentication failed.'', ''A secure connection is required. The server must be reachable over HTTPS.'',
     ''The request timed out. Please check your connection and try again.'',
     ''Sign-in could not be completed. Please try again.'']"

definition safeDialog :: "qstring \<times> qstring \<Rightarrow> bool" where
  "safeDialog d \<longleftrightarrow> (\<exists>text \<in> set shownTexts. \<exists>code \<in> insert (lit ''AUTHENTICATION_FAILED'') (set allowedCodes).
     d = (lit ''<b>'' @ htmlEscaped text @ lit ''</b>'', lit ''Error code: '' @ htmlEscaped code))"

definition windowInv :: "AuthState \<Rightarrow> LoginWindow \<Rightarrow> bool" where
  "windowInv state w \<longleftrightarrow>
     lwEmailEnabled w = (\<not> busyState state) \<and> lwPasswordEnabled w = (\<not> busyState state)
     \<and> lwLoginEnabled w = (\<not> busyState state) \<and> lwHwidEnabled w = (\<not> busyState state)
     \<and> (lwDashboard w \<noteq> None \<longrightarrow> state = Authenticated) \<and> (state = Authenticated \<longrightarrow> \<not> lwVisible w)
     \<and> (case lwErrorDialog w of None \<Rightarrow> True | Some d \<Rightarrow> safeDialog d)"

lemma busyState_simps [simp]:
  "busyState CollectingDevice" "busyState Authenticating" "busyState WaitingForDeviceChallenge" "busyState VerifyingDevice"
  "\<not> busyState LoggedOut" "\<not> busyState Failed" "\<not> busyState Authenticated"
  by (simp_all add: busyState_def)

lemma windowRun_append [simp]: "windowRun m (xs @ ys) w = windowRun m ys (windowRun m xs w)"
  by (induction m xs w rule: windowRun.induct) simp_all

lemma windowRun_api [simp]: "windowRun m (map ApiEffect fs) w = w"
  by (induction fs) simp_all

lemma safeMessage_shown: "errMessage e = lit ''Authentication failed.'' \<Longrightarrow> safeMessage e \<in> set shownTexts"
  by (simp add: safeMessage_def shownTexts_def)

lemma showFailure_dialog:
  assumes "safeError e"
  obtains d where "showFailure e w = w\<lparr>lwErrorDialog := Some d\<rparr>" "safeDialog d"
proof
  show "showFailure e w = w\<lparr>lwErrorDialog := Some (lit ''<b>'' @ htmlEscaped (safeMessage e) @ lit ''</b>'',
      lit ''Error code: '' @ htmlEscaped (errCode e))\<rparr>"
    by (simp add: showFailure_def showErrorDialog_def)
  show "safeDialog (lit ''<b>'' @ htmlEscaped (safeMessage e) @ lit ''</b>'', lit ''Error code: '' @ htmlEscaped (errCode e))"
    using assms safeMessage_shown [of e] unfolding safeDialog_def safeError_def by auto
qed

lemma windowRun_auth [simp]: "windowRun m (map AuthEffect es) w = fold (windowSignal m) es w"
  by (induction es arbitrary: w) simp_all

lemma windowInv_state:
  "windowInv st w \<Longrightarrow> st \<noteq> Authenticated \<Longrightarrow> st' \<noteq> Authenticated \<Longrightarrow> windowInv st' (applyState st' w)"
  by (simp add: windowInv_def applyState_def Let_def)

lemma fail_window:
  assumes "windowInv st w" and "st \<noteq> Authenticated"
  shows "windowInv Failed (fold (windowSignal m) (snd (fail e s)) w)"
proof -
  obtain d where "showFailure (safeErrorFor s e) (applyState Failed w) = (applyState Failed w)\<lparr>lwErrorDialog := Some d\<rparr>"
      "safeDialog d"
    using showFailure_dialog [OF safeErrorFor_safe] by blast
  moreover have "fold (windowSignal m) (snd (fail e s)) w = showFailure (safeErrorFor s e) (applyState Failed w)"
    by (simp add: fail_effects)
  ultimately show ?thesis using windowInv_state [OF assms, of Failed] by (simp add: windowInv_def)
qed

lemma reauth_window:
  assumes "windowInv st w" and "g = amAttempt s" and "amSessionToken s \<noteq> []"
  shows "windowInv LoggedOut (fold (windowSignal m) (snd (requireReauthentication g s)) w)"
  using assms by (simp add: requireReauthentication_effects showReauthentication_def applyState_def windowInv_def Let_def)

text \<open>What a handler leaves in the window, and the states it can lead to.\<close>

definition windowStep :: "AuthManager \<Rightarrow> AuthManager \<times> auth_effect list \<Rightarrow> bool" where
  "windowStep s r \<longleftrightarrow> (\<forall>m w. windowInv (amState s) w \<longrightarrow> windowInv (amState (fst r)) (fold (windowSignal m) (snd r) w))
     \<and> (amState s \<in> {LoggedOut, Failed} \<longrightarrow> amState (fst r) \<in> {LoggedOut, Failed})"

lemma windowStep_none: "amState (fst r) = amState s \<Longrightarrow> snd r = [] \<Longrightarrow> windowStep s r"
  by (simp add: windowStep_def)

lemma windowStep_fail: "amState t = amState s \<Longrightarrow> amState s \<noteq> Authenticated \<Longrightarrow> windowStep s (fail e t)"
  unfolding windowStep_def using fail_window by (simp add: fail_state)

lemma windowStep_reauth:
  "amState t = amState s \<Longrightarrow> g = amAttempt t \<Longrightarrow> amSessionToken t \<noteq> [] \<Longrightarrow> windowStep s (requireReauthentication g t)"
  unfolding windowStep_def using reauth_window by (simp add: requireReauthentication_state)

lemma windowStep_requireReauthentication: "amState t = amState s \<Longrightarrow> windowStep s (requireReauthentication g t)"
  using windowStep_reauth [of t s g] windowStep_none [of "requireReauthentication g t" s]
  by (cases "g = amAttempt t \<and> amSessionToken t \<noteq> []")
     (auto simp: requireReauthentication_state requireReauthentication_effects)

lemma windowStep_completeCollection: "windowStep s (completeCollection C success identity sync s)"
proof (cases "amCollection s = None \<or> the (amCollection s) \<noteq> amAttempt s \<or> amState s \<noteq> CollectingDevice")
  case True
  then show ?thesis by (intro windowStep_none) (auto simp: completeCollection_def Let_def split: option.splits)
next
  case False
  then obtain attempt where s: "amCollection s = Some attempt" "attempt = amAttempt s" "amState s = CollectingDevice"
    by auto
  show ?thesis
  proof (cases "success \<and> verifierConfigured (aeQt C) (aeVerifier C)")
    case False
    with s show ?thesis by (auto simp: completeCollection_def Let_def intro!: windowStep_fail)
  next
    case True
    have busy: "windowInv CollectingDevice w \<Longrightarrow> windowInv Authenticating (applyState Authenticating w)" for w
      by (erule windowInv_state) simp_all
    show ?thesis
    proof (cases sync)
      case None
      with True s busy show ?thesis by (simp add: windowStep_def completeCollection_def auth_block_defs)
    next
      case (Some e)
      with True s show ?thesis
        using fail_window [OF busy, of _ _ e]
        by (auto simp: windowStep_def completeCollection_def auth_block_defs handleLoginFailed_def split_beta fail_state
            intro: busy)
    qed
  qed
qed

lemma windowStep_handleLoginSucceeded: "windowStep s (handleLoginSucceeded C response g s)"
proof (cases "g \<noteq> amAttempt s \<or> amState s \<noteq> Authenticating \<or> amProfileLoading s")
  case False
  have busy: "windowInv Authenticating w \<Longrightarrow> windowInv WaitingForDeviceChallenge (applyState WaitingForDeviceChallenge w)"
    "windowInv WaitingForDeviceChallenge w \<Longrightarrow> windowInv VerifyingDevice (applyState VerifyingDevice w)" for w
    by (erule windowInv_state; simp)+
  show ?thesis
  proof (cases "strictBase64 (aeQt C) (lrsChallenge response)")
    case None
    with False show ?thesis using fail_window [OF busy(1)]
      by (auto simp: windowStep_def handleLoginSucceeded_def auth_block_defs split_beta fail_state)
  next
    case (Some challenge)
    with False busy show ?thesis by (simp add: windowStep_def handleLoginSucceeded_def auth_block_defs)
  qed
qed (auto simp: handleLoginSucceeded_def intro: windowStep_none)

lemma windowStep_handleDeviceVerified: "windowStep s (handleDeviceVerified C nowSec nowMs laterMs response g s)"
proof -
  have "windowInv VerifyingDevice w \<Longrightarrow> windowInv Authenticating (applyState Authenticating w)" for w
    by (erule windowInv_state) simp_all
  then show ?thesis
    by (simp add: handleDeviceVerified_def auth_block_defs windowStep_none windowStep_fail
        windowStep_requireReauthentication) (simp add: windowStep_def)
qed

lemma windowStep_handleProfileLoaded: "windowStep s (handleProfileLoaded nowMs response g s)"
proof -
  have "windowInv Authenticating w \<Longrightarrow> windowInv Authenticated (showDashboard m (applyState Authenticated w))" for m w
    by (simp add: windowInv_def showDashboard_def applyState_def Let_def)
  then show ?thesis
    by (simp add: handleProfileLoaded_def Let_def windowStep_none windowStep_requireReauthentication) (simp add: windowStep_def)
qed

lemma windowStep_step:
  assumes "ev \<noteq> SignOut" and "\<And>email password. ev \<noteq> Login email password"
  shows "windowStep s (authStep C ev s)"
proof (cases ev)
  case (SigningFinished success signature key)
  then show ?thesis
    using windowStep_fail [of "s\<lparr>amSigning := None\<rparr>" s]
    by (cases "amSigning s") (auto simp: completeSigning_def Let_def windowStep_none, simp add: windowStep_def)
next
  case TimerFired
  then show ?thesis
    using windowStep_requireReauthentication [of "s\<lparr>amTimer := None\<rparr>" s]
    by (cases "amTimer s") (simp_all add: timerFired_def windowStep_none)
qed (use assms in \<open>simp_all add: windowStep_completeCollection windowStep_handleLoginSucceeded
      windowStep_handleDeviceVerified windowStep_handleProfileLoaded handleLoginFailed_def
      handleDeviceVerificationFailed_def handleProfileFailed_def windowStep_none windowStep_fail\<close>)

text \<open>The same for all that one event of the client sets off.\<close>

definition windowFollows :: "AuthManager \<Rightarrow> LoginWindow \<Rightarrow> AuthManager \<Rightarrow> LoginWindow \<Rightarrow> bool" where
  "windowFollows a w a' w' \<longleftrightarrow> (windowInv (amState a) w \<longrightarrow> windowInv (amState a') w')
     \<and> (amState a \<in> {LoggedOut, Failed} \<longrightarrow> amState a' \<in> {LoggedOut, Failed})"

lemma windowFollows_refl [simp]: "windowFollows a w a w"
  by (simp add: windowFollows_def)

lemma windowFollows_trans: "windowFollows a w b v \<Longrightarrow> windowFollows b v c u \<Longrightarrow> windowFollows a w c u"
  unfolding windowFollows_def by blast

lemma windowFollows_step: "windowStep a r \<Longrightarrow> windowFollows a w (fst r) (fold (windowSignal m) (snd r) w)"
  unfolding windowStep_def windowFollows_def by blast

lemma signalOf_background:
  "signalOf W f = Some ev \<Longrightarrow> ev \<noteq> SignOut \<and> (\<forall>email password. ev \<noteq> Login email password)"
  by (cases f) auto

lemma settle_window:
  "windowFollows (clAuth c) w (clAuth (fst (settle C E W d fs c))) (windowRun m (snd (settle C E W d fs c)) w)"
proof (induction C E W d fs c arbitrary: w rule: settle.induct)
  case (2 C E W d f fs c)
  show ?case
  proof (cases "signalOf W f")
    case None
    with 2(1) show ?thesis by (simp add: split_beta)
  next
    case (Some ev)
    show ?thesis
    proof (cases d)
      case (Suc d')
      let ?r = "authStep C ev (clAuth c)" and ?p = "callApi E W (snd (authStep C ev (clAuth c))) (clApi c)"
      let ?c1 = "\<lparr>clAuth = fst ?r, clApi = fst ?p\<rparr>"
      let ?s1 = "settle C E W d' (snd ?p) ?c1"
      let ?s2 = "settle C E W (Suc d') fs (fst ?s1)"
      let ?w1 = "fold (windowSignal m) (snd ?r) w"
      have "windowFollows (clAuth c) w (clAuth ?c1) ?w1"
        using signalOf_background [OF Some] by (simp add: windowFollows_step windowStep_step)
      moreover have "windowFollows (clAuth ?c1) ?w1 (clAuth (fst ?s1)) (windowRun m (snd ?s1) ?w1)"
        using 2(2) [OF Some Suc, of ?r "fst ?r" "snd ?r" ?p "fst ?p" "snd ?p"] by simp
      moreover have "windowFollows (clAuth (fst ?s1)) (windowRun m (snd ?s1) ?w1)
          (clAuth (fst ?s2)) (windowRun m (snd ?s2) (windowRun m (snd ?s1) ?w1))"
        using 2(3) [OF Some Suc, of ?r "fst ?r" "snd ?r" ?p "fst ?p" "snd ?p" ?s1 "fst ?s1" "snd ?s1"] by simp
      ultimately show ?thesis
        using Some Suc by (simp add: split_beta) (blast intro: windowFollows_trans)
    qed (simp add: Some)
  qed
qed simp

lemma react_window:
  assumes "ev \<noteq> SignOut" and "\<And>email password. ev \<noteq> Login email password"
  shows "windowFollows (clAuth c) w (clAuth (fst (react C E W d ev c))) (windowRun m (snd (react C E W d ev c)) w)"
proof -
  let ?r = "authStep C ev (clAuth c)" and ?p = "callApi E W (snd (authStep C ev (clAuth c))) (clApi c)"
  have "windowFollows (clAuth c) w (fst ?r) (fold (windowSignal m) (snd ?r) w)"
    using windowFollows_step [OF windowStep_step [OF assms]] .
  then show ?thesis
    using settle_window [of "\<lparr>clAuth = fst ?r, clApi = fst ?p\<rparr>" "fold (windowSignal m) (snd ?r) w" C E W d "snd ?p" m]
    by (simp add: react_def split_beta Let_def) (blast intro: windowFollows_trans)
qed

lemma background_window:
  assumes "backgroundEvent ev"
  shows "windowFollows (clAuth c) w (clAuth (fst (clientStep C E W ev c))) (windowRun m (snd (clientStep C E W ev c)) w)"
proof (cases ev)
  case (Collected success identity)
  let ?ev = "CollectionFinished success identity (syncError E W identity c)"
  have "windowFollows (clAuth c) w (fst (authStep C ?ev (clAuth c)))
      (fold (windowSignal m) (snd (authStep C ?ev (clAuth c))) w)"
    by (rule windowFollows_step [OF windowStep_step]) simp_all
  then show ?thesis by (simp add: Collected split_beta Let_def)
next
  case (Network ev')
  then show ?thesis
    using settle_window [of "c\<lparr>clApi := fst (apiStep E ev' (clApi c))\<rparr>" w C E W 2 "snd (apiStep E ev' (clApi c))" m]
    by (simp add: split_beta)
qed (use assms in simp_all, (rule react_window; simp)+)

section \<open>The program\<close>

definition appInv :: "'u app \<Rightarrow> bool" where
  "appInv s \<longleftrightarrow> windowInv (amState (clAuth (apClient s))) (apWindow s)
     \<and> (lwPassword (apWindow s) \<noteq> [] \<longrightarrow> amState (clAuth (apClient s)) \<in> {LoggedOut, Failed})"

lemma windowSignal_password: "lwPassword (windowSignal m e w) = [] \<or> lwPassword (windowSignal m e w) = lwPassword w"
  by (cases e) (simp_all add: applyState_def showFailure_def showErrorDialog_def showDashboard_def
    showReauthentication_def Let_def)

lemma windowRun_password: "lwPassword (windowRun m out w) = [] \<or> lwPassword (windowRun m out w) = lwPassword w"
proof (induction m out w rule: windowRun.induct)
  case (2 manager e out w)
  then show ?case using windowSignal_password [of manager e w] by auto
qed simp_all

lemma windowInv_idle:
  "windowInv st w \<Longrightarrow> lwVisible w \<Longrightarrow> lwLoginEnabled w \<or> lwPasswordEnabled w \<Longrightarrow> st \<in> {LoggedOut, Failed}"
  by (cases st) (auto simp: windowInv_def)

lemma windowInv_fields:
  "windowInv st (w\<lparr>lwEmail := a\<rparr>) = windowInv st w" "windowInv st (w\<lparr>lwPassword := a\<rparr>) = windowInv st w"
  "windowInv st (w\<lparr>lwSubtitle := a\<rparr>) = windowInv st w"
  by (simp_all add: windowInv_def)

lemma signIn_effects:
  assumes "amState (clAuth c) \<in> {LoggedOut, Failed}"
  shows "snd (clientStep C E W (SignIn email password) c) = map AuthEffect (snd (login email password (clAuth c)))"
proof -
  have "filter apiCall (snd (login email password (clAuth c))) = []"
    using assms by (auto simp: login_def auth_block_defs)
  then show ?thesis by (simp add: react_eq)
qed

lemma signOut_effects:
  "snd (clientStep C E W SignOutClicked c) = map AuthEffect (snd (signOut (clAuth c)))
     @ map ApiEffect (snd (cancelProfile (clApi c)))"
proof -
  have "filter apiCall (snd (signOut (clAuth c))) = [ApiCancelProfile]"
    by (simp add: signOut_def auth_block_defs)
  then show ?thesis by (simp add: react_eq split_beta settle_silent cancel_silent Let_def)
qed

lemma startLogin_state:
  assumes "amState (clAuth (apClient s)) \<in> {LoggedOut, Failed}"
  shows "apClient (startLogin C E W s) = (apClient s)\<lparr>clAuth := fst (login (lwEmail (apWindow s)) (lwPassword (apWindow s))
      (clAuth (apClient s)))\<rparr>"
    and "apWindow (startLogin C E W s) = applyState CollectingDevice ((apWindow s)\<lparr>
      lwSubtitle := lit ''Sign in to continue to your account'', lwPassword := []\<rparr>)"
  using assms signIn_step [of "apClient s" C E W "lwEmail (apWindow s)" "lwPassword (apWindow s)"]
    signIn_effects [of "apClient s" C E W "lwEmail (apWindow s)" "lwPassword (apWindow s)"]
  by (auto simp: startLogin_def clientSlots_def split_beta Let_def login_def auth_block_defs applyState_def
      simp del: clientStep.simps)

lemma signOutWindow_state:
  "apClient (signOutWindow C E W s) = \<lparr>clAuth = fst (signOut (clAuth (apClient s))), clApi = fst (cancelProfile (clApi (apClient s)))\<rparr>"
  "apWindow (signOutWindow C E W s) = (applyState LoggedOut (apWindow s))\<lparr>lwEmail := [], lwPassword := [],
     lwVisible := True, lwDashboard := None\<rparr>"
  using signOut_step [of C E W "apClient s"] signOut_effects [of C E W "apClient s"]
  by (simp_all add: signOutWindow_def clientSlots_def split_beta Let_def signOut_def auth_block_defs
      del: clientStep.simps)

lemma appInv_step:
  assumes inv: "appInv s"
  shows "appInv (appStep C E W ev s)"
proof (cases ev)
  case (EditPassword typed)
  with inv windowInv_idle show ?thesis by (auto simp: appInv_def windowInv_fields)
next
  case LoginClicked
  show ?thesis
  proof (cases "lwVisible (apWindow s) \<and> lwLoginEnabled (apWindow s)")
    case True
    then have idle: "amState (clAuth (apClient s)) \<in> {LoggedOut, Failed}"
      using inv windowInv_idle unfolding appInv_def by blast
    have "windowInv CollectingDevice (applyState CollectingDevice ((apWindow s)\<lparr>
        lwSubtitle := lit ''Sign in to continue to your account'', lwPassword := []\<rparr>))"
      by (rule windowInv_state [of "amState (clAuth (apClient s))"])
         (use inv idle in \<open>auto simp: appInv_def windowInv_fields\<close>)
    moreover have "amState (fst (login email password (clAuth (apClient s)))) = CollectingDevice" for email password
      using idle by (auto simp: login_state)
    ultimately show ?thesis using True LoginClicked
      by (simp add: appInv_def startLogin_state [OF idle]) (simp add: applyState_def Let_def)
  qed (use inv LoginClicked in auto)
next
  case SignOutRequested
  have "windowInv LoggedOut (apWindow (signOutWindow C E W s))"
    using inv unfolding signOutWindow_state by (simp add: appInv_def windowInv_def applyState_def Let_def)
  then show ?thesis using inv SignOutRequested signOutWindow_state [of C E W s]
    by (simp add: appInv_def signOut_state)
next
  case (Background ev')
  show ?thesis
  proof (cases "backgroundEvent ev'")
    case True
    let ?r = "clientStep C E W ev' (apClient s)"
    have step: "appStep C E W ev s = \<lparr>apWindow = windowRun (clAuth (fst ?r)) (snd ?r) (apWindow s), apClient = fst ?r\<rparr>"
      using True Background by (simp add: clientSlots_def split_beta del: clientStep.simps)
    show ?thesis
      using background_window [OF True, of "apClient s" "apWindow s" C E W "clAuth (fst ?r)"] inv
        windowRun_password [of "clAuth (fst ?r)" "snd ?r" "apWindow s"]
      unfolding step appInv_def windowFollows_def by auto
  qed (use inv Background in simp)
qed (use inv in \<open>auto simp: appInv_def windowInv_def\<close>)

lemma appReachable_inv: "appReachable C E s \<Longrightarrow> appInv s"
proof (induction rule: appReachable.induct)
  case start
  then show ?case by (simp add: appInv_def windowInv_def initialWindow_def initialAuth_def)
qed (rule appInv_step)

lemma appReachable_client: "appReachable C E s \<Longrightarrow> clientReachable C E (apClient s)"
proof (induction rule: appReachable.induct)
  case (step s W ev)
  have "\<exists>W' ev'. apClient (appStep C E W ev s) = fst (clientStep C E W' ev' (apClient s)) \<or> apClient (appStep C E W ev s) = apClient s"
    by (cases ev) (auto simp: startLogin_def signOutWindow_def clientSlots_def split_beta Let_def simp del: clientStep.simps)
  with step show ?case by (metis clientReachable.step)
qed (simp add: clientReachable.start)

lemma fail_shows_dialog: "lwErrorDialog (fold (windowSignal m) (snd (fail e s)) w) \<noteq> None"
  by (simp add: fail_effects showFailure_def showErrorDialog_def Let_def)

section \<open>Properties\<close>

text \<open>
  C8. The window always shows the state of the session: its inputs are enabled exactly while the
  manager is not busy, the dashboard is open only in an authenticated session, during which the
  login window is hidden, and the password field is empty unless nobody is signed in or signing in.
\<close>

theorem window_follows_session:
  assumes "appReachable C E s"
  shows "(lwLoginEnabled (apWindow s) \<longleftrightarrow> \<not> busyState (amState (clAuth (apClient s))))
    \<and> lwEmailEnabled (apWindow s) = lwLoginEnabled (apWindow s) \<and> lwPasswordEnabled (apWindow s) = lwLoginEnabled (apWindow s)
    \<and> (lwDashboard (apWindow s) \<noteq> None \<longrightarrow> amState (clAuth (apClient s)) = Authenticated)
    \<and> (amState (clAuth (apClient s)) = Authenticated \<longrightarrow> \<not> lwVisible (apWindow s))
    \<and> (lwPassword (apWindow s) \<noteq> [] \<longrightarrow> amState (clAuth (apClient s)) \<in> {LoggedOut, Failed})"
  using appReachable_inv [OF assms] by (auto simp: appInv_def windowInv_def)

text \<open>
  Every error dialog shows one of eleven fixed sentences and one of the fixed codes; nothing a
  server sends is displayed.
\<close>

theorem error_dialog_fixed:
  assumes "appReachable C E s" and "lwErrorDialog (apWindow s) = Some d"
  shows "\<exists>message \<in> set shownTexts. \<exists>code \<in> insert (lit ''AUTHENTICATION_FAILED'') (set allowedCodes).
    d = (lit ''<b>'' @ htmlEscaped message @ lit ''</b>'', lit ''Error code: '' @ htmlEscaped code)"
  using appReachable_inv [OF assms(1)] assms(2) by (simp add: appInv_def windowInv_def safeDialog_def)

text \<open>A program with a sign-in whose collection fails.\<close>

definition sampleApp :: "url_parts app" where
  "sampleApp = \<lparr>apWindow = initialWindow, apClient = sampleStart\<rparr>"

definition sampleFailedApp :: "url_parts app" where
  "sampleFailedApp = appStep sampleEnv sampleApi sampleClientWorld (Background (Collected False emptyIdentity))
     (appStep sampleEnv sampleApi sampleClientWorld LoginClicked sampleApp)"

lemma sampleFailedApp_reachable: "appReachable sampleEnv sampleApi sampleFailedApp"
  unfolding sampleFailedApp_def sampleApp_def sampleStart_def sampleClient_def
  by (intro appReachable.step appReachable.start)

lemma sampleFailedApp_dialog: "lwErrorDialog (apWindow sampleFailedApp) \<noteq> None"
proof -
  let ?s = "startLogin sampleEnv sampleApi sampleClientWorld sampleApp"
  have clicked: "appStep sampleEnv sampleApi sampleClientWorld LoginClicked sampleApp = ?s"
    by (simp add: sampleApp_def initialWindow_def)
  have idle: "amState (clAuth (apClient sampleApp)) \<in> {LoggedOut, Failed}"
    by (simp add: sampleApp_def sampleStart_def initialAuth_def)
  have "amState (clAuth (apClient ?s)) = CollectingDevice \<and> amCollection (clAuth (apClient ?s)) = Some (amAttempt (clAuth (apClient ?s)))"
    using idle by (simp add: startLogin_state [OF idle] login_state del: insert_iff) auto
  then have "\<exists>e. snd (completeCollection sampleEnv False emptyIdentity sync (clAuth (apClient ?s)))
      = snd (fail e ((clAuth (apClient ?s))\<lparr>amCollection := None\<rparr>))" for sync
    by (auto simp: completeCollection_def Let_def)
  then have "lwErrorDialog (fold (windowSignal m) (snd (completeCollection sampleEnv False emptyIdentity sync (clAuth (apClient ?s)))) w) \<noteq> None"
    for m w sync
    by (metis fail_shows_dialog)
  then show ?thesis unfolding sampleFailedApp_def clicked
    by (simp add: clientSlots_def split_beta Let_def)
qed

theorem window_follows_session_witness:
  "lwLoginEnabled (apWindow sampleFailedApp) \<longleftrightarrow> \<not> busyState (amState (clAuth (apClient sampleFailedApp)))"
  using window_follows_session [OF sampleFailedApp_reachable] by blast

theorem error_dialog_fixed_witness:
  "\<exists>message \<in> set shownTexts. \<exists>info. lwErrorDialog (apWindow sampleFailedApp)
     = Some (lit ''<b>'' @ htmlEscaped message @ lit ''</b>'', info)"
proof -
  obtain d where "lwErrorDialog (apWindow sampleFailedApp) = Some d" using sampleFailedApp_dialog by blast
  with error_dialog_fixed [OF sampleFailedApp_reachable this] show ?thesis by auto
qed

end
