(* ===== verification/LaunchController.thy ===== *)
theory LaunchController
  imports Base64
begin

text \<open>
  \<open>license-client/src/launcher/LaunchController.cpp\<close>: starting or finding the selected game and
  loading the payload into it once. \<open>QFileInfo\<close>, the clock and the services (validation, process
  search, start and load, which are callbacks of the controller) are the environment of an event.
  The worker thread is explicit: a job is queued by \<open>poll\<close>, begins when the thread pool runs it,
  may be inside \<open>load\<close>, and leaves a result that the finished signal delivers.
\<close>

section \<open>State\<close>

record TargetProcess =
  tpPid :: "32 word"
  tpError :: qstring

record LaunchResult =
  lrSuccess :: bool
  lrError :: qstring

datatype LaunchState = Ready | Launching | Waiting | Loading | Succeeded | LaunchFailed | Cancelled

text \<open>
  What the callbacks and the clock answer during one call of a slot; \<open>None\<close> is an empty
  \<open>std::function\<close>.
\<close>

record launch_world =
  lwNow :: int
  lwValidate :: "qstring \<Rightarrow> qstring \<Rightarrow> qstring"
  lwFind :: "(qstring \<Rightarrow> TargetProcess) option"
  lwLaunch :: "(qstring \<Rightarrow> TargetProcess) option"

record file_info =
  fiCompleteBaseName :: "qstring \<Rightarrow> qstring"
  fiFileName :: "qstring \<Rightarrow> qstring"

text \<open>\<open>cancelled_\<close> is a shared flag: a job keeps the flag of the run that queued it.\<close>

record launch_job =
  jobFlag :: nat
  jobPid :: "32 word"
  jobExecutable :: qstring
  jobPayload :: qstring

datatype worker =
    NoWorker
  | Queued launch_job
  | InLoad launch_job
  | Done LaunchResult

record LaunchController =
  lcPayloadPath :: qstring
  lcExecutable :: qstring
  lcMessage :: qstring
  lcSucceededPid :: "32 word"
  lcLoadingPid :: "32 word"
  lcLaunchedPid :: "32 word"
  lcOwnLaunched :: bool
  lcExpiry :: "int option"
  lcState :: LaunchState
  lcTimer :: bool
  lcWorker :: worker
  lcAttempted :: "32 word set"
  lcFlag :: nat
  lcCancelledFlags :: "nat set"

datatype launch_effect =
    Changed LaunchState
  | CompletedSignal
  | TerminateProcess "32 word"
  | CallLoad "32 word" qstring qstring
  | EmptyFunctionCalled

type_synonym launch_handler = "LaunchController \<Rightarrow> LaunchController \<times> launch_effect list"

definition newLaunchController :: "qstring \<Rightarrow> int option \<Rightarrow> LaunchController" where
  "newLaunchController payloadPath expiry = \<lparr>
     lcPayloadPath = payloadPath, lcExecutable = [], lcMessage = lit ''Select the game executable to begin.'',
     lcSucceededPid = 0, lcLoadingPid = 0, lcLaunchedPid = 0, lcOwnLaunched = False, lcExpiry = expiry,
     lcState = Ready, lcTimer = False, lcWorker = NoWorker, lcAttempted = {}, lcFlag = 0,
     lcCancelledFlags = {}\<rparr>"

section \<open>Operations\<close>

text \<open>An invalid expiry lies before every time.\<close>

definition expired :: "int \<Rightarrow> LaunchController \<Rightarrow> bool" where
  "expired now s \<longleftrightarrow> (case lcExpiry s of None \<Rightarrow> True | Some e \<Rightarrow> e \<le> now)"

definition launchTransition :: "LaunchState \<Rightarrow> qstring \<Rightarrow> launch_handler" where
  "launchTransition state message s = (s\<lparr>lcState := state, lcMessage := message\<rparr>, [Changed state])"

definition gameName :: "qt \<Rightarrow> file_info \<Rightarrow> qstring \<Rightarrow> qstring" where
  "gameName q F executable =
     (let base = qtTrimmed q (fiCompleteBaseName F executable) in
      if base = [] then fiFileName F executable else base)"

definition workerRunning :: "LaunchController \<Rightarrow> bool" where
  "workerRunning s \<longleftrightarrow> (case lcWorker s of Queued job \<Rightarrow> True | InLoad job \<Rightarrow> True | _ \<Rightarrow> False)"

definition stopOwnedProcess :: launch_handler where
  "stopOwnedProcess s =
     (if \<not> lcOwnLaunched s \<or> lcLaunchedPid s = 0 then (s, [])
      else (s\<lparr>lcOwnLaunched := False, lcLaunchedPid := 0\<rparr>, [TerminateProcess (lcLaunchedPid s)]))"

definition cancel :: launch_handler where
  "cancel s =
     (let s = s\<lparr>lcTimer := False\<rparr>;
          s = s\<lparr>lcCancelledFlags := insert (lcFlag s) (lcCancelledFlags s)\<rparr> in
      if lcState s = Launching \<or> lcState s = Waiting \<or> lcState s = Loading then
        let (s, es1) = stopOwnedProcess s;
            (s, es2) = launchTransition Cancelled (lit ''Stopped. An operation already started cannot be undone.'') s
        in (s, es1 @ es2)
      else (s, []))"

definition poll :: "file_info \<Rightarrow> launch_world \<Rightarrow> launch_handler" where
  "poll F W s =
     (if expired (lwNow W) s then cancel s
      else if lcState s \<noteq> Waiting then (s, [])
      else case lwFind W of None \<Rightarrow> (s, [EmptyFunctionCalled])
      | Some find' \<Rightarrow>
        let process = find' (lcExecutable s) in
        if tpError process \<noteq> [] then launchTransition LaunchFailed (tpError process) (s\<lparr>lcTimer := False\<rparr>)
        else if tpPid process = 0 then (s, [])
        else if tpPid process \<in> lcAttempted s
        then launchTransition LaunchFailed (lit ''This process was already attempted. Restart the game first.'')
          (s\<lparr>lcTimer := False\<rparr>)
        else let s = s\<lparr>lcAttempted := insert (tpPid process) (lcAttempted s)\<rparr>;
                 s = s\<lparr>lcLoadingPid := tpPid process\<rparr>;
                 (s, es) = launchTransition Loading (lit ''Game found. Loading '' @ fiFileName F (lcPayloadPath s)
                   @ lit ''...'') s;
                 job = \<lparr>jobFlag = lcFlag s, jobPid = tpPid process, jobExecutable = lcExecutable s,
                   jobPayload = lcPayloadPath s\<rparr>
             in (s\<lparr>lcWorker := Queued job\<rparr>, es))"

text \<open>\<open>transition(Waiting, ...)\<close>, \<open>timer_.start()\<close> and \<open>poll()\<close>, the common end of the ways to start.\<close>

definition startWaiting :: "file_info \<Rightarrow> launch_world \<Rightarrow> qstring \<Rightarrow> launch_handler" where
  "startWaiting F W message s =
     (let (s, es1) = launchTransition Waiting message s;
          s = s\<lparr>lcTimer := True\<rparr>;
          (s, es2) = poll F W s
      in (s, es1 @ es2))"

text \<open>Starting the game (lines 75 to 86); \<open>launch\<close> is the service.\<close>

definition launchOwn ::
    "qt \<Rightarrow> file_info \<Rightarrow> launch_world \<Rightarrow> (qstring \<Rightarrow> TargetProcess) \<Rightarrow> qstring \<Rightarrow> launch_handler" where
  "launchOwn q F W' launch executable s =
     (let (s, es) = launchTransition Launching (lit ''Starting '' @ gameName q F executable @ lit ''...'') s;
          launched = launch executable;
          (s, es') = (if tpError launched \<noteq> [] \<or> tpPid launched = 0
            then launchTransition LaunchFailed (if tpError launched = []
              then lit ''Could not start '' @ gameName q F executable @ lit ''.'' else tpError launched) s
            else let s = s\<lparr>lcLaunchedPid := tpPid launched\<rparr>;
                     s = s\<lparr>lcOwnLaunched := True\<rparr>
                 in startWaiting F W' (gameName q F executable
                      @ lit '' is starting. Waiting for it to open...'') s)
      in (s, es @ es'))"

text \<open>Looking for the game once the files are valid (lines 59 to 74).\<close>

definition findOrLaunch ::
    "qt \<Rightarrow> file_info \<Rightarrow> launch_world \<Rightarrow> launch_world \<Rightarrow> qstring \<Rightarrow> launch_handler" where
  "findOrLaunch q F W W' executable s =
     (let s = s\<lparr>lcExecutable := executable\<rparr>;
          s = s\<lparr>lcFlag := lcFlag s + 1\<rparr>;
          running = (case lwFind W of Some find' \<Rightarrow> find' executable | None \<Rightarrow> \<lparr>tpPid = 0, tpError = []\<rparr>) in
      if tpError running \<noteq> [] then launchTransition LaunchFailed (tpError running) s
      else if tpPid running \<noteq> 0
      then startWaiting F W' (gameName q F executable
             @ lit '' is already running. Watching for the right moment...'') s
      else case lwLaunch W of
        None \<Rightarrow> startWaiting F W' (lit ''Waiting for '' @ gameName q F executable @ lit '' to open...'') s
      | Some launch \<Rightarrow> launchOwn q F W' launch executable s)"

text \<open>\<open>W\<close> is the environment of the call, \<open>W'\<close> that of the poll at its end.\<close>

definition startLaunch :: "qt \<Rightarrow> file_info \<Rightarrow> launch_world \<Rightarrow> launch_world \<Rightarrow> qstring \<Rightarrow> launch_handler" where
  "startLaunch q F W W' executable s =
     (if lcState s = Loading \<or> lcState s = Launching \<or> workerRunning s \<or> lcState s = Succeeded then (s, [])
      else let (s, es) = stopOwnedProcess s;
               s = s\<lparr>lcSucceededPid := 0, lcLoadingPid := 0, lcTimer := False\<rparr>;
               problem = lwValidate W executable (lcPayloadPath s);
               (s, es') = (if expired (lwNow W) s
                 then launchTransition LaunchFailed (lit ''Your session has expired. Sign in again.'') s
                 else if problem \<noteq> [] then launchTransition LaunchFailed problem s
                 else findOrLaunch q F W W' executable s)
      in (s, es @ es'))"

text \<open>The thread pool runs the job: the flag and the clock are read, then \<open>load\<close> is called.\<close>

definition workerBegins :: "int \<Rightarrow> launch_handler" where
  "workerBegins now s =
     (case lcWorker s of
        Queued job \<Rightarrow>
          if jobFlag job \<in> lcCancelledFlags s \<or> expired now s
          then (s\<lparr>lcWorker := Done \<lparr>lrSuccess = False, lrError = lit ''Session ended before loading.''\<rparr>\<rparr>, [])
          else (s\<lparr>lcWorker := InLoad job\<rparr>, [CallLoad (jobPid job) (jobExecutable job) (jobPayload job)])
      | _ \<Rightarrow> (s, []))"

text \<open>\<open>load\<close> returns, or throws (\<open>None\<close>).\<close>

definition loadReturns :: "LaunchResult option \<Rightarrow> launch_handler" where
  "loadReturns outcome s =
     (case lcWorker s of
        InLoad job \<Rightarrow> (s\<lparr>lcWorker := Done (case outcome of Some result \<Rightarrow> result
          | None \<Rightarrow> \<lparr>lrSuccess = False, lrError = lit ''The loading operation failed unexpectedly.''\<rparr>)\<rparr>, [])
      | _ \<Rightarrow> (s, []))"

definition workerFinished :: "int \<Rightarrow> launch_handler" where
  "workerFinished now s =
     (case lcWorker s of
        Done result \<Rightarrow>
          let s = s\<lparr>lcWorker := NoWorker\<rparr> in
          if lcState s \<noteq> Loading \<or> lcFlag s \<in> lcCancelledFlags s then (s, [])
          else if expired now s then cancel s
          else let s = s\<lparr>lcTimer := False\<rparr>;
                   s = (if lrSuccess result
                     then s\<lparr>lcSucceededPid := lcLoadingPid s, lcOwnLaunched := False\<rparr> else s);
                   (s, es) = launchTransition (if lrSuccess result then Succeeded else LaunchFailed)
                     (if lrSuccess result then lit ''Loaded successfully. Waiting for the game to open...''
                      else lrError result @ lit '' Restart the game before trying again.'') s
               in (s, es @ (if lrSuccess result then [CompletedSignal] else []))
      | _ \<Rightarrow> (s, []))"

section \<open>Events\<close>

datatype launch_event =
    Start launch_world launch_world qstring
  | CancelClicked
  | TimerTick launch_world
  | WorkerBegins int
  | LoadReturns "LaunchResult option"
  | WorkerFinished int

fun launchStep :: "qt \<Rightarrow> file_info \<Rightarrow> launch_event \<Rightarrow> launch_handler" where
  "launchStep q F (Start W W' executable) s = startLaunch q F W W' executable s"
| "launchStep q F CancelClicked s = cancel s"
| "launchStep q F (TimerTick W) s = (if lcTimer s then poll F W s else (s, []))"
| "launchStep q F (WorkerBegins now) s = workerBegins now s"
| "launchStep q F (LoadReturns outcome) s = loadReturns outcome s"
| "launchStep q F (WorkerFinished now) s = workerFinished now s"

fun launchRun :: "qt \<Rightarrow> file_info \<Rightarrow> launch_event list \<Rightarrow> launch_handler" where
  "launchRun q F [] s = (s, [])"
| "launchRun q F (ev # evs) s =
     (let (s, es1) = launchStep q F ev s; (s, es2) = launchRun q F evs s in (s, es1 @ es2))"

inductive launchReachable :: "qt \<Rightarrow> file_info \<Rightarrow> LaunchController \<Rightarrow> bool" for q F where
  start: "launchReachable q F (newLaunchController payloadPath expiry)"
| step: "launchReachable q F s \<Longrightarrow> launchReachable q F (fst (launchStep q F event s))"

section \<open>The ways a start can go\<close>

lemma stopOwnedProcess_state:
  "fst (stopOwnedProcess s) = (if lcOwnLaunched s \<and> lcLaunchedPid s \<noteq> 0
     then s\<lparr>lcOwnLaunched := False, lcLaunchedPid := 0\<rparr> else s)"
  "snd (stopOwnedProcess s) = (if lcOwnLaunched s \<and> lcLaunchedPid s \<noteq> 0
     then [TerminateProcess (lcLaunchedPid s)] else [])"
  by (simp_all add: stopOwnedProcess_def)

definition prepared :: "LaunchController \<Rightarrow> LaunchController" where
  "prepared s = (fst (stopOwnedProcess s))\<lparr>lcSucceededPid := 0, lcLoadingPid := 0, lcTimer := False\<rparr>"

definition armed :: "qstring \<Rightarrow> LaunchController \<Rightarrow> LaunchController" where
  "armed executable s = (prepared s)\<lparr>lcExecutable := executable, lcFlag := lcFlag s + 1\<rparr>"

lemma prepared_simps [simp]:
  "lcState (prepared s) = lcState s" "lcWorker (prepared s) = lcWorker s" "lcFlag (prepared s) = lcFlag s"
  "lcAttempted (prepared s) = lcAttempted s" "lcCancelledFlags (prepared s) = lcCancelledFlags s"
  "lcExpiry (prepared s) = lcExpiry s" "lcTimer (prepared s) = False" "lcPayloadPath (prepared s) = lcPayloadPath s"
  by (simp_all add: prepared_def stopOwnedProcess_state split: if_splits)

lemma prepared_own: "lcOwnLaunched (prepared s) \<Longrightarrow> lcLaunchedPid s = 0 \<and> lcOwnLaunched s"
  by (simp add: prepared_def stopOwnedProcess_state split: if_splits)

lemma armed_simps [simp]:
  "lcState (armed x s) = lcState s" "lcWorker (armed x s) = lcWorker s" "lcFlag (armed x s) = lcFlag s + 1"
  "lcAttempted (armed x s) = lcAttempted s" "lcCancelledFlags (armed x s) = lcCancelledFlags s"
  "lcExpiry (armed x s) = lcExpiry s" "lcTimer (armed x s) = False" "lcPayloadPath (armed x s) = lcPayloadPath s"
  "lcExecutable (armed x s) = x" "lcOwnLaunched (armed x s) = lcOwnLaunched (prepared s)"
  by (simp_all add: armed_def)

text \<open>
  What the part after the preparation comes to: a refusal (\<open>None\<close>), or an armed controller that
  waits with a message and polls.
\<close>

inductive startOutcome :: "launch_world \<Rightarrow> qstring \<Rightarrow> LaunchController \<Rightarrow> LaunchController
    \<Rightarrow> launch_effect list \<Rightarrow> qstring option \<Rightarrow> bool"
  for W executable s where
  refused: "t = prepared s \<or> t = armed executable s \<Longrightarrow> set es \<subseteq> {Changed Launching, Changed LaunchFailed} \<Longrightarrow>
     startOutcome W executable s (t\<lparr>lcState := LaunchFailed, lcMessage := m\<rparr>) es None"
| watching: "\<not> expired (lwNow W) s \<Longrightarrow> startOutcome W executable s (armed executable s) [] (Some m)"
| launched: "\<not> expired (lwNow W) s \<Longrightarrow> lwLaunch W = Some launch \<Longrightarrow> p = tpPid (launch executable) \<Longrightarrow> p \<noteq> 0
     \<Longrightarrow> startOutcome W executable s
     ((armed executable s)\<lparr>lcState := Launching, lcMessage := m', lcLaunchedPid := p, lcOwnLaunched := True\<rparr>)
     [Changed Launching] (Some m)"

definition outcomeResult :: "file_info \<Rightarrow> launch_world \<Rightarrow> LaunchController \<Rightarrow> launch_effect list
    \<Rightarrow> qstring option \<Rightarrow> LaunchController \<times> launch_effect list" where
  "outcomeResult F W' t es m = (case m of None \<Rightarrow> (t, es)
     | Some m \<Rightarrow> (fst (startWaiting F W' m t), es @ snd (startWaiting F W' m t)))"

lemma outcomeI:
  "startOutcome W x s t es m \<Longrightarrow> r = outcomeResult F W' t es m
    \<Longrightarrow> \<exists>t es m. startOutcome W x s t es m \<and> r = outcomeResult F W' t es m"
  by blast

lemma launchOwn_outcome:
  assumes "\<not> expired (lwNow W) s" and "lwLaunch W = Some launch"
  shows "\<exists>t es m. startOutcome W x s t es m \<and> launchOwn q F W' launch x (armed x s) = outcomeResult F W' t es m"
proof (cases "tpError (launch x) \<noteq> [] \<or> tpPid (launch x) = 0")
  case True
  then show ?thesis
    by (intro outcomeI [OF refused [of "armed x s" s x "[Changed Launching, Changed LaunchFailed]" W]])
       (simp_all add: launchOwn_def Let_def launchTransition_def outcomeResult_def)
next
  case False
  then show ?thesis
    by (intro outcomeI [OF launched [OF assms, of "tpPid (launch x)" x]])
       (simp_all add: launchOwn_def Let_def launchTransition_def outcomeResult_def case_prod_unfold)
qed

lemma findOrLaunch_outcome:
  assumes "\<not> expired (lwNow W) s"
  shows "\<exists>t es m. startOutcome W x s t es m \<and> findOrLaunch q F W W' x (prepared s) = outcomeResult F W' t es m"
proof -
  define running where "running = (case lwFind W of Some find' \<Rightarrow> find' x | None \<Rightarrow> \<lparr>tpPid = 0, tpError = []\<rparr>)"
  have arm: "(prepared s)\<lparr>lcExecutable := x, lcFlag := Suc (lcFlag s)\<rparr> = armed x s"
    by (simp add: armed_def)
  show ?thesis
  proof (cases "tpError running \<noteq> []")
    case True
    then show ?thesis
      by (intro outcomeI [OF refused [of "armed x s" s x "[Changed LaunchFailed]" W "tpError running"]])
         (simp_all add: findOrLaunch_def Let_def armed_def launchTransition_def outcomeResult_def flip: running_def)
  next
    case False
    show ?thesis
    proof (cases "tpPid running \<noteq> 0")
      case True
      then show ?thesis
        using False by (intro outcomeI [OF watching [OF assms]])
          (simp_all add: findOrLaunch_def Let_def arm outcomeResult_def flip: running_def)
    next
      case none: False
      show ?thesis
      proof (cases "lwLaunch W")
        case None
        then show ?thesis
          using False none by (intro outcomeI [OF watching [OF assms]])
            (simp_all add: findOrLaunch_def Let_def arm outcomeResult_def flip: running_def)
      next
        case (Some launch)
        then have "findOrLaunch q F W W' x (prepared s) = launchOwn q F W' launch x (armed x s)"
          using False none by (simp add: findOrLaunch_def Let_def arm flip: running_def)
        then show ?thesis using launchOwn_outcome [OF assms Some] by metis
      qed
    qed
  qed
qed

lemma startLaunch_cases:
  obtains (ignored) "startLaunch q F W W' x s = (s, [])"
  | (outcome) t es m where "lcState s \<notin> {Loading, Launching, Succeeded}" "\<not> workerRunning s"
      "startOutcome W x s t es m"
      "startLaunch q F W W' x s = (fst (outcomeResult F W' t es m),
         snd (stopOwnedProcess s) @ snd (outcomeResult F W' t es m))"
proof (cases "lcState s = Loading \<or> lcState s = Launching \<or> workerRunning s \<or> lcState s = Succeeded")
  case True
  then show thesis by (intro ignored) (simp add: startLaunch_def)
next
  case False
  then have guard: "lcState s \<notin> {Loading, Launching, Succeeded}" "\<not> workerRunning s" by auto
  have prep: "(fst (stopOwnedProcess s))\<lparr>lcSucceededPid := 0, lcLoadingPid := 0, lcTimer := False\<rparr> = prepared s"
    by (simp add: prepared_def)
  have exp: "expired now (prepared s) = expired now s" for now by (simp add: expired_def)
  define rest where "rest = (if expired (lwNow W) s
      then launchTransition LaunchFailed (lit ''Your session has expired. Sign in again.'') (prepared s)
      else if lwValidate W x (lcPayloadPath s) \<noteq> []
      then launchTransition LaunchFailed (lwValidate W x (lcPayloadPath s)) (prepared s)
      else findOrLaunch q F W W' x (prepared s))"
  have all: "startLaunch q F W W' x s = (fst rest, snd (stopOwnedProcess s) @ snd rest)"
    unfolding startLaunch_def rest_def Let_def case_prod_unfold prep if_not_P [OF False]
    by (simp only: fst_conv snd_conv exp prepared_simps)
  have "\<exists>t es m. startOutcome W x s t es m \<and> rest = outcomeResult F W' t es m"
  proof (cases "expired (lwNow W) s \<or> lwValidate W x (lcPayloadPath s) \<noteq> []")
    case True
    then show ?thesis
      by (intro outcomeI [OF refused [of "prepared s" s x "[Changed LaunchFailed]" W
            "if expired (lwNow W) s then lit ''Your session has expired. Sign in again.''
              else lwValidate W x (lcPayloadPath s)"]])
         (auto simp: rest_def launchTransition_def outcomeResult_def)
  next
    case False
    then show ?thesis using findOrLaunch_outcome [of W s x q F W'] by (auto simp: rest_def)
  qed
  then show thesis using outcome [OF guard] all by metis
qed

section \<open>The invariant\<close>

lemma cancel_state:
  "cancel s = (if lcState s \<in> {Launching, Waiting, Loading}
     then ((fst (stopOwnedProcess s))\<lparr>lcTimer := False, lcCancelledFlags := insert (lcFlag s) (lcCancelledFlags s),
             lcState := Cancelled, lcMessage := lit ''Stopped. An operation already started cannot be undone.''\<rparr>,
           snd (stopOwnedProcess s) @ [Changed Cancelled])
     else (s\<lparr>lcTimer := False, lcCancelledFlags := insert (lcFlag s) (lcCancelledFlags s)\<rparr>, []))"
  by (simp add: cancel_def stopOwnedProcess_def launchTransition_def Let_def)

definition pollJob :: "LaunchController \<Rightarrow> 32 word \<Rightarrow> launch_job" where
  "pollJob s p = \<lparr>jobFlag = lcFlag s, jobPid = p, jobExecutable = lcExecutable s, jobPayload = lcPayloadPath s\<rparr>"

lemma poll_cases:
  obtains (expiry) "expired (lwNow W) s" "poll F W s = cancel s"
  | (idle) es where "poll F W s = (s, es)" "set es \<subseteq> {EmptyFunctionCalled}"
  | (problem) m where "lcState s = Waiting"
      "poll F W s = (s\<lparr>lcTimer := False, lcState := LaunchFailed, lcMessage := m\<rparr>, [Changed LaunchFailed])"
  | (found) p m where "lcState s = Waiting" "\<not> expired (lwNow W) s" "p \<notin> lcAttempted s" "p \<noteq> 0"
      "poll F W s = (s\<lparr>lcAttempted := insert p (lcAttempted s), lcLoadingPid := p, lcState := Loading,
         lcMessage := m, lcWorker := Queued (pollJob s p)\<rparr>, [Changed Loading])"
proof (cases "expired (lwNow W) s \<or> lcState s \<noteq> Waiting \<or> lwFind W = None")
  case True
  then show thesis
  proof (cases "expired (lwNow W) s")
    case True
    then show thesis by (intro expiry) (simp_all add: poll_def)
  next
    case now: False
    show thesis
    proof (cases "lcState s = Waiting")
      case waiting: True
      then have "poll F W s = (s, [EmptyFunctionCalled])"
        using True now by (simp add: poll_def)
      then show thesis by (rule idle) simp
    next
      case False
      then have "poll F W s = (s, [])"
        using now by (simp add: poll_def)
      then show thesis by (rule idle) simp
    qed
  qed
next
  case False
  then obtain find' where find': "lwFind W = Some find'" by blast
  let ?process = "find' (lcExecutable s)"
  consider "tpError ?process \<noteq> []" | "tpError ?process = []" "tpPid ?process = 0"
    | "tpError ?process = []" "tpPid ?process \<noteq> 0" "tpPid ?process \<in> lcAttempted s"
    | "tpError ?process = []" "tpPid ?process \<noteq> 0" "tpPid ?process \<notin> lcAttempted s"
    by blast
  then show thesis
  proof cases
    case 1
    then show ?thesis
      using False find' by (intro problem [of "tpError ?process"]) (auto simp: poll_def launchTransition_def)
  next
    case 2
    then show ?thesis
      using False find' by (intro idle [of "[]"]) (auto simp: poll_def)
  next
    case 3
    then show ?thesis
      using False find' by (intro problem [of "lit ''This process was already attempted. Restart the game first.''"])
        (auto simp: poll_def launchTransition_def)
  next
    case 4
    then show ?thesis
      using False find'
      by (intro found [of "tpPid ?process" "lit ''Game found. Loading '' @ fiFileName F (lcPayloadPath s) @ lit ''...''"])
         (auto simp: poll_def launchTransition_def Let_def pollJob_def)
  qed
qed

text \<open>The job of a worker that has not finished.\<close>

fun workerJob :: "worker \<Rightarrow> launch_job option" where
  "workerJob (Queued job) = Some job"
| "workerJob (InLoad job) = Some job"
| "workerJob _ = None"

lemma workerRunning_job: "workerRunning s \<longleftrightarrow> workerJob (lcWorker s) \<noteq> None"
  by (cases "lcWorker s") (simp_all add: workerRunning_def)

definition launchInv :: "LaunchController \<Rightarrow> bool" where
  "launchInv s \<longleftrightarrow>
     lcState s \<noteq> Launching
     \<and> (lcTimer s \<longleftrightarrow> lcState s \<in> {Waiting, Loading})
     \<and> (\<forall>f \<in> lcCancelledFlags s. f \<le> lcFlag s)
     \<and> (lcState s \<in> {Waiting, Loading} \<longrightarrow> lcFlag s \<notin> lcCancelledFlags s \<and> lcExpiry s \<noteq> None)
     \<and> (lcState s = Waiting \<longrightarrow> workerJob (lcWorker s) = None)
     \<and> (lcState s = Loading \<longrightarrow> lcWorker s \<noteq> NoWorker \<and> lcLoadingPid s \<in> lcAttempted s)
     \<and> (\<forall>job. workerJob (lcWorker s) = Some job \<longrightarrow> jobPid job \<in> lcAttempted s
          \<and> (if lcState s = Loading then jobFlag job = lcFlag s \<and> jobPid job = lcLoadingPid s
             else jobFlag job \<in> lcCancelledFlags s))
     \<and> (lcOwnLaunched s \<longrightarrow> lcLaunchedPid s \<noteq> 0 \<and> lcState s \<noteq> Succeeded)
     \<and> (lcState s = Succeeded \<longrightarrow> lcSucceededPid s \<in> lcAttempted s)"

lemma launchInv_new: "launchInv (newLaunchController payloadPath expiry)"
  by (simp add: launchInv_def newLaunchController_def)

lemma launchInvD:
  assumes "launchInv s"
  shows launchInv_launching: "lcState s \<noteq> Launching"
    and launchInv_timer: "lcTimer s \<longleftrightarrow> lcState s \<in> {Waiting, Loading}"
    and launchInv_flags: "f \<in> lcCancelledFlags s \<Longrightarrow> f \<le> lcFlag s"
    and launchInv_flag: "lcState s \<in> {Waiting, Loading} \<Longrightarrow> lcFlag s \<notin> lcCancelledFlags s"
    and launchInv_expiry: "lcState s \<in> {Waiting, Loading} \<Longrightarrow> lcExpiry s \<noteq> None"
    and launchInv_waiting: "lcState s = Waiting \<Longrightarrow> workerJob (lcWorker s) = None"
    and launchInv_loading: "lcState s = Loading \<Longrightarrow> lcWorker s \<noteq> NoWorker \<and> lcLoadingPid s \<in> lcAttempted s"
    and launchInv_job: "workerJob (lcWorker s) = Some job \<Longrightarrow> jobPid job \<in> lcAttempted s"
    and launchInv_job_loading: "workerJob (lcWorker s) = Some job \<Longrightarrow> lcState s = Loading
      \<Longrightarrow> jobFlag job = lcFlag s \<and> jobPid job = lcLoadingPid s"
    and launchInv_job_cancelled: "workerJob (lcWorker s) = Some job \<Longrightarrow> lcState s \<noteq> Loading
      \<Longrightarrow> jobFlag job \<in> lcCancelledFlags s"
    and launchInv_own: "lcOwnLaunched s \<Longrightarrow> lcLaunchedPid s \<noteq> 0 \<and> lcState s \<noteq> Succeeded"
    and launchInv_succeeded: "lcState s = Succeeded \<Longrightarrow> lcSucceededPid s \<in> lcAttempted s"
  using assms unfolding launchInv_def by (simp_all split: if_splits)

lemma launchInv_cancel:
  assumes "launchInv s"
  shows "launchInv (fst (cancel s))"
proof (cases "lcState s \<in> {Launching, Waiting, Loading}")
  case True
  have flags: "jobFlag job \<in> insert (lcFlag s) (lcCancelledFlags s)" if "workerJob (lcWorker s) = Some job" for job
    using launchInv_job_loading [OF assms that] launchInv_job_cancelled [OF assms that] by blast
  have own: "lcOwnLaunched s \<Longrightarrow> lcLaunchedPid s \<noteq> 0"
    using launchInv_own [OF assms] by blast
  show ?thesis
    unfolding cancel_state if_P [OF True] launchInv_def fst_conv
    using launchInv_flags [OF assms] launchInv_job [OF assms] flags own
    by (simp add: stopOwnedProcess_state)
next
  case False
  then show ?thesis
    using assms by (auto simp: cancel_state launchInv_def)
qed

lemma launchInv_poll:
  assumes "launchInv s"
  shows "launchInv (fst (poll F W s))"
proof (cases rule: poll_cases [of W s F])
  case expiry
  then show ?thesis using launchInv_cancel [OF assms] by simp
next
  case (found p m)
  then show ?thesis using assms by (auto simp: launchInv_def pollJob_def)
qed (use assms in \<open>auto simp: launchInv_def\<close>)

text \<open>A controller that may wait: no job, a fresh flag and an expiry.\<close>

definition mayWait :: "LaunchController \<Rightarrow> bool" where
  "mayWait s \<longleftrightarrow> workerJob (lcWorker s) = None \<and> (\<forall>f \<in> lcCancelledFlags s. f < lcFlag s) \<and> lcExpiry s \<noteq> None
     \<and> (lcOwnLaunched s \<longrightarrow> lcLaunchedPid s \<noteq> 0)"

lemma launchInv_startWaiting: "mayWait s \<Longrightarrow> launchInv (fst (startWaiting F W m s))"
  unfolding startWaiting_def launchTransition_def Let_def case_prod_unfold
  by (simp, rule launchInv_poll) (auto simp: mayWait_def launchInv_def)

lemma launchInv_prepared_own: "launchInv s \<Longrightarrow> \<not> lcOwnLaunched (prepared s)"
  using launchInv_own prepared_own by blast

lemma startOutcome_inv:
  assumes "startOutcome W x s t es m" and "launchInv s" and "lcState s \<notin> {Loading, Launching, Succeeded}"
    and "\<not> workerRunning s"
  shows "(case m of None \<Rightarrow> launchInv t | Some m \<Rightarrow> mayWait t)"
  using assms
proof (cases rule: startOutcome.cases)
  case (refused u m')
  have "\<forall>f \<in> lcCancelledFlags s. f \<le> Suc (lcFlag s)"
    using launchInv_flags [OF assms(2)] by (simp add: le_SucI)
  with refused show ?thesis
    using assms(2-4) launchInv_prepared_own [OF assms(2)] by (auto simp: launchInv_def workerRunning_job)
next
  case (watching m')
  then show ?thesis
    using assms(2-4) launchInv_prepared_own [OF assms(2)] by (auto simp: launchInv_def workerRunning_job mayWait_def expired_def split: option.splits)
next
  case (launched launch p m' m'')
  then show ?thesis
    using assms(2-4) launchInv_prepared_own [OF assms(2)] by (auto simp: launchInv_def workerRunning_job mayWait_def expired_def split: option.splits)
qed

lemma launchInv_start:
  assumes "launchInv s"
  shows "launchInv (fst (startLaunch q F W W' x s))"
proof (cases rule: startLaunch_cases [of q F W W' x s])
  case (outcome t es m)
  then show ?thesis
    using startOutcome_inv [OF outcome(3) assms outcome(1,2)] launchInv_startWaiting
    by (auto simp: outcomeResult_def split: option.splits)
qed (use assms in simp)

lemma launchInv_setWorker:
  assumes "launchInv s" and "w \<noteq> NoWorker"
    and jobs: "\<And>job. workerJob w = Some job \<Longrightarrow> workerJob (lcWorker s) = Some job"
  shows "launchInv (s\<lparr>lcWorker := w\<rparr>)"
proof -
  note D = launchInvD [OF assms(1)]
  have job: "jobPid job \<in> lcAttempted s \<and> (if lcState s = Loading then jobFlag job = lcFlag s \<and> jobPid job = lcLoadingPid s
      else jobFlag job \<in> lcCancelledFlags s)" if "workerJob w = Some job" for job
    using D(8-10) [OF jobs [OF that]] by auto
  have waiting: "lcState s = Waiting \<Longrightarrow> workerJob w = None"
    using D(6) jobs by (metis not_None_eq)
  show ?thesis
    unfolding launchInv_def
    by (intro conjI) (use assms(2) job waiting D(1-5,7,11,12) in \<open>simp_all\<close>)
qed

lemma launchInv_noWorker: "launchInv s \<Longrightarrow> lcState s \<noteq> Loading \<Longrightarrow> launchInv (s\<lparr>lcWorker := NoWorker\<rparr>)"
  by (simp add: launchInv_def)

lemma cancel_noWorker:
  "fst (cancel (s\<lparr>lcWorker := NoWorker\<rparr>)) = (fst (cancel s))\<lparr>lcWorker := NoWorker\<rparr>"
  by (rule LaunchController.equality) (simp_all add: cancel_state stopOwnedProcess_state)

lemma launchInv_worker:
  assumes "launchInv s"
  shows "launchInv (fst (workerBegins now s))" "launchInv (fst (loadReturns outcome s))"
    "launchInv (fst (workerFinished now s))"
proof -
  show "launchInv (fst (workerBegins now s))"
    using assms by (cases "lcWorker s") (auto simp: workerBegins_def intro!: launchInv_setWorker)
  show "launchInv (fst (loadReturns outcome s))"
    using assms by (cases "lcWorker s") (auto simp: loadReturns_def intro!: launchInv_setWorker)
  show "launchInv (fst (workerFinished now s))"
  proof (cases "lcWorker s")
    case (Done result)
    have ignored: "launchInv (s\<lparr>lcWorker := NoWorker\<rparr>)" if "lcState s \<noteq> Loading"
      using assms that by (rule launchInv_noWorker)
    have cancelled: "launchInv (fst (cancel (s\<lparr>lcWorker := NoWorker\<rparr>)))" if "lcState s = Loading"
      unfolding cancel_noWorker
      by (rule launchInv_noWorker [OF launchInv_cancel [OF assms]]) (simp add: cancel_state that)
    have flag: "lcState s = Loading \<Longrightarrow> lcFlag s \<notin> lcCancelledFlags s"
      using assms by (simp add: launchInv_def)
    show ?thesis
    proof (cases "lcState s = Loading \<and> \<not> expired now s")
      case False
      then show ?thesis
        using Done cancelled ignored flag by (auto simp: workerFinished_def Let_def expired_def)
    next
      case True
      then have live: "lcState s = Loading" "\<not> expired now (s\<lparr>lcWorker := NoWorker\<rparr>)"
          "lcFlag s \<notin> lcCancelledFlags s"
        using flag by (simp_all add: expired_def)
      note inv = launchInv_flags [OF assms] launchInv_own [OF assms] launchInv_loading [OF assms]
      show ?thesis
      proof (cases "lrSuccess result")
        case True
        then show ?thesis
          using inv live Done by (simp add: workerFinished_def launchTransition_def launchInv_def Let_def)
      next
        case False
        then show ?thesis
          using inv live Done by (simp add: workerFinished_def launchTransition_def launchInv_def Let_def)
      qed
    qed
  qed (use assms in \<open>simp_all add: workerFinished_def\<close>)
qed

lemma launchInv_step: "launchInv s \<Longrightarrow> launchInv (fst (launchStep q F ev s))"
  by (cases ev) (simp_all add: launchInv_start launchInv_cancel launchInv_poll launchInv_worker)

lemma launchReachable_inv: "launchReachable q F s \<Longrightarrow> launchInv s"
  by (induction rule: launchReachable.induct) (simp_all add: launchInv_new launchInv_step)

section \<open>What is loaded and what is terminated\<close>

fun loads :: "launch_effect list \<Rightarrow> 32 word list" where
  "loads [] = []"
| "loads (CallLoad p executable payload # es) = p # loads es"
| "loads (_ # es) = loads es"

lemma loads_append [simp]: "loads (xs @ ys) = loads xs @ loads ys"
  by (induction xs rule: loads.induct) simp_all

lemma loads_set: "p \<in> set (loads es) \<longleftrightarrow> (\<exists>x payload. CallLoad p x payload \<in> set es)"
  by (induction es rule: loads.induct) auto

lemma loads_Nil: "(\<And>p x payload. CallLoad p x payload \<notin> set es) \<Longrightarrow> loads es = []"
  using loads_set by (metis list.set_intros(1) neq_Nil_conv)

lemma quiet_effects:
  "loads (snd (stopOwnedProcess s)) = []" "loads (snd (cancel s)) = []" "loads (snd (poll F W s)) = []"
  "loads (snd (startWaiting F W m s)) = []" "loads (snd (loadReturns outcome s)) = []"
  "loads (snd (workerFinished now s)) = []"
proof -
  show stop: "loads (snd (stopOwnedProcess s)) = []" for s by (simp add: stopOwnedProcess_state)
  show cancel: "loads (snd (cancel s)) = []" for s by (simp add: cancel_state stop)
  show poll: "loads (snd (poll F W s)) = []" for F W s
  proof (cases rule: poll_cases [of W s F])
    case (idle es)
    then show ?thesis by (auto intro!: loads_Nil)
  qed (simp_all add: cancel)
  show "loads (snd (startWaiting F W m s)) = []"
    by (simp add: startWaiting_def launchTransition_def Let_def case_prod_unfold poll)
  show "loads (snd (loadReturns outcome s)) = []" by (simp add: loadReturns_def split: worker.split)
  show "loads (snd (workerFinished now s)) = []"
    by (simp add: workerFinished_def launchTransition_def Let_def cancel split: worker.split)
qed

lemma startOutcome_quiet: "startOutcome W x s t es m \<Longrightarrow> loads es = []"
  by (auto elim!: startOutcome.cases intro!: loads_Nil)

lemma start_quiet: "loads (snd (startLaunch q F W W' x s)) = []"
  by (cases rule: startLaunch_cases [of q F W W' x s])
     (auto simp: outcomeResult_def quiet_effects startOutcome_quiet split: option.split)

lemma step_loads:
  "loads (snd (launchStep q F ev s)) = [] \<or> (\<exists>now job. ev = WorkerBegins now \<and> lcWorker s = Queued job
     \<and> jobFlag job \<notin> lcCancelledFlags s \<and> \<not> expired now s
     \<and> launchStep q F ev s = (s\<lparr>lcWorker := InLoad job\<rparr>, [CallLoad (jobPid job) (jobExecutable job) (jobPayload job)]))"
  by (cases ev) (auto simp: quiet_effects start_quiet workerBegins_def split: worker.splits)

text \<open>A new job is for a process that was not attempted before, and it is attempted from then on.\<close>

definition freshJob :: "LaunchController \<Rightarrow> LaunchController \<Rightarrow> bool" where
  "freshJob s t \<longleftrightarrow> lcAttempted s \<subseteq> lcAttempted t \<and> (\<forall>job. lcWorker t = Queued job \<longrightarrow>
     lcWorker s = Queued job \<or> jobPid job \<notin> lcAttempted s \<and> jobPid job \<in> lcAttempted t)"

lemma freshJob_poll: "freshJob s (fst (poll F W s))"
  by (cases rule: poll_cases [of W s F])
     (auto simp: freshJob_def cancel_state stopOwnedProcess_state pollJob_def)

lemma freshJob_startWaiting:
  "lcAttempted t = lcAttempted s \<Longrightarrow> lcWorker t = lcWorker s \<Longrightarrow> freshJob s (fst (startWaiting F W m t))"
  using freshJob_poll [of "t\<lparr>lcState := Waiting, lcMessage := m, lcTimer := True\<rparr>" F W]
  by (simp add: startWaiting_def launchTransition_def Let_def case_prod_unfold freshJob_def)

lemma startOutcome_same: "startOutcome W x s t es m \<Longrightarrow> lcAttempted t = lcAttempted s \<and> lcWorker t = lcWorker s"
  by (auto elim!: startOutcome.cases)

lemma freshJob_step: "freshJob s (fst (launchStep q F ev s))"
proof (cases ev)
  case (Start W W' x)
  show ?thesis
  proof (cases rule: startLaunch_cases [of q F W W' x s])
    case (outcome t es m)
    then show ?thesis
      using startOutcome_same [OF outcome(3)] freshJob_startWaiting [of t s] Start
      by (cases m) (auto simp: outcomeResult_def freshJob_def)
  qed (simp add: Start freshJob_def)
next
  case (WorkerFinished now)
  then show ?thesis
    by (auto simp: freshJob_def workerFinished_def cancel_state stopOwnedProcess_state launchTransition_def Let_def
        split: worker.splits)
qed (auto simp: freshJob_poll, auto simp: freshJob_def cancel_state stopOwnedProcess_state workerBegins_def
      loadReturns_def split: worker.splits)

lemma run_loads:
  "launchInv s \<Longrightarrow> distinct (loads (snd (launchRun q F evs s)))
     \<and> (\<forall>p \<in> set (loads (snd (launchRun q F evs s))).
          (\<exists>job. lcWorker s = Queued job \<and> jobPid job = p) \<or> p \<notin> lcAttempted s)"
proof (induction evs arbitrary: s)
  case (Cons ev evs)
  obtain t es where t: "launchStep q F ev s = (t, es)" by fastforce
  have fresh: "freshJob s t" using freshJob_step [of s q F ev] by (simp add: t)
  have rest: "distinct (loads (snd (launchRun q F evs t)))"
      "\<And>p. p \<in> set (loads (snd (launchRun q F evs t)))
        \<Longrightarrow> (\<exists>job. lcWorker t = Queued job \<and> jobPid job = p) \<or> p \<notin> lcAttempted t"
    using Cons.IH [of t] launchInv_step [OF Cons.prems, of q F ev] by (auto simp: t)
  have run: "loads (snd (launchRun q F (ev # evs) s)) = loads es @ loads (snd (launchRun q F evs t))"
    by (simp add: t case_prod_unfold Let_def)
  from step_loads [of q F ev s] show ?case
  proof
    assume "loads (snd (launchStep q F ev s)) = []"
    then have "loads es = []" by (simp add: t)
    then show ?thesis
      using rest fresh unfolding run freshJob_def by auto
  next
    assume "\<exists>now job. ev = WorkerBegins now \<and> lcWorker s = Queued job
      \<and> jobFlag job \<notin> lcCancelledFlags s \<and> \<not> expired now s
      \<and> launchStep q F ev s = (s\<lparr>lcWorker := InLoad job\<rparr>, [CallLoad (jobPid job) (jobExecutable job) (jobPayload job)])"
    then obtain job where job: "lcWorker s = Queued job" "t = s\<lparr>lcWorker := InLoad job\<rparr>" "loads es = [jobPid job]"
      by (auto simp: t)
    then have "jobPid job \<in> lcAttempted s"
      using launchInv_job [OF Cons.prems, of job] by simp
    then show ?thesis
      using rest job unfolding run by auto
  qed
qed simp

lemma cancel_terminates:
  "TerminateProcess p \<in> set (snd (cancel s)) \<Longrightarrow> lcOwnLaunched s \<and> p = lcLaunchedPid s \<and> lcState s \<noteq> Succeeded"
  by (auto simp: cancel_state stopOwnedProcess_state split: if_splits)

lemma poll_terminates:
  "TerminateProcess p \<in> set (snd (poll F W s)) \<Longrightarrow> lcOwnLaunched s \<and> p = lcLaunchedPid s \<and> lcState s \<noteq> Succeeded"
  by (cases rule: poll_cases [of W s F]) (auto dest: cancel_terminates)

lemma startWaiting_terminates:
  "TerminateProcess p \<in> set (snd (startWaiting F W m s)) \<Longrightarrow> lcOwnLaunched s \<and> p = lcLaunchedPid s"
  using poll_terminates [of p F W "s\<lparr>lcState := Waiting, lcMessage := m, lcTimer := True\<rparr>"]
  by (simp add: startWaiting_def launchTransition_def Let_def case_prod_unfold)

text \<open>The process the controller started itself and still owns, or the one it starts in this step.\<close>

definition ownProcess :: "launch_event \<Rightarrow> LaunchController \<Rightarrow> 32 word \<Rightarrow> bool" where
  "ownProcess ev s p \<longleftrightarrow> p \<noteq> 0 \<and> ((lcOwnLaunched s \<and> p = lcLaunchedPid s \<and> lcState s \<noteq> Succeeded)
     \<or> (\<exists>W W' x launch. ev = Start W W' x \<and> lwLaunch W = Some launch \<and> p = tpPid (launch x)))"

lemma start_terminates:
  assumes "launchInv s" and "TerminateProcess p \<in> set (snd (startLaunch q F W W' x s))"
  shows "ownProcess (Start W W' x) s p"
proof (cases rule: startLaunch_cases [of q F W W' x s])
  case (outcome t es m)
  then consider "TerminateProcess p \<in> set (snd (stopOwnedProcess s))" | "TerminateProcess p \<in> set es"
    | m' where "m = Some m'" "TerminateProcess p \<in> set (snd (startWaiting F W' m' t))"
    using assms(2) by (auto simp: outcomeResult_def split: option.splits)
  then show ?thesis
  proof cases
    case 1
    then show ?thesis
      using outcome(1) by (auto simp: ownProcess_def stopOwnedProcess_state split: if_splits)
  next
    case 2
    then show ?thesis using outcome(3) by (auto elim!: startOutcome.cases)
  next
    case (3 m')
    have "lcOwnLaunched t \<and> p = lcLaunchedPid t" by (rule startWaiting_terminates [OF 3(2)])
    then show ?thesis
      using outcome(3) launchInv_prepared_own [OF assms(1)] 3(1)
      by (auto simp: ownProcess_def elim!: startOutcome.cases)
  qed
qed (use assms in simp)

lemma step_terminates:
  assumes "launchInv s" and "TerminateProcess p \<in> set (snd (launchStep q F ev s))"
  shows "ownProcess ev s p"
proof (cases ev)
  case (Start W W' x)
  then show ?thesis using start_terminates assms by simp
next
  case (WorkerFinished now)
  then show ?thesis
    using assms(2) cancel_terminates [of p "s\<lparr>lcWorker := NoWorker\<rparr>"] launchInv_own [OF assms(1)]
    by (auto simp: ownProcess_def workerFinished_def launchTransition_def Let_def split: worker.splits if_splits)
next
  case (WorkerBegins now)
  then show ?thesis using assms(2) by (auto simp: workerBegins_def split: worker.splits if_splits)
next
  case (LoadReturns outcome)
  then show ?thesis using assms(2) by (auto simp: loadReturns_def split: worker.splits)
qed (use assms(2) launchInv_own [OF assms(1)] in
    \<open>auto simp: ownProcess_def split: if_splits dest: cancel_terminates poll_terminates\<close>)

text \<open>Once the payload is loaded nothing but the timer, a flag and a left-over worker signal changes.\<close>

lemma succeeded_step:
  assumes "launchInv s" and "lcState s = Succeeded"
  shows "lcState (fst (launchStep q F ev s)) = Succeeded
    \<and> lcSucceededPid (fst (launchStep q F ev s)) = lcSucceededPid s \<and> snd (launchStep q F ev s) = []"
proof (cases ev)
  case (TimerTick W)
  then show ?thesis using assms launchInv_timer [OF assms(1)] by simp
next
  case (WorkerBegins now)
  then show ?thesis
    using assms launchInv_job_cancelled [OF assms(1)]
    by (cases "lcWorker s") (auto simp: workerBegins_def)
qed (use assms in \<open>auto simp: startLaunch_def cancel_state loadReturns_def workerFinished_def Let_def split: worker.split\<close>)

section \<open>A concrete run\<close>

definition sampleFiles :: file_info where
  "sampleFiles = \<lparr>fiCompleteBaseName = (\<lambda>s. s), fiFileName = (\<lambda>s. s)\<rparr>"

definition sampleWorld :: "int \<Rightarrow> 32 word \<Rightarrow> launch_world" where
  "sampleWorld now p = \<lparr>lwNow = now, lwValidate = (\<lambda>_ _. []), lwFind = Some (\<lambda>_. \<lparr>tpPid = p, tpError = []\<rparr>),
     lwLaunch = Some (\<lambda>_. \<lparr>tpPid = 7, tpError = []\<rparr>)\<rparr>"

definition sampleController :: LaunchController where
  "sampleController = newLaunchController (lit ''payload'') (Some 100)"

text \<open>The game is started as process 7, found at the next tick and loaded.\<close>

definition sampleLaunch :: "launch_event list" where
  "sampleLaunch = [Start (sampleWorld 1 0) (sampleWorld 2 0) (lit ''game''), TimerTick (sampleWorld 3 7),
     WorkerBegins 4, LoadReturns (Some \<lparr>lrSuccess = True, lrError = []\<rparr>), WorkerFinished 5]"

lemma sampleLaunch_run:
  "lcState (fst (launchRun qtAscii sampleFiles sampleLaunch sampleController)) = Succeeded
   \<and> lcSucceededPid (fst (launchRun qtAscii sampleFiles sampleLaunch sampleController)) = 7
   \<and> loads (snd (launchRun qtAscii sampleFiles sampleLaunch sampleController)) = [7]"
  by (simp add: sampleLaunch_def sampleController_def newLaunchController_def startLaunch_def findOrLaunch_def
      launchOwn_def startWaiting_def poll_def expired_def sampleWorld_def stopOwnedProcess_def launchTransition_def
      workerRunning_def workerBegins_def loadReturns_def workerFinished_def Let_def)

lemma sampleController_reachable: "launchReachable q F sampleController"
  unfolding sampleController_def by (rule launchReachable.start)

lemma launchRun_reachable:
  "launchReachable q F s \<Longrightarrow> launchReachable q F (fst (launchRun q F evs s))"
  by (induction evs arbitrary: s) (simp_all add: case_prod_unfold Let_def launchReachable.step)

section \<open>Properties\<close>

text \<open>
  C23. In every state the controller can reach the poll timer runs exactly while it waits or loads,
  a load in progress is for a process it marked as attempted and under a flag that is not
  cancelled, every other unfinished job is cancelled, and it owns a process only if it started one
  and did not succeed.
\<close>

theorem launchReachable_invariant:
  assumes "launchReachable q F s"
  shows "launchInv s"
  using assms by (rule launchReachable_inv)

theorem launchReachable_invariant_witness:
  "launchInv (fst (launchRun qtAscii sampleFiles sampleLaunch sampleController))"
  by (rule launchReachable_invariant [OF launchRun_reachable [OF sampleController_reachable]])

text \<open>
  C9. Over its whole life a controller calls the loader at most once for each process, however the
  user's clicks, the timer and the worker interleave.
\<close>

theorem loads_each_process_once:
  "distinct (loads (snd (launchRun q F evs (newLaunchController payloadPath expiry))))"
  using run_loads [OF launchInv_new] by blast

text \<open>
  The loader is called only by the worker of the run that is loading, for the process found by
  it, before the authorisation expires and when the run was not cancelled.
\<close>

theorem load_only_when_authorised:
  assumes "launchReachable q F s" and "CallLoad p x payload \<in> set (snd (launchStep q F ev s))"
  shows "\<exists>now. ev = WorkerBegins now \<and> \<not> expired now s \<and> lcState s = Loading \<and> p = lcLoadingPid s
    \<and> p \<in> lcAttempted s \<and> lcFlag s \<notin> lcCancelledFlags s"
proof -
  have inv: "launchInv s" using assms(1) by (rule launchReachable_inv)
  have "p \<in> set (loads (snd (launchStep q F ev s)))" using assms(2) by (auto simp: loads_set)
  then obtain now job where job: "ev = WorkerBegins now" "lcWorker s = Queued job" "\<not> expired now s"
      "jobFlag job \<notin> lcCancelledFlags s" "p = jobPid job"
    using step_loads [of q F ev s] by auto
  have "lcState s = Loading"
    using launchInv_job_cancelled [OF inv, of job] job by auto
  then show ?thesis
    using launchInv_job_loading [OF inv, of job] launchInv_job [OF inv, of job] job by auto
qed

theorem load_only_when_authorised_witness:
  "\<exists>now. WorkerBegins 4 = WorkerBegins now
     \<and> \<not> expired now (fst (launchRun qtAscii sampleFiles (take 2 sampleLaunch) sampleController))"
  using load_only_when_authorised [OF launchRun_reachable [OF sampleController_reachable],
      of 7 "lit ''game''" "lit ''payload''" qtAscii sampleFiles "WorkerBegins 4" "take 2 sampleLaunch"]
  by (simp add: sampleLaunch_def sampleController_def newLaunchController_def startLaunch_def findOrLaunch_def
      launchOwn_def startWaiting_def poll_def expired_def sampleWorld_def stopOwnedProcess_def launchTransition_def
      workerRunning_def workerBegins_def Let_def)



text \<open>
  Success is final: after it no event changes the state or the reported process, and nothing
  is loaded, terminated or signalled any more.
\<close>

theorem success_is_final:
  assumes "launchReachable q F s" and "lcState s = Succeeded"
  shows "lcState (fst (launchStep q F ev s)) = Succeeded
    \<and> lcSucceededPid (fst (launchStep q F ev s)) = lcSucceededPid s \<and> snd (launchStep q F ev s) = []"
  by (rule succeeded_step [OF launchReachable_inv [OF assms(1)] assms(2)])

theorem success_is_final_witness:
  "snd (launchStep qtAscii sampleFiles CancelClicked
     (fst (launchRun qtAscii sampleFiles sampleLaunch sampleController))) = []"
  using success_is_final [OF launchRun_reachable [OF sampleController_reachable], of qtAscii sampleFiles sampleLaunch]
    sampleLaunch_run by blast

end
