(* ===== verification/NativeLaunch.thy ===== *)
theory NativeLaunch
  imports LaunchController ApiTypes
begin

text \<open>
  \<open>license-client/src/launcher/NativeLaunch.cpp\<close> and \<open>NativeCallResult.h\<close>, the services the launch
  controller works with, the watcher of \<open>LaunchPanel.cpp\<close> that waits for the game's window, and
  the authorisation that \<open>UserDashboard.cpp\<close> hands to the controller. The Windows and Qt calls
  are the environment: files as byte lists, the process snapshot and the windows as lists.
\<close>

section \<open>Environment\<close>

text \<open>\<open>nfRead\<close> opens and reads a file, \<open>None\<close> when it cannot be opened.\<close>

record native_files =
  nfRead :: "qstring \<Rightarrow> bytes option"
  nfIsFile :: "qstring \<Rightarrow> bool"
  nfFileName :: "qstring \<Rightarrow> qstring"
  nfSuffix :: "qstring \<Rightarrow> qstring"
  nfCanonicalFilePath :: "qstring \<Rightarrow> qstring"
  nfFromNativeSeparators :: "qstring \<Rightarrow> qstring"
  nfAbsolutePath :: "qstring \<Rightarrow> qstring"
  nfDirName :: "qstring \<Rightarrow> qstring"
  nfCdUp :: "qstring \<Rightarrow> qstring"

text \<open>
  A process of the snapshot: its name, its number and, when it can be opened, the path
  \<open>QueryFullProcessImageNameW\<close> gives (\<open>None\<close> inside when that call fails).
\<close>

record process_entry =
  peExeFile :: qstring
  peId :: "32 word"
  peImage :: "qstring option option"

definition canonical :: "native_files \<Rightarrow> qstring \<Rightarrow> qstring" where
  "canonical N path = nfFromNativeSeparators N (nfCanonicalFilePath N path)"

definition imagePath :: "native_files \<Rightarrow> qstring option \<Rightarrow> qstring" where
  "imagePath N queried = (case queried of Some buffer \<Rightarrow> canonical N buffer | None \<Rightarrow> [])"

definition sameText :: "qt \<Rightarrow> qstring \<Rightarrow> qstring \<Rightarrow> bool" where
  "sameText q a b \<longleftrightarrow> qtCaseFold q a = qtCaseFold q b"

definition samePath :: "qt \<Rightarrow> qstring \<Rightarrow> qstring \<Rightarrow> bool" where
  "samePath q a b \<longleftrightarrow> a \<noteq> [] \<and> b \<noteq> [] \<and> sameText q a b"

section \<open>Executables\<close>

definition le16At :: "bytes \<Rightarrow> nat \<Rightarrow> nat" where
  "le16At b i = unat (b ! i) + 256 * unat (b ! (i + 1))"

definition IMAGE_FILE_MACHINE_I386 :: nat where "IMAGE_FILE_MACHINE_I386 = 0x14c"
definition IMAGE_FILE_MACHINE_AMD64 :: nat where "IMAGE_FILE_MACHINE_AMD64 = 0x8664"

text \<open>
  \<open>machine\<close>: the architecture of an executable file, 0 when it is not one this program supports.
  Bit 1 of the characteristics is \<open>IMAGE_FILE_EXECUTABLE_IMAGE\<close>, bit 13 \<open>IMAGE_FILE_DLL\<close>.
\<close>

definition machineOf :: "bytes option \<Rightarrow> bool \<Rightarrow> nat" where
  "machineOf file dll =
     (case file of None \<Rightarrow> 0
      | Some content \<Rightarrow>
        let dos = take 64 content in
        if length dos \<noteq> 64 \<or> take 2 dos \<noteq> lit ''MZ'' then 0
        else let offset = le32At dos 60 in
        if offset < 64 \<or> offset + 24 > length content then 0
        else let pe = take 24 (drop offset content) in
        if length pe \<noteq> 24 \<or> take 4 pe \<noteq> lit ''PE'' @ [0, 0] then 0
        else let flags = le16At pe 22 in
        if \<not> bit flags 1 \<or> bit flags 13 \<noteq> dll then 0
        else let architecture = le16At pe 4 in
        if architecture = IMAGE_FILE_MACHINE_I386 \<or> architecture = IMAGE_FILE_MACHINE_AMD64
        then architecture else 0)"

definition validateLaunchFiles :: "qt \<Rightarrow> native_files \<Rightarrow> qstring \<Rightarrow> qstring \<Rightarrow> qstring" where
  "validateLaunchFiles q N executable payload =
     (if \<not> sameText q (nfSuffix N executable) (lit ''exe'') then lit ''Select a Windows game EXE.''
      else if \<not> nfIsFile N payload
      then lit ''Payload '' @ nfFileName N payload @ lit '' is missing. Place it beside StarLoader.''
      else let exeMachine = machineOf (nfRead N executable) False;
               dllMachine = machineOf (nfRead N payload) True in
      if exeMachine = 0 \<or> dllMachine = 0 then lit ''The game or DLL is not a supported Windows executable.''
      else if exeMachine \<noteq> dllMachine then lit ''The game and DLL must both be x86 or both be x64.''
      else [])"

section \<open>Finding the game\<close>

definition matchesTarget :: "qt \<Rightarrow> native_files \<Rightarrow> qstring \<Rightarrow> process_entry \<Rightarrow> bool" where
  "matchesTarget q N expected entry \<longleftrightarrow> sameText q (peExeFile entry) (nfFileName N expected)
     \<and> (case peImage entry of None \<Rightarrow> False | Some queried \<Rightarrow> samePath q (imagePath N queried) expected)"

text \<open>The loop over the snapshot; \<open>found\<close> is the variable of the code.\<close>

fun findTargetLoop :: "qt \<Rightarrow> native_files \<Rightarrow> qstring \<Rightarrow> 32 word \<Rightarrow> process_entry list \<Rightarrow> TargetProcess" where
  "findTargetLoop q N expected found [] = \<lparr>tpPid = found, tpError = []\<rparr>"
| "findTargetLoop q N expected found (entry # entries) =
     (if \<not> sameText q (peExeFile entry) (nfFileName N expected) then findTargetLoop q N expected found entries
      else case peImage entry of
        None \<Rightarrow> findTargetLoop q N expected found entries
      | Some queried \<Rightarrow>
        if \<not> samePath q (imagePath N queried) expected then findTargetLoop q N expected found entries
        else if found \<noteq> 0
        then \<lparr>tpPid = 0, tpError = lit ''Multiple copies of the selected game are running. Keep only one open.''\<rparr>
        else findTargetLoop q N expected (peId entry) entries)"

definition findTarget :: "qt \<Rightarrow> native_files \<Rightarrow> process_entry list option \<Rightarrow> qstring \<Rightarrow> TargetProcess" where
  "findTarget q N snapshot executable =
     (let expected = canonical N executable in
      if expected = [] then \<lparr>tpPid = 0, tpError = lit ''The selected executable no longer exists.''\<rparr>
      else case snapshot of
        None \<Rightarrow> \<lparr>tpPid = 0, tpError = lit ''Could not inspect running applications.''\<rparr>
      | Some entries \<Rightarrow> findTargetLoop q N expected 0 entries)"

section \<open>Loading\<close>

text \<open>
  What Windows answers during one load: the image of the opened process (\<open>None\<close> when it cannot be
  opened), whether a wait for it times out before and after, whether it runs under WOW64 (\<open>None\<close>
  when the query fails), whether the system itself is 32-bit, and the engine's outcome.
\<close>

record load_world =
  ldImage :: "qstring option option"
  ldAliveBefore :: bool
  ldWow64 :: "bool option"
  ldSystemIntel :: bool
  ldInjected :: bool
  ldLastError :: qstring
  ldAliveAfter :: bool

definition loadTarget :: "qt \<Rightarrow> native_files \<Rightarrow> load_world \<Rightarrow> qstring \<Rightarrow> qstring \<Rightarrow> LaunchResult" where
  "loadTarget q N L executable payload =
     (let failed = (\<lambda>text. \<lparr>lrSuccess = False, lrError = text\<rparr>);
          problem = validateLaunchFiles q N executable payload in
      if problem \<noteq> [] then failed problem
      else if (case ldImage L of None \<Rightarrow> True
          | Some queried \<Rightarrow> \<not> samePath q (imagePath N queried) (canonical N executable)) \<or> \<not> ldAliveBefore L
      then failed (lit ''The selected game exited or changed before loading.'')
      else case ldWow64 L of None \<Rightarrow> failed (lit ''Cannot determine game architecture.'')
      | Some wow64 \<Rightarrow>
        let target32 = (wow64 \<or> ldSystemIntel L) in
        if (machineOf (nfRead N payload) True = IMAGE_FILE_MACHINE_I386) \<noteq> target32
        then failed (lit ''DLL architecture does not match the running game.'')
        else if \<not> ldInjected L
        then failed (lit ''Loading failed (Windows error '' @ ldLastError L @ lit '').'')
        else if \<not> ldAliveAfter L then failed (lit ''The game exited during loading.'')
        else \<lparr>lrSuccess = True, lrError = []\<rparr>)"

definition nativeInitializationConfirmed :: "32 word \<Rightarrow> 32 word \<Rightarrow> bool \<Rightarrow> bool" where
  "nativeInitializationConfirmed waitResult exitCode targetAlive \<longleftrightarrow>
     waitResult = 0 \<and> exitCode = 1 \<and> targetAlive"

section \<open>Starting the game\<close>

definition gameWorkDir :: "qt \<Rightarrow> native_files \<Rightarrow> qstring \<Rightarrow> qstring" where
  "gameWorkDir q N absolute =
     (let directory = nfAbsolutePath N absolute in
      if startsWith (qtCaseFold q (nfDirName N directory)) (qtCaseFold q (lit ''bin''))
      then nfCdUp N directory else directory)"

definition backslash :: qchar where "backslash = 92"

definition gameCommandLine :: "qt \<Rightarrow> native_files \<Rightarrow> qstring \<Rightarrow> qstring" where
  "gameCommandLine q N absolute =
     (let commandLine = lit ''\"'' @ absolute @ lit ''\"'' in
      if sameText q (nfFileName N absolute) (lit ''ac_client.exe'')
      then commandLine @ lit '' \"--home=?MYDOCUMENTS?'' @ backslash # lit ''My Games'' @ backslash # lit ''AssaultCube''
        @ backslash # lit ''v1.3\" --init''
      else commandLine)"

text \<open>\<open>created\<close> is \<open>CreateProcessW\<close>: the process number, or the error as text.\<close>

definition launchGame ::
    "qt \<Rightarrow> native_files \<Rightarrow> (qstring \<Rightarrow> qstring \<Rightarrow> qstring + 32 word) \<Rightarrow> qstring \<Rightarrow> TargetProcess" where
  "launchGame q N created executable =
     (let absolute = canonical N executable in
      if absolute = [] then \<lparr>tpPid = 0, tpError = lit ''The selected executable no longer exists.''\<rparr>
      else case created (gameCommandLine q N absolute) (gameWorkDir q N absolute) of
        Inl err \<Rightarrow> \<lparr>tpPid = 0, tpError = lit ''Could not start the game (Windows error '' @ err @ lit '').''\<rparr>
      | Inr pid \<Rightarrow> \<lparr>tpPid = pid, tpError = []\<rparr>)"

text \<open>\<open>nativeLaunchServices\<close>, as what one slot of the controller sees of them.\<close>

definition nativeLaunchServices ::
    "qt \<Rightarrow> native_files \<Rightarrow> process_entry list option \<Rightarrow> (qstring \<Rightarrow> qstring \<Rightarrow> qstring + 32 word)
       \<Rightarrow> int \<Rightarrow> launch_world" where
  "nativeLaunchServices q N snapshot created now = \<lparr>
     lwNow = now, lwValidate = validateLaunchFiles q N, lwFind = Some (findTarget q N snapshot),
     lwLaunch = Some (launchGame q N created)\<rparr>"

section \<open>Windows of a process\<close>

record window_entry =
  weProcess :: "32 word"
  weOwned :: bool
  weVisible :: bool

text \<open>\<open>enumProcessWindows\<close>: whether to go on, and whether the window was found.\<close>

definition enumProcessWindows :: "32 word \<Rightarrow> window_entry \<Rightarrow> bool \<times> bool" where
  "enumProcessWindows pid window =
     (if weProcess window \<noteq> pid then (True, False)
      else if weOwned window then (True, False)
      else if \<not> weVisible window then (True, False)
      else (False, True))"

fun enumWindows :: "32 word \<Rightarrow> window_entry list \<Rightarrow> bool" where
  "enumWindows pid [] = False"
| "enumWindows pid (window # windows) =
     (let (continues, found) = enumProcessWindows pid window in
      if continues then enumWindows pid windows else found)"

text \<open>\<open>alive\<close>: \<open>OpenProcess\<close> succeeds and the wait times out.\<close>

definition processAlive :: "(32 word \<Rightarrow> bool) \<Rightarrow> 32 word \<Rightarrow> bool" where
  "processAlive alive pid \<longleftrightarrow> pid \<noteq> 0 \<and> alive pid"

definition processWindowOpen :: "(32 word \<Rightarrow> bool) \<Rightarrow> window_entry list \<Rightarrow> 32 word \<Rightarrow> bool" where
  "processWindowOpen alive windows pid \<longleftrightarrow> processAlive alive pid \<and> enumWindows pid windows"

section \<open>The watcher of the panel\<close>

datatype watch = Watching nat | GameExited | Closing

text \<open>One tick of the watcher's timer; a stopped watcher has no more ticks.\<close>

fun watchTick :: "32 word \<Rightarrow> (32 word \<Rightarrow> bool) \<Rightarrow> window_entry list \<Rightarrow> watch \<Rightarrow> watch" where
  "watchTick pid alive windows (Watching waits) =
     (let waits = waits + 1 in
      if \<not> processAlive alive pid then GameExited
      else if processWindowOpen alive windows pid \<or> waits \<ge> 60 then Closing
      else Watching waits)"
| "watchTick pid alive windows GameExited = GameExited"
| "watchTick pid alive windows Closing = Closing"

text \<open>The slot of \<open>completed\<close>: close at once, or watch.\<close>

definition onLaunchCompleted :: "(32 word \<Rightarrow> bool) \<Rightarrow> 32 word \<Rightarrow> watch" where
  "onLaunchCompleted alive pid = (if pid = 0 \<or> \<not> processAlive alive pid then Closing else Watching 0)"

section \<open>Authorisation\<close>

text \<open>\<open>UserDashboard\<close>: the expiry handed to the launch panel, in milliseconds.\<close>

definition profileActive :: "UserProfileResponse \<Rightarrow> bool" where
  "profileActive profile \<longleftrightarrow> upAccountStatus profile = lit ''active''
     \<and> upLicenseStatus profile = lit ''active'' \<and> upDeviceStatus profile = lit ''active''"

text \<open>\<open>operator<\<close> of \<open>QDateTime\<close>, for a valid left side: an invalid date precedes every valid one.\<close>

definition launchExpiry :: "UserProfileResponse \<Rightarrow> int option" where
  "launchExpiry profile =
     (let expiry = upSessionExpiresAt profile;
          expiry = (case upLicenseExpiresAt profile of None \<Rightarrow> expiry
            | Some license \<Rightarrow> (case expiry of None \<Rightarrow> expiry
               | Some session \<Rightarrow> if license < session then Some license else expiry))
      in if profileActive profile then map_option (\<lambda>e. 1000 * e) expiry else None)"

text \<open>The text of the status indicator; \<open>upper\<close> is \<open>QChar::toUpper\<close>.\<close>

definition dashboardStatus :: "qt \<Rightarrow> (qchar \<Rightarrow> qchar) \<Rightarrow> UserProfileResponse \<Rightarrow> qstring" where
  "dashboardStatus q upper profile =
     (let status = qtTrimmed q (upLicenseStatus profile) in
      if status = [] then lit ''Unavailable'' else upper (hd status) # tl status)"

section \<open>Lemmas\<close>

text \<open>The accepted files: a DOS stub that points past itself to a PE header, and the rest.\<close>

definition peHeader :: "bool \<Rightarrow> nat \<Rightarrow> bytes \<Rightarrow> bool" where
  "peHeader dll architecture pe \<longleftrightarrow> length pe = 24 \<and> take 4 pe = lit ''PE'' @ [0, 0]
     \<and> bit (le16At pe 22) 1 \<and> bit (le16At pe 22) 13 = dll \<and> le16At pe 4 = architecture"

lemma le32At_append: "i + 4 \<le> length a \<Longrightarrow> le32At (a @ b) i = le32At a i"
  by (simp add: le32At_def nth_append)

lemma le32At_take: "i + 4 \<le> k \<Longrightarrow> le32At (take k b) i = le32At b i"
  by (simp add: le32At_def)

lemma machineOf_iff:
  assumes "architecture \<noteq> 0"
  shows "machineOf (Some content) dll = architecture \<longleftrightarrow>
    (architecture = IMAGE_FILE_MACHINE_I386 \<or> architecture = IMAGE_FILE_MACHINE_AMD64)
    \<and> (\<exists>stub pe rest. content = stub @ pe @ rest \<and> 64 \<le> length stub \<and> take 2 stub = lit ''MZ''
        \<and> le32At stub 60 = length stub \<and> peHeader dll architecture pe)"
proof
  assume result: "machineOf (Some content) dll = architecture"
  define offset where "offset = le32At (take 64 content) 60"
  define pe where "pe = take 24 (drop offset content)"
  have accepted: "length (take 64 content) = 64" "take 2 (take 64 content) = lit ''MZ''" "64 \<le> offset"
      "offset + 24 \<le> length content" "length pe = 24" "take 4 pe = lit ''PE'' @ [0, 0]"
      "bit (le16At pe 22) 1" "bit (le16At pe 22) 13 = dll" "le16At pe 4 = architecture"
      "architecture = IMAGE_FILE_MACHINE_I386 \<or> architecture = IMAGE_FILE_MACHINE_AMD64"
    using result assms unfolding machineOf_def Let_def option.case
    by (auto simp flip: offset_def pe_def split: if_splits)
  have "content = take offset content @ pe @ drop 24 (drop offset content)"
    unfolding pe_def by (metis append_take_drop_id)
  moreover have "le32At (take offset content) 60 = length (take offset content)"
    using accepted(3,4) by (simp add: offset_def le32At_take)
  moreover have "take 2 (take offset content) = lit ''MZ''"
    using accepted(2,3) by (simp add: min_def)
  ultimately show "(architecture = IMAGE_FILE_MACHINE_I386 \<or> architecture = IMAGE_FILE_MACHINE_AMD64)
    \<and> (\<exists>stub pe rest. content = stub @ pe @ rest \<and> 64 \<le> length stub \<and> take 2 stub = lit ''MZ''
        \<and> le32At stub 60 = length stub \<and> peHeader dll architecture pe)"
    using accepted
    by (intro conjI) (simp, rule exI [of _ "take offset content"], rule exI [of _ pe],
        rule exI [of _ "drop 24 (drop offset content)"], simp add: peHeader_def)
next
  assume form: "(architecture = IMAGE_FILE_MACHINE_I386 \<or> architecture = IMAGE_FILE_MACHINE_AMD64)
    \<and> (\<exists>stub pe rest. content = stub @ pe @ rest \<and> 64 \<le> length stub \<and> take 2 stub = lit ''MZ''
        \<and> le32At stub 60 = length stub \<and> peHeader dll architecture pe)"
  then obtain stub pe rest where content: "content = stub @ pe @ rest" and stub: "64 \<le> length stub"
      "take 2 stub = lit ''MZ''" "le32At stub 60 = length stub" and pe: "peHeader dll architecture pe"
    by blast
  have "le32At (take 64 content) 60 = length stub"
    using stub by (simp add: content le32At_take le32At_append)
  moreover have "take 2 (take 64 content) = lit ''MZ''"
    using stub(1,2) by (simp add: content)
  ultimately show "machineOf (Some content) dll = architecture"
    using form stub(1) pe unfolding machineOf_def Let_def option.case peHeader_def
    by (simp add: content)
qed

lemma matchesTarget_step:
  "findTargetLoop q N expected found (entry # entries) =
    (if matchesTarget q N expected entry
     then if found \<noteq> 0
       then \<lparr>tpPid = 0, tpError = lit ''Multiple copies of the selected game are running. Keep only one open.''\<rparr>
       else findTargetLoop q N expected (peId entry) entries
     else findTargetLoop q N expected found entries)"
  by (simp add: matchesTarget_def split: option.split)

lemma findTargetLoop_matches:
  assumes "\<forall>entry \<in> set entries. peId entry \<noteq> 0"
  shows "findTargetLoop q N expected found entries =
    (case (if found = 0 then [] else [found]) @ map peId (filter (matchesTarget q N expected) entries) of
       [] \<Rightarrow> \<lparr>tpPid = 0, tpError = []\<rparr>
     | [p] \<Rightarrow> \<lparr>tpPid = p, tpError = []\<rparr>
     | _ \<Rightarrow> \<lparr>tpPid = 0, tpError = lit ''Multiple copies of the selected game are running. Keep only one open.''\<rparr>)"
  using assms
proof (induction entries arbitrary: found)
  case (Cons entry entries)
  then show ?case
    by (simp only: matchesTarget_step) (auto split: list.split)
qed simp

lemma enumWindows_iff:
  "enumWindows pid windows \<longleftrightarrow> (\<exists>w \<in> set windows. weProcess w = pid \<and> \<not> weOwned w \<and> weVisible w)"
  by (induction windows) (auto simp: enumProcessWindows_def)

text \<open>The watcher over a sequence of what it sees at its ticks.\<close>

fun watchRun :: "32 word \<Rightarrow> ((32 word \<Rightarrow> bool) \<times> window_entry list) list \<Rightarrow> watch \<Rightarrow> watch" where
  "watchRun pid [] w = w"
| "watchRun pid ((alive, windows) # seen) w = watchRun pid seen (watchTick pid alive windows w)"

lemma watchRun_stopped: "watchRun pid seen GameExited = GameExited" "watchRun pid seen Closing = Closing"
  by (induction seen) auto

lemma watchRun_bound:
  "n < 60 \<Longrightarrow> watchRun pid seen (Watching n) = Watching m \<Longrightarrow> m = n + length seen \<and> m < 60"
proof (induction seen arbitrary: n)
  case (Cons a seen)
  obtain alive windows where a: "a = (alive, windows)" by fastforce
  show ?case
  proof (cases "watchTick pid alive windows (Watching n)")
    case (Watching k)
    then have "k = n + 1 \<and> k < 60" by (auto simp: Let_def split: if_splits)
    then show ?thesis
      using Cons.IH [of "n + 1"] Cons.prems(2) Watching by (simp add: a del: watchTick.simps)
  qed (use Cons.prems(2) in \<open>simp_all add: a watchRun_stopped\<close>)
qed simp

lemma watchRun_closing:
  "watchRun pid seen (Watching n) = Closing \<Longrightarrow> n + length seen < 60
     \<Longrightarrow> \<exists>(alive, windows) \<in> set seen. processWindowOpen alive windows pid"
proof (induction seen arbitrary: n)
  case (Cons a seen)
  obtain alive windows where a: "a = (alive, windows)" by fastforce
  show ?case
  proof (cases "watchTick pid alive windows (Watching n)")
    case (Watching k)
    then have "k = n + 1" by (auto simp: Let_def split: if_splits)
    then show ?thesis
      using Cons.IH [of "n + 1"] Cons.prems Watching by (simp add: a del: watchTick.simps)
  next
    case Closing
    then have "processWindowOpen alive windows pid" using Cons.prems(2) by (auto simp: Let_def split: if_splits)
    then show ?thesis by (simp add: a)
  qed (use Cons.prems(1) in \<open>simp add: a watchRun_stopped\<close>)
qed simp

lemma watchRun_exited:
  "watchRun pid seen (Watching n) = GameExited
     \<Longrightarrow> \<exists>(alive, windows) \<in> set seen. \<not> processAlive alive pid"
proof (induction seen arbitrary: n)
  case (Cons a seen)
  obtain alive windows where a: "a = (alive, windows)" by fastforce
  show ?case
  proof (cases "watchTick pid alive windows (Watching n)")
    case (Watching k)
    then show ?thesis
      using Cons.IH [of k] Cons.prems by (simp add: a del: watchTick.simps)
  next
    case GameExited
    then have "\<not> processAlive alive pid" by (auto simp: Let_def split: if_splits)
    then show ?thesis by (simp add: a)
  qed (use Cons.prems(1) in \<open>simp add: a watchRun_stopped\<close>)
qed simp

section \<open>Properties\<close>

text \<open>
  The header check recognises exactly the files of the supported form: a DOS stub of at least
  64 bytes that starts with MZ and names its own length at byte 60, followed by a PE header whose
  flags say executable and whose DLL flag is the one asked for; it returns the header's machine.
\<close>

theorem machineOf_recognises:
  assumes "architecture \<noteq> 0"
  shows "machineOf (Some content) dll = architecture \<longleftrightarrow>
    (architecture = IMAGE_FILE_MACHINE_I386 \<or> architecture = IMAGE_FILE_MACHINE_AMD64)
    \<and> (\<exists>stub pe rest. content = stub @ pe @ rest \<and> 64 \<le> length stub \<and> take 2 stub = lit ''MZ''
        \<and> le32At stub 60 = length stub \<and> peHeader dll architecture pe)"
  using assms by (rule machineOf_iff)

definition sampleStub :: bytes where
  "sampleStub = lit ''MZ'' @ replicate 58 0 @ [64, 0, 0, 0]"

definition samplePe :: bytes where
  "samplePe = lit ''PE'' @ [0, 0, 0x64, 0x86] @ replicate 16 0 @ [0x02, 0x20]"

lemma sampleStub_length: "length sampleStub = 64"
  by (simp add: sampleStub_def)

lemma sampleStub_offset: "le32At sampleStub 60 = 64"
  by (simp add: sampleStub_def le32At_def lit_def nth_append)

lemma samplePe_header: "peHeader True IMAGE_FILE_MACHINE_AMD64 samplePe"
  by (simp add: peHeader_def samplePe_def le16At_def lit_def nth_append IMAGE_FILE_MACHINE_AMD64_def
      bit_Suc_0_iff)

theorem machineOf_recognises_witness:
  "machineOf (Some (sampleStub @ samplePe @ [1, 2, 3])) True = IMAGE_FILE_MACHINE_AMD64"
proof (rule machineOf_recognises [THEN iffD2])
  show "(IMAGE_FILE_MACHINE_AMD64 = IMAGE_FILE_MACHINE_I386 \<or> IMAGE_FILE_MACHINE_AMD64 = IMAGE_FILE_MACHINE_AMD64)
    \<and> (\<exists>stub pe rest. sampleStub @ samplePe @ [1, 2, 3] = stub @ pe @ rest \<and> 64 \<le> length stub
        \<and> take 2 stub = lit ''MZ'' \<and> le32At stub 60 = length stub \<and> peHeader True IMAGE_FILE_MACHINE_AMD64 pe)"
    using samplePe_header sampleStub_length sampleStub_offset
    by (intro conjI, simp)
       (rule exI [of _ sampleStub], rule exI [of _ samplePe], rule exI [of _ "[1, 2, 3]"], simp, simp add: sampleStub_def)
qed (simp add: IMAGE_FILE_MACHINE_AMD64_def)


definition sampleNative :: native_files where
  "sampleNative = \<lparr>nfRead = (\<lambda>_. None), nfIsFile = (\<lambda>_. True), nfFileName = (\<lambda>s. s), nfSuffix = (\<lambda>s. s),
     nfCanonicalFilePath = (\<lambda>s. s), nfFromNativeSeparators = (\<lambda>s. s), nfAbsolutePath = (\<lambda>s. s),
     nfDirName = (\<lambda>s. s), nfCdUp = (\<lambda>s. s)\<rparr>"


text \<open>
  A load that succeeds was made with a payload built for the game's own architecture, into a
  process whose image is the selected game and that was alive before and after.
\<close>

theorem loadTarget_success:
  assumes "lrSuccess (loadTarget q N L executable payload)"
  shows "machineOf (nfRead N payload) True = machineOf (nfRead N executable) False
    \<and> machineOf (nfRead N payload) True \<noteq> 0
    \<and> (\<exists>wow64. ldWow64 L = Some wow64 \<and>
         (machineOf (nfRead N payload) True = IMAGE_FILE_MACHINE_I386 \<longleftrightarrow> wow64 \<or> ldSystemIntel L))
    \<and> (\<exists>queried. ldImage L = Some queried \<and> samePath q (imagePath N queried) (canonical N executable))
    \<and> ldAliveBefore L \<and> ldInjected L \<and> ldAliveAfter L"
  using assms unfolding loadTarget_def validateLaunchFiles_def Let_def
  by (auto split: if_splits option.splits)

definition sampleDisk :: native_files where
  "sampleDisk = sampleNative\<lparr>nfSuffix := (\<lambda>_. lit ''EXE''), nfRead := (\<lambda>path.
     if path = lit ''dll'' then Some (sampleStub @ samplePe) else Some (sampleStub @ take 22 samplePe @ [2, 0]))\<rparr>"

theorem loadTarget_success_witness:
  "machineOf (nfRead sampleDisk (lit ''dll'')) True = machineOf (nfRead sampleDisk (lit ''game'')) False"
proof -
  let ?L = "\<lparr>ldImage = Some (Some (lit ''game'')), ldAliveBefore = True, ldWow64 = Some False, ldSystemIntel = False,
    ldInjected = True, ldLastError = [], ldAliveAfter = True\<rparr>"
  have dll: "machineOf (Some (sampleStub @ samplePe)) True = IMAGE_FILE_MACHINE_AMD64"
    by (simp add: machineOf_def sampleStub_def samplePe_def le16At_def le32At_def lit_def nth_append
        IMAGE_FILE_MACHINE_AMD64_def IMAGE_FILE_MACHINE_I386_def Let_def bit_Suc_0_iff)
  have exe: "machineOf (Some (sampleStub @ take 22 samplePe @ [2, 0])) False = IMAGE_FILE_MACHINE_AMD64"
    by (simp add: machineOf_def sampleStub_def samplePe_def le16At_def le32At_def lit_def nth_append
        IMAGE_FILE_MACHINE_AMD64_def IMAGE_FILE_MACHINE_I386_def Let_def bit_Suc_0_iff)
  have "lrSuccess (loadTarget qtAscii sampleDisk ?L (lit ''game'') (lit ''dll''))"
    using dll exe
    by (simp add: loadTarget_def validateLaunchFiles_def sampleDisk_def sampleNative_def samePath_def sameText_def
        imagePath_def canonical_def qtAscii_simps Let_def IMAGE_FILE_MACHINE_AMD64_def IMAGE_FILE_MACHINE_I386_def)
       (simp add: lit_def)
  from loadTarget_success [OF this] show ?thesis by blast
qed

text \<open>
  The watcher that waits for the game's window stops: after at most 60 ticks it has seen the
  game exit or it closes the panel; it gives up only when the game is gone, and it closes the panel
  before the sixtieth tick only when the game shows a window of its own.
\<close>

theorem watcher_stops:
  "(60 \<le> length seen \<longrightarrow> watchRun pid seen (Watching 0) \<in> {GameExited, Closing})
    \<and> (watchRun pid seen (Watching 0) = Closing \<and> length seen < 60
        \<longrightarrow> (\<exists>(alive, windows) \<in> set seen. processWindowOpen alive windows pid))
    \<and> (watchRun pid seen (Watching 0) = GameExited
        \<longrightarrow> (\<exists>(alive, windows) \<in> set seen. \<not> processAlive alive pid))"
  using watchRun_bound [of 0 pid seen] watchRun_closing [of pid seen 0] watchRun_exited [of pid seen 0]
  by (cases "watchRun pid seen (Watching 0)") auto

theorem watcher_stops_witness:
  "watchRun 5 (replicate 60 ((\<lambda>_. True), [])) (Watching 0) \<in> {GameExited, Closing}"
  using watcher_stops [of "replicate 60 ((\<lambda>_. True), [])" 5] by simp

text \<open>
  The launcher is authorised exactly for a profile whose account, license and device are active,
  before the end of the session and, where the profile has one, of the license.
\<close>

theorem launch_needs_active_profile:
  "\<not> expired now (newLaunchController payload (launchExpiry profile)) \<longleftrightarrow>
     upAccountStatus profile = lit ''active'' \<and> upLicenseStatus profile = lit ''active''
     \<and> upDeviceStatus profile = lit ''active''
     \<and> (\<exists>session. upSessionExpiresAt profile = Some session \<and> now < 1000 * session)
     \<and> (\<forall>license. upLicenseExpiresAt profile = Some license \<longrightarrow> now < 1000 * license)"
  by (auto simp: expired_def newLaunchController_def launchExpiry_def profileActive_def Let_def
      split: option.splits if_splits)

theorem launch_needs_active_profile_witness:
  "\<not> expired 15000 (newLaunchController [] (launchExpiry (emptyProfile\<lparr>upAccountStatus := lit ''active'',
     upLicenseStatus := lit ''active'', upDeviceStatus := lit ''active'', upLicenseExpiresAt := Some 20,
     upSessionExpiresAt := Some 30\<rparr>)))"
  unfolding launch_needs_active_profile by simp

end
