(* ===== verification/SystemReaders.thy ===== *)
theory SystemReaders
  imports Prelude
begin

text \<open>
  \<open>shared/hardware/RegistryReader.cpp\<close> and \<open>shared/hardware/BiosReader.cpp\<close>. The registry and WMI
  calls are the environment. Reading past the end of a buffer is the value \<open>None\<close>; what the BIOS
  reader acquires and releases is a trace.
\<close>

section \<open>The registry\<close>

definition REG_SZ :: nat where "REG_SZ = 1"
definition REG_EXPAND_SZ :: nat where "REG_EXPAND_SZ = 2"

text \<open>
  \<open>rgSize\<close> is the first query: success, type and byte count. \<open>rgRead\<close> is the second one with a
  buffer of that many bytes: success and the bytes it wrote.
\<close>

record registry =
  rgOpen :: bool
  rgSize :: "bool \<times> nat \<times> nat"
  rgRead :: "nat \<Rightarrow> bool \<times> bytes"

text \<open>The vector of \<open>byteCount / sizeof(wchar_t) + 1\<close> zero characters with the data written over it.\<close>

definition valueBuffer :: "nat \<Rightarrow> bytes \<Rightarrow> bytes" where
  "valueBuffer byteCount written =
     written @ replicate (2 * (byteCount div 2 + 1) - length written) 0"

definition wideChar :: "byte \<Rightarrow> byte \<Rightarrow> qchar" where
  "wideChar low high = word_of_nat (unat low + 256 * unat high)"

text \<open>\<open>QString::fromWCharArray\<close> without a size: up to the terminator, which must be in the buffer.\<close>

fun wideString :: "bytes \<Rightarrow> qstring option" where
  "wideString (low # high # rest) =
     (if wideChar low high = 0 then Some [] else map_option (\<lambda>s. wideChar low high # s) (wideString rest))"
| "wideString _ = None"

definition machineGuid :: "qt \<Rightarrow> registry \<Rightarrow> qstring option" where
  "machineGuid q R =
     (if \<not> rgOpen R then Some []
      else let (sizeOk, type, byteCount) = rgSize R in
      if \<not> sizeOk \<or> (type \<noteq> REG_SZ \<and> type \<noteq> REG_EXPAND_SZ) \<or> byteCount = 0 then Some []
      else let (readOk, written) = rgRead R byteCount in
      if \<not> readOk then Some []
      else map_option (qtTrimmed q) (wideString (valueBuffer byteCount written)))"

lemma wideChar_zero [simp]: "wideChar 0 0 = 0"
  by (simp add: wideChar_def)

lemma wideString_terminated:
  assumes "length b = 2 * n" and "b ! (2 * i) = 0" and "b ! (2 * i + 1) = 0" and "i < n"
  shows "wideString b \<noteq> None"
  using assms
proof (induction b arbitrary: n i rule: wideString.induct)
  case (1 low high rest)
  show ?case
  proof (cases i)
    case 0
    with 1 show ?thesis by simp
  next
    case (Suc j)
    have "wideString rest \<noteq> None" if "wideChar low high \<noteq> 0"
      using 1(1) [OF that, of "n - 1" j] 1(2-) Suc by simp
    then show ?thesis by auto
  qed
qed auto

lemma valueBuffer_length:
  "length written \<le> byteCount \<Longrightarrow> length (valueBuffer byteCount written) = 2 * (byteCount div 2 + 1)"
  by (simp add: valueBuffer_def)

lemma valueBuffer_terminated:
  assumes "even byteCount" and "length written \<le> byteCount"
  shows "wideString (valueBuffer byteCount written) \<noteq> None"
proof (rule wideString_terminated [where i = "byteCount div 2"])
  show "length (valueBuffer byteCount written) = 2 * (byteCount div 2 + 1)"
    using assms(2) by (rule valueBuffer_length)
  have len: "length written \<le> 2 * (byteCount div 2)" using assms by simp
  then show "valueBuffer byteCount written ! (2 * (byteCount div 2)) = 0"
    "valueBuffer byteCount written ! (2 * (byteCount div 2) + 1) = 0"
    by (simp_all add: valueBuffer_def nth_append)
qed simp

text \<open>
  Reading the machine GUID stays inside its buffer when the registry value has an even number of
  bytes, whatever it contains, terminated or not.
\<close>

theorem machineGuid_in_bounds:
  assumes "even (snd (snd (rgSize R)))" and "\<And>n. length (snd (rgRead R n)) \<le> n"
  shows "machineGuid q R \<noteq> None"
  using valueBuffer_terminated [OF assms(1) assms(2)]
  by (auto simp: machineGuid_def Let_def split: prod.splits)

theorem machineGuid_in_bounds_witness:
  "\<forall>q. machineGuid q \<lparr>rgOpen = True, rgSize = (True, REG_SZ, 4), rgRead = (\<lambda>n. (True, take n [65, 0, 66, 0]))\<rparr> \<noteq> None"
  by (rule allI, rule machineGuid_in_bounds) simp_all

text \<open>
  A value with an odd number of bytes defeats the extra terminator: its last byte falls into the
  low half of the added character, and the scan for the end leaves the buffer.
\<close>

theorem machineGuid_odd_size_overruns:
  "machineGuid q \<lparr>rgOpen = True, rgSize = (True, REG_SZ, 3), rgRead = (\<lambda>n. (True, [65, 0, 66]))\<rparr> = None"
  by (simp add: machineGuid_def valueBuffer_def wideChar_def REG_SZ_def)

section \<open>The BIOS serial number\<close>

datatype com_resource =
  Apartment | Locator | NamespaceName | Services | QueryLanguage | Query | Results | Row | SerialVariant

datatype com_op = Acquire com_resource | Discard com_resource

datatype com_result = ComOk | ComChangedMode | ComFailed

text \<open>
  What the calls answer. \<open>wmNext\<close> is whether \<open>Next\<close> reported one row, and whether it gave a row at
  all; \<open>wmSerial\<close> is the text of the property when it was read and is a string.
\<close>

record wmi =
  wmInit :: com_result
  wmSecurity :: bool
  wmCreate :: bool
  wmNamespaceName :: bool
  wmConnect :: bool
  wmBlanket :: bool
  wmQueryLanguage :: bool
  wmQuery :: bool
  wmExec :: bool
  wmNext :: "bool \<times> bool"
  wmSerial :: "qstring option"

text \<open>A scope guard: what it holds is released when the scope ends, on every path.\<close>

definition scoped :: "com_resource \<Rightarrow> bool \<Rightarrow> qstring \<times> com_op list \<Rightarrow> qstring \<times> com_op list" where
  "scoped r held body =
     (fst body, (if held then [Acquire r] else []) @ snd body @ (if held then [Discard r] else []))"

definition readRow :: "qt \<Rightarrow> wmi \<Rightarrow> qstring \<times> com_op list" where
  "readRow q B =
     (let (oneRow, gotRow) = wmNext B in
      if \<not> oneRow \<or> \<not> gotRow
      then ([], if gotRow then [Acquire Row, Discard Row] else [])
      else (case wmSerial B of Some text \<Rightarrow> qtTrimmed q text | None \<Rightarrow> [],
        [Acquire Row, Acquire SerialVariant, Discard Row, Discard SerialVariant]))"

definition serialNumber :: "qt \<Rightarrow> wmi \<Rightarrow> qstring \<times> com_op list" where
  "serialNumber q B =
     scoped Apartment (wmInit B = ComOk)
       (if wmInit B = ComFailed then ([], [])
        else if \<not> wmSecurity B then ([], [])
        else scoped Locator (wmCreate B)
          (if \<not> wmCreate B then ([], [])
           else scoped NamespaceName (wmNamespaceName B)
             (if \<not> wmNamespaceName B then ([], [])
              else scoped Services (wmConnect B)
                (if \<not> wmConnect B then ([], [])
                 else if \<not> wmBlanket B then ([], [])
                 else scoped QueryLanguage (wmQueryLanguage B)
                   (scoped Query (wmQuery B)
                     (if \<not> wmQueryLanguage B \<or> \<not> wmQuery B then ([], [])
                      else scoped Results (wmExec B)
                        (if \<not> wmExec B then ([], []) else readRow q B)))))))"

text \<open>Nothing is released that is not held, and nothing is held at the end.\<close>

fun balancedFrom :: "com_resource list \<Rightarrow> com_op list \<Rightarrow> bool" where
  "balancedFrom held [] = (held = [])"
| "balancedFrom held (Acquire r # ops) = (r \<notin> set held \<and> balancedFrom (r # held) ops)"
| "balancedFrom held (Discard r # ops) = (r \<in> set held \<and> balancedFrom (remove1 r held) ops)"

text \<open>
  Reading the BIOS serial number releases every COM object, string and apartment reference it
  acquired exactly once, on every one of its paths.
\<close>

theorem serialNumber_releases:
  "balancedFrom [] (snd (serialNumber q B))"
  unfolding serialNumber_def readRow_def scoped_def
  by (simp add: split_beta Let_def)

text \<open>A serial number is reported only when every step succeeded, and then it is the trimmed text.\<close>

lemma serialNumber_value:
  "fst (serialNumber q B) \<noteq> [] \<Longrightarrow> wmExec B \<and> wmNext B = (True, True)
     \<and> (\<exists>text. wmSerial B = Some text \<and> fst (serialNumber q B) = qtTrimmed q text)"
  by (auto simp: serialNumber_def scoped_def readRow_def split: if_splits option.splits prod.splits)

end
