(* ===== verification/LaunchPanel.thy ===== *)
theory LaunchPanel
  imports NativeLaunch
begin

text \<open>
  \<open>license-client/src/launcher/LaunchPanel.cpp\<close>: the panel that shows the launch controller and closes
  itself once the game runs. The widgets are the fields of a record; a button can be clicked when it is
  shown, enabled and not behind the file dialog, whose own event loop delivers the other events.
\<close>

section \<open>State\<close>

text \<open>The range of the progress bar starts at 0. \<open>lpClosing\<close> counts the shots of 2500 ms under way.\<close>

record LaunchPanel =
  lpController :: LaunchController
  lpTitle :: qstring
  lpPath :: qstring
  lpSelectText :: qstring
  lpSelectEnabled :: bool
  lpCancelVisible :: bool
  lpMaximum :: int
  lpProgress :: int
  lpStatus :: qstring
  lpStatusFailed :: bool
  lpLastDir :: qstring
  lpDialog :: bool
  lpWatchers :: "(32 word \<times> nat) list"
  lpClosing :: nat

datatype panel_effect =
    Controller launch_effect
  | DialogOpened qstring
  | PanelCompleted

type_synonym panel_handler = "LaunchPanel \<Rightarrow> LaunchPanel \<times> panel_effect list"

section \<open>Showing the controller\<close>

text \<open>\<open>QProgressBar::setRange\<close> and \<open>setValue\<close>: a value outside a new range is reset to one below it.\<close>

definition setRange :: "int \<Rightarrow> LaunchPanel \<Rightarrow> LaunchPanel" where
  "setRange maximum p =
     (let p = p\<lparr>lpMaximum := maximum\<rparr> in
      if lpProgress p < - 1 \<or> lpProgress p > maximum then p\<lparr>lpProgress := - 1\<rparr> else p)"

definition setProgress :: "int \<Rightarrow> LaunchPanel \<Rightarrow> LaunchPanel" where
  "setProgress v p = (if (v > lpMaximum p \<or> v < 0) \<and> lpMaximum p \<noteq> 0 then p else p\<lparr>lpProgress := v\<rparr>)"

definition refresh :: "LaunchState \<Rightarrow> qstring \<Rightarrow> LaunchPanel \<Rightarrow> LaunchPanel" where
  "refresh state message p =
     (let busy = state = Launching \<or> state = Waiting \<or> state = Loading;
          p = p\<lparr>lpSelectEnabled := state \<noteq> Loading \<and> state \<noteq> Succeeded\<rparr>;
          p = p\<lparr>lpCancelVisible := state = Waiting\<rparr>;
          p = setRange (if busy then 0 else 1) p;
          p = (if \<not> busy then setProgress (if state = Succeeded then 1 else 0) p else p);
          p = p\<lparr>lpStatus := message\<rparr>
      in p\<lparr>lpStatusFailed := state = LaunchFailed\<rparr>)"

definition newLaunchPanel :: "qstring \<Rightarrow> qstring \<Rightarrow> int option \<Rightarrow> LaunchPanel" where
  "newLaunchPanel payloadPath lastDir expiry =
     (let p = \<lparr>lpController = newLaunchController payloadPath expiry, lpTitle = lit ''Select a game'', lpPath = [],
            lpSelectText = lit ''Choose EXE'', lpSelectEnabled = True, lpCancelVisible = True, lpMaximum = 1,
            lpProgress = 0, lpStatus = [], lpStatusFailed = False, lpLastDir = lastDir, lpDialog = False,
            lpWatchers = [], lpClosing = 0\<rparr>
      in refresh (lcState (lpController p)) (lcMessage (lpController p)) p)"

text \<open>The slot of the controller's \<open>completed\<close>; \<open>alive\<close> is what the system says of the process.\<close>

definition launchCompleted :: "(32 word \<Rightarrow> bool) \<Rightarrow> panel_handler" where
  "launchCompleted alive p =
     (let pid = lcSucceededPid (lpController p) in
      case onLaunchCompleted alive pid of
        Watching waits \<Rightarrow> (p\<lparr>lpStatus := lit ''Loaded successfully. Waiting for the game to open...'',
            lpWatchers := lpWatchers p @ [(pid, waits)]\<rparr>, [])
      | _ \<Rightarrow> (p, [PanelCompleted]))"

text \<open>
  The signals of the controller reach the panel while a slot of the controller runs. Only the text of the
  last one can be seen, so the message is that of the controller after the slot.
\<close>

fun react :: "(32 word \<Rightarrow> bool) \<Rightarrow> launch_effect list \<Rightarrow> panel_handler" where
  "react alive [] p = (p, [])"
| "react alive (e # es) p =
     (let (p, out) = (case e of
            Changed state \<Rightarrow> (refresh state (lcMessage (lpController p)) p, [])
          | CompletedSignal \<Rightarrow> launchCompleted alive p
          | _ \<Rightarrow> (p, []));
          (p, out') = react alive es p
      in (p, Controller e # out @ out'))"

definition drive :: "(32 word \<Rightarrow> bool) \<Rightarrow> launch_handler \<Rightarrow> panel_handler" where
  "drive alive handler p =
     (let (c, es) = handler (lpController p) in react alive es (p\<lparr>lpController := c\<rparr>))"

section \<open>The buttons and the watcher\<close>

text \<open>The slot of the select button, up to the file dialog.\<close>

definition selectClicked :: "(32 word \<Rightarrow> bool) \<Rightarrow> (qstring \<Rightarrow> bool) \<Rightarrow> qstring \<Rightarrow> panel_handler" where
  "selectClicked alive dirExists home p =
     (let (p, out) = drive alive cancel p;
          startDir = (if lpLastDir p \<noteq> [] \<and> dirExists (lpLastDir p) then lpLastDir p else home)
      in (p\<lparr>lpDialog := True\<rparr>, out @ [DialogOpened startDir]))"

text \<open>The rest of the slot; an empty name is a dialog that was closed.\<close>

definition fileSelected ::
    "qt \<Rightarrow> file_info \<Rightarrow> native_files \<Rightarrow> (32 word \<Rightarrow> bool) \<Rightarrow> launch_world \<Rightarrow> launch_world \<Rightarrow> qstring \<Rightarrow> panel_handler" where
  "fileSelected q F N alive W W' selected p =
     (let p = p\<lparr>lpDialog := False\<rparr> in
      if selected = [] then (p, [])
      else let absolute = nfCanonicalFilePath N selected;
               p = p\<lparr>lpLastDir := nfAbsolutePath N absolute\<rparr>;
               p = p\<lparr>lpTitle := fiCompleteBaseName F absolute\<rparr>;
               p = p\<lparr>lpPath := absolute\<rparr>;
               p = p\<lparr>lpSelectText := lit ''Change''\<rparr>
           in drive alive (startLaunch q F W W' absolute) p)"

text \<open>A tick of a watcher; one that has stopped is deleted.\<close>

definition watcherTicks :: "nat \<Rightarrow> (32 word \<Rightarrow> bool) \<Rightarrow> window_entry list \<Rightarrow> panel_handler" where
  "watcherTicks i alive windows p =
     (if i \<ge> length (lpWatchers p) then (p, [])
      else let (pid, waits) = lpWatchers p ! i;
               others = take i (lpWatchers p) @ drop (i + 1) (lpWatchers p) in
      case watchTick pid alive windows (Watching waits) of
        Watching waits \<Rightarrow> (p\<lparr>lpWatchers := (lpWatchers p)[i := (pid, waits)]\<rparr>, [])
      | GameExited \<Rightarrow> (p\<lparr>lpWatchers := others, lpStatus := lit ''The game exited before opening.'',
            lpStatusFailed := True\<rparr>, [])
      | Closing \<Rightarrow> (p\<lparr>lpWatchers := others, lpStatus := lit ''Game is running. Closing StarLoader...'',
            lpClosing := lpClosing p + 1\<rparr>, []))"

definition closingShot :: panel_handler where
  "closingShot p = (if lpClosing p = 0 then (p, []) else (p\<lparr>lpClosing := lpClosing p - 1\<rparr>, [PanelCompleted]))"

definition stopPanel :: panel_handler where
  "stopPanel = drive (\<lambda>_. False) cancel"

section \<open>Events\<close>

datatype panel_event =
    CancelButton
  | SelectButton "qstring \<Rightarrow> bool" qstring
  | DialogClosed launch_world launch_world qstring
  | PollTick launch_world
  | WorkerThread launch_event
  | WorkerDone int "32 word \<Rightarrow> bool"
  | WatcherTick nat "32 word \<Rightarrow> bool" "window_entry list"
  | ClosingShot
  | StopCalled

text \<open>
  What the pool's thread does: \<open>WorkerBegins\<close> and \<open>LoadReturns\<close>. Only the finished worker makes the
  controller signal its completion (\<open>signals_step\<close>), so only \<open>WorkerDone\<close> says which processes live.
\<close>

fun poolEvent :: "launch_event \<Rightarrow> bool" where
  "poolEvent (WorkerBegins now) = True"
| "poolEvent (LoadReturns outcome) = True"
| "poolEvent _ = False"

fun panelStep :: "qt \<Rightarrow> file_info \<Rightarrow> native_files \<Rightarrow> panel_event \<Rightarrow> panel_handler" where
  "panelStep q F N CancelButton p =
     (if lpCancelVisible p \<and> \<not> lpDialog p then drive (\<lambda>_. False) (launchStep q F CancelClicked) p else (p, []))"
| "panelStep q F N (SelectButton dirExists home) p =
     (if lpSelectEnabled p \<and> \<not> lpDialog p then selectClicked (\<lambda>_. False) dirExists home p else (p, []))"
| "panelStep q F N (DialogClosed W W' selected) p =
     (if lpDialog p then fileSelected q F N (\<lambda>_. False) W W' selected p else (p, []))"
| "panelStep q F N (PollTick W) p = drive (\<lambda>_. False) (launchStep q F (TimerTick W)) p"
| "panelStep q F N (WorkerThread ev) p = (if poolEvent ev then drive (\<lambda>_. False) (launchStep q F ev) p else (p, []))"
| "panelStep q F N (WorkerDone now alive) p = drive alive (launchStep q F (WorkerFinished now)) p"
| "panelStep q F N (WatcherTick i alive windows) p = watcherTicks i alive windows p"
| "panelStep q F N ClosingShot p = closingShot p"
| "panelStep q F N StopCalled p = stopPanel p"

fun panelRun :: "qt \<Rightarrow> file_info \<Rightarrow> native_files \<Rightarrow> panel_event list \<Rightarrow> panel_handler" where
  "panelRun q F N [] p = (p, [])"
| "panelRun q F N (ev # evs) p =
     (let (p, out) = panelStep q F N ev p; (p, out') = panelRun q F N evs p in (p, out @ out'))"

section \<open>What the controller signals\<close>

fun lastChanged :: "launch_effect list \<Rightarrow> LaunchState option" where
  "lastChanged [] = None"
| "lastChanged (e # es) = (case lastChanged es of Some st \<Rightarrow> Some st
     | None \<Rightarrow> (case e of Changed st \<Rightarrow> Some st | _ \<Rightarrow> None))"

lemma lastChanged_append: "lastChanged (es @ es') = (case lastChanged es' of None \<Rightarrow> lastChanged es | Some st \<Rightarrow> Some st)"
  by (induction es) (auto split: option.splits)

text \<open>
  A slot signals every change of what the panel shows: with no signal the state and the message are those
  of before, else the last signal tells the new state. None tells of success.
\<close>

definition signals :: "LaunchController \<Rightarrow> LaunchController \<times> launch_effect list \<Rightarrow> bool" where
  "signals s r \<longleftrightarrow> (case lastChanged (snd r) of None \<Rightarrow> lcState (fst r) = lcState s \<and> lcMessage (fst r) = lcMessage s
       | Some st \<Rightarrow> lcState (fst r) = st)
     \<and> CompletedSignal \<notin> set (snd r) \<and> Changed Succeeded \<notin> set (snd r)"

lemma signals_same: "lcState t = lcState s \<Longrightarrow> lcMessage t = lcMessage s \<Longrightarrow> signals s (t, [])"
  by (simp add: signals_def)

lemma signals_transition: "st \<noteq> Succeeded \<Longrightarrow> signals s (launchTransition st m t)"
  by (simp add: signals_def launchTransition_def)

lemma signals_trans: "signals s (t, es) \<Longrightarrow> signals t (u, es') \<Longrightarrow> signals s (u, es @ es')"
  by (auto simp: signals_def lastChanged_append split: option.splits)

lemma signals_cong: "lcState s = lcState t \<Longrightarrow> lcMessage s = lcMessage t \<Longrightarrow> signals s r = signals t r"
  by (simp add: signals_def split: option.split)

lemma signals_stop: "signals s (stopOwnedProcess s)"
  by (simp add: signals_def stopOwnedProcess_state)

lemma signals_cancel: "signals s (cancel s)"
  by (auto simp: signals_def cancel_state stopOwnedProcess_state)

lemma lastChanged_idle: "set es \<subseteq> {EmptyFunctionCalled} \<Longrightarrow> lastChanged es = None"
  by (induction es) auto

lemma signals_poll: "signals s (poll F W s)"
proof (cases rule: poll_cases [of W s F])
  case expiry
  then show ?thesis by (simp add: signals_cancel)
next
  case (idle es)
  then show ?thesis using lastChanged_idle [OF idle(2)] by (auto simp: signals_def)
qed (simp_all add: signals_def)

lemma signals_startWaiting: "signals s (startWaiting F W m t)"
proof -
  let ?t = "t\<lparr>lcState := Waiting, lcMessage := m, lcTimer := True\<rparr>"
  have "signals s (?t, [Changed Waiting])" by (simp add: signals_def)
  from signals_trans [OF this, of "fst (poll F W ?t)" "snd (poll F W ?t)"] show ?thesis
    by (simp add: signals_poll startWaiting_def launchTransition_def Let_def case_prod_unfold)
qed

lemma signals_first: "lcState u = st \<Longrightarrow> st \<noteq> Succeeded \<Longrightarrow> signals u r \<Longrightarrow> signals s (fst r, [Changed st] @ snd r)"
  by (rule signals_trans [of _ u]) (simp_all add: signals_def)

lemma signals_launchOwn: "signals s (launchOwn q F W launch x t)"
  unfolding launchOwn_def Let_def launchTransition_def case_prod_unfold fst_conv snd_conv
  by (rule signals_first [where u = "t\<lparr>lcState := Launching\<rparr>"])
     (auto intro: signals_startWaiting simp: signals_def [of _ "(_, [Changed LaunchFailed])"])

lemma signals_findOrLaunch: "signals s (findOrLaunch q F W W' x t)"
  by (auto simp: findOrLaunch_def Let_def intro!: signals_transition signals_startWaiting signals_launchOwn split: option.split)

lemma signals_start: "signals s (startLaunch q F W W' x s)"
proof -
  have trans: "signals s (fst r, snd (stopOwnedProcess s) @ snd r)" if "\<And>t. signals t r" for r
    using signals_trans [of s "fst (stopOwnedProcess s)" "snd (stopOwnedProcess s)" "fst r" "snd r"] signals_stop [of s] that by simp
  show ?thesis
    unfolding startLaunch_def Let_def case_prod_unfold
    by (simp add: signals_same trans signals_transition signals_findOrLaunch)
qed

lemma signals_step: "(\<And>now. ev \<noteq> WorkerFinished now) \<Longrightarrow> signals s (launchStep q F ev s)"
  by (cases ev) (auto simp: signals_start signals_cancel signals_poll workerBegins_def loadReturns_def signals_def [of _ "(_, [CallLoad _ _ _])"]
      intro: signals_same split: worker.split option.split)

text \<open>The finished signal of the worker: what it signals, or the success.\<close>

lemma workerFinished_signals:
  obtains (quiet) "signals s (workerFinished now s)"
  | (success) t where "lcState s = Loading" "workerFinished now s = (t, [Changed Succeeded, CompletedSignal])" "lcState t = Succeeded"
proof (cases "lcWorker s")
  case (Done result)
  have cancel: "signals s (cancel (s\<lparr>lcWorker := NoWorker\<rparr>))"
    using signals_cancel [of "s\<lparr>lcWorker := NoWorker\<rparr>"] by (simp add: signals_cong [of s "s\<lparr>lcWorker := NoWorker\<rparr>"])
  show thesis
  proof (cases "lcState s = Loading \<and> lcFlag s \<notin> lcCancelledFlags s \<and> \<not> expired now s \<and> lrSuccess result")
    case True
    then show thesis using Done
      by (intro success) (auto simp: workerFinished_def launchTransition_def expired_def Let_def)
  next
    case False
    then show thesis using Done cancel
      by (intro quiet) (auto simp: workerFinished_def Let_def expired_def signals_same intro!: signals_transition signals_cancel)
  qed
qed (auto simp: workerFinished_def intro: quiet signals_same)

section \<open>What the panel shows\<close>

definition busyState :: "LaunchState \<Rightarrow> bool" where
  "busyState st \<longleftrightarrow> st \<in> {Launching, Waiting, Loading}"

definition panelShows :: "LaunchPanel \<Rightarrow> bool" where
  "panelShows p \<longleftrightarrow> (let c = lpController p; st = lcState c in
     lpSelectEnabled p = (st \<notin> {Loading, Succeeded}) \<and> lpCancelVisible p = (st = Waiting)
     \<and> lpMaximum p = (if busyState st then 0 else 1) \<and> lpProgress p = (if st = Succeeded then 1 else 0)
     \<and> (st \<noteq> Succeeded \<longrightarrow> lpStatus p = lcMessage c \<and> lpStatusFailed p = (st = LaunchFailed)))"

lemma refresh_state:
  "lpProgress p = 0 \<Longrightarrow> refresh st m p = p\<lparr>lpSelectEnabled := st \<notin> {Loading, Succeeded}, lpCancelVisible := (st = Waiting),
     lpMaximum := (if busyState st then 0 else 1), lpProgress := (if st = Succeeded then 1 else 0), lpStatus := m,
     lpStatusFailed := (st = LaunchFailed)\<rparr>"
  by (cases st) (simp_all add: refresh_def setRange_def setProgress_def busyState_def Let_def)

lemma refresh_shows: "lpProgress p = 0 \<Longrightarrow> panelShows (refresh (lcState (lpController p)) (lcMessage (lpController p)) p)"
  by (auto simp: refresh_state panelShows_def Let_def)

definition refreshed :: "LaunchState option \<Rightarrow> LaunchPanel \<Rightarrow> LaunchPanel" where
  "refreshed latest p = (case latest of None \<Rightarrow> p | Some st \<Rightarrow> refresh st (lcMessage (lpController p)) p)"

lemma lastChanged_in: "lastChanged es = Some st \<Longrightarrow> Changed st \<in> set es"
  by (induction es) (auto split: option.splits launch_effect.splits)

lemma react_quiet:
  "CompletedSignal \<notin> set es \<Longrightarrow> Changed Succeeded \<notin> set es \<Longrightarrow> lpProgress p = 0
    \<Longrightarrow> react alive es p = (refreshed (lastChanged es) p, map Controller es)"
proof (induction es arbitrary: p)
  case (Cons e es)
  show ?case
  proof (cases "\<exists>st. e = Changed st")
    case True
    then obtain st where e: "e = Changed st" by blast
    let ?p = "refresh st (lcMessage (lpController p)) p"
    have st: "st \<noteq> Succeeded" using Cons.prems(2) e by auto
    then have "react alive es ?p = (refreshed (lastChanged es) ?p, map Controller es)"
      using Cons.prems by (intro Cons.IH) (auto simp: refresh_state)
    moreover have "refreshed (lastChanged es) ?p = refreshed (lastChanged (e # es)) p"
      using st Cons.prems(3) by (cases "lastChanged es") (simp_all add: refreshed_def e refresh_state)
    ultimately show ?thesis by (simp add: e)
  next
    case False
    then show ?thesis using Cons by (cases e) (auto split: option.split simp: refreshed_def)
  qed
qed (simp add: refreshed_def)

text \<open>A slot of the controller that signals no success.\<close>

lemma drive_quiet:
  assumes "signals (lpController p) (h (lpController p))" and "panelShows p" and "lcState (lpController p) \<noteq> Succeeded"
  obtains p' where "drive alive h p = (p', map Controller (snd (h (lpController p))))" "panelShows p'"
    "lpController p' = fst (h (lpController p))" "lcState (lpController p') \<noteq> Succeeded"
    "lpWatchers p' = lpWatchers p" "lpClosing p' = lpClosing p" "lpDialog p' = lpDialog p"
proof -
  obtain c es where h: "h (lpController p) = (c, es)" by fastforce
  let ?p = "p\<lparr>lpController := c\<rparr>"
  have p0: "lpProgress p = 0" using assms by (simp add: panelShows_def Let_def)
  have quiet: "CompletedSignal \<notin> set es" "Changed Succeeded \<notin> set es"
    and last: "case lastChanged es of None \<Rightarrow> lcState c = lcState (lpController p) \<and> lcMessage c = lcMessage (lpController p)
       | Some st \<Rightarrow> lcState c = st"
    using assms(1) by (simp_all add: signals_def h split: option.splits)
  have drive: "drive alive h p = (refreshed (lastChanged es) ?p, map Controller es)"
    using react_quiet [OF quiet, of ?p alive] p0 by (simp add: drive_def h)
  show thesis
  proof (cases "lastChanged es")
    case None
    then show ?thesis using drive last assms(2,3)
      by (intro that [of ?p]) (simp_all add: refreshed_def h panelShows_def Let_def)
  next
    case (Some st)
    then have "st \<noteq> Succeeded" using lastChanged_in quiet(2) by fastforce
    with Some show ?thesis using drive last p0 refresh_shows [of ?p]
      by (intro that [of "refresh st (lcMessage c) ?p"]) (simp_all add: refreshed_def h refresh_state)
  qed
qed

section \<open>The invariant\<close>

abbreviation completions :: "panel_effect list \<Rightarrow> nat" where
  "completions out \<equiv> length (filter (\<lambda>e. e = PanelCompleted) out)"

lemma no_completions [simp]: "completions (map Controller es) = 0"
  by (induction es) simp_all

text \<open>\<open>n\<close> completions were signalled so far.\<close>

definition panelInv :: "nat \<Rightarrow> LaunchPanel \<Rightarrow> bool" where
  "panelInv n p \<longleftrightarrow> launchInv (lpController p) \<and> panelShows p
     \<and> n + length (lpWatchers p) + lpClosing p \<le> (if lcState (lpController p) = Succeeded then 1 else 0)
     \<and> (\<forall>(pid, waits) \<in> set (lpWatchers p). pid = lcSucceededPid (lpController p) \<and> waits < 60)"

lemma panelInvD:
  assumes "panelInv n p"
  shows "launchInv (lpController p)" "panelShows p"
    "n + length (lpWatchers p) + lpClosing p \<le> (if lcState (lpController p) = Succeeded then 1 else 0)"
  using assms by (simp_all add: panelInv_def)

lemma panelInv_new: "panelInv 0 (newLaunchPanel payloadPath lastDir expiry)"
proof -
  let ?c = "newLaunchController payloadPath expiry"
  show ?thesis
    using launchInv_new [of payloadPath expiry]
    by (simp add: panelInv_def newLaunchPanel_def Let_def refresh_state) (simp add: newLaunchController_def panelShows_def busyState_def)
qed

text \<open>A step of the controller that does not finish the worker, as the panel sees it.\<close>

lemma panelInv_drive:
  assumes inv: "panelInv n p" and quiet: "lcState (lpController p) \<noteq> Succeeded \<Longrightarrow> signals (lpController p) (launchStep q F ev (lpController p))"
    and "drive alive (launchStep q F ev) p = (p', out)"
  shows "panelInv (n + completions out) p' \<and> lpDialog p' = lpDialog p
    \<and> out = map Controller (snd (launchStep q F ev (lpController p)))"
proof (cases "lcState (lpController p) = Succeeded")
  case True
  note same = succeeded_step [OF panelInvD(1) [OF inv] True, of q F ev]
  obtain c es where step: "launchStep q F ev (lpController p) = (c, es)" by fastforce
  have "p' = p\<lparr>lpController := c\<rparr>" "out = []"
    using assms(3) same by (simp_all add: drive_def step)
  moreover have "launchInv c" using launchInv_step [OF panelInvD(1) [OF inv], of q F ev] by (simp add: step)
  ultimately show ?thesis
    using inv same True by (auto simp: panelInv_def panelShows_def step)
next
  case False
  from drive_quiet [of p "launchStep q F ev" alive, OF quiet [OF False] panelInvD(2) [OF inv] False]
  obtain p'' where p'': "drive alive (launchStep q F ev) p = (p'', map Controller (snd (launchStep q F ev (lpController p))))"
    "panelShows p''" "lpController p'' = fst (launchStep q F ev (lpController p))" "lcState (lpController p'') \<noteq> Succeeded"
    "lpWatchers p'' = lpWatchers p" "lpClosing p'' = lpClosing p" "lpDialog p'' = lpDialog p" by blast
  then have eqs: "p' = p''" "out = map Controller (snd (launchStep q F ev (lpController p)))" using assms(3) by simp_all
  have "launchInv (lpController p'')" using launchInv_step [OF panelInvD(1) [OF inv], of q F ev] p''(3) by simp
  then show ?thesis
    using inv False p'' unfolding eqs panelInv_def by auto
qed

lemma panelInv_done:
  assumes inv: "panelInv n p" and step: "drive alive (launchStep q F (WorkerFinished now)) p = (p', out)"
  shows "panelInv (n + completions out) p'"
proof (cases rule: workerFinished_signals [of "lpController p" now])
  case quiet
  then show ?thesis using panelInv_drive [OF inv _ step, THEN conjunct1] by simp
next
  case (success t)
  have p0: "lpProgress p = 0" "n = 0" "lpWatchers p = []" "lpClosing p = 0"
    using inv success(1) by (simp_all add: panelInv_def panelShows_def Let_def)
  have t: "launchInv t" using launchInv_step [OF panelInvD(1) [OF inv], of q F "WorkerFinished now"] by (simp add: success)
  let ?p = "refresh Succeeded (lcMessage t) (p\<lparr>lpController := t\<rparr>)"
  have "panelShows ?p" using refresh_shows [of "p\<lparr>lpController := t\<rparr>"] p0 by (simp add: success)
  moreover have out: "drive alive (launchStep q F (WorkerFinished now)) p
      = (let (p, o1) = launchCompleted alive ?p in (p, Controller (Changed Succeeded) # Controller CompletedSignal # o1))"
    by (simp add: drive_def success case_prod_unfold Let_def)
  ultimately show ?thesis
    using step p0 t success(3) unfolding out
    by (auto simp: launchCompleted_def onLaunchCompleted_def panelInv_def refresh_state panelShows_def Let_def split: if_splits)
qed

lemma startLaunch_step: "startLaunch q F W W' x = launchStep q F (Start W W' x)"
  by (rule ext) simp

lemma cancel_step: "cancel = launchStep q F CancelClicked"
  by (rule ext) simp

lemma panelInv_quiet:
  assumes "panelInv n p" and "\<And>now. ev \<noteq> WorkerFinished now" and "drive alive (launchStep q F ev) p = (p', out)"
  shows "panelInv (n + completions out) p'"
  using panelInv_drive [OF assms(1) signals_step [OF assms(2)] assms(3), THEN conjunct1] by simp

lemma panelInv_cong:
  assumes "panelInv n p" and "lpController p' = lpController p" "lpSelectEnabled p' = lpSelectEnabled p"
    "lpCancelVisible p' = lpCancelVisible p" "lpMaximum p' = lpMaximum p" "lpProgress p' = lpProgress p" "lpStatus p' = lpStatus p"
    "lpStatusFailed p' = lpStatusFailed p" "lpWatchers p' = lpWatchers p" "lpClosing p' = lpClosing p"
  shows "panelInv n p'"
  using assms by (simp add: panelInv_def panelShows_def)

lemma panelInv_dialog [simp]: "panelInv n (p\<lparr>lpDialog := b\<rparr>) = panelInv n p"
  by (simp add: panelInv_def panelShows_def)

lemma panelShows_closing [simp]: "panelShows (p\<lparr>lpClosing := k\<rparr>) = panelShows p"
  by (simp add: panelShows_def)

lemma panelInv_watcher:
  assumes inv: "panelInv n p" and "watcherTicks i alive windows p = (p', out)"
  shows "panelInv (n + completions out) p'"
proof (cases "i < length (lpWatchers p)")
  case True
  then obtain pid waits where w: "lpWatchers p = [(pid, waits)]" "i = 0" "lcState (lpController p) = Succeeded" "n = 0" "lpClosing p = 0"
    "pid = lcSucceededPid (lpController p)" "waits < 60"
    using inv by (cases "lpWatchers p") (auto simp: panelInv_def split: if_splits)
  have ticks: "watcherTicks i alive windows p = (case watchTick pid alive windows (Watching waits) of
      Watching waits \<Rightarrow> (p\<lparr>lpWatchers := [(pid, waits)]\<rparr>, [])
    | GameExited \<Rightarrow> (p\<lparr>lpWatchers := [], lpStatus := lit ''The game exited before opening.'', lpStatusFailed := True\<rparr>, [])
    | Closing \<Rightarrow> (p\<lparr>lpWatchers := [], lpStatus := lit ''Game is running. Closing StarLoader...'', lpClosing := 1\<rparr>, []))"
    using w by (simp add: watcherTicks_def del: watchTick.simps cong: watch.case_cong)
  show ?thesis
  proof (cases "watchTick pid alive windows (Watching waits)")
    case (Watching k)
    then have "k < 60" by (auto simp: Let_def split: if_splits)
    then show ?thesis
      using assms w ticks Watching by (auto simp: panelInv_def panelShows_def Let_def)
  qed (use assms w ticks in \<open>auto simp: panelInv_def panelShows_def Let_def\<close>)
qed (use assms in \<open>simp add: watcherTicks_def\<close>)

lemma panelInv_step:
  assumes inv: "panelInv n p" and step: "panelStep q F N ev p = (p', out)"
  shows "panelInv (n + completions out) p'"
proof (cases ev)
  case (SelectButton dirExists home)
  obtain p1 o1 where d: "drive (\<lambda>_. False) cancel p = (p1, o1)" by fastforce
  have "panelInv (n + completions o1) p1"
    using panelInv_quiet [OF inv, of CancelClicked "\<lambda>_. False" q F p1 o1] d by (simp flip: cancel_step)
  then show ?thesis
    using inv step SelectButton by (auto simp: selectClicked_def d split: if_splits)
next
  case (DialogClosed W W' selected)
  show ?thesis
  proof (cases "lpDialog p \<and> selected \<noteq> []")
    case True
    let ?x = "nfCanonicalFilePath N selected"
    let ?p = "p\<lparr>lpDialog := False, lpLastDir := nfAbsolutePath N ?x, lpTitle := fiCompleteBaseName F ?x, lpPath := ?x,
      lpSelectText := lit ''Change''\<rparr>"
    have p: "panelInv n ?p" by (rule panelInv_cong [OF inv]) simp_all
    have "drive (\<lambda>_. False) (launchStep q F (Start W W' ?x)) ?p = (p', out)"
      using step True by (simp add: DialogClosed fileSelected_def Let_def startLaunch_step)
    then show ?thesis by (rule panelInv_quiet [OF p, rotated]) simp
  next
    case False
    then show ?thesis
      using inv step by (auto simp: DialogClosed fileSelected_def split: if_splits)
  qed
next
  case CancelButton
  then show ?thesis using inv step panelInv_quiet [OF inv, of CancelClicked] by (simp split: if_splits)
next
  case (PollTick W)
  then show ?thesis using panelInv_quiet [OF inv, of "TimerTick W"] step by simp
next
  case (WorkerThread e)
  then show ?thesis using inv step panelInv_quiet [OF inv, of e] by (cases e) (simp_all split: if_splits)
next
  case (WorkerDone now alive)
  then show ?thesis using panelInv_done [OF inv] step by simp
next
  case (WatcherTick i alive windows)
  then show ?thesis using panelInv_watcher [OF inv] step by simp
next
  case ClosingShot
  then show ?thesis
    using inv step by (cases "lpWatchers p") (auto simp: closingShot_def panelInv_def split: if_splits)
next
  case StopCalled
  then show ?thesis using panelInv_quiet [OF inv, of CancelClicked "\<lambda>_. False" q F p' out] step
    by (simp add: stopPanel_def flip: cancel_step)
qed

lemma panelInv_run: "panelInv n p \<Longrightarrow> panelRun q F N evs p = (p', out) \<Longrightarrow> panelInv (n + completions out) p'"
proof (induction evs arbitrary: n p p' out)
  case (Cons ev evs)
  obtain p1 o1 where step: "panelStep q F N ev p = (p1, o1)" by fastforce
  obtain p2 o2 where run: "panelRun q F N evs p1 = (p2, o2)" by fastforce
  have "panelInv (n + completions o1 + completions o2) p2"
    by (rule Cons.IH [OF panelInv_step [OF Cons.prems(1) step] run])
  then show ?case using Cons.prems(2) by (auto simp: step run add.assoc)
qed simp

section \<open>Properties\<close>

text \<open>
  Whatever happens to the panel, what it shows is the state of its controller: the select button is
  enabled except while loading and after a success, the cancel button is visible exactly while
  waiting, the bar is busy exactly while something is under way and full exactly after a success, and
  until then the text is the controller's message, in the colour of an error exactly after a failure.
\<close>

theorem panel_shows_controller:
  assumes "panelRun q F N evs (newLaunchPanel payloadPath lastDir expiry) = (p, out)"
  shows "lpSelectEnabled p \<longleftrightarrow> lcState (lpController p) \<notin> {Loading, Succeeded}"
    and "lpCancelVisible p \<longleftrightarrow> lcState (lpController p) = Waiting"
    and "lpMaximum p = (if lcState (lpController p) \<in> {Launching, Waiting, Loading} then 0 else 1)"
    and "lpProgress p = (if lcState (lpController p) = Succeeded then 1 else 0)"
    and "lcState (lpController p) \<noteq> Succeeded \<Longrightarrow> lpStatus p = lcMessage (lpController p)
      \<and> (lpStatusFailed p \<longleftrightarrow> lcState (lpController p) = LaunchFailed)"
  using panelInvD(2) [OF panelInv_run [OF panelInv_new assms]] by (simp_all add: panelShows_def busyState_def Let_def)

text \<open>A run in which the game is selected, started, found and loaded, opens its window and closes the panel.\<close>

definition sampleNative :: native_files where
  "sampleNative = \<lparr>nfRead = (\<lambda>_. None), nfIsFile = (\<lambda>_. True), nfFileName = (\<lambda>s. s), nfSuffix = (\<lambda>_. []),
     nfCanonicalFilePath = (\<lambda>s. s), nfFromNativeSeparators = (\<lambda>s. s), nfAbsolutePath = (\<lambda>_. lit ''games''),
     nfDirName = (\<lambda>s. s), nfCdUp = (\<lambda>s. s)\<rparr>"

definition sampleSelected :: "panel_event list" where
  "sampleSelected = [SelectButton (\<lambda>_. False) (lit ''home''),
     DialogClosed (sampleWorld 1 0) (sampleWorld 2 0) (lit ''game''), PollTick (sampleWorld 3 7), WorkerThread (WorkerBegins 4),
     WorkerThread (LoadReturns (Some \<lparr>lrSuccess = True, lrError = []\<rparr>)), WorkerDone 5 (\<lambda>_. True)]"

definition samplePanel :: LaunchPanel where
  "samplePanel = newLaunchPanel (lit ''payload'') [] (Some 100)"

lemmas panel_eval = refresh_def setRange_def setProgress_def drive_def launchCompleted_def onLaunchCompleted_def
  selectClicked_def fileSelected_def watcherTicks_def closingShot_def newLaunchPanel_def newLaunchController_def
  startLaunch_def findOrLaunch_def launchOwn_def startWaiting_def poll_def expired_def sampleWorld_def stopOwnedProcess_def
  launchTransition_def workerRunning_def workerBegins_def loadReturns_def workerFinished_def cancel_def Let_def

lemma sampleSelected_run:
  "lpWatchers (fst (panelRun qtAscii sampleFiles sampleNative sampleSelected samplePanel)) = [(7, 0)]
   \<and> lcState (lpController (fst (panelRun qtAscii sampleFiles sampleNative sampleSelected samplePanel))) = Succeeded
   \<and> lpClosing (fst (panelRun qtAscii sampleFiles sampleNative sampleSelected samplePanel)) = 0
   \<and> lpTitle (fst (panelRun qtAscii sampleFiles sampleNative sampleSelected samplePanel)) = lit ''game''"
  by (simp add: sampleSelected_def samplePanel_def sampleNative_def sampleFiles_def panel_eval processAlive_def)

lemma samplePanel_run: "panelRun qtAscii sampleFiles sampleNative sampleSelected samplePanel =
    (fst (panelRun qtAscii sampleFiles sampleNative sampleSelected samplePanel),
     snd (panelRun qtAscii sampleFiles sampleNative sampleSelected samplePanel))"
  by simp

theorem panel_shows_controller_witness:
  "lpProgress (fst (panelRun qtAscii sampleFiles sampleNative sampleSelected samplePanel)) = 1"
  using panel_shows_controller(4) [OF samplePanel_run [unfolded samplePanel_def]] sampleSelected_run
  by (simp add: samplePanel_def)

text \<open>
  C33. The panel signals its completion at most once, and when it has, the payload was loaded and no
  watcher and no shot are left.
\<close>

theorem panel_completes_once:
  assumes "panelRun q F N evs (newLaunchPanel payloadPath lastDir expiry) = (p, out)"
  shows "completions out \<le> 1
    \<and> (PanelCompleted \<in> set out \<longrightarrow> lcState (lpController p) = Succeeded \<and> lpWatchers p = [] \<and> lpClosing p = 0)"
proof -
  have count: "completions out + length (lpWatchers p) + lpClosing p \<le> (if lcState (lpController p) = Succeeded then 1 else 0)"
    using panelInvD(3) [OF panelInv_run [OF panelInv_new assms]] by simp
  have "lcState (lpController p) = Succeeded \<and> lpWatchers p = [] \<and> lpClosing p = 0" if "PanelCompleted \<in> set out"
  proof -
    have "filter (\<lambda>e. e = PanelCompleted) out \<noteq> []" using that by (auto simp: filter_empty_conv)
    then obtain k where "completions out = Suc k" by (metis length_0_conv not0_implies_Suc)
    then show ?thesis
      using count by (cases "lpWatchers p") (auto split: if_splits)
  qed
  moreover have "completions out \<le> 1" using count by (simp split: if_splits)
  ultimately show ?thesis by blast
qed

text \<open>The whole run: the window opens at the second tick.\<close>

definition sampleClosing :: "panel_event list" where
  "sampleClosing = [WatcherTick 0 (\<lambda>_. True) [], WatcherTick 0 (\<lambda>_. True) [\<lparr>weProcess = 7, weOwned = False, weVisible = True\<rparr>], ClosingShot]"

lemma panelRun_append:
  "panelRun q F N (evs @ evs') p = (let (p, out) = panelRun q F N evs p; (p, out') = panelRun q F N evs' p in (p, out @ out'))"
  by (induction evs arbitrary: p) (simp_all add: case_prod_unfold Let_def)

lemma sampleClosing_run: "lpWatchers p = [(7, 0)] \<Longrightarrow> lpClosing p = 0 \<Longrightarrow> snd (panelRun q F N sampleClosing p) = [PanelCompleted]"
  by (simp add: sampleClosing_def watcherTicks_def closingShot_def processWindowOpen_def processAlive_def enumProcessWindows_def)

lemma sampleWhole_run:
  "PanelCompleted \<in> set (snd (panelRun qtAscii sampleFiles sampleNative (sampleSelected @ sampleClosing) samplePanel))"
  using sampleSelected_run sampleClosing_run by (simp add: panelRun_append case_prod_unfold Let_def)

theorem panel_completes_once_witness:
  "completions (snd (panelRun qtAscii sampleFiles sampleNative (sampleSelected @ sampleClosing) samplePanel)) \<le> 1
   \<and> lpWatchers (fst (panelRun qtAscii sampleFiles sampleNative (sampleSelected @ sampleClosing) samplePanel)) = []"
  using panel_completes_once [OF prod.collapse [symmetric], of qtAscii sampleFiles sampleNative "sampleSelected @ sampleClosing" "lit ''payload''" "[]" "Some 100"]
    sampleWhole_run by (simp add: samplePanel_def)

text \<open>The ticks of the only watcher.\<close>

lemma ticks_stopped: "lpWatchers p = [] \<Longrightarrow> panelRun q F N (map (\<lambda>(alive, windows). WatcherTick 0 alive windows) seen) p = (p, [])"
  by (induction seen) (auto simp: watcherTicks_def)

lemma ticks_run:
  assumes "lpWatchers p = [(pid, n)]"
  shows "panelRun q F N (map (\<lambda>(alive, windows). WatcherTick 0 alive windows) seen) p =
    (case watchRun pid seen (Watching n) of
       Watching m \<Rightarrow> (p\<lparr>lpWatchers := [(pid, m)]\<rparr>, [])
     | GameExited \<Rightarrow> (p\<lparr>lpWatchers := [], lpStatus := lit ''The game exited before opening.'', lpStatusFailed := True\<rparr>, [])
     | Closing \<Rightarrow> (p\<lparr>lpWatchers := [], lpStatus := lit ''Game is running. Closing StarLoader...'', lpClosing := lpClosing p + 1\<rparr>, []))"
  using assms
proof (induction seen arbitrary: p n)
  case Nil
  then show ?case by simp
next
  case (Cons a seen)
  obtain alive windows where a: "a = (alive, windows)" by fastforce
  show ?case
  proof (cases "watchTick pid alive windows (Watching n)")
    case (Watching m)
    then have step: "watcherTicks 0 alive windows p = (p\<lparr>lpWatchers := [(pid, m)]\<rparr>, [])"
      using Cons.prems by (simp add: watcherTicks_def del: watchTick.simps)
    show ?thesis
      using Cons.IH [of "p\<lparr>lpWatchers := [(pid, m)]\<rparr>" m] Watching
      by (simp add: a step del: watchTick.simps) (simp split: watch.split)
  qed (use Cons.prems in \<open>simp_all add: a watcherTicks_def watchRun_stopped ticks_stopped del: watchTick.simps\<close>)
qed

text \<open>
  C34. After a successful load the panel comes to an end: once its watcher has seen 60 ticks and the shot
  was fired, the completion is signalled, or the game was seen gone and the text says so in the colour
  of an error.
\<close>

theorem panel_settles:
  assumes "panelRun q F N evs (newLaunchPanel payloadPath lastDir expiry) = (p, out)" and "lpWatchers p \<noteq> []"
    and "60 \<le> length seen"
    and "panelRun q F N (map (\<lambda>(alive, windows). WatcherTick 0 alive windows) seen @ [ClosingShot]) p = (p', out')"
  shows "PanelCompleted \<in> set out' \<or> lpStatus p' = lit ''The game exited before opening.'' \<and> lpStatusFailed p'
      \<and> (\<exists>(alive, windows) \<in> set seen. \<not> processAlive alive (lcSucceededPid (lpController p)))"
proof -
  have inv: "panelInv (completions out) p" using panelInv_run [OF panelInv_new assms(1)] by simp
  then obtain n where w: "lpWatchers p = [(lcSucceededPid (lpController p), n)]" "lpClosing p = 0" "n < 60"
    using assms(2) by (cases "lpWatchers p") (auto simp: panelInv_def split: if_splits)
  let ?pid = "lcSucceededPid (lpController p)"
  note ticks = ticks_run [OF w(1), of q F N seen]
  show ?thesis
  proof (cases "watchRun ?pid seen (Watching n)")
    case (Watching m)
    then show ?thesis using watchRun_bound [OF w(3) Watching] assms(3) by simp
  next
    case GameExited
    then show ?thesis
      using assms(4) ticks w(2) watchRun_exited [OF GameExited]
      by (auto simp: panelRun_append closingShot_def)
  next
    case Closing
    then show ?thesis using assms(4) ticks by (auto simp: panelRun_append closingShot_def)
  qed
qed

definition sixtyTicks :: "((32 word \<Rightarrow> bool) \<times> window_entry list) list" where
  "sixtyTicks = replicate 60 ((\<lambda>_. True), [])"

definition sampleTicks :: "panel_event list" where
  "sampleTicks = map (\<lambda>(alive, windows). WatcherTick 0 alive windows) sixtyTicks @ [ClosingShot]"

theorem panel_settles_witness:
  "PanelCompleted \<in> set (snd (panelRun qtAscii sampleFiles sampleNative sampleTicks
       (fst (panelRun qtAscii sampleFiles sampleNative sampleSelected samplePanel))))
   \<or> lpStatusFailed (fst (panelRun qtAscii sampleFiles sampleNative sampleTicks
       (fst (panelRun qtAscii sampleFiles sampleNative sampleSelected samplePanel))))"
proof -
  let ?p = "fst (panelRun qtAscii sampleFiles sampleNative sampleSelected samplePanel)"
  have "lpWatchers ?p \<noteq> []" "60 \<le> length sixtyTicks" using sampleSelected_run by (simp_all add: sixtyTicks_def)
  from panel_settles [OF samplePanel_run [unfolded samplePanel_def] this [unfolded samplePanel_def] prod.collapse [symmetric]]
  show ?thesis unfolding sampleTicks_def samplePanel_def by blast
qed

end
