(* ===== verification/UserDashboard.thy ===== *)
theory UserDashboard
  imports LaunchPanel
begin

text \<open>
  \<open>license-client/src/ui/UserDashboard.cpp\<close>: the window of an authenticated session. It hands the
  profile's authorisation to the launch panel, stops the panel when it is hidden, closed or destroyed, and
  closes itself after the panel's completion. Once it is destroyed only the pool's thread goes on.
\<close>

section \<open>State\<close>

record UserDashboard =
  udEmailText :: qstring
  udEmail :: qstring
  udStatus :: qstring
  udActive :: bool
  udExpiryText :: qstring
  udPanel :: LaunchPanel
  udVisible :: bool
  udAlive :: bool
  udClosing :: nat

datatype dashboard_effect = PanelEffect panel_effect | SignOutSignal

type_synonym dashboard_handler = "UserDashboard \<Rightarrow> UserDashboard \<times> dashboard_effect list"

text \<open>\<open>elide\<close> is \<open>QFontMetrics::elidedText\<close> at 370 pixels, \<open>date\<close> the format \<open>dd MMM yyyy\<close> of a time in UTC.\<close>

definition newDashboard ::
    "qt \<Rightarrow> (qchar \<Rightarrow> qchar) \<Rightarrow> (qstring \<Rightarrow> qstring) \<Rightarrow> (int \<Rightarrow> qstring) \<Rightarrow> qstring \<Rightarrow> qstring \<Rightarrow> UserProfileResponse \<Rightarrow> UserDashboard" where
  "newDashboard q upper elide date payloadPath lastDir profile = \<lparr>
     udEmailText = elide (upEmail profile), udEmail = upEmail profile,
     udStatus = dashboardStatus q upper profile, udActive = profileActive profile,
     udExpiryText = (case upLicenseExpiresAt profile of None \<Rightarrow> [] | Some t \<Rightarrow> lit ''Expires '' @ date t),
     udPanel = newLaunchPanel payloadPath lastDir (launchExpiry profile),
     udVisible = True, udAlive = True, udClosing = 0\<rparr>"

section \<open>Operations\<close>

text \<open>What a slot of the panel does: each completion starts a shot of 1500 ms.\<close>

definition inPanel :: "panel_handler \<Rightarrow> dashboard_handler" where
  "inPanel handler d =
     (let (p, out) = handler (udPanel d) in
      (d\<lparr>udPanel := p, udClosing := udClosing d + length (filter (\<lambda>e. e = PanelCompleted) out)\<rparr>, map PanelEffect out))"

definition hideEvent :: "bool \<Rightarrow> dashboard_handler" where
  "hideEvent spontaneous d = (if \<not> spontaneous then inPanel stopPanel d else (d, []))"

definition closeDashboard :: dashboard_handler where
  "closeDashboard d = (if udVisible d then hideEvent False (d\<lparr>udVisible := False\<rparr>) else (d, []))"

text \<open>The destructor, then those of the panel and its controller.\<close>

definition destroyDashboard :: dashboard_handler where
  "destroyDashboard d =
     (let (d, out) = inPanel stopPanel d;
          (c, es) = cancel (lpController (udPanel d))
      in (d\<lparr>udPanel := (udPanel d)\<lparr>lpController := c\<rparr>, udAlive := False\<rparr>, out @ map (PanelEffect \<circ> Controller) es))"

datatype dashboard_event =
    PanelEvent panel_event
  | HideEvent bool
  | CloseWindow
  | CloseShot
  | SignOutButton
  | Destroyed

fun dashboardStep :: "qt \<Rightarrow> file_info \<Rightarrow> native_files \<Rightarrow> dashboard_event \<Rightarrow> dashboard_handler" where
  "dashboardStep q F N (PanelEvent ev) d =
     (if udAlive d \<or> (\<exists>e. ev = WorkerThread e) then inPanel (panelStep q F N ev) d else (d, []))"
| "dashboardStep q F N (HideEvent spontaneous) d = (if udAlive d then hideEvent spontaneous d else (d, []))"
| "dashboardStep q F N CloseWindow d = (if udAlive d then closeDashboard d else (d, []))"
| "dashboardStep q F N CloseShot d =
     (if udAlive d \<and> udClosing d > 0 then closeDashboard (d\<lparr>udClosing := udClosing d - 1\<rparr>) else (d, []))"
| "dashboardStep q F N SignOutButton d = (if udAlive d \<and> \<not> lpDialog (udPanel d) then (d, [SignOutSignal]) else (d, []))"
| "dashboardStep q F N Destroyed d = (if udAlive d then destroyDashboard d else (d, []))"

fun dashboardRun :: "qt \<Rightarrow> file_info \<Rightarrow> native_files \<Rightarrow> dashboard_event list \<Rightarrow> dashboard_handler" where
  "dashboardRun q F N [] d = (d, [])"
| "dashboardRun q F N (ev # evs) d =
     (let (d, out) = dashboardStep q F N ev d; (d, out') = dashboardRun q F N evs d in (d, out @ out'))"

section \<open>The controller behind the window\<close>

abbreviation controllerOf :: "UserDashboard \<Rightarrow> LaunchController" where
  "controllerOf d \<equiv> lpController (udPanel d)"

text \<open>
  A handler of the controller changes it as its steps do: each part of a relation that steps keep is kept.
\<close>

lemma react_controller: "lpController (fst (react alive es p)) = lpController p"
  by (induction es arbitrary: p) (auto simp: refresh_def setRange_def setProgress_def launchCompleted_def Let_def
      case_prod_unfold split: launch_effect.split watch.split)

text \<open>The calls of the loader among the effects.\<close>

definition panelLoads :: "panel_effect list \<Rightarrow> 32 word list" where
  "panelLoads out = concat (map (\<lambda>e. case e of Controller e \<Rightarrow> loads [e] | _ \<Rightarrow> []) out)"

lemma panelLoads_simps [simp]:
  "panelLoads [] = []" "panelLoads (Controller e # out) = loads [e] @ panelLoads out" "panelLoads (DialogOpened s # out) = panelLoads out"
  "panelLoads (PanelCompleted # out) = panelLoads out" "panelLoads (a @ b) = panelLoads a @ panelLoads b"
  by (simp_all add: panelLoads_def)

lemma loads_Cons: "loads (e # es) = loads [e] @ loads es"
  by (cases e) simp_all

lemma launchCompleted_loads: "panelLoads (snd (launchCompleted alive p)) = []"
  by (simp add: launchCompleted_def Let_def split: watch.split)

lemma react_loads: "panelLoads (snd (react alive es p)) = loads es"
proof (induction es arbitrary: p)
  case (Cons e es)
  then show ?case using loads_Cons [of e es] by (auto simp: case_prod_unfold Let_def launchCompleted_loads split: launch_effect.split)
qed simp

lemma drive_step: "lpController (fst (drive alive h p)) = fst (h (lpController p))" "panelLoads (snd (drive alive h p)) = loads (snd (h (lpController p)))"
  by (simp_all add: drive_def case_prod_unfold Let_def react_controller react_loads)

text \<open>Every step of the panel is at most one step of the controller.\<close>

definition asController :: "qt \<Rightarrow> file_info \<Rightarrow> launch_event \<Rightarrow> LaunchPanel \<Rightarrow> LaunchPanel \<times> panel_effect list \<Rightarrow> bool" where
  "asController q F e p r \<longleftrightarrow> lpController (fst r) = fst (launchStep q F e (lpController p))
     \<and> panelLoads (snd r) = loads (snd (launchStep q F e (lpController p)))"

lemma asController_drive: "asController q F e p (drive alive (launchStep q F e) p)"
  by (simp add: asController_def drive_step)

text \<open>Which step of the controller belongs to which of the panel.\<close>

fun belongs :: "panel_event \<Rightarrow> launch_event \<Rightarrow> bool" where
  "belongs ev (Start W W' x) = (\<exists>V V' s. ev = DialogClosed V V' s)"
| "belongs ev (WorkerBegins now) = (ev = WorkerThread (WorkerBegins now))"
| "belongs ev _ = True"

lemma watcherTicks_idle: "lpController (fst (watcherTicks i alive windows p)) = lpController p" "panelLoads (snd (watcherTicks i alive windows p)) = []"
  by (auto simp: watcherTicks_def case_prod_unfold Let_def simp del: watchTick.simps split: watch.split)

lemma panelStep_controller:
  obtains (idle) "lpController (fst (panelStep q F N ev p)) = lpController p" "panelLoads (snd (panelStep q F N ev p)) = []"
  | (step) e where "asController q F e p (panelStep q F N ev p)" "belongs ev e"
proof (cases ev)
  case CancelButton
  show thesis
  proof (cases "lpCancelVisible p \<and> \<not> lpDialog p")
    case True
    then show thesis using asController_drive by (intro step [of CancelClicked]) (simp_all add: CancelButton del: launchStep.simps)
  qed (rule idle, auto simp: CancelButton)
next
  case (SelectButton dirExists home)
  show thesis
  proof (cases "lpSelectEnabled p \<and> \<not> lpDialog p")
    case True
    then show thesis using asController_drive [of q F CancelClicked p "\<lambda>_. False"]
      by (intro step [of CancelClicked]) (simp_all add: SelectButton selectClicked_def cancel_step [of q F] case_prod_unfold Let_def asController_def del: launchStep.simps)
  qed (rule idle, auto simp: SelectButton)
next
  case (DialogClosed W W' selected)
  show thesis
  proof (cases "lpDialog p \<and> selected \<noteq> []")
    case True
    then show thesis
      by (intro step [of "Start W W' (nfCanonicalFilePath N selected)"])
         (simp_all add: DialogClosed fileSelected_def Let_def startLaunch_step [of q F] asController_def drive_step del: launchStep.simps)
  qed (rule idle, auto simp: DialogClosed fileSelected_def)
next
  case (PollTick W)
  then show thesis using asController_drive by (intro step [of "TimerTick W"]) (simp_all del: launchStep.simps)
next
  case (WorkerThread e)
  show thesis
  proof (cases "poolEvent e")
    case True
    then show thesis using asController_drive by (intro step [of e]) (cases e; simp add: WorkerThread del: launchStep.simps)+
  qed (rule idle, auto simp: WorkerThread)
next
  case (WorkerDone now alive)
  then show thesis using asController_drive by (intro step [of "WorkerFinished now"]) (simp_all del: launchStep.simps)
next
  case (WatcherTick i alive windows)
  then show thesis by (intro idle) (simp_all add: watcherTicks_idle)
next
  case ClosingShot
  then show thesis by (intro idle) (simp_all add: closingShot_def)
next
  case StopCalled
  then show thesis using asController_drive by (intro step [of CancelClicked]) (simp_all add: stopPanel_def cancel_step [of q F] del: launchStep.simps)
qed

text \<open>The authorisation never changes.\<close>

lemma cancel_expiry: "lcExpiry (fst (cancel s)) = lcExpiry s"
  by (simp add: cancel_state stopOwnedProcess_state)

lemma poll_expiry: "lcExpiry (fst (poll F W s)) = lcExpiry s"
  by (cases rule: poll_cases [of W s F]) (simp_all add: cancel_expiry)

lemma startWaiting_expiry: "lcExpiry (fst (startWaiting F W m s)) = lcExpiry s"
  by (simp add: startWaiting_def launchTransition_def Let_def case_prod_unfold poll_expiry)

lemma launchStep_expiry: "lcExpiry (fst (launchStep q F ev s)) = lcExpiry s"
proof (cases ev)
  case (Start W W' x)
  show ?thesis
  proof (cases rule: startLaunch_cases [of q F W W' x s])
    case (outcome t es m)
    have "lcExpiry t = lcExpiry s" using outcome(3) by (auto elim!: startOutcome.cases)
    then show ?thesis using outcome(4) by (simp add: Start outcomeResult_def startWaiting_expiry split: option.split)
  qed (simp add: Start)
next
  case (WorkerFinished now)
  then show ?thesis
    by (auto simp: workerFinished_def launchTransition_def Let_def cancel_expiry split: worker.split)
qed (simp_all add: cancel_expiry poll_expiry workerBegins_def loadReturns_def split: worker.split)

text \<open>A controller with nothing under way loads nothing until it is started again.\<close>

definition stopped :: "LaunchController \<Rightarrow> bool" where
  "stopped s \<longleftrightarrow> lcState s \<notin> {Launching, Waiting, Loading}"

lemma stopped_cancel: "stopped (fst (cancel s))"
  by (simp add: stopped_def cancel_state)

lemma stopped_step:
  assumes "launchInv s" and "stopped s" and "\<And>W W' x. ev \<noteq> Start W W' x"
  shows "stopped (fst (launchStep q F ev s)) \<and> loads (snd (launchStep q F ev s)) = []"
proof (cases ev)
  case CancelClicked
  then show ?thesis using stopped_cancel quiet_effects by simp
next
  case (TimerTick W)
  then show ?thesis using assms(2) launchInv_timer [OF assms(1)] by (simp add: stopped_def)
next
  case (WorkerBegins now)
  then show ?thesis
    using assms(2) launchInv_job_cancelled [OF assms(1)] by (cases "lcWorker s") (auto simp: stopped_def workerBegins_def)
next
  case (LoadReturns outcome)
  then show ?thesis using assms(2) by (simp add: stopped_def loadReturns_def split: worker.split)
next
  case (WorkerFinished now)
  then show ?thesis using assms(2) by (simp add: stopped_def workerFinished_def Let_def split: worker.split)
qed (use assms(3) in blast)

section \<open>Runs\<close>

fun dashLoads :: "dashboard_effect list \<Rightarrow> 32 word list" where
  "dashLoads [] = []"
| "dashLoads (PanelEffect e # out) = panelLoads [e] @ dashLoads out"
| "dashLoads (SignOutSignal # out) = dashLoads out"

lemma dashLoads_append [simp]: "dashLoads (a @ b) = dashLoads a @ dashLoads b"
  by (induction a rule: dashLoads.induct) simp_all

lemma dashLoads_panel: "dashLoads (map PanelEffect out) = panelLoads out"
proof (induction out)
  case (Cons e out)
  then show ?case using panelLoads_simps(5) [of "[e]" out] by simp
qed simp

lemma dashLoads_controller: "dashLoads (map (PanelEffect \<circ> Controller) es) = loads es"
proof (induction es)
  case (Cons e es)
  then show ?case using loads_Cons [of e es] by simp
qed simp

text \<open>What every step of the dashboard does to the controller.\<close>

definition dashboardInv :: "int option \<Rightarrow> UserDashboard \<Rightarrow> bool" where
  "dashboardInv expiry d \<longleftrightarrow> launchInv (controllerOf d) \<and> lcExpiry (controllerOf d) = expiry \<and> (udAlive d \<or> stopped (controllerOf d))"

lemma inPanel_simps: "controllerOf (fst (inPanel h d)) = lpController (fst (h (udPanel d)))"
    "dashLoads (snd (inPanel h d)) = panelLoads (snd (h (udPanel d)))" "udAlive (fst (inPanel h d)) = udAlive d"
  by (simp_all add: inPanel_def case_prod_unfold Let_def dashLoads_panel)

lemma inPanel_stop: "controllerOf (fst (inPanel stopPanel d)) = fst (cancel (controllerOf d))" "dashLoads (snd (inPanel stopPanel d)) = []"
  by (simp_all add: inPanel_simps stopPanel_def drive_step quiet_effects)

lemma destroy_controller: "controllerOf (fst (destroyDashboard d)) = fst (cancel (fst (cancel (controllerOf d))))"
    "dashLoads (snd (destroyDashboard d)) = []" "\<not> udAlive (fst (destroyDashboard d))"
  by (simp_all add: destroyDashboard_def case_prod_unfold inPanel_stop inPanel_simps(3) Let_def dashLoads_controller quiet_effects)

text \<open>The ways a step can treat the controller.\<close>

lemma dashboardStep_cases:
  obtains (idle) "controllerOf (fst (dashboardStep q F N ev d)) = controllerOf d" "dashLoads (snd (dashboardStep q F N ev d)) = []"
      "udAlive (fst (dashboardStep q F N ev d)) = udAlive d"
  | (cancelled) "controllerOf (fst (dashboardStep q F N ev d)) \<in> {fst (cancel (controllerOf d)), fst (cancel (fst (cancel (controllerOf d))))}"
      "dashLoads (snd (dashboardStep q F N ev d)) = []"
  | (step) pe e where "ev = PanelEvent pe" "belongs pe e" "udAlive d \<or> (\<exists>e. pe = WorkerThread e)"
      "controllerOf (fst (dashboardStep q F N ev d)) = fst (launchStep q F e (controllerOf d))"
      "dashLoads (snd (dashboardStep q F N ev d)) = loads (snd (launchStep q F e (controllerOf d)))"
      "udAlive (fst (dashboardStep q F N ev d)) = udAlive d"
proof (cases ev)
  case (PanelEvent pe)
  show thesis
  proof (cases "udAlive d \<or> (\<exists>e. pe = WorkerThread e)")
    case True
    then have step_eq: "dashboardStep q F N ev d = inPanel (panelStep q F N pe) d" by (simp add: PanelEvent)
    show thesis
    proof (cases rule: panelStep_controller [of q F N pe "udPanel d"])
      case idle
      then show thesis by (intro that(1)) (simp_all add: step_eq inPanel_simps del: panelStep.simps)
    next
      case (step e)
      then show thesis using True
        by (intro that(3) [OF PanelEvent]) (auto simp: step_eq inPanel_simps asController_def simp del: panelStep.simps)
    qed
  next
    case False
    then show thesis by (intro that(1)) (auto simp: PanelEvent)
  qed
next
  case (HideEvent spontaneous)
  show thesis
    by (cases "udAlive d \<and> \<not> spontaneous") (rule that(2) that(1), auto simp: HideEvent hideEvent_def inPanel_stop)+
next
  case CloseWindow
  show thesis
    by (cases "udAlive d \<and> udVisible d") (rule that(2) that(1), auto simp: CloseWindow closeDashboard_def hideEvent_def inPanel_stop)+
next
  case CloseShot
  show thesis
    by (cases "udAlive d \<and> udVisible d \<and> udClosing d > 0")
       (rule that(2) that(1), auto simp: CloseShot closeDashboard_def hideEvent_def inPanel_stop)+
next
  case Destroyed
  show thesis
    by (cases "udAlive d") (rule that(2) that(1), auto simp: Destroyed destroy_controller)+
qed (rule that(1), auto)

lemma belongs_notStart: "belongs (WorkerThread e') e \<Longrightarrow> e \<noteq> Start W W' x"
  by (cases e) auto

lemma dead: "\<not> udAlive d \<Longrightarrow> \<not> udAlive (fst (dashboardStep q F N ev d))"
  by (cases ev) (auto simp: inPanel_simps)

lemma dashboardInv_step: "dashboardInv expiry d \<Longrightarrow> dashboardInv expiry (fst (dashboardStep q F N ev d))"
proof (cases rule: dashboardStep_cases [of q F N ev d])
  case (step pe e)
  assume inv: "dashboardInv expiry d"
  have "udAlive d \<or> stopped (fst (launchStep q F e (controllerOf d)))"
    using step(2,3) inv stopped_step [of "controllerOf d" e q F] belongs_notStart by (auto simp: dashboardInv_def)
  then show ?thesis
    using inv step(4,6) launchInv_step by (simp add: dashboardInv_def launchStep_expiry)
qed (auto simp: dashboardInv_def launchInv_cancel cancel_expiry stopped_cancel)

lemma dashboardInv_new: "dashboardInv (launchExpiry profile) (newDashboard q upper elide date payloadPath lastDir profile)"
  using panelInvD(1) [OF panelInv_new]
  by (simp add: dashboardInv_def newDashboard_def) (simp add: newLaunchPanel_def Let_def newLaunchController_def refresh_state)

lemma dashboardInv_run: "dashboardInv expiry d \<Longrightarrow> dashboardInv expiry (fst (dashboardRun q F N evs d))"
  by (induction evs arbitrary: d) (simp_all add: case_prod_unfold Let_def dashboardInv_step)

text \<open>A step that selects no game.\<close>

definition selects :: "dashboard_event \<Rightarrow> bool" where
  "selects ev \<longleftrightarrow> (\<exists>W W' s. ev = PanelEvent (DialogClosed W W' s))"

lemma dashboard_stopped:
  assumes "launchInv (controllerOf d)" and "stopped (controllerOf d)" and "\<not> selects ev \<or> \<not> udAlive d"
  shows "stopped (controllerOf (fst (dashboardStep q F N ev d))) \<and> dashLoads (snd (dashboardStep q F N ev d)) = []"
proof (cases rule: dashboardStep_cases [of q F N ev d])
  case (step pe e)
  have "e \<noteq> Start W W' x" for W W' x
    using step(1-3) assms(3) by (cases e) (auto simp: selects_def)
  then show ?thesis using stopped_step [OF assms(1,2)] step(4,5) by simp
qed (use assms in \<open>auto simp: stopped_cancel\<close>)

lemma dashboard_quiet:
  assumes "launchInv (controllerOf d)" and "stopped (controllerOf d)"
    and "(\<forall>ev \<in> set evs. \<not> selects ev) \<or> \<not> udAlive d"
  shows "dashLoads (snd (dashboardRun q F N evs d)) = []"
  using assms
proof (induction evs arbitrary: d)
  case (Cons ev evs)
  let ?d = "fst (dashboardStep q F N ev d)"
  have step: "stopped (controllerOf ?d) \<and> dashLoads (snd (dashboardStep q F N ev d)) = []"
    by (rule dashboard_stopped [OF Cons.prems(1,2)]) (use Cons.prems(3) in auto)
  have "launchInv (controllerOf ?d)"
    using dashboardInv_step [of "lcExpiry (controllerOf d)" d q F N ev] Cons.prems(1,2) by (simp add: dashboardInv_def)
  moreover have "(\<forall>ev \<in> set evs. \<not> selects ev) \<or> \<not> udAlive ?d"
    using Cons.prems(3) dead by auto
  ultimately have "dashLoads (snd (dashboardRun q F N evs ?d)) = []"
    using Cons.IH step by blast
  then show ?case using step by (simp add: case_prod_unfold Let_def)
qed simp

section \<open>A concrete run\<close>

definition sampleProfile :: UserProfileResponse where
  "sampleProfile = emptyProfile\<lparr>upAccountStatus := lit ''active'', upLicenseStatus := lit ''active'',
     upDeviceStatus := lit ''active'', upLicenseExpiresAt := Some 20, upSessionExpiresAt := Some 30\<rparr>"

definition sampleDashboard :: UserDashboard where
  "sampleDashboard = newDashboard qtAscii (\<lambda>c. c) (\<lambda>s. s) (\<lambda>_. []) (lit ''payload'') [] sampleProfile"

text \<open>The game is selected, started and found; its job is queued.\<close>

definition sampleQueued :: "dashboard_event list" where
  "sampleQueued = map PanelEvent (take 3 sampleSelected)"

lemma sampleDashboard_run: "dashboardRun qtAscii sampleFiles sampleNative sampleQueued
      (newDashboard qtAscii (\<lambda>c. c) (\<lambda>s. s) (\<lambda>_. []) (lit ''payload'') [] sampleProfile) =
    (fst (dashboardRun qtAscii sampleFiles sampleNative sampleQueued sampleDashboard),
     snd (dashboardRun qtAscii sampleFiles sampleNative sampleQueued sampleDashboard))"
  by (simp add: sampleDashboard_def)

lemma sampleDashboard_loads: "dashLoads (snd (dashboardStep qtAscii sampleFiles sampleNative (PanelEvent (WorkerThread (WorkerBegins 4)))
    (fst (dashboardRun qtAscii sampleFiles sampleNative sampleQueued sampleDashboard)))) \<noteq> []"
  by (simp add: sampleQueued_def sampleSelected_def sampleDashboard_def newDashboard_def sampleProfile_def emptyProfile_def
      launchExpiry_def profileActive_def sampleNative_def sampleFiles_def panel_eval inPanel_def)

section \<open>Properties\<close>

lemma dashboardInv_load:
  assumes inv: "dashboardInv (launchExpiry profile) d" and "dashLoads (snd (dashboardStep q F N ev d)) \<noteq> []"
  shows "\<exists>now session. ev = PanelEvent (WorkerThread (WorkerBegins now)) \<and> profileActive profile
    \<and> upSessionExpiresAt profile = Some session \<and> now < 1000 * session
    \<and> (\<forall>license. upLicenseExpiresAt profile = Some license \<longrightarrow> now < 1000 * license)"
proof -
  from dashboardStep_cases [of q F N ev d] assms(2) obtain pe e where step: "ev = PanelEvent pe" "belongs pe e"
      "loads (snd (launchStep q F e (controllerOf d))) \<noteq> []"
    by metis
  with step_loads [of q F e "controllerOf d"] obtain now where now: "e = WorkerBegins now" "\<not> expired now (controllerOf d)"
    by auto
  have "pe = WorkerThread (WorkerBegins now)" using step(2) now(1) by simp
  moreover have "\<exists>t. launchExpiry profile = Some t \<and> now < t"
    using now(2) inv by (auto simp: dashboardInv_def expired_def split: option.splits)
  ultimately show ?thesis
    using step(1) by (auto simp: launchExpiry_def Let_def split: option.splits if_splits)
qed

text \<open>
  C11. A load begins only under the authorisation of the window's profile: whatever happened before, the
  step that calls the loader is the pool's thread, the account, the license and the device of the profile
  are active, and neither its session nor its license has ended.
\<close>

theorem dashboard_load_authorised:
  assumes "dashboardRun q F N evs (newDashboard q upper elide date payloadPath lastDir profile) = (d, out)"
    and "dashLoads (snd (dashboardStep q F N ev d)) \<noteq> []"
  shows "\<exists>now session. ev = PanelEvent (WorkerThread (WorkerBegins now)) \<and> profileActive profile
    \<and> upSessionExpiresAt profile = Some session \<and> now < 1000 * session
    \<and> (\<forall>license. upLicenseExpiresAt profile = Some license \<longrightarrow> now < 1000 * license)"
  using dashboardInv_load [OF _ assms(2)] dashboardInv_run [OF dashboardInv_new] assms(1) by (metis fst_conv)

theorem dashboard_load_authorised_witness:
  "\<exists>now session. PanelEvent (WorkerThread (WorkerBegins 4)) = PanelEvent (WorkerThread (WorkerBegins now))
     \<and> profileActive sampleProfile \<and> upSessionExpiresAt sampleProfile = Some session \<and> now < 1000 * session"
  using dashboard_load_authorised [OF sampleDashboard_run, of "PanelEvent (WorkerThread (WorkerBegins 4))"] sampleDashboard_loads
  by blast

text \<open>
  C12. Once the window is hidden by the program or destroyed, no load begins any more: not until a file
  is selected in a window that still exists, and never after it was destroyed, although a job of the thread
  pool may still be waiting.
\<close>

theorem closed_dashboard_never_loads:
  assumes "dashboardRun q F N evs (newDashboard q upper elide date payloadPath lastDir profile) = (d, out)"
    and "dashboardStep q F N ev d = (d', out')"
    and "ev = Destroyed \<or> ev = HideEvent False \<and> (\<forall>e \<in> set evs'. \<not> selects e)"
  shows "dashLoads out' = [] \<and> dashLoads (snd (dashboardRun q F N evs' d')) = []"
proof -
  have inv: "dashboardInv (launchExpiry profile) d"
    using dashboardInv_run [OF dashboardInv_new] assms(1) by (metis fst_conv)
  then have inv': "launchInv (controllerOf d')" using dashboardInv_step [OF inv, of q F N ev] assms(2) by (simp add: dashboardInv_def)
  have eqs: "d' = fst (dashboardStep q F N ev d)" "out' = snd (dashboardStep q F N ev d)" using assms(2) by simp_all
  have "stopped (controllerOf d') \<and> dashLoads out' = []"
    unfolding eqs using assms(3) inv
    by (cases "udAlive d") (auto simp: hideEvent_def inPanel_stop destroy_controller stopped_cancel dashboardInv_def)
  moreover have "\<not> udAlive d'" if "ev = Destroyed"
    using assms(2) that destroy_controller(3) [of d] by (auto split: if_splits)
  ultimately show ?thesis using dashboard_quiet [OF inv'] assms(3) by blast
qed

text \<open>The window is destroyed while the job waits in the thread pool; the job then calls nothing.\<close>

theorem closed_dashboard_never_loads_witness:
  "dashLoads (snd (dashboardRun qtAscii sampleFiles sampleNative [PanelEvent (WorkerThread (WorkerBegins 4))]
     (fst (dashboardStep qtAscii sampleFiles sampleNative Destroyed
       (fst (dashboardRun qtAscii sampleFiles sampleNative sampleQueued sampleDashboard)))))) = []"
  using closed_dashboard_never_loads [OF sampleDashboard_run prod.collapse [symmetric], of Destroyed "[PanelEvent (WorkerThread (WorkerBegins 4))]"]
  by blast

end
