(* ===== verification/SessionProfile.thy ===== *)
theory SessionProfile
  imports LoginWindow
begin

text \<open>
  The dashboard of \<open>LoginWindow.cpp\<close> shows the profile of the running session: it is created with the
  profile of \<open>AuthManager\<close>, and as long as it is open the manager keeps that profile.
\<close>

section \<open>One signal and one handler\<close>

lemma windowSignal_dashboard:
  "lwDashboard (windowSignal m e w) = Some d \<Longrightarrow> dbProfile d = amUserProfile m
     \<or> lwDashboard w = Some d \<and> (\<forall>reason. e \<noteq> ReauthenticationRequired reason)"
  by (cases e) (auto simp: applyState_def showFailure_def showErrorDialog_def showDashboard_def showReauthentication_def
      Let_def split: if_splits)

lemma fold_dashboard:
  "lwDashboard (fold (windowSignal m) es w) = Some d \<Longrightarrow> dbProfile d = amUserProfile m
     \<or> lwDashboard w = Some d \<and> (\<forall>reason. ReauthenticationRequired reason \<notin> set es)"
proof (induction es arbitrary: w)
  case (Cons e es)
  then show ?case using windowSignal_dashboard [of m e w d] by auto
qed simp

lemma requireReauthentication_profile:
  "amUserProfile (fst (requireReauthentication g s)) = amUserProfile s
     \<or> (\<exists>reason. ReauthenticationRequired reason \<in> set (snd (requireReauthentication g s)))"
  by (auto simp: requireReauthentication_def Let_def case_prod_unfold)

text \<open>In a session the other handlers ignore what comes late.\<close>

lemma authStep_profile:
  assumes "amState s = Authenticated" and "ev \<noteq> SignOut" and "\<And>email password. ev \<noteq> Login email password"
  shows "amUserProfile (fst (authStep C ev s)) = amUserProfile s
    \<or> (\<exists>reason. ReauthenticationRequired reason \<in> set (snd (authStep C ev s)))"
proof (cases ev)
  case TimerFired
  show ?thesis
  proof (cases "amTimer s")
    case (Some g)
    then show ?thesis
      using requireReauthentication_profile [of g "s\<lparr>amTimer := None\<rparr>"] by (simp add: TimerFired timerFired_def)
  qed (simp add: TimerFired timerFired_def)
qed (use assms in \<open>simp_all add: completeCollection_def handleLoginSucceeded_def handleLoginFailed_def completeSigning_def
    handleDeviceVerified_def handleDeviceVerificationFailed_def handleProfileLoaded_def handleProfileFailed_def Let_def
    split: option.split\<close>)

section \<open>All that one event sets off\<close>

text \<open>A dashboard that is open afterwards was opened with the profile of \<open>m\<close>, or was open and its profile is kept.\<close>

definition profileKept :: "AuthManager \<Rightarrow> AuthManager \<Rightarrow> LoginWindow \<Rightarrow> AuthManager \<Rightarrow> LoginWindow \<Rightarrow> bool" where
  "profileKept m a w a' w' \<longleftrightarrow> (windowInv (amState a) w \<longrightarrow> windowInv (amState a') w'
     \<and> (\<forall>d. lwDashboard w' = Some d \<longrightarrow> dbProfile d = amUserProfile m
          \<or> lwDashboard w = Some d \<and> amUserProfile a' = amUserProfile a))"

lemma profileKept_refl [simp]: "profileKept m a w a w"
  by (simp add: profileKept_def)

lemma profileKept_trans: "profileKept m a w b v \<Longrightarrow> profileKept m b v c u \<Longrightarrow> profileKept m a w c u"
  unfolding profileKept_def by metis

lemma profileKept_step:
  assumes "ev \<noteq> SignOut" and "\<And>email password. ev \<noteq> Login email password"
  shows "profileKept m a w (fst (authStep C ev a)) (fold (windowSignal m) (snd (authStep C ev a)) w)"
proof -
  have "windowInv (amState a) w \<Longrightarrow> windowInv (amState (fst (authStep C ev a))) (fold (windowSignal m) (snd (authStep C ev a)) w)"
    using windowStep_step [OF assms, of a C] by (simp add: windowStep_def)
  moreover have "dbProfile d = amUserProfile m \<or> lwDashboard w = Some d \<and> amUserProfile (fst (authStep C ev a)) = amUserProfile a"
    if inv: "windowInv (amState a) w" and d: "lwDashboard (fold (windowSignal m) (snd (authStep C ev a)) w) = Some d" for d
    using fold_dashboard [OF d] authStep_profile [OF _ assms, of a C] inv by (auto simp: windowInv_def)
  ultimately show ?thesis unfolding profileKept_def by blast
qed

lemma settle_profile:
  "profileKept m (clAuth c) w (clAuth (fst (settle C E W d fs c))) (windowRun m (snd (settle C E W d fs c)) w)"
proof (induction C E W d fs c arbitrary: w rule: settle.induct)
  case (2 C E W d f fs c)
  show ?case
  proof (cases "signalOf W f")
    case None
    with 2(1) show ?thesis by (simp add: split_beta)
  next
    case (Some ev)
    show ?thesis
    proof (cases d)
      case (Suc d')
      let ?r = "authStep C ev (clAuth c)" and ?p = "callApi E W (snd (authStep C ev (clAuth c))) (clApi c)"
      let ?s1 = "settle C E W d' (snd ?p) \<lparr>clAuth = fst ?r, clApi = fst ?p\<rparr>"
      let ?w1 = "fold (windowSignal m) (snd ?r) w"
      note first = profileKept_step [of ev m "clAuth c" w C]
      note second = 2(2) [OF Some Suc, of ?r "fst ?r" "snd ?r" ?p "fst ?p" "snd ?p" ?w1, simplified]
      note third = 2(3) [OF Some Suc, of ?r "fst ?r" "snd ?r" ?p "fst ?p" "snd ?p" ?s1 "fst ?s1" "snd ?s1"
          "windowRun m (snd ?s1) ?w1", simplified]
      show ?thesis
        using Some Suc signalOf_background [OF Some] profileKept_trans [OF profileKept_trans [OF first second] third]
        by (simp add: split_beta)
    qed (simp add: Some)
  qed
qed simp

lemma background_profile:
  assumes "backgroundEvent ev"
  shows "profileKept m (clAuth c) w (clAuth (fst (clientStep C E W ev c))) (windowRun m (snd (clientStep C E W ev c)) w)"
proof -
  have react: "profileKept m (clAuth c) w (clAuth (fst (react C E W d ev c))) (windowRun m (snd (react C E W d ev c)) w)"
    if "ev \<noteq> SignOut" "\<And>email password. ev \<noteq> Login email password" for ev d
    using profileKept_trans [OF profileKept_step [OF that, of m "clAuth c" w C] settle_profile
        [of m "\<lparr>clAuth = fst (authStep C ev (clAuth c)), clApi = fst (callApi E W (snd (authStep C ev (clAuth c))) (clApi c))\<rparr>"
          _ C E W d "snd (callApi E W (snd (authStep C ev (clAuth c))) (clApi c))", simplified]]
    by (simp add: react_def split_beta Let_def)
  show ?thesis
  proof (cases ev)
    case (Collected success identity)
    then show ?thesis
      using profileKept_step [of "CollectionFinished success identity (syncError E W identity c)" m "clAuth c" w C]
      by (simp add: split_beta Let_def)
  next
    case (Network ev')
    then show ?thesis
      using settle_profile [of m "c\<lparr>clApi := fst (apiStep E ev' (clApi c))\<rparr>" w C E W 2 "snd (apiStep E ev' (clApi c))"]
      by (simp add: split_beta)
  qed (use assms in simp_all, (rule react; simp)+)
qed

section \<open>The program\<close>

definition profileShown :: "'u app \<Rightarrow> bool" where
  "profileShown s \<longleftrightarrow> (\<forall>d. lwDashboard (apWindow s) = Some d \<longrightarrow> dbProfile d = amUserProfile (clAuth (apClient s)))"

lemma profileShown_step:
  assumes inv: "appInv s" and shown: "profileShown s"
  shows "profileShown (appStep C E W ev s)"
proof (cases ev)
  case LoginClicked
  show ?thesis
  proof (cases "lwVisible (apWindow s) \<and> lwLoginEnabled (apWindow s)")
    case True
    then have idle: "amState (clAuth (apClient s)) \<in> {LoggedOut, Failed}"
      using inv windowInv_idle unfolding appInv_def by blast
    then have "lwDashboard (apWindow s) = None" using inv by (auto simp: appInv_def windowInv_def)
    then show ?thesis
      using True by (simp add: LoginClicked profileShown_def startLogin_state [OF idle]) (simp add: applyState_def Let_def)
  qed (use shown LoginClicked in auto)
next
  case SignOutRequested
  then show ?thesis using shown signOutWindow_state(2) [of C E W s] by (simp add: profileShown_def)
next
  case (Background ev')
  show ?thesis
  proof (cases "backgroundEvent ev'")
    case True
    let ?r = "clientStep C E W ev' (apClient s)"
    have step: "appStep C E W ev s = \<lparr>apWindow = windowRun (clAuth (fst ?r)) (snd ?r) (apWindow s), apClient = fst ?r\<rparr>"
      using True Background by (simp add: clientSlots_def split_beta del: clientStep.simps)
    show ?thesis
      using background_profile [OF True, of "clAuth (fst ?r)" "apClient s" "apWindow s" C E W] inv shown
      unfolding step profileShown_def profileKept_def appInv_def by auto
  qed (use shown Background in simp)
qed (use shown in \<open>auto simp: profileShown_def\<close>)

lemma appReachable_profile: "appReachable C E s \<Longrightarrow> profileShown s"
proof (induction rule: appReachable.induct)
  case start
  then show ?case by (simp add: profileShown_def initialWindow_def)
next
  case (step s W ev)
  then show ?case using profileShown_step [OF appReachable_inv] by blast
qed

end
