(* ===== verification/SessionLauncher.thy ===== *)
theory SessionLauncher
  imports SessionProfile UserDashboard
begin

text \<open>
  The whole client: the login window with the session behind it (\<open>LoginWindow\<close>), the dashboard that it
  shows while a session lasts (\<open>UserDashboard\<close>, created and destroyed by \<open>LoginWindow.cpp\<close>), and the threads
  of the pool that outlive a dashboard.
\<close>

section \<open>State\<close>

text \<open>\<open>pgOld\<close> are the destroyed dashboards, of which only a worker may be left; \<open>pgLastDir\<close> is the setting.\<close>

record 'u program =
  pgApp :: "'u app"
  pgDashboard :: "UserDashboard option"
  pgOld :: "UserDashboard list"
  pgLastDir :: qstring

text \<open>What Qt, the file system and the installation give to the dashboards.\<close>

record dashboard_env =
  deQt :: qt
  deUpper :: "qchar \<Rightarrow> qchar"
  deElide :: "qstring \<Rightarrow> qstring"
  deDate :: "int \<Rightarrow> qstring"
  deFiles :: file_info
  deNative :: native_files
  dePayload :: qstring

section \<open>Operations\<close>

text \<open>The dashboard is deleted: by \<open>showReauthentication\<close> and \<open>signOut\<close>, which hide it first, or after it was closed.\<close>

definition dropDashboard :: "'u program \<Rightarrow> 'u program \<times> dashboard_effect list" where
  "dropDashboard p =
     (case pgDashboard p of None \<Rightarrow> (p, [])
      | Some d \<Rightarrow>
        let (d, out) = closeDashboard d;
            (d, out') = destroyDashboard d
        in (p\<lparr>pgDashboard := None, pgOld := d # pgOld p, pgLastDir := lpLastDir (udPanel d)\<rparr>, out @ out'))"

text \<open>\<open>showDashboard\<close>: the dashboard of the new session.\<close>

definition openDashboard :: "dashboard_env \<Rightarrow> dashboard \<Rightarrow> 'u program \<Rightarrow> 'u program" where
  "openDashboard D profile p =
     p\<lparr>pgDashboard := Some (newDashboard (deQt D) (deUpper D) (deElide D) (deDate D) (dePayload D) (pgLastDir p) (dbProfile profile))\<rparr>"

text \<open>An event of the window; where its pointer to the dashboard changes, the dashboard is deleted or created.\<close>

definition windowEvent ::
    "'j auth_env \<Rightarrow> ('u, 'x, 'p, 'k) api_env \<Rightarrow> 'u client_world \<Rightarrow> dashboard_env \<Rightarrow> ('u, 'x) app_event \<Rightarrow> 'u program
      \<Rightarrow> 'u program \<times> dashboard_effect list" where
  "windowEvent C E W D ev p =
     (let before = lwDashboard (apWindow (pgApp p));
          p = p\<lparr>pgApp := appStep C E W ev (pgApp p)\<rparr>;
          after = lwDashboard (apWindow (pgApp p)) in
      if after = before then (p, [])
      else let (p, out) = dropDashboard p
           in ((case after of None \<Rightarrow> p | Some profile \<Rightarrow> openDashboard D profile p), out))"

text \<open>An event of the dashboard; its sign-out button is connected to \<open>LoginWindow::signOut\<close>.\<close>

definition dashboardEvent ::
    "'j auth_env \<Rightarrow> ('u, 'x, 'p, 'k) api_env \<Rightarrow> 'u client_world \<Rightarrow> dashboard_env \<Rightarrow> dashboard_event \<Rightarrow> 'u program
      \<Rightarrow> 'u program \<times> dashboard_effect list" where
  "dashboardEvent C E W D ev p =
     (case pgDashboard p of None \<Rightarrow> (p, [])
      | Some d \<Rightarrow>
        let (d, out) = dashboardStep (deQt D) (deFiles D) (deNative D) ev d;
            p = p\<lparr>pgDashboard := Some d\<rparr> in
        if SignOutSignal \<in> set out
        then (let (p, out') = windowEvent C E W D SignOutRequested p in (p, out @ out'))
        else (p, out))"

section \<open>Events\<close>

datatype ('u, 'x) program_event =
    WindowEvent "('u, 'x) app_event"
  | DashboardEvent dashboard_event
  | DashboardDeleted
  | OldWorker nat launch_event

text \<open>The events of the window that come from its dashboard are not the user's.\<close>

fun ownEvent :: "('u, 'x) app_event \<Rightarrow> bool" where
  "ownEvent SignOutRequested = False"
| "ownEvent DashboardClosed = False"
| "ownEvent _ = True"

fun programStep ::
    "'j auth_env \<Rightarrow> ('u, 'x, 'p, 'k) api_env \<Rightarrow> 'u client_world \<Rightarrow> dashboard_env \<Rightarrow> ('u, 'x) program_event \<Rightarrow> 'u program
      \<Rightarrow> 'u program \<times> dashboard_effect list" where
  "programStep C E W D (WindowEvent ev) p = (if ownEvent ev then windowEvent C E W D ev p else (p, []))"
| "programStep C E W D (DashboardEvent ev) p = (if ev = Destroyed then (p, []) else dashboardEvent C E W D ev p)"
| "programStep C E W D DashboardDeleted p =
     (case pgDashboard p of None \<Rightarrow> (p, [])
      | Some d \<Rightarrow> if udVisible d then (p, []) else windowEvent C E W D DashboardClosed p)"
| "programStep C E W D (OldWorker i ev) p =
     (if i < length (pgOld p)
      then (let (d, out) = dashboardStep (deQt D) (deFiles D) (deNative D) (PanelEvent (WorkerThread ev)) (pgOld p ! i)
            in (p\<lparr>pgOld := (pgOld p)[i := d]\<rparr>, out))
      else (p, []))"

definition initialProgram :: "('u, 'x, 'p, 'k) api_env \<Rightarrow> 'u \<Rightarrow> int \<Rightarrow> qstring \<Rightarrow> 'u program" where
  "initialProgram E baseUrl timeoutMs lastDir = \<lparr>
     pgApp = \<lparr>apWindow = initialWindow, apClient = \<lparr>clAuth = initialAuth, clApi = newApiClient E baseUrl timeoutMs\<rparr>\<rparr>,
     pgDashboard = None, pgOld = [], pgLastDir = lastDir\<rparr>"

inductive programReachable ::
    "'j auth_env \<Rightarrow> ('u, 'x, 'p, 'k) api_env \<Rightarrow> dashboard_env \<Rightarrow> 'u program \<Rightarrow> bool" for C E D where
  start: "programReachable C E D (initialProgram E baseUrl timeoutMs lastDir)"
| step: "programReachable C E D p \<Longrightarrow> programReachable C E D (fst (programStep C E W D ev p))"

section \<open>The invariant\<close>

definition programInv :: "'j auth_env \<Rightarrow> ('u, 'x, 'p, 'k) api_env \<Rightarrow> 'u program \<Rightarrow> bool" where
  "programInv C E p \<longleftrightarrow> appReachable C E (pgApp p)
     \<and> (case pgDashboard p of None \<Rightarrow> lwDashboard (apWindow (pgApp p)) = None
        | Some d \<Rightarrow> udAlive d \<and> (\<exists>profile. lwDashboard (apWindow (pgApp p)) = Some profile
            \<and> dashboardInv (launchExpiry (dbProfile profile)) d))
     \<and> (\<forall>d \<in> set (pgOld p). \<not> udAlive d \<and> (\<exists>expiry. dashboardInv expiry d))"

lemma programInv_new: "programInv C E (initialProgram E baseUrl timeoutMs lastDir)"
  by (simp add: programInv_def initialProgram_def appReachable.start) (simp add: initialWindow_def)

text \<open>Closing and deleting a dashboard are steps of it, which keep its invariant and load nothing.\<close>

lemma closeDashboard_step: "udAlive d \<Longrightarrow> closeDashboard d = dashboardStep q F N CloseWindow d"
  by simp

lemma closeDashboard_facts: "udAlive (fst (closeDashboard d)) = udAlive d" "dashLoads (snd (closeDashboard d)) = []"
  by (simp_all add: closeDashboard_def hideEvent_def inPanel_simps(3) inPanel_stop)

lemma dropDashboard_some:
  assumes "pgDashboard p = Some d" and "udAlive d" and "dashboardInv expiry d"
  obtains d' out where "fst (dropDashboard p) = p\<lparr>pgDashboard := None, pgOld := d' # pgOld p, pgLastDir := lpLastDir (udPanel d')\<rparr>"
    "\<not> udAlive d'" "dashboardInv expiry d'" "dashLoads (snd (dropDashboard p)) = []"
proof -
  let ?d1 = "fst (closeDashboard d)" and ?d2 = "fst (destroyDashboard (fst (closeDashboard d)))"
  have "dashboardInv expiry ?d1"
    using dashboardInv_step [OF assms(3), of q F N CloseWindow] assms(2) by simp
  then have "dashboardInv expiry ?d2"
    using dashboardInv_step [of expiry ?d1 q F N Destroyed] assms(2) by (simp add: closeDashboard_facts)
  then show thesis
    using assms(1) by (intro that [of ?d2]) (simp_all add: dropDashboard_def case_prod_unfold Let_def destroy_controller closeDashboard_facts)
qed

lemma newDashboard_alive: "udAlive (newDashboard q upper elide date payloadPath lastDir profile)"
  by (simp add: newDashboard_def)

lemma dropDashboard_none: "pgDashboard p = None \<Longrightarrow> dropDashboard p = (p, [])"
  by (simp add: dropDashboard_def)

lemma windowEvent_inv:
  assumes "programInv C E p"
  shows "programInv C E (fst (windowEvent C E W D ev p)) \<and> dashLoads (snd (windowEvent C E W D ev p)) = []"
proof -
  let ?app = "appStep C E W ev (pgApp p)" and ?p = "p\<lparr>pgApp := appStep C E W ev (pgApp p)\<rparr>"
  have reach: "appReachable C E ?app" and old: "\<forall>d \<in> set (pgOld p). \<not> udAlive d \<and> (\<exists>expiry. dashboardInv expiry d)"
    using assms by (simp_all add: programInv_def appReachable.step)
  show ?thesis
  proof (cases "lwDashboard (apWindow ?app) = lwDashboard (apWindow (pgApp p))")
    case True
    then show ?thesis using assms reach by (auto simp: windowEvent_def programInv_def Let_def split: option.splits)
  next
    case False
    then have event: "windowEvent C E W D ev p = ((case lwDashboard (apWindow ?app) of None \<Rightarrow> fst (dropDashboard ?p)
        | Some profile \<Rightarrow> openDashboard D profile (fst (dropDashboard ?p))), snd (dropDashboard ?p))"
      by (simp add: windowEvent_def Let_def case_prod_unfold)
    have "pgApp (fst (dropDashboard ?p)) = ?app \<and> pgDashboard (fst (dropDashboard ?p)) = None
        \<and> (\<forall>d \<in> set (pgOld (fst (dropDashboard ?p))). \<not> udAlive d \<and> (\<exists>expiry. dashboardInv expiry d))
        \<and> dashLoads (snd (dropDashboard ?p)) = []"
    proof (cases "pgDashboard p")
      case None
      then show ?thesis using old by (simp add: dropDashboard_none)
    next
      case (Some d)
      then obtain expiry where d: "pgDashboard ?p = Some d" "udAlive d" "dashboardInv expiry d"
        using assms by (auto simp: programInv_def)
      show ?thesis by (rule dropDashboard_some [OF d]) (use d(3) old in auto)
    qed
    then show ?thesis
      unfolding event using reach dashboardInv_new
      by (auto simp: programInv_def openDashboard_def newDashboard_alive split: option.split)
  qed
qed

lemma dashboardStep_alive: "udAlive d \<Longrightarrow> ev \<noteq> Destroyed \<Longrightarrow> udAlive (fst (dashboardStep q F N ev d))"
  by (cases ev) (simp_all add: inPanel_simps(3) hideEvent_def closeDashboard_def)

text \<open>What a dashboard's own step leaves, and what it loads.\<close>

lemma dashboardEvent_inv:
  assumes inv: "programInv C E p" and "ev \<noteq> Destroyed"
  shows "programInv C E (fst (dashboardEvent C E W D ev p))
    \<and> (dashLoads (snd (dashboardEvent C E W D ev p)) \<noteq> [] \<longrightarrow> (\<exists>d. pgDashboard p = Some d
         \<and> dashLoads (snd (dashboardStep (deQt D) (deFiles D) (deNative D) ev d)) \<noteq> []))"
proof (cases "pgDashboard p")
  case None
  then show ?thesis using inv by (simp add: dashboardEvent_def)
next
  case (Some d)
  let ?r = "dashboardStep (deQt D) (deFiles D) (deNative D) ev d"
  let ?p = "p\<lparr>pgDashboard := Some (fst ?r)\<rparr>"
  have "programInv C E ?p"
    using inv Some dashboardStep_alive [OF _ assms(2)] dashboardInv_step by (auto simp: programInv_def)
  moreover have "dashboardEvent C E W D ev p = (if SignOutSignal \<in> set (snd ?r)
      then (fst (windowEvent C E W D SignOutRequested ?p), snd ?r @ snd (windowEvent C E W D SignOutRequested ?p)) else (?p, snd ?r))"
    by (simp add: dashboardEvent_def Some case_prod_unfold Let_def)
  ultimately show ?thesis
    using Some windowEvent_inv [of C E ?p W D SignOutRequested] by auto
qed

lemma oldWorker_step:
  assumes "\<not> udAlive d" and "dashboardInv expiry d"
  shows "\<not> udAlive (fst (dashboardStep q F N ev d)) \<and> dashboardInv expiry (fst (dashboardStep q F N ev d))
    \<and> dashLoads (snd (dashboardStep q F N ev d)) = []"
  using dead [OF assms(1)] dashboardInv_step [OF assms(2)] dashboard_stopped [of d ev q F N] assms by (simp add: dashboardInv_def)

lemma programInv_old:
  "programInv C E p \<Longrightarrow> \<forall>d \<in> set olds. \<not> udAlive d \<and> (\<exists>expiry. dashboardInv expiry d) \<Longrightarrow> programInv C E (p\<lparr>pgOld := olds\<rparr>)"
  by (auto simp: programInv_def split: option.splits)

lemma programInv_step:
  assumes inv: "programInv C E p"
  shows "programInv C E (fst (programStep C E W D ev p))
    \<and> (dashLoads (snd (programStep C E W D ev p)) \<noteq> [] \<longrightarrow> (\<exists>dev d. ev = DashboardEvent dev \<and> pgDashboard p = Some d
         \<and> dashLoads (snd (dashboardStep (deQt D) (deFiles D) (deNative D) dev d)) \<noteq> []))"
proof (cases ev)
  case (WindowEvent e)
  then show ?thesis using inv windowEvent_inv [OF inv] by simp
next
  case (DashboardEvent e)
  then show ?thesis using inv dashboardEvent_inv [OF inv, of e] by simp
next
  case DashboardDeleted
  then show ?thesis using inv windowEvent_inv [OF inv] by (simp split: option.split)
next
  case (OldWorker i e)
  let ?r = "dashboardStep (deQt D) (deFiles D) (deNative D) (PanelEvent (WorkerThread e)) (pgOld p ! i)"
  show ?thesis
  proof (cases "i < length (pgOld p)")
    case True
    then have "pgOld p ! i \<in> set (pgOld p)" by simp
    then obtain expiry where "\<not> udAlive (pgOld p ! i)" "dashboardInv expiry (pgOld p ! i)"
      using inv by (auto simp: programInv_def)
    then have w: "\<not> udAlive (fst ?r) \<and> (\<exists>expiry. dashboardInv expiry (fst ?r)) \<and> dashLoads (snd ?r) = []"
      using oldWorker_step by blast
    have step: "programStep C E W D ev p = (p\<lparr>pgOld := (pgOld p)[i := fst ?r]\<rparr>, snd ?r)"
      using True by (simp add: OldWorker case_prod_unfold Let_def del: dashboardStep.simps)
    have "\<forall>d \<in> set ((pgOld p)[i := fst ?r]). \<not> udAlive d \<and> (\<exists>expiry. dashboardInv expiry d)"
      using set_update_subset_insert [of "pgOld p" i "fst ?r"] w inv unfolding programInv_def by blast
    then show ?thesis using programInv_old [OF inv] w unfolding step by simp
  qed (use inv OldWorker in simp)
qed

lemma programReachable_inv: "programReachable C E D p \<Longrightarrow> programInv C E p"
  by (induction rule: programReachable.induct) (rule programInv_new, rule programInv_step [THEN conjunct1])


section \<open>The end of the program\<close>

text \<open>\<open>~AuthManager\<close>.\<close>

definition destroyManager :: "AuthManager \<Rightarrow> AuthManager \<times> auth_effect list" where
  "destroyManager s = (clearSession (cancelAndWait s), [ApiCancelProfile])"

text \<open>\<open>~LoginWindow\<close>: the dashboard is hidden and deleted, then the manager is stopped and deleted.\<close>

definition closeProgram :: "'u program \<Rightarrow> 'u program \<times> dashboard_effect list \<times> auth_effect list" where
  "closeProgram p =
     (let (p, out) = dropDashboard p;
          (manager, es) = destroyManager (cancelAndWait (clAuth (apClient (pgApp p))));
          client = (apClient (pgApp p))\<lparr>clAuth := manager\<rparr>
      in (p\<lparr>pgApp := (pgApp p)\<lparr>apClient := client\<rparr>\<rparr>, out, es))"

text \<open>
  At its end the program keeps neither the password nor the token nor the challenge, and no worker that
  is left in the pool loads anything.
\<close>

lemma closeProgram_clears:
  assumes "programReachable C E D p" and "closeProgram p = (p', out, es)"
  shows "amPendingPassword (clAuth (apClient (pgApp p'))) = [] \<and> amSessionToken (clAuth (apClient (pgApp p'))) = []
    \<and> amChallenge (clAuth (apClient (pgApp p'))) = [] \<and> pgDashboard p' = None \<and> dashLoads out = []
    \<and> (\<forall>i ev. dashLoads (snd (programStep C E W D (OldWorker i ev) p')) = [])"
proof -
  note inv = programReachable_inv [OF assms(1)]
  have drop: "pgDashboard (fst (dropDashboard p)) = None \<and> dashLoads (snd (dropDashboard p)) = []
      \<and> (\<forall>d \<in> set (pgOld (fst (dropDashboard p))). \<not> udAlive d \<and> (\<exists>expiry. dashboardInv expiry d))"
  proof (cases "pgDashboard p")
    case None
    then show ?thesis using inv by (simp add: dropDashboard_none programInv_def)
  next
    case (Some d)
    then obtain expiry where d: "udAlive d" "dashboardInv expiry d" using inv by (auto simp: programInv_def)
    show ?thesis by (rule dropDashboard_some [OF Some d]) (use d(2) inv in \<open>auto simp: programInv_def\<close>)
  qed
  have p': "pgOld p' = pgOld (fst (dropDashboard p))" "pgDashboard p' = pgDashboard (fst (dropDashboard p))" "out = snd (dropDashboard p)"
    "clAuth (apClient (pgApp p')) = clearSession (cancelAndWait (cancelAndWait (clAuth (apClient (pgApp (fst (dropDashboard p)))))))"
    using assms(2) by (auto simp: closeProgram_def case_prod_unfold Let_def destroyManager_def)
  have "dashLoads (snd (programStep C E W D (OldWorker i ev) p')) = []" for i ev
  proof (cases "i < length (pgOld p')")
    case True
    then have "pgOld p' ! i \<in> set (pgOld (fst (dropDashboard p)))" unfolding p'(1) by simp
    then obtain expiry where "\<not> udAlive (pgOld p' ! i)" "dashboardInv expiry (pgOld p' ! i)" using drop by blast
    from oldWorker_step [OF this, of "deQt D" "deFiles D" "deNative D" "PanelEvent (WorkerThread ev)"] True
    show ?thesis by (simp add: case_prod_unfold Let_def del: dashboardStep.simps)
  qed simp
  then show ?thesis using drop p' by (simp add: clearSession_def)
qed

section \<open>Properties\<close>

abbreviation managerOf :: "'u program \<Rightarrow> AuthManager" where
  "managerOf p \<equiv> clAuth (apClient (pgApp p))"


text \<open>A client after a sign-in that failed.\<close>

definition sampleEnvironment :: dashboard_env where
  "sampleEnvironment = \<lparr>deQt = qtAscii, deUpper = (\<lambda>c. c), deElide = (\<lambda>s. s), deDate = (\<lambda>_. []), deFiles = sampleFiles,
     deNative = sampleNative, dePayload = lit ''payload''\<rparr>"

definition sampleProgram :: "url_parts program" where
  "sampleProgram = fst (programStep sampleEnv sampleApi sampleClientWorld sampleEnvironment (WindowEvent LoginClicked)
     \<lparr>pgApp = sampleApp, pgDashboard = None, pgOld = [], pgLastDir = []\<rparr>)"

lemma sampleProgram_reachable: "programReachable sampleEnv sampleApi sampleEnvironment sampleProgram"
  unfolding sampleProgram_def sampleApp_def sampleStart_def sampleClient_def
  by (intro programReachable.step) (use programReachable.start in \<open>auto simp: initialProgram_def\<close>)


end
