(* ===== verification/WindowTitleBar.thy ===== *)
theory WindowTitleBar
  imports Prelude
begin

text \<open>
  \<open>license-client/src/ui/WindowTitleBar.cpp\<close>: moving the frameless window by its title bar. Positions are
  pairs of coordinates; a mouse event carries the pointer and the buttons that \<open>QMouseEvent\<close> gives.
\<close>

type_synonym point = "int \<times> int"

datatype mouse_button = LeftButton | RightButton | MiddleButton

record WindowTitleBar =
  tbDragging :: bool
  tbDragOffset :: point
  tbWindow :: point

definition minus_point :: "point \<Rightarrow> point \<Rightarrow> point" where
  "minus_point a b = (fst a - fst b, snd a - snd b)"

text \<open>A handler tells whether it has accepted the event; the others go to \<open>QWidget\<close>.\<close>

definition mousePressEvent :: "mouse_button \<Rightarrow> point \<Rightarrow> WindowTitleBar \<Rightarrow> bool \<times> WindowTitleBar" where
  "mousePressEvent button pointer t =
     (if button = LeftButton
      then (True, t\<lparr>tbDragging := True, tbDragOffset := minus_point pointer (tbWindow t)\<rparr>)
      else (False, t))"

definition mouseMoveEvent :: "mouse_button set \<Rightarrow> point \<Rightarrow> WindowTitleBar \<Rightarrow> bool \<times> WindowTitleBar" where
  "mouseMoveEvent buttons pointer t =
     (if tbDragging t \<and> LeftButton \<in> buttons
      then (True, t\<lparr>tbWindow := minus_point pointer (tbDragOffset t)\<rparr>)
      else (False, t))"

definition mouseReleaseEvent :: "mouse_button \<Rightarrow> WindowTitleBar \<Rightarrow> bool \<times> WindowTitleBar" where
  "mouseReleaseEvent button t = (if button = LeftButton then (True, t\<lparr>tbDragging := False\<rparr>) else (False, t))"

datatype mouse_event =
    MousePress mouse_button point
  | MouseMove "mouse_button set" point
  | MouseRelease mouse_button

fun mouseStep :: "mouse_event \<Rightarrow> WindowTitleBar \<Rightarrow> WindowTitleBar" where
  "mouseStep (MousePress button pointer) t = snd (mousePressEvent button pointer t)"
| "mouseStep (MouseMove buttons pointer) t = snd (mouseMoveEvent buttons pointer t)"
| "mouseStep (MouseRelease button) t = snd (mouseReleaseEvent button t)"

lemma minus_minus [simp]: "minus_point a (minus_point a b) = b"
  by (simp add: minus_point_def)

text \<open>The events of a drag: the left button is neither pressed again nor released.\<close>

fun holdsLeft :: "mouse_event \<Rightarrow> bool" where
  "holdsLeft (MousePress button pointer) = (button \<noteq> LeftButton)"
| "holdsLeft (MouseMove buttons pointer) = (LeftButton \<in> buttons)"
| "holdsLeft (MouseRelease button) = (button \<noteq> LeftButton)"

fun lastPointer :: "point \<Rightarrow> mouse_event list \<Rightarrow> point" where
  "lastPointer a [] = a"
| "lastPointer a (MouseMove buttons pointer # evs) = lastPointer pointer evs"
| "lastPointer a (_ # evs) = lastPointer a evs"

text \<open>During a drag the point of the window that was grabbed stays under the pointer.\<close>

lemma drag_run:
  "tbDragging t \<Longrightarrow> minus_point a (tbWindow t) = tbDragOffset t \<Longrightarrow> \<forall>ev \<in> set evs. holdsLeft ev
    \<Longrightarrow> minus_point (lastPointer a evs) (tbWindow (fold mouseStep evs t)) = tbDragOffset t"
proof (induction evs arbitrary: t a)
  case (Cons ev evs)
  then show ?case
    by (cases ev) (simp_all add: mousePressEvent_def mouseMoveEvent_def mouseReleaseEvent_def)
qed simp

lemma drag_keeps_grip:
  assumes "\<forall>ev \<in> set evs. holdsLeft ev"
  shows "minus_point (lastPointer pointer evs) (tbWindow (fold mouseStep (MousePress LeftButton pointer # evs) t))
    = minus_point pointer (tbWindow t)"
  using drag_run [OF _ _ assms, of "mouseStep (MousePress LeftButton pointer) t" pointer]
  by (simp add: mousePressEvent_def)

text \<open>Without a press of the left button the window is not moved.\<close>

lemma no_press_no_move:
  "\<not> tbDragging t \<Longrightarrow> \<forall>ev \<in> set evs. \<forall>pointer. ev \<noteq> MousePress LeftButton pointer \<Longrightarrow> tbWindow (fold mouseStep evs t) = tbWindow t"
proof (induction evs arbitrary: t)
  case (Cons ev evs)
  then show ?case
    by (cases ev) (auto simp: mousePressEvent_def mouseMoveEvent_def mouseReleaseEvent_def)
qed simp

end
