(* ===== verification/ScopedHandle.thy ===== *)
theory ScopedHandle
  imports "HOL-Library.Multiset" "HOL-Library.Word"
begin

text \<open>
  The handle classes of \<open>shared\<close>: \<open>NCryptHandle\<close> of \<open>TpmIdentity.cpp\<close>, \<open>BCryptAlgorithmHandle\<close> and
  \<open>BCryptKeyHandle\<close> of \<open>EcdsaSignature.cpp\<close> and \<open>Handle\<close> of \<open>DiskReader.cpp\<close>. An object is the handle it
  holds; its operations give the new handle and what the system is asked to free. \<open>put\<close> is the call that
  writes through the pointer it returns, with the handle that the call gives.
\<close>

section \<open>The classes\<close>

datatype handle_effect = Acquires "64 word" | Frees "64 word"

type_synonym handle_step = "64 word \<times> handle_effect list"

definition acquires :: "64 word \<Rightarrow> 64 word \<Rightarrow> handle_effect list" where
  "acquires none h = (if h = none then [] else [Acquires h])"

text \<open>\<open>NCryptHandle\<close>: 0 is no handle, and \<open>put\<close> resets first.\<close>

definition ncryptReset :: "64 word \<Rightarrow> handle_step" where
  "ncryptReset s = (if s \<noteq> 0 then (0, [Frees s]) else (s, []))"

definition ncryptPut :: "64 word \<Rightarrow> 64 word \<Rightarrow> handle_step" where
  "ncryptPut h s = (let (s, es) = ncryptReset s in (h, es @ acquires 0 h))"

definition ncryptRelease :: "64 word \<Rightarrow> 64 word \<times> 64 word" where
  "ncryptRelease s = (s, 0)"

definition ncryptDestroy :: "64 word \<Rightarrow> handle_effect list" where
  "ncryptDestroy s = snd (ncryptReset s)"

text \<open>The two BCrypt classes: \<open>put\<close> gives the pointer away as it is.\<close>

definition bcryptPut :: "64 word \<Rightarrow> 64 word \<Rightarrow> handle_step" where
  "bcryptPut h s = (h, acquires 0 h)"

definition bcryptDestroy :: "64 word \<Rightarrow> handle_effect list" where
  "bcryptDestroy s = (if s \<noteq> 0 then [Frees s] else [])"

text \<open>\<open>Handle\<close>: the handle is given to the constructor; no handle is \<open>INVALID_HANDLE_VALUE\<close>.\<close>

definition diskConstruct :: "64 word \<Rightarrow> 64 word \<Rightarrow> handle_step" where
  "diskConstruct h s = (h, acquires (- 1) h)"

definition diskIsValid :: "64 word \<Rightarrow> bool" where
  "diskIsValid s \<longleftrightarrow> s \<noteq> - 1"

definition diskDestroy :: "64 word \<Rightarrow> handle_effect list" where
  "diskDestroy s = (if s \<noteq> - 1 then [Frees s] else [])"

section \<open>Owning a handle\<close>

fun acquired :: "handle_effect list \<Rightarrow> 64 word multiset" where
  "acquired [] = {#}"
| "acquired (Acquires h # es) = add_mset h (acquired es)"
| "acquired (Frees h # es) = acquired es"

fun freed :: "handle_effect list \<Rightarrow> 64 word multiset" where
  "freed [] = {#}"
| "freed (Acquires h # es) = freed es"
| "freed (Frees h # es) = add_mset h (freed es)"

lemma acquired_append [simp]: "acquired (a @ b) = acquired a + acquired b"
  by (induction a rule: acquired.induct) simp_all

lemma freed_append [simp]: "freed (a @ b) = freed a + freed b"
  by (induction a rule: freed.induct) simp_all

definition held :: "64 word \<Rightarrow> 64 word \<Rightarrow> 64 word multiset" where
  "held none s = (if s = none then {#} else {#s#})"

lemma acquires_sums [simp]: "acquired (acquires none h) = held none h" "freed (acquires none h) = {#}"
  by (simp_all add: acquires_def held_def)

text \<open>The life of an object: handles are stored one after the other, then it is destroyed.\<close>

fun life :: "(64 word \<Rightarrow> 64 word \<Rightarrow> handle_step) \<Rightarrow> (64 word \<Rightarrow> handle_effect list) \<Rightarrow> 64 word list \<Rightarrow> 64 word \<Rightarrow> handle_effect list" where
  "life store destroy [] s = destroy s"
| "life store destroy (h # hs) s = (let (s, es) = store h s in es @ life store destroy hs s)"

text \<open>
  What a class promises: storing a handle in an object that admits it frees what the object held,
  and the destructor frees what it holds.
\<close>

locale handle_owner =
  fixes none :: "64 word" and admits :: "64 word \<Rightarrow> bool"
    and store :: "64 word \<Rightarrow> 64 word \<Rightarrow> handle_step" and destroy :: "64 word \<Rightarrow> handle_effect list"
  assumes store_holds: "fst (store h s) = h"
    and store_acquired: "acquired (snd (store h s)) = held none h"
    and store_freed: "admits s \<Longrightarrow> freed (snd (store h s)) = held none s"
    and destroy_acquired: "acquired (destroy s) = {#}"
    and destroy_freed: "freed (destroy s) = held none s"
begin

fun admitted :: "64 word list \<Rightarrow> 64 word \<Rightarrow> bool" where
  "admitted [] s = True"
| "admitted (h # hs) s = (admits s \<and> admitted hs h)"

text \<open>Everything acquired is freed, once.\<close>

lemma life_balanced:
  "admitted hs s \<Longrightarrow> freed (life store destroy hs s) = acquired (life store destroy hs s) + held none s"
proof (induction hs arbitrary: s)
  case Nil
  then show ?case by (simp add: destroy_acquired destroy_freed)
next
  case (Cons h hs)
  then show ?case
    using Cons.IH [of h] by (simp add: case_prod_unfold store_holds store_acquired store_freed)
qed

lemma life_from_empty: "admitted hs none \<Longrightarrow> freed (life store destroy hs none) = acquired (life store destroy hs none)"
  using life_balanced by (simp add: held_def)

end

interpretation ncrypt: handle_owner 0 "\<lambda>_. True" ncryptPut ncryptDestroy
  by unfold_locales (simp_all add: ncryptPut_def ncryptReset_def ncryptDestroy_def held_def)

interpretation bcrypt: handle_owner 0 "\<lambda>s. s = 0" bcryptPut bcryptDestroy
  by unfold_locales (simp_all add: bcryptPut_def bcryptDestroy_def held_def)

interpretation disk: handle_owner "- 1" "\<lambda>s. s = - 1" diskConstruct diskDestroy
  by unfold_locales (simp_all add: diskConstruct_def diskDestroy_def held_def)

section \<open>What follows\<close>

text \<open>An \<open>NCryptHandle\<close> frees every handle it was given exactly once, however often \<open>put\<close> is called.\<close>

lemma ncrypt_frees_all: "freed (life ncryptPut ncryptDestroy hs 0) = acquired (life ncryptPut ncryptDestroy hs 0)"
proof (rule ncrypt.life_from_empty)
  have "ncrypt.admitted hs s" for s by (induction hs arbitrary: s) simp_all
  then show "ncrypt.admitted hs 0" .
qed

text \<open>A handle that was released is the caller's: the object frees nothing any more.\<close>

lemma ncrypt_release: "ncryptRelease s = (h, s') \<Longrightarrow> h = s \<and> ncryptDestroy s' = []"
  by (auto simp: ncryptRelease_def ncryptDestroy_def ncryptReset_def)

text \<open>The BCrypt classes and \<open>Handle\<close> free their handle when it is stored once, which is how they are used.\<close>

lemma bcrypt_frees: "freed (life bcryptPut bcryptDestroy [h] 0) = acquired (life bcryptPut bcryptDestroy [h] 0)"
  by (rule bcrypt.life_from_empty) simp

lemma disk_frees: "freed (life diskConstruct diskDestroy [h] (- 1)) = acquired (life diskConstruct diskDestroy [h] (- 1))"
  by (rule disk.life_from_empty) simp

text \<open>A second \<open>put\<close> of a BCrypt class would leak the first handle.\<close>

lemma bcrypt_put_twice:
  assumes "h \<noteq> 0" and "k \<noteq> 0"
  shows "acquired (life bcryptPut bcryptDestroy [h, k] 0) = {#h, k#} \<and> freed (life bcryptPut bcryptDestroy [h, k] 0) = {#k#}"
  using assms by (simp add: bcryptPut_def bcryptDestroy_def acquires_def)

end
