(* ===== verification/HwidTool.thy ===== *)
theory HwidTool
  imports DeviceIdentity TpmIdentity
begin

text \<open>
  The windows that show the hardware identity: the hardware-id tool (\<open>hwid-obtainer/src/MainWindow.cpp\<close>
  and \<open>DiagnosticPresentation.cpp\<close>) and the client's dialog (\<open>license-client/src/ui/HwidDialog.cpp\<close>).
  Their background tasks are explicit: started by an event, finished by another. The clipboard and
  files are effects.
\<close>

section \<open>Presentation\<close>

record Signal =
  sgValue :: qstring
  sgStatus :: qstring

record StatusState =
  ssCollection :: qstring
  ssTpmTest :: qstring

definition signalFor :: "qt \<Rightarrow> qstring \<Rightarrow> Signal" where
  "signalFor q value =
     (if qtTrimmed q value = [] then \<lparr>sgValue = lit ''<unavailable>'', sgStatus = lit ''Missing''\<rparr>
      else \<lparr>sgValue = value, sgStatus = lit ''Available''\<rparr>)"

definition withCollectionStatus :: "StatusState \<Rightarrow> qstring \<Rightarrow> StatusState" where
  "withCollectionStatus status message = status\<lparr>ssCollection := message\<rparr>"

definition withTpmTestStatus :: "StatusState \<Rightarrow> qstring \<Rightarrow> StatusState" where
  "withTpmTestStatus status message = status\<lparr>ssTpmTest := message\<rparr>"

section \<open>The tool's window\<close>

record TpmTestResult =
  ttSummary :: qstring
  ttPassed :: bool

record MainWindow =
  mwIdentity :: HardwareIdentity
  mwStatus :: StatusState
  mwCollecting :: bool
  mwTesting :: bool
  mwHasIdentity :: bool
  mwRefreshEnabled :: bool
  mwCopyEnabled :: bool
  mwExportEnabled :: bool
  mwTestEnabled :: bool
  mwSignals :: "Signal list"

datatype tool_effect = SetClipboard qstring | WriteFile qstring bytes

type_synonym tool_handler = "MainWindow \<Rightarrow> MainWindow \<times> tool_effect list"

definition setCollectionStatus :: "qstring \<Rightarrow> MainWindow \<Rightarrow> MainWindow" where
  "setCollectionStatus message w = w\<lparr>mwStatus := withCollectionStatus (mwStatus w) message\<rparr>"

definition setTpmTestStatus :: "qstring \<Rightarrow> MainWindow \<Rightarrow> MainWindow" where
  "setTpmTestStatus message w = w\<lparr>mwStatus := withTpmTestStatus (mwStatus w) message\<rparr>"

text \<open>The ellipsis and the dash of the texts.\<close>

definition ellipsis :: qchar where "ellipsis = 8230"
definition emDash :: qchar where "emDash = 8212"

definition refreshHardware :: tool_handler where
  "refreshHardware w =
     (if mwCollecting w then (w, [])
      else let w = w\<lparr>mwHasIdentity := False\<rparr>;
               w = w\<lparr>mwRefreshEnabled := False, mwCopyEnabled := False, mwExportEnabled := False\<rparr>;
               w = setCollectionStatus (lit ''Collecting hardware signals'' @ [ellipsis]) w
           in (w\<lparr>mwCollecting := True\<rparr>, []))"

text \<open>The task of the tool: the collected identity with its fingerprint.\<close>

definition collectTask :: "qt \<Rightarrow> HardwareIdentity \<Rightarrow> HardwareIdentity" where
  "collectTask q identity = identity\<lparr>finalFingerprint := generate q identity\<rparr>"

definition hardwareValues :: "HardwareIdentity \<Rightarrow> qstring list" where
  "hardwareValues identity = [smbiosUuid identity, motherboardSerial identity, biosSerial identity,
     systemDiskSerial identity, machineGuid identity, tpmPublicKeyHash identity, finalFingerprint identity]"

definition showIdentity :: "qt \<Rightarrow> HardwareIdentity \<Rightarrow> MainWindow \<Rightarrow> MainWindow" where
  "showIdentity q identity w =
     (let w = w\<lparr>mwSignals := map (signalFor q) (hardwareValues identity)\<rparr>;
          availableSignals = length (filter (\<lambda>value. qtTrimmed q value \<noteq> []) (hardwareValues identity))
      in setCollectionStatus (lit ''Hardware collection complete: '' @ decimalText (int availableSignals)
           @ lit '' of 7 signals available.'') w)"

text \<open>The end of the collection; \<open>None\<close> is a task that threw an exception.\<close>

definition collectionFinished :: "qt \<Rightarrow> HardwareIdentity option \<Rightarrow> tool_handler" where
  "collectionFinished q collected w =
     (let w = w\<lparr>mwCollecting := False, mwRefreshEnabled := True\<rparr> in
      case collected of
        None \<Rightarrow> (setCollectionStatus (lit ''Hardware collection failed; no values are available.'') w, [])
      | Some identity \<Rightarrow>
        let w = w\<lparr>mwIdentity := identity\<rparr>;
            w = showIdentity q (mwIdentity w) w;
            w = w\<lparr>mwHasIdentity := True\<rparr>
        in (w\<lparr>mwCopyEnabled := qtTrimmed q (finalFingerprint (mwIdentity w)) \<noteq> [], mwExportEnabled := True\<rparr>, []))"

definition copyHwid :: "qt \<Rightarrow> tool_handler" where
  "copyHwid q w =
     (if \<not> mwHasIdentity w \<or> qtTrimmed q (finalFingerprint (mwIdentity w)) = []
      then (setCollectionStatus (lit ''No fingerprint is available to copy.'') w, [])
      else (setCollectionStatus (lit ''Fingerprint copied to the clipboard.'') w,
        [SetClipboard (finalFingerprint (mwIdentity w))]))"

text \<open>
  \<open>fileName\<close> is the answer of the file dialog, \<open>opened\<close>, \<open>written\<close> and \<open>committed\<close> those of
  \<open>QSaveFile\<close>, which replaces the file only when it commits; \<open>printed\<close> prints the JSON, indented.
\<close>

definition exportJson :: "(jsonObject \<Rightarrow> bytes) \<Rightarrow> qstring \<Rightarrow> bool \<Rightarrow> int \<Rightarrow> bool \<Rightarrow> tool_handler" where
  "exportJson printed fileName opened written committed w =
     (if \<not> mwHasIdentity w
      then (setCollectionStatus (lit ''Collect hardware signals before exporting JSON.'') w, [])
      else if fileName = [] then (w, [])
      else if \<not> opened then (setCollectionStatus (lit ''Could not open the selected export file.'') w, [])
      else let json = printed (toJson (mwIdentity w)) in
      if written \<noteq> int (length json) \<or> \<not> committed
      then (setCollectionStatus (lit ''JSON export failed; the existing file was not replaced.'') w, [])
      else (setCollectionStatus (lit ''Hardware identity exported successfully.'') w, [WriteFile fileName json]))"

section \<open>The TPM test\<close>

text \<open>\<open>value[0] ^= 1\<close>.\<close>

definition flipFirst :: "bytes \<Rightarrow> bytes" where
  "flipFirst b = xor (hd b) 1 # tl b"

definition passText :: "bool \<Rightarrow> qstring" where
  "passText ok = (if ok then lit ''PASS'' else lit ''FAIL'')"

definition performTpmTest :: "qt \<Rightarrow> 'c cng \<Rightarrow> bcrypt \<Rightarrow> 'c \<Rightarrow> bytes \<Rightarrow> TpmTestResult" where
  "performTpmTest q C B c challenge =
     (if \<not> isAvailable C c then \<lparr>ttSummary = lit ''TPM test: unavailable.'', ttPassed = False\<rparr>
      else let (ensured, e, c) = ensureKey C c in
      if \<not> ensured then \<lparr>ttSummary = lit ''TPM test: key setup failed ('' @ e @ lit '').'', ttPassed = False\<rparr>
      else let publicKey = publicKeyBlob C c; (signature, e) = signChallenge q C c challenge in
      if publicKey = [] \<or> signature = []
      then \<lparr>ttSummary = lit ''TPM test: signing failed ('' @ e @ lit '').'', ttPassed = False\<rparr>
      else let validSignature = verifyCngP256 q B publicKey challenge signature;
               modifiedChallengeRejected = (\<not> verifyCngP256 q B publicKey (flipFirst challenge) signature);
               modifiedSignatureRejected = (\<not> verifyCngP256 q B publicKey challenge (flipFirst signature));
               passed = (validSignature \<and> modifiedChallengeRejected \<and> modifiedSignatureRejected)
      in \<lparr>ttSummary = lit ''TPM test '' @ emDash # lit '' valid signature: '' @ passText validSignature
           @ lit ''; modified challenge rejected: '' @ passText modifiedChallengeRejected
           @ lit ''; modified signature rejected: '' @ passText modifiedSignatureRejected @ lit ''.'',
          ttPassed = passed\<rparr>)"

definition runTpmTest :: tool_handler where
  "runTpmTest w =
     (if mwTesting w then (w, [])
      else let w = w\<lparr>mwTestEnabled := False\<rparr>;
               w = setTpmTestStatus (lit ''Running TPM verification checks'' @ [ellipsis]) w
           in (w\<lparr>mwTesting := True\<rparr>, []))"

definition tpmTestFinished :: "TpmTestResult option \<Rightarrow> tool_handler" where
  "tpmTestFinished outcome w =
     (let w = w\<lparr>mwTesting := False, mwTestEnabled := True\<rparr> in
      case outcome of
        Some result \<Rightarrow> (setTpmTestStatus (ttSummary result) w, [])
      | None \<Rightarrow> (setTpmTestStatus (lit ''TPM test failed unexpectedly.'') w, []))"

section \<open>Events\<close>

text \<open>The window before its constructor's call of \<open>refreshHardware\<close>, with the texts of its form.\<close>

definition newMainWindow :: "StatusState \<Rightarrow> MainWindow" where
  "newMainWindow texts = fst (refreshHardware \<lparr>mwIdentity = emptyIdentity, mwStatus = texts, mwCollecting = False,
     mwTesting = False, mwHasIdentity = False, mwRefreshEnabled = True, mwCopyEnabled = False,
     mwExportEnabled = False, mwTestEnabled = True, mwSignals = []\<rparr>)"

datatype tool_event =
    RefreshClicked
  | CollectionDone "HardwareIdentity option"
  | CopyClicked
  | ExportClicked qstring bool int bool
  | TestClicked
  | TestDone "TpmTestResult option"

text \<open>A disabled button is not clicked, and only a running task finishes.\<close>

fun toolStep :: "qt \<Rightarrow> (jsonObject \<Rightarrow> bytes) \<Rightarrow> tool_event \<Rightarrow> tool_handler" where
  "toolStep q printed RefreshClicked w = (if mwRefreshEnabled w then refreshHardware w else (w, []))"
| "toolStep q printed (CollectionDone collected) w = (if mwCollecting w then collectionFinished q collected w else (w, []))"
| "toolStep q printed CopyClicked w = (if mwCopyEnabled w then copyHwid q w else (w, []))"
| "toolStep q printed (ExportClicked fileName opened written committed) w =
     (if mwExportEnabled w then exportJson printed fileName opened written committed w else (w, []))"
| "toolStep q printed TestClicked w = (if mwTestEnabled w then runTpmTest w else (w, []))"
| "toolStep q printed (TestDone outcome) w = (if mwTesting w then tpmTestFinished outcome w else (w, []))"

inductive toolReachable :: "qt \<Rightarrow> (jsonObject \<Rightarrow> bytes) \<Rightarrow> MainWindow \<Rightarrow> bool" for q printed where
  start: "toolReachable q printed (newMainWindow texts)"
| step: "toolReachable q printed w \<Longrightarrow> toolReachable q printed (fst (toolStep q printed ev w))"

section \<open>The client's dialog\<close>

record HwidDialog =
  hdCode :: qstring
  hdDescription :: qstring
  hdCopyEnabled :: bool
  hdCopied :: bool

text \<open>The task: whether there is a fingerprint, and the fingerprint.\<close>

definition dialogCollect :: "bool \<Rightarrow> HardwareIdentity \<Rightarrow> bool \<times> qstring" where
  "dialogCollect collected identity =
     (collected \<and> finalFingerprint identity \<noteq> [], if collected then finalFingerprint identity else [])"

definition dialogFinished :: "bool \<times> qstring \<Rightarrow> HwidDialog \<Rightarrow> HwidDialog" where
  "dialogFinished result d =
     (if \<not> fst result then d\<lparr>hdDescription := lit ''Device ID could not be calculated.''\<rparr>
      else let d = d\<lparr>hdCode := snd result\<rparr>;
               d = d\<lparr>hdDescription := lit ''This code is unique to your device. Only share it with support.''\<rparr>
           in d\<lparr>hdCopyEnabled := True\<rparr>)"

definition copyCode :: "HwidDialog \<Rightarrow> HwidDialog \<times> tool_effect list" where
  "copyCode d = (d\<lparr>hdCopied := True, hdCopyEnabled := False\<rparr>, [SetClipboard (hdCode d)])"

definition copyTimeout :: "HwidDialog \<Rightarrow> HwidDialog" where
  "copyTimeout d = d\<lparr>hdCopied := False, hdCopyEnabled := True\<rparr>"

datatype dialog_event = DialogCollected bool HardwareIdentity | CopyCodeClicked | CopyTimeout

fun dialogStep :: "dialog_event \<Rightarrow> HwidDialog \<Rightarrow> HwidDialog \<times> tool_effect list" where
  "dialogStep (DialogCollected collected identity) d = (dialogFinished (dialogCollect collected identity) d, [])"
| "dialogStep CopyCodeClicked d = (if hdCopyEnabled d then copyCode d else (d, []))"
| "dialogStep CopyTimeout d = (if hdCopied d then copyTimeout d else d, [])"

definition newHwidDialog :: "qstring \<Rightarrow> HwidDialog" where
  "newHwidDialog description = \<lparr>hdCode = [], hdDescription = description, hdCopyEnabled = False, hdCopied = False\<rparr>"

inductive dialogReachable :: "HwidDialog \<Rightarrow> bool" where
  start: "dialogReachable (newHwidDialog description)"
| step: "dialogReachable d \<Longrightarrow> dialogReachable (fst (dialogStep ev d))"

section \<open>What is shown is what is handed out\<close>

definition toolInv :: "qt \<Rightarrow> MainWindow \<Rightarrow> bool" where
  "toolInv q w \<longleftrightarrow>
     (mwHasIdentity w \<longrightarrow> \<not> mwCollecting w \<and> mwSignals w = map (signalFor q) (hardwareValues (mwIdentity w)))
     \<and> (mwCopyEnabled w \<longleftrightarrow> mwHasIdentity w \<and> qtTrimmed q (finalFingerprint (mwIdentity w)) \<noteq> [])
     \<and> (mwExportEnabled w \<longleftrightarrow> mwHasIdentity w)
     \<and> (mwRefreshEnabled w \<longleftrightarrow> \<not> mwCollecting w) \<and> (mwTestEnabled w \<longleftrightarrow> \<not> mwTesting w)"

lemmas tool_handler_defs = refreshHardware_def collectionFinished_def copyHwid_def exportJson_def runTpmTest_def
  tpmTestFinished_def showIdentity_def setCollectionStatus_def setTpmTestStatus_def Let_def

lemma toolInv_step:
  assumes "toolInv q w"
  shows "toolInv q (fst (toolStep q printed ev w))"
proof (cases ev)
  case (CollectionDone collected)
  with assms show ?thesis by (cases collected) (auto simp: toolInv_def tool_handler_defs)
next
  case (TestDone outcome)
  with assms show ?thesis by (cases outcome) (auto simp: toolInv_def tool_handler_defs)
qed (use assms in \<open>auto simp: toolInv_def tool_handler_defs\<close>)

lemma toolReachable_inv: "toolReachable q printed w \<Longrightarrow> toolInv q w"
proof (induction rule: toolReachable.induct)
  case (start texts)
  show ?case by (simp add: toolInv_def newMainWindow_def tool_handler_defs)
qed (rule toolInv_step)

lemma dialogReachable_code:
  "dialogReachable d \<Longrightarrow> hdCopyEnabled d \<or> hdCopied d \<Longrightarrow> hdCode d \<noteq> []"
proof (induction rule: dialogReachable.induct)
  case (step d ev)
  then show ?case
    by (cases ev) (auto simp: dialogFinished_def dialogCollect_def copyCode_def copyTimeout_def Let_def split: if_splits)
qed (simp add: newHwidDialog_def)

text \<open>
  C39. What leaves the tool is what it shows: a copied text is the fingerprint in the last field of
  the window, never an empty one, a written file is the JSON of the identity in the fields, and
  nothing leaves it while a collection runs.
\<close>

theorem tool_hands_out_shown:
  assumes "toolReachable q printed w" and "effect \<in> set (snd (toolStep q printed ev w))"
  shows "\<not> mwCollecting w \<and> mwSignals w = map (signalFor q) (hardwareValues (mwIdentity w))
    \<and> (effect = SetClipboard (finalFingerprint (mwIdentity w)) \<and> qtTrimmed q (finalFingerprint (mwIdentity w)) \<noteq> []
       \<or> (\<exists>fileName. effect = WriteFile fileName (printed (toJson (mwIdentity w)))))"
  using toolReachable_inv [OF assms(1)] assms(2)
  by (cases ev) (auto simp: toolInv_def tool_handler_defs split: if_splits option.splits)

text \<open>A tool that has collected an identity.\<close>

definition sampleTool :: MainWindow where
  "sampleTool = fst (toolStep qtAscii (\<lambda>_. []) (CollectionDone (Some (sampleIdentity ''u'' ''b''\<lparr>finalFingerprint := lit ''F''\<rparr>)))
     (newMainWindow \<lparr>ssCollection = [], ssTpmTest = []\<rparr>))"

theorem tool_hands_out_shown_witness:
  "snd (toolStep qtAscii (\<lambda>_. []) CopyClicked sampleTool) = [SetClipboard (lit ''F'')]
   \<and> mwSignals sampleTool = map (signalFor qtAscii) (hardwareValues (mwIdentity sampleTool))"
proof
  have reach: "toolReachable qtAscii (\<lambda>_. []) sampleTool"
    unfolding sampleTool_def by (intro toolReachable.step toolReachable.start)
  show out: "snd (toolStep qtAscii (\<lambda>_. []) CopyClicked sampleTool) = [SetClipboard (lit ''F'')]"
    by (simp add: sampleTool_def newMainWindow_def tool_handler_defs qtAscii_simps trimmed_def lit_def)
  show "mwSignals sampleTool = map (signalFor qtAscii) (hardwareValues (mwIdentity sampleTool))"
    using tool_hands_out_shown [OF reach, of "SetClipboard (lit ''F'')" CopyClicked] out by simp
qed

end
