(* ===== verification/PeImage.thy ===== *)
theory PeImage
  imports Prelude "HOL-Library.Monad_Syntax"
begin

text \<open>
  The part of \<open>StarInjectorManualMap.cpp\<close> that reads a PE file and lays it out as an image:
  \<open>injectManualMap\<close> up to the allocation of the remote image (lines 794 to 1065).

  A view view and an image buffer are byte lists. The code accesses them through raw pointers: a read
  or a write outside the list is \<open>None\<close>, so that a result \<open>Some\<close> says that every access was in
  bounds. Fields keep their width, and the sums of the code wrap where the code's types wrap.
\<close>

section \<open>Little-endian memory\<close>

fun leNat :: "bytes \<Rightarrow> nat" where
  "leNat [] = 0"
| "leNat (b # bs) = unat b + 256 * leNat bs"

fun leBytes :: "nat \<Rightarrow> nat \<Rightarrow> bytes" where
  "leBytes 0 v = []"
| "leBytes (Suc n) v = word_of_nat (v mod 256) # leBytes n (v div 256)"

definition readLe :: "nat \<Rightarrow> bytes \<Rightarrow> nat \<Rightarrow> nat option" where
  "readLe n b i = (if i + n \<le> length b then Some (leNat (take n (drop i b))) else None)"

definition read16 :: "bytes \<Rightarrow> nat \<Rightarrow> 16 word option" where
  "read16 b i = map_option word_of_nat (readLe 2 b i)"

definition read32 :: "bytes \<Rightarrow> nat \<Rightarrow> 32 word option" where
  "read32 b i = map_option word_of_nat (readLe 4 b i)"

definition read64 :: "bytes \<Rightarrow> nat \<Rightarrow> 64 word option" where
  "read64 b i = map_option word_of_nat (readLe 8 b i)"

text \<open>\<open>memcpy\<close> into a buffer, and out of one.\<close>

definition blit :: "nat \<Rightarrow> bytes \<Rightarrow> bytes \<Rightarrow> bytes option" where
  "blit i src dst =
     (if i + length src \<le> length dst then Some (take i dst @ src @ drop (i + length src) dst) else None)"

definition slice :: "nat \<Rightarrow> nat \<Rightarrow> bytes \<Rightarrow> bytes option" where
  "slice i n src = (if i + n \<le> length src then Some (take n (drop i src)) else None)"

lemma length_leBytes [simp]: "length (leBytes n v) = n"
  by (induction n arbitrary: v) auto

lemma leNat_less: "leNat b < 256 ^ length b"
proof (induction b)
  case (Cons x b)
  have "unat x + 256 * leNat b < 256 * (leNat b + 1)" by (simp add: algebra_simps)
  also have "\<dots> \<le> 256 * 256 ^ length b" using Cons by (intro mult_le_mono2) simp
  finally show ?case by simp
qed simp

lemma leNat_leBytes [simp]: "leNat (leBytes n v) = v mod 256 ^ n"
  by (induction n arbitrary: v) (auto simp: mod_mult2_eq unsigned_of_nat take_bit_nat_eq_self)

lemma leBytes_leNat [simp]: "leBytes (length b) (leNat b) = b"
proof (induction b)
  case (Cons x b)
  have "unat x < 256" by simp
  then have "(unat x + 256 * leNat b) mod 256 = unat x" "(unat x + 256 * leNat b) div 256 = leNat b"
    by simp_all
  with Cons show ?case by simp
qed simp

lemma readLe_Some: "readLe n b i = Some v \<longleftrightarrow> i + n \<le> length b \<and> v = leNat (take n (drop i b))"
  by (auto simp: readLe_def)

text \<open>Reading from a concatenation of encoded fields.\<close>

lemma readLe_skip: "length a \<le> i \<Longrightarrow> readLe n (a @ b) i = readLe n b (i - length a)"
  by (auto simp: readLe_def)

lemma readLe_head:
  "readLe n (leBytes n v @ b) 0 = Some (v mod 256 ^ n)" "readLe n (leBytes n v) 0 = Some (v mod 256 ^ n)"
  by (simp_all add: readLe_def)

lemma leNat_zeros [simp]: "leNat (replicate n 0) = 0"
  by (induction n) auto

lemma readLe_zeros: "i + n \<le> m \<Longrightarrow> readLe n (replicate m 0 @ b) i = Some 0"
  by (simp add: readLe_def min_def)

lemmas read_fields = read16_def read32_def read64_def readLe_skip readLe_head readLe_zeros

lemma readLe_defined: "readLe n b i \<noteq> None \<longleftrightarrow> i + n \<le> length b"
  by (simp add: readLe_def)

lemma read_defined [simp]:
  "(\<exists>v. read16 b i = Some v) \<longleftrightarrow> i + 2 \<le> length b"
  "(\<exists>v. read32 b i = Some v) \<longleftrightarrow> i + 4 \<le> length b"
  "(\<exists>v. read64 b i = Some v) \<longleftrightarrow> i + 8 \<le> length b"
  by (auto simp: read16_def read32_def read64_def readLe_def)

lemma read_ex:
  "i + 2 \<le> length b \<Longrightarrow> \<exists>v. read16 b i = Some v"
  "i + 4 \<le> length b \<Longrightarrow> \<exists>v. read32 b i = Some v"
  "i + 8 \<le> length b \<Longrightarrow> \<exists>v. read64 b i = Some v"
  by simp_all

lemma read_None [simp]:
  "read16 b i = None \<longleftrightarrow> length b < i + 2"
  "read32 b i = None \<longleftrightarrow> length b < i + 4"
  "read64 b i = None \<longleftrightarrow> length b < i + 8"
  by (auto simp: read16_def read32_def read64_def readLe_def)

lemma length_blit: "blit i src dst = Some b \<Longrightarrow> length b = length dst"
  by (auto simp: blit_def split: if_splits)

lemma blit_None [simp]: "blit i src dst = None \<longleftrightarrow> length dst < i + length src"
  by (auto simp: blit_def)

lemma nth_blit:
  assumes "blit i src dst = Some b" and "r < length dst"
  shows "b ! r = (if i \<le> r \<and> r < i + length src then src ! (r - i) else dst ! r)"
  using assms by (auto simp: blit_def nth_append split: if_splits)

lemma slice_Some: "slice i n src = Some b \<longleftrightarrow> i + n \<le> length src \<and> b = take n (drop i src)"
  by (auto simp: slice_def)

lemma slice_None [simp]: "slice i n src = None \<longleftrightarrow> length src < i + n"
  by (auto simp: slice_def)

section \<open>Headers\<close>

text \<open>Sizes and offsets of the structures of \<open>winnt.h\<close>.\<close>

definition sizeDosHeader :: nat where "sizeDosHeader = 64"
definition sizeFileHeader :: nat where "sizeFileHeader = 20"
definition sizeSectionHeader :: nat where "sizeSectionHeader = 40"

definition sizeOptionalHeader :: "bool \<Rightarrow> nat" where
  "sizeOptionalHeader is32 = (if is32 then 224 else 240)"

text \<open>The offset of entry \<open>k\<close> of the data directory in the optional header.\<close>

definition dataDirectory :: "bool \<Rightarrow> nat \<Rightarrow> nat" where
  "dataDirectory is32 k = (if is32 then 96 else 112) + 8 * k"

definition IMAGE_DOS_SIGNATURE :: "16 word" where "IMAGE_DOS_SIGNATURE = 0x5A4D"
definition IMAGE_NT_SIGNATURE :: "32 word" where "IMAGE_NT_SIGNATURE = 0x4550"
definition HDR32_MAGIC :: "16 word" where "HDR32_MAGIC = 0x10B"
definition HDR64_MAGIC :: "16 word" where "HDR64_MAGIC = 0x20B"
definition MACHINE_I386 :: "16 word" where "MACHINE_I386 = 0x14C"
definition MACHINE_AMD64 :: "16 word" where "MACHINE_AMD64 = 0x8664"
definition MACHINE_ARM64 :: "16 word" where "MACHINE_ARM64 = 0xAA64"

lemmas pe_constants = sizeDosHeader_def sizeFileHeader_def sizeSectionHeader_def sizeOptionalHeader_def
  dataDirectory_def IMAGE_DOS_SIGNATURE_def IMAGE_NT_SIGNATURE_def HDR32_MAGIC_def HDR64_MAGIC_def
  MACHINE_I386_def MACHINE_AMD64_def MACHINE_ARM64_def

datatype pe_error = ERROR_INVALID_DATA | ERROR_BAD_EXE_FORMAT

record PeHeader =
  phIs32 :: bool
  phMachine :: "16 word"
  phImageSize :: "32 word"
  phHeadersSize :: "32 word"
  phEntryRva :: "32 word"
  phPreferredBase :: "64 word"
  phRelocRva :: "32 word"
  phRelocSize :: "32 word"
  phImportRva :: "32 word"
  phImportSize :: "32 word"
  phTlsRva :: "32 word"
  phTlsSize :: "32 word"
  phNumSections :: "16 word"
  phSectionTable :: nat

text \<open>\<open>e_lfanew\<close> is a signed 32-bit number.\<close>

definition lfanewOf :: "32 word \<Rightarrow> int" where
  "lfanewOf w = sint w"

text \<open>The fields of the optional header, for either size of pointers.\<close>

definition readOptional :: "bytes \<Rightarrow> nat \<Rightarrow> bool \<Rightarrow> 16 word \<Rightarrow> 16 word \<Rightarrow> nat \<Rightarrow> PeHeader option" where
  "readOptional view optionalBase is32 machine numSections sectionTable =
     do { imageSize \<leftarrow> read32 view (optionalBase + 56);
          headersSize \<leftarrow> read32 view (optionalBase + 60);
          entryRVA \<leftarrow> read32 view (optionalBase + 16);
          preferredBase \<leftarrow> (if is32 then map_option ucast (read32 view (optionalBase + 28))
             else read64 view (optionalBase + 24));
          relocRVA \<leftarrow> read32 view (optionalBase + dataDirectory is32 5);
          relocSize \<leftarrow> read32 view (optionalBase + dataDirectory is32 5 + 4);
          importRVA \<leftarrow> read32 view (optionalBase + dataDirectory is32 1);
          importSize \<leftarrow> read32 view (optionalBase + dataDirectory is32 1 + 4);
          tlsRVA \<leftarrow> read32 view (optionalBase + dataDirectory is32 9);
          tlsSize \<leftarrow> read32 view (optionalBase + dataDirectory is32 9 + 4);
          Some \<lparr>phIs32 = is32, phMachine = machine, phImageSize = imageSize, phHeadersSize = headersSize,
            phEntryRva = entryRVA, phPreferredBase = preferredBase, phRelocRva = relocRVA,
            phRelocSize = relocSize, phImportRva = importRVA, phImportSize = importSize,
            phTlsRva = tlsRVA, phTlsSize = tlsSize, phNumSections = numSections,
            phSectionTable = sectionTable\<rparr> }"

text \<open>
  The checks after the optional header was read: the machine, the sizes, the architecture of the
  target (\<open>target32\<close> says \<open>x86\<close>, \<open>target64\<close> says \<open>x64\<close>) and the section table.
\<close>

definition checkHeader :: "bytes \<Rightarrow> bool \<Rightarrow> bool \<Rightarrow> PeHeader \<Rightarrow> pe_error + PeHeader" where
  "checkHeader view target32 target64 h =
     (if (phIs32 h \<and> phMachine h \<noteq> MACHINE_I386)
         \<or> (\<not> phIs32 h \<and> phMachine h \<noteq> MACHINE_AMD64 \<and> phMachine h \<noteq> MACHINE_ARM64)
      then Inl ERROR_BAD_EXE_FORMAT
      else if phImageSize h = 0 \<or> phHeadersSize h = 0 \<or> phHeadersSize h > phImageSize h
      then Inl ERROR_INVALID_DATA
      else if (\<not> phIs32 h \<and> target32) \<or> (phIs32 h \<and> target64) then Inl ERROR_BAD_EXE_FORMAT
      else if phSectionTable h + unat (phNumSections h) * sizeSectionHeader > length view
      then Inl ERROR_INVALID_DATA
      else Inr h)"

definition parseHeader :: "bytes \<Rightarrow> bool \<Rightarrow> bool \<Rightarrow> (pe_error + PeHeader) option" where
  "parseHeader view target32 target64 =
     (if length view < sizeDosHeader then Some (Inl ERROR_INVALID_DATA)
      else do { magic \<leftarrow> read16 view 0;
                lfanew \<leftarrow> read32 view 60;
        if magic \<noteq> IMAGE_DOS_SIGNATURE \<or> lfanewOf lfanew \<le> 0
           \<or> nat (lfanewOf lfanew) + 4 + sizeFileHeader + 2 > length view
        then Some (Inl ERROR_BAD_EXE_FORMAT)
        else let ntBase = nat (lfanewOf lfanew) in
        do { signature \<leftarrow> read32 view ntBase;
          if signature \<noteq> IMAGE_NT_SIGNATURE then Some (Inl ERROR_BAD_EXE_FORMAT)
          else let fileHeader = ntBase + 4; optionalBase = ntBase + 4 + sizeFileHeader in
          do { optionalMagic \<leftarrow> read16 view optionalBase;
               machine \<leftarrow> read16 view fileHeader;
               optionalSize \<leftarrow> read16 view (fileHeader + 16);
               numSections \<leftarrow> read16 view (fileHeader + 2);
            if optionalMagic \<noteq> HDR32_MAGIC \<and> optionalMagic \<noteq> HDR64_MAGIC
            then Some (Inl ERROR_BAD_EXE_FORMAT)
            else let is32 = (optionalMagic = HDR32_MAGIC) in
            if unat optionalSize < sizeOptionalHeader is32 then Some (Inl ERROR_INVALID_DATA)
            else map_option (checkHeader view target32 target64)
              (readOptional view optionalBase is32 machine numSections (optionalBase + unat optionalSize)) } } })"

section \<open>Sections\<close>

record SectionHeader =
  shVirtualSize :: "32 word"
  shVirtualAddress :: "32 word"
  shSizeOfRawData :: "32 word"
  shPointerToRawData :: "32 word"
  shCharacteristics :: "32 word"

definition readSection :: "bytes \<Rightarrow> nat \<Rightarrow> SectionHeader option" where
  "readSection b i =
     do { virtualSize \<leftarrow> read32 b (i + 8);
          virtualAddress \<leftarrow> read32 b (i + 12);
          sizeOfRawData \<leftarrow> read32 b (i + 16);
          pointerToRawData \<leftarrow> read32 b (i + 20);
          characteristics \<leftarrow> read32 b (i + 36);
          Some \<lparr>shVirtualSize = virtualSize, shVirtualAddress = virtualAddress, shSizeOfRawData = sizeOfRawData,
            shPointerToRawData = pointerToRawData, shCharacteristics = characteristics\<rparr> }"

text \<open>\<open>pSections[0]\<close> to \<open>pSections[n - 1]\<close>.\<close>

fun readSections :: "bytes \<Rightarrow> nat \<Rightarrow> nat \<Rightarrow> SectionHeader list option" where
  "readSections b i 0 = Some []"
| "readSections b i (Suc n) =
     do { s \<leftarrow> readSection b i; ss \<leftarrow> readSections b (i + sizeSectionHeader) n; Some (s # ss) }"

text \<open>One section copied into the image; the sums of the two checks have 32 bits.\<close>

definition skipSection :: "bytes \<Rightarrow> 32 word \<Rightarrow> SectionHeader \<Rightarrow> bool" where
  "skipSection view imageSize s \<longleftrightarrow> shSizeOfRawData s = 0
     \<or> shPointerToRawData s + shSizeOfRawData s > word_of_nat (length view)
     \<or> shVirtualAddress s + shSizeOfRawData s > imageSize"

definition mapSection :: "bytes \<Rightarrow> 32 word \<Rightarrow> SectionHeader \<Rightarrow> bytes \<Rightarrow> bytes option" where
  "mapSection view imageSize s img =
     (if skipSection view imageSize s then Some img
      else do { raw \<leftarrow> slice (unat (shPointerToRawData s)) (unat (shSizeOfRawData s)) view;
                blit (unat (shVirtualAddress s)) raw img })"

fun mapSections :: "bytes \<Rightarrow> 32 word \<Rightarrow> SectionHeader list \<Rightarrow> bytes \<Rightarrow> bytes option" where
  "mapSections view imageSize [] img = Some img"
| "mapSections view imageSize (s # ss) img =
     do { img \<leftarrow> mapSection view imageSize s img; mapSections view imageSize ss img }"

text \<open>The local image: zeros, then the headers, then the sections in their order.\<close>

definition buildImage :: "bytes \<Rightarrow> PeHeader \<Rightarrow> bytes option" where
  "buildImage view h =
     do { let zeros = replicate (unat (phImageSize h)) 0;
          headers \<leftarrow> slice 0 (unat (min (phHeadersSize h) (word_of_nat (length view)))) view;
          img \<leftarrow> blit 0 headers zeros;
          sections \<leftarrow> readSections view (phSectionTable h) (unat (phNumSections h));
          mapSections view (phImageSize h) sections img }"

section \<open>What a header that is accepted promises\<close>

text \<open>
  The optional header lies in the file from \<open>base\<close> on, its fields are the ones of the record, and
  the sizes, the machine and the section table are consistent with the file and the target.
\<close>

definition headerFields :: "bytes \<Rightarrow> nat \<Rightarrow> PeHeader \<Rightarrow> bool" where
  "headerFields view base h \<longleftrightarrow>
     read32 view (base + 56) = Some (phImageSize h) \<and> read32 view (base + 60) = Some (phHeadersSize h)
     \<and> read32 view (base + 16) = Some (phEntryRva h)
     \<and> (if phIs32 h then map_option ucast (read32 view (base + 28)) else read64 view (base + 24)) = Some (phPreferredBase h)
     \<and> read32 view (base + dataDirectory (phIs32 h) 5) = Some (phRelocRva h)
     \<and> read32 view (base + dataDirectory (phIs32 h) 5 + 4) = Some (phRelocSize h)
     \<and> read32 view (base + dataDirectory (phIs32 h) 1) = Some (phImportRva h)
     \<and> read32 view (base + dataDirectory (phIs32 h) 1 + 4) = Some (phImportSize h)
     \<and> read32 view (base + dataDirectory (phIs32 h) 9) = Some (phTlsRva h)
     \<and> read32 view (base + dataDirectory (phIs32 h) 9 + 4) = Some (phTlsSize h)"

definition headerOk :: "bytes \<Rightarrow> bool \<Rightarrow> bool \<Rightarrow> PeHeader \<Rightarrow> bool" where
  "headerOk view target32 target64 h \<longleftrightarrow>
     phImageSize h \<noteq> 0 \<and> phHeadersSize h \<noteq> 0 \<and> phHeadersSize h \<le> phImageSize h
     \<and> (phIs32 h \<longrightarrow> phMachine h = MACHINE_I386 \<and> \<not> target64)
     \<and> (\<not> phIs32 h \<longrightarrow> phMachine h \<in> {MACHINE_AMD64, MACHINE_ARM64} \<and> \<not> target32)
     \<and> phSectionTable h + unat (phNumSections h) * sizeSectionHeader \<le> length view"

lemma bind_SomeE:
  assumes "Option.bind x f = Some y"
  obtains v where "x = Some v" and "f v = Some y"
  using assms by (cases x) auto

lemma readOptional_fields:
  assumes "readOptional view base is32 machine n table = Some h"
  shows "headerFields view base h \<and> phIs32 h = is32 \<and> phMachine h = machine \<and> phNumSections h = n \<and> phSectionTable h = table"
  using assms unfolding readOptional_def headerFields_def by (auto elim!: bind_SomeE)

lemma bind_defined: "(\<exists>y. Option.bind x f = Some y) \<longleftrightarrow> (\<exists>v. x = Some v \<and> (\<exists>y. f v = Some y))"
  by (cases x) auto

lemma readOptional_defined:
  "base + sizeOptionalHeader is32 \<le> length view \<Longrightarrow> \<exists>h. readOptional view base is32 machine n table = Some h"
  unfolding readOptional_def sizeOptionalHeader_def dataDirectory_def
  by (cases is32) (simp_all add: bind_defined)

lemma checkHeader_Inr: "checkHeader view target32 target64 h = Inr h' \<longleftrightarrow> h' = h \<and> headerOk view target32 target64 h"
  unfolding checkHeader_def headerOk_def by (auto simp: not_less)

text \<open>The steps of \<open>parseHeader\<close> up to the optional header.\<close>

definition headerStart :: "bytes \<Rightarrow> nat \<Rightarrow> bool \<Rightarrow> nat \<Rightarrow> bool" where
  "headerStart view base is32 optionalSize \<longleftrightarrow>
     (\<exists>lfanew n. sizeDosHeader \<le> length view \<and> read16 view 0 = Some IMAGE_DOS_SIGNATURE \<and> read32 view 60 = Some lfanew
        \<and> 0 < lfanewOf lfanew \<and> base = nat (lfanewOf lfanew) + 24 \<and> base + 2 \<le> length view
        \<and> read32 view (nat (lfanewOf lfanew)) = Some IMAGE_NT_SIGNATURE
        \<and> read16 view base = Some (if is32 then HDR32_MAGIC else HDR64_MAGIC)
        \<and> read16 view (nat (lfanewOf lfanew) + 20) = Some n \<and> unat n = optionalSize \<and> sizeOptionalHeader is32 \<le> optionalSize)"

lemma magic_distinct [simp]: "HDR64_MAGIC \<noteq> HDR32_MAGIC" "HDR32_MAGIC \<noteq> HDR64_MAGIC"
  by (simp_all add: HDR32_MAGIC_def HDR64_MAGIC_def)

lemma parseHeader_cases:
  obtains (early) e where "parseHeader view target32 target64 = Some (Inl e)"
  | (optional) base is32 size machine n where "headerStart view base is32 size"
      and "parseHeader view target32 target64 =
        map_option (checkHeader view target32 target64) (readOptional view base is32 machine n (base + size))"
proof (cases "length view < sizeDosHeader")
  case True
  then show thesis by (intro early [of ERROR_INVALID_DATA]) (simp add: parseHeader_def)
next
  case False
  then have len: "64 \<le> length view" by (simp add: sizeDosHeader_def)
  obtain magic lfanew where magic: "read16 view 0 = Some magic" and lfanew: "read32 view 60 = Some lfanew"
    using len read_ex(1) [where b = view and i = 0] read_ex(2) [where b = view and i = 60] by (auto simp del: read_defined)
  let ?nt = "nat (lfanewOf lfanew)"
  note start = parseHeader_def [of view target32 target64, unfolded magic lfanew bind.bind_lunit if_not_P [OF False]]
  show thesis
  proof (cases "magic \<noteq> IMAGE_DOS_SIGNATURE \<or> lfanewOf lfanew \<le> 0 \<or> ?nt + 4 + sizeFileHeader + 2 > length view")
    case True
    then show thesis using start by (intro early [of ERROR_BAD_EXE_FORMAT]) simp
  next
    case dos: False
    then have room: "?nt + 26 \<le> length view" by (simp add: sizeFileHeader_def)
    obtain signature optionalMagic machine optionalSize n where
      reads: "read32 view ?nt = Some signature" "read16 view (?nt + 24) = Some optionalMagic"
        "read16 view (?nt + 4) = Some machine" "read16 view (?nt + 20) = Some optionalSize" "read16 view (?nt + 6) = Some n"
      using room read_ex(2) [where b = view and i = ?nt] read_ex(1) [where b = view and i = "?nt + 24"] read_ex(1) [where b = view and i = "?nt + 4"]
        read_ex(1) [where b = view and i = "?nt + 20"] read_ex(1) [where b = view and i = "?nt + 6"] by (auto simp del: read_defined)
    have sums: "?nt + 4 + sizeFileHeader = ?nt + 24" "?nt + 4 + 16 = ?nt + 20" "?nt + 4 + 2 = ?nt + 6"
      by (simp_all add: sizeFileHeader_def)
    note step = start [unfolded if_not_P [OF dos] Let_def, unfolded sums reads bind.bind_lunit]
    consider "signature \<noteq> IMAGE_NT_SIGNATURE" | "optionalMagic \<noteq> HDR32_MAGIC" "optionalMagic \<noteq> HDR64_MAGIC"
      | "unat optionalSize < sizeOptionalHeader (optionalMagic = HDR32_MAGIC)"
      | "signature = IMAGE_NT_SIGNATURE" "optionalMagic \<in> {HDR32_MAGIC, HDR64_MAGIC}"
        "sizeOptionalHeader (optionalMagic = HDR32_MAGIC) \<le> unat optionalSize"
      by fastforce
    then show thesis
    proof cases
      case 4
      let ?is32 = "optionalMagic = HDR32_MAGIC"
      have "headerStart view (?nt + 24) ?is32 (unat optionalSize)"
        unfolding headerStart_def using 4 dos len magic lfanew reads room
        by (auto simp: sizeDosHeader_def)
      moreover have "parseHeader view target32 target64 =
          map_option (checkHeader view target32 target64)
            (readOptional view (?nt + 24) ?is32 machine n (?nt + 24 + unat optionalSize))"
        using step 4 by auto
      ultimately show thesis by (rule optional)
    qed (use step in \<open>auto intro: early split: if_splits\<close>)
  qed
qed

lemma parseHeader_Inr:
  assumes "parseHeader view target32 target64 = Some (Inr h)"
  shows "headerOk view target32 target64 h
    \<and> (\<exists>base size. headerStart view base (phIs32 h) size \<and> headerFields view base h \<and> phSectionTable h = base + size)"
proof (cases rule: parseHeader_cases [of view target32 target64])
  case (optional base is32 size machine n)
  with assms obtain h' where h': "readOptional view base is32 machine n (base + size) = Some h'"
    and "checkHeader view target32 target64 h' = Inr h"
    by auto
  then have "headerOk view target32 target64 h" and "h = h'" by (simp_all add: checkHeader_Inr)
  with readOptional_fields [OF h'] optional(1) show ?thesis by auto
qed (use assms in simp)

text \<open>The parse reads out of bounds only when the optional header does not end within the file.\<close>

lemma parseHeader_None:
  assumes "parseHeader view target32 target64 = None"
  shows "\<exists>base is32 size. headerStart view base is32 size \<and> length view < base + sizeOptionalHeader is32"
proof (cases rule: parseHeader_cases [of view target32 target64])
  case (optional base is32 size machine n)
  with assms have "readOptional view base is32 machine n (base + size) = None" by simp
  then have "length view < base + sizeOptionalHeader is32"
    using readOptional_defined [of base is32 view machine n "base + size"] by (auto simp: not_less [symmetric])
  with optional(1) show ?thesis by blast
qed (use assms in simp)

section \<open>The image byte by byte\<close>

lemma find_app: "find P (xs @ ys) = (case find P xs of None \<Rightarrow> find P ys | Some x \<Rightarrow> Some x)"
  by (induction xs) auto

definition noWrap :: "SectionHeader \<Rightarrow> bool" where
  "noWrap s \<longleftrightarrow> unat (shPointerToRawData s) + unat (shSizeOfRawData s) < 2 ^ 32
     \<and> unat (shVirtualAddress s) + unat (shSizeOfRawData s) < 2 ^ 32"

definition loadedSection :: "bytes \<Rightarrow> 32 word \<Rightarrow> nat \<Rightarrow> SectionHeader \<Rightarrow> bool" where
  "loadedSection view imageSize r s \<longleftrightarrow> \<not> skipSection view imageSize s
     \<and> unat (shVirtualAddress s) \<le> r \<and> r < unat (shVirtualAddress s) + unat (shSizeOfRawData s)"

text \<open>The byte at \<open>r\<close>: of the last section that is loaded over \<open>r\<close>, else of the headers, else 0.\<close>

definition imageByte :: "bytes \<Rightarrow> PeHeader \<Rightarrow> SectionHeader list \<Rightarrow> nat \<Rightarrow> byte" where
  "imageByte view h sections r =
     (case find (loadedSection view (phImageSize h) r) (rev sections) of
        Some s \<Rightarrow> view ! (unat (shPointerToRawData s) + (r - unat (shVirtualAddress s)))
      | None \<Rightarrow> if r < unat (min (phHeadersSize h) (word_of_nat (length view))) then view ! r else 0)"

lemma mapSection_Some:
  assumes "mapSection view imageSize s img = Some img'"
  shows "length img' = length img"
    and "r < length img \<Longrightarrow> img' ! r = (if loadedSection view imageSize r s
      then view ! (unat (shPointerToRawData s) + (r - unat (shVirtualAddress s))) else img ! r)"
proof -
  show len: "length img' = length img"
    using assms by (auto simp: mapSection_def length_blit elim!: bind_SomeE split: if_splits)
  assume r: "r < length img"
  show "img' ! r = (if loadedSection view imageSize r s
      then view ! (unat (shPointerToRawData s) + (r - unat (shVirtualAddress s))) else img ! r)"
  proof (cases "skipSection view imageSize s")
    case False
    with assms obtain raw where raw: "slice (unat (shPointerToRawData s)) (unat (shSizeOfRawData s)) view = Some raw"
      and img': "blit (unat (shVirtualAddress s)) raw img = Some img'"
      by (auto simp: mapSection_def elim!: bind_SomeE)
    then show ?thesis
      using nth_blit [OF img' r] False by (auto simp: slice_Some loadedSection_def)
  qed (use assms in \<open>simp add: mapSection_def loadedSection_def\<close>)
qed

lemma mapSections_Some:
  "mapSections view imageSize ss img = Some img' \<Longrightarrow> length img' = length img
    \<and> (\<forall>r < length img. img' ! r = (case find (loadedSection view imageSize r) (rev ss) of
          Some s \<Rightarrow> view ! (unat (shPointerToRawData s) + (r - unat (shVirtualAddress s))) | None \<Rightarrow> img ! r))"
proof (induction ss arbitrary: img)
  case (Cons s ss)
  then obtain img1 where first: "mapSection view imageSize s img = Some img1"
    and rest: "mapSections view imageSize ss img1 = Some img'"
    by (auto elim!: bind_SomeE)
  show ?case
    using Cons.IH [OF rest] mapSection_Some [OF first] by (auto simp: find_app split: option.splits)
qed simp

lemma readSections_length: "readSections view i n = Some ss \<Longrightarrow> length ss = n"
  by (induction n arbitrary: i ss) (auto elim!: bind_SomeE)

lemma readSections_defined: "i + n * sizeSectionHeader \<le> length view \<Longrightarrow> \<exists>ss. readSections view i n = Some ss"
proof (induction n arbitrary: i)
  case (Suc n)
  then have "\<exists>s. readSection view i = Some s" by (simp add: readSection_def bind_defined sizeSectionHeader_def)
  with Suc show ?case by (simp add: bind_defined add.assoc)
qed simp

lemma mapSection_defined:
  assumes "noWrap s" and "length view < 2 ^ 32" and "length img = unat imageSize"
  shows "\<exists>img'. mapSection view imageSize s img = Some img' \<and> length img' = length img"
proof (cases "skipSection view imageSize s")
  case False
  have "unat (shPointerToRawData s) + unat (shSizeOfRawData s) \<le> length view"
    and "unat (shVirtualAddress s) + unat (shSizeOfRawData s) \<le> unat imageSize"
    using False assms(1,2)
    by (auto simp: skipSection_def noWrap_def not_less word_le_nat_alt unat_word_ariths unsigned_of_nat take_bit_nat_eq_self)
  then obtain raw img' where "slice (unat (shPointerToRawData s)) (unat (shSizeOfRawData s)) view = Some raw"
    and "blit (unat (shVirtualAddress s)) raw img = Some img'"
    using assms(3) by (auto simp: slice_def blit_def)
  then show ?thesis using False length_blit by (auto simp: mapSection_def)
qed (simp add: mapSection_def)

lemma mapSections_defined:
  "\<forall>s \<in> set ss. noWrap s \<Longrightarrow> length view < 2 ^ 32 \<Longrightarrow> length img = unat imageSize
    \<Longrightarrow> \<exists>img'. mapSections view imageSize ss img = Some img'"
proof (induction ss arbitrary: img)
  case (Cons s ss)
  then obtain img1 where "mapSection view imageSize s img = Some img1" "length img1 = length img"
    using mapSection_defined [of s view img imageSize] by auto
  with Cons show ?case by auto
qed simp

lemma headersCopied: "unat (min n (word_of_nat k) :: 32 word) \<le> k"
proof -
  have "unat (word_of_nat k :: 32 word) \<le> k" by (simp add: unsigned_of_nat take_bit_nat_less_eq_self)
  then show ?thesis by (auto simp: min_def word_le_nat_alt)
qed

lemma buildImage_bytes:
  assumes "buildImage view h = Some img"
  shows "length img = unat (phImageSize h)
    \<and> (\<exists>ss. readSections view (phSectionTable h) (unat (phNumSections h)) = Some ss
        \<and> (\<forall>r < length img. img ! r = imageByte view h ss r))"
proof -
  let ?n = "unat (min (phHeadersSize h) (word_of_nat (length view)))"
  from assms obtain headers img0 ss where headers: "slice 0 ?n view = Some headers"
    and img0: "blit 0 headers (replicate (unat (phImageSize h)) 0) = Some img0"
    and ss: "readSections view (phSectionTable h) (unat (phNumSections h)) = Some ss"
    and img: "mapSections view (phImageSize h) ss img0 = Some img"
    unfolding buildImage_def by (auto elim!: bind_SomeE)
  have len: "length img0 = unat (phImageSize h)" using length_blit [OF img0] by simp
  have "img0 ! r = (if r < ?n then view ! r else 0)" if "r < unat (phImageSize h)" for r
    using nth_blit [OF img0, of r] headers that headersCopied [of "phHeadersSize h" "length view"]
    by (auto simp: slice_Some)
  then show ?thesis
    using mapSections_Some [OF img] len ss unfolding imageByte_def by (auto split: option.splits)
qed

lemma buildImage_total:
  assumes "headerOk view target32 target64 h" and "length view < 2 ^ 32"
    and "\<forall>ss. readSections view (phSectionTable h) (unat (phNumSections h)) = Some ss \<longrightarrow> (\<forall>s \<in> set ss. noWrap s)"
  shows "\<exists>img. buildImage view h = Some img"
proof -
  let ?n = "unat (min (phHeadersSize h) (word_of_nat (length view)))"
  obtain ss where ss: "readSections view (phSectionTable h) (unat (phNumSections h)) = Some ss"
    using readSections_defined [of "phSectionTable h" "unat (phNumSections h)" view] assms(1)
    by (auto simp: headerOk_def)
  have "?n \<le> unat (phImageSize h)"
    using assms(1) by (auto simp: headerOk_def min_def word_le_nat_alt)
  then obtain img0 where "slice 0 ?n view = Some (take ?n view)"
    and img0: "blit 0 (take ?n view) (replicate (unat (phImageSize h)) 0) = Some img0"
    using headersCopied [of "phHeadersSize h" "length view"] by (auto simp: slice_def blit_def)
  moreover obtain img where "mapSections view (phImageSize h) ss img0 = Some img"
    using mapSections_defined [of ss view img0 "phImageSize h"] assms(2,3) ss length_blit [OF img0] by auto
  ultimately show ?thesis using ss by (simp add: buildImage_def)
qed

lemma mapSection_None:
  assumes "length view < 2 ^ 32" and "length img = unat imageSize"
  shows "mapSection view imageSize s img = None \<longleftrightarrow> \<not> skipSection view imageSize s \<and> \<not> noWrap s"
proof
  assume "mapSection view imageSize s img = None"
  then show "\<not> skipSection view imageSize s \<and> \<not> noWrap s"
    using mapSection_defined [of s view img imageSize] assms by (auto simp: mapSection_def)
next
  assume over: "\<not> skipSection view imageSize s \<and> \<not> noWrap s"
  have "unat imageSize < 2 ^ 32" using unsigned_less [of imageSize, where 'a = nat] by simp
  with over assms show "mapSection view imageSize s img = None"
    by (auto simp: mapSection_def noWrap_def slice_def blit_def Let_def)
qed

section \<open>A small PE file\<close>

text \<open>
  One PE32 file with one section: a field at address 32, which is relocated, and after it the
  relocation directory at 40, with one block of two entries.
\<close>

definition sampleDos :: bytes where
  "sampleDos = leBytes 2 0x5A4D @ replicate 58 0 @ leBytes 4 64"

definition sampleOptional :: bytes where
  "sampleOptional = leBytes 2 0x10B @ replicate 14 0 @ leBytes 4 0 @ replicate 8 0 @ leBytes 4 0x10000
     @ replicate 24 0 @ leBytes 4 64 @ leBytes 4 32 @ replicate 32 0 @ replicate 40 0
     @ leBytes 4 40 @ leBytes 4 12 @ replicate 80 0"

definition sampleSection :: bytes where
  "sampleSection = replicate 8 0 @ leBytes 4 20 @ leBytes 4 32 @ leBytes 4 20 @ leBytes 4 352
     @ replicate 12 0 @ leBytes 4 0x60000020"

definition sampleRaw :: bytes where
  "sampleRaw = leBytes 4 0x10020 @ replicate 4 0 @ leBytes 4 32 @ leBytes 4 12 @ leBytes 2 0x3000 @ leBytes 2 0"

definition sampleView :: bytes where
  "sampleView = sampleDos @ leBytes 4 0x4550 @ leBytes 2 0x14C @ leBytes 2 1 @ replicate 12 0 @ leBytes 2 224
     @ leBytes 2 0x2102 @ sampleOptional @ sampleSection @ sampleRaw"

definition sampleHeader :: PeHeader where
  "sampleHeader = \<lparr>phIs32 = True, phMachine = MACHINE_I386, phImageSize = 64, phHeadersSize = 32, phEntryRva = 0,
     phPreferredBase = 0x10000, phRelocRva = 40, phRelocSize = 12, phImportRva = 0, phImportSize = 0, phTlsRva = 0,
     phTlsSize = 0, phNumSections = 1, phSectionTable = 312\<rparr>"

lemma sampleView_parsed: "parseHeader sampleView True False = Some (Inr sampleHeader)"
  by (simp add: parseHeader_def readOptional_def checkHeader_def lfanewOf_def Let_def sampleView_def sampleDos_def sampleOptional_def
      sampleSection_def sampleRaw_def read_fields pe_constants sampleHeader_def del: leBytes.simps)

lemma sampleView_sections: "readSections sampleView 312 1 = Some [\<lparr>shVirtualSize = 20, shVirtualAddress = 32,
     shSizeOfRawData = 20, shPointerToRawData = 352, shCharacteristics = 0x60000020\<rparr>]"
  by (simp add: readSection_def sampleView_def sampleDos_def sampleOptional_def
      sampleSection_def sampleRaw_def read_fields pe_constants del: leBytes.simps)

lemma length_sampleView [simp]: "length sampleView = 372"
  by (simp add: sampleView_def sampleDos_def sampleOptional_def sampleSection_def sampleRaw_def del: leBytes.simps)

section \<open>Properties\<close>

text \<open>
  C24. An accepted header is well formed: a DOS and a PE header of the file lead to it, its fields are
  those of the optional header, the sizes are consistent, the machine fits the kind of the file and
  the target process, and the section table ends within the file.
\<close>

theorem parseHeader_wellformed:
  assumes "parseHeader view target32 target64 = Some (Inr h)"
  shows "phImageSize h \<noteq> 0 \<and> phHeadersSize h \<noteq> 0 \<and> phHeadersSize h \<le> phImageSize h
    \<and> (phIs32 h \<longrightarrow> phMachine h = MACHINE_I386 \<and> \<not> target64)
    \<and> (\<not> phIs32 h \<longrightarrow> phMachine h \<in> {MACHINE_AMD64, MACHINE_ARM64} \<and> \<not> target32)
    \<and> phSectionTable h + unat (phNumSections h) * sizeSectionHeader \<le> length view
    \<and> (\<exists>base size. headerStart view base (phIs32 h) size \<and> headerFields view base h \<and> phSectionTable h = base + size)"
  using parseHeader_Inr [OF assms] unfolding headerOk_def by blast

theorem parseHeader_wellformed_witness:
  "phHeadersSize sampleHeader \<le> phImageSize sampleHeader
   \<and> phSectionTable sampleHeader + unat (phNumSections sampleHeader) * sizeSectionHeader \<le> length sampleView"
  using parseHeader_wellformed [OF sampleView_parsed] by blast

text \<open>
  C25. The local image of an accepted file whose section sizes do not wrap is built without any access out
  of bounds, and each of its bytes is the one the section table asks for: of the last section loaded
  over it, else of the headers, else zero.
\<close>

theorem buildImage_correct:
  assumes "parseHeader view target32 target64 = Some (Inr h)" and "length view < 2 ^ 32"
    and "readSections view (phSectionTable h) (unat (phNumSections h)) = Some ss" and "\<forall>s \<in> set ss. noWrap s"
  shows "\<exists>img. buildImage view h = Some img \<and> length img = unat (phImageSize h)
    \<and> (\<forall>r < length img. img ! r = imageByte view h ss r)"
  using buildImage_total [of view target32 target64 h] buildImage_bytes [of view h] parseHeader_Inr [OF assms(1)] assms(2-4)
  by fastforce

theorem buildImage_correct_witness:
  "\<exists>img. buildImage sampleView sampleHeader = Some img \<and> length img = 64"
  using buildImage_correct [OF sampleView_parsed, of "[\<lparr>shVirtualSize = 20, shVirtualAddress = 32, shSizeOfRawData = 20,
      shPointerToRawData = 352, shCharacteristics = 0x60000020\<rparr>]"] sampleView_sections
  by (auto simp: sampleHeader_def noWrap_def)

text \<open>
  The two checks of a section add 32-bit numbers. Copying a section leaves its buffers exactly when
  the section passes both checks although one of the sums wraps.
\<close>

theorem mapSection_overruns:
  assumes "length view < 2 ^ 32" and "length img = unat imageSize"
  shows "mapSection view imageSize s img = None \<longleftrightarrow>
    shSizeOfRawData s \<noteq> 0 \<and> shPointerToRawData s + shSizeOfRawData s \<le> word_of_nat (length view)
    \<and> shVirtualAddress s + shSizeOfRawData s \<le> imageSize
    \<and> (2 ^ 32 \<le> unat (shPointerToRawData s) + unat (shSizeOfRawData s)
       \<or> 2 ^ 32 \<le> unat (shVirtualAddress s) + unat (shSizeOfRawData s))"
  unfolding mapSection_None [OF assms] skipSection_def noWrap_def by (auto simp: not_less not_le)

text \<open>A section of 32 bytes at \<open>0xFFFFFFF0\<close> is accepted for an image of 64 bytes, and written before and after it.\<close>

theorem mapSection_overruns_witness:
  "mapSection (replicate 64 0) 64 \<lparr>shVirtualSize = 32, shVirtualAddress = 0xFFFFFFF0, shSizeOfRawData = 32,
     shPointerToRawData = 0, shCharacteristics = 0\<rparr> (replicate 64 0) = None"
  by (subst mapSection_overruns) simp_all

end
