(* ===== verification/PeReloc.thy ===== *)
theory PeReloc
  imports PeImage
begin

text \<open>
  The base relocations of \<open>injectManualMap\<close> (\<open>StarInjectorManualMap.cpp\<close>, lines 1135 to 1184). The code
  patches the local image in place while it reads the relocation directory from the same buffer, so
  every read is from the image as it is at that moment.
\<close>

section \<open>The loops of the code\<close>

text \<open>\<open>*p += delta\<close> for a field of \<open>n\<close> bytes.\<close>

definition addAt :: "nat \<Rightarrow> nat \<Rightarrow> 64 word \<Rightarrow> bytes \<Rightarrow> bytes" where
  "addAt n pos delta img = take pos img @ leBytes n (leNat (take n (drop pos img)) + unat delta) @ drop (pos + n) img"

definition relocWidth :: "16 word \<Rightarrow> nat option" where
  "relocWidth entry = (let type = drop_bit 12 entry in
     if type = 3 then Some 4 else if type = 10 then Some 8 else None)"

text \<open>
  One entry: \<open>HIGHLOW\<close> patches four bytes and \<open>DIR64\<close> eight, everything else nothing. The first range
  check adds 32-bit numbers, the second compares pointers.
\<close>

definition relocEntry :: "64 word \<Rightarrow> 32 word \<Rightarrow> 16 word \<Rightarrow> bytes \<Rightarrow> bytes" where
  "relocEntry delta virtualAddress entry img =
     (let offset = and entry 0xFFF; imageSize = length img in
      if unat (virtualAddress + ucast offset) \<ge> imageSize then img
      else let patchAddr = unat virtualAddress + unat offset in
      case relocWidth entry of
        None \<Rightarrow> img
      | Some n \<Rightarrow> if patchAddr + n > imageSize then img else addAt n patchAddr delta img)"

text \<open>The entries \<open>j\<close> to \<open>j + count - 1\<close> of the block at \<open>block\<close>.\<close>

fun relocEntries :: "64 word \<Rightarrow> nat \<Rightarrow> nat \<Rightarrow> nat \<Rightarrow> bytes \<Rightarrow> bytes option" where
  "relocEntries delta block j 0 img = Some img"
| "relocEntries delta block j (Suc count) img =
     do { entry \<leftarrow> read16 img (block + 8 + 2 * j);
          virtualAddress \<leftarrow> read32 img block;
          relocEntries delta block (Suc j) count (relocEntry delta virtualAddress entry img) }"

text \<open>
  The blocks from \<open>pReloc\<close> on, at most \<open>fuel\<close> of them; \<open>None\<close> is an access out of bounds or the end of
  the fuel. \<open>processed\<close> is a 32-bit number. The size of a block is read again after its entries.
\<close>

fun relocBlocks :: "nat \<Rightarrow> 64 word \<Rightarrow> 32 word \<Rightarrow> 32 word \<Rightarrow> nat \<Rightarrow> bytes \<Rightarrow> bytes option" where
  "relocBlocks 0 delta relocSize processed pReloc img = None"
| "relocBlocks (Suc fuel) delta relocSize processed pReloc img =
     (if \<not> (processed < relocSize \<and> pReloc < length img) then Some img
      else do { sizeOfBlock \<leftarrow> read32 img (pReloc + 4);
                virtualAddress \<leftarrow> read32 img pReloc;
        if sizeOfBlock = 0 \<or> sizeOfBlock < 8 \<or> unat virtualAddress \<ge> length img \<or> processed + sizeOfBlock > relocSize
        then Some img
        else do { img \<leftarrow> relocEntries delta pReloc 0 (unat ((sizeOfBlock - 8) div 2)) img;
                  sizeOfBlock \<leftarrow> read32 img (pReloc + 4);
                  relocBlocks fuel delta relocSize (processed + sizeOfBlock) (pReloc + unat sizeOfBlock) img } })"

text \<open>
  The whole step: \<open>Some (Inl e)\<close> is the failure of an image without a usable directory that is not at
  its preferred base.
\<close>

definition relocationDirectoryOk :: "PeHeader \<Rightarrow> bool" where
  "relocationDirectoryOk h \<longleftrightarrow> phRelocSize h > 0 \<and> phRelocRva h \<noteq> 0 \<and> phRelocRva h < phImageSize h
     \<and> unat (phRelocRva h) + unat (phRelocSize h) \<le> unat (phImageSize h)"

definition relocate :: "nat \<Rightarrow> PeHeader \<Rightarrow> 64 word \<Rightarrow> bytes \<Rightarrow> (pe_error + bytes) option" where
  "relocate fuel h remoteBase img =
     (let delta = remoteBase - phPreferredBase h in
      if delta = 0 then Some (Inr img)
      else if relocationDirectoryOk h
      then map_option Inr (relocBlocks fuel delta (phRelocSize h) 0 (unat (phRelocRva h)) img)
      else Some (Inl ERROR_INVALID_DATA))"

section \<open>The directory as data\<close>

text \<open>
  A relocation directory of the PE format: blocks of a page address and its entries. \<open>encodeBlock\<close> is
  its form in the file, and \<open>blockFields\<close> the fields it names, as positions and widths.
\<close>

type_synonym reloc_block = "32 word \<times> 16 word list"

definition encodeEntries :: "16 word list \<Rightarrow> bytes" where
  "encodeEntries es = concat (map (\<lambda>e. leBytes 2 (unat e)) es)"

definition encodeBlock :: "reloc_block \<Rightarrow> bytes" where
  "encodeBlock b = leBytes 4 (unat (fst b)) @ leBytes 4 (8 + 2 * length (snd b)) @ encodeEntries (snd b)"

definition encodeDirectory :: "reloc_block list \<Rightarrow> bytes" where
  "encodeDirectory bs = concat (map encodeBlock bs)"

text \<open>The upper four bits of an entry are its type: 3 is a field of four bytes, 10 one of eight.\<close>

definition fieldWidth :: "16 word \<Rightarrow> nat option" where
  "fieldWidth e = (if unat e div 4096 = 3 then Some 4 else if unat e div 4096 = 10 then Some 8 else None)"

lemma fieldWidth_eq [simp]: "fieldWidth e = relocWidth e"
  by (simp add: fieldWidth_def relocWidth_def Let_def word_unat_eq_iff unat_div drop_bit_eq_div)

definition entryFields :: "32 word \<Rightarrow> 16 word \<Rightarrow> (nat \<times> nat) list" where
  "entryFields virtualAddress e =
     (case fieldWidth e of None \<Rightarrow> [] | Some n \<Rightarrow> [(unat virtualAddress + unat (and e 0xFFF), n)])"

definition blockFields :: "reloc_block \<Rightarrow> (nat \<times> nat) list" where
  "blockFields b = concat (map (entryFields (fst b)) (snd b))"

definition directoryFields :: "reloc_block list \<Rightarrow> (nat \<times> nat) list" where
  "directoryFields bs = concat (map blockFields bs)"

text \<open>The effect of a list of fields.\<close>

definition addAll :: "64 word \<Rightarrow> (nat \<times> nat) list \<Rightarrow> bytes \<Rightarrow> bytes" where
  "addAll delta fs img = fold (\<lambda>(pos, n) img. addAt n pos delta img) fs img"

text \<open>\<open>bs\<close> stands in the image at \<open>pos\<close>.\<close>

definition bytesAt :: "bytes \<Rightarrow> nat \<Rightarrow> bytes \<Rightarrow> bool" where
  "bytesAt img pos bs \<longleftrightarrow> pos + length bs \<le> length img \<and> take (length bs) (drop pos img) = bs"

definition disjointFields :: "nat \<times> nat \<Rightarrow> nat \<times> nat \<Rightarrow> bool" where
  "disjointFields f g \<longleftrightarrow> fst f + snd f \<le> fst g \<or> fst g + snd g \<le> fst f"

text \<open>
  A directory that the linker would write: it is where the header says, its pages and fields lie in
  the image, and no field lies in the directory.
\<close>

definition goodDirectory :: "PeHeader \<Rightarrow> reloc_block list \<Rightarrow> bytes \<Rightarrow> bool" where
  "goodDirectory h bs img \<longleftrightarrow>
     length img = unat (phImageSize h) \<and> phRelocRva h \<noteq> 0 \<and> bs \<noteq> []
     \<and> length (encodeDirectory bs) = unat (phRelocSize h) \<and> bytesAt img (unat (phRelocRva h)) (encodeDirectory bs)
     \<and> (\<forall>b \<in> set bs. unat (fst b) < length img)
     \<and> (\<forall>f \<in> set (directoryFields bs). fst f + snd f \<le> length img
          \<and> disjointFields f (unat (phRelocRva h), unat (phRelocSize h)))"

section \<open>Adding at fields\<close>

lemma disjointFields_shrink:
  "disjointFields f (pos, n + m) \<Longrightarrow> disjointFields f (pos, n)"
  "disjointFields f (pos, n + m) \<Longrightarrow> disjointFields f (pos + n, m)"
  by (auto simp: disjointFields_def)

lemma length_addAt [simp]: "pos + n \<le> length img \<Longrightarrow> length (addAt n pos delta img) = length img"
  by (simp add: addAt_def)

lemma nth_addAt:
  assumes "pos + n \<le> length img" and "r < length img"
  shows "addAt n pos delta img ! r =
    (if pos \<le> r \<and> r < pos + n then leBytes n (leNat (take n (drop pos img)) + unat delta) ! (r - pos) else img ! r)"
  using assms by (auto simp: addAt_def nth_append)

lemma addAt_outside:
  assumes "pos + n \<le> length img" and "disjointFields (q, m) (pos, n)" and "q + m \<le> length img"
  shows "take m (drop q (addAt n pos delta img)) = take m (drop q img)"
proof (rule nth_equalityI)
  fix i assume "i < length (take m (drop q (addAt n pos delta img)))"
  then have "i < m" by simp
  then show "take m (drop q (addAt n pos delta img)) ! i = take m (drop q img) ! i"
    using assms nth_addAt [OF assms(1), of "q + i" delta] by (auto simp: disjointFields_def)
qed (use assms in simp)

lemma addAt_inside:
  "pos + n \<le> length img \<Longrightarrow> take n (drop pos (addAt n pos delta img)) = leBytes n (leNat (take n (drop pos img)) + unat delta)"
  by (simp add: addAt_def)

lemma bytesAt_addAt:
  "bytesAt img q bs \<Longrightarrow> pos + n \<le> length img \<Longrightarrow> disjointFields (pos, n) (q, length bs) \<Longrightarrow> bytesAt (addAt n pos delta img) q bs"
  using addAt_outside [of pos n img q "length bs" delta] by (auto simp: bytesAt_def disjointFields_def)

lemma addAll_Nil [simp]: "addAll delta [] img = img"
  by (simp add: addAll_def)

lemma addAll_Cons [simp]: "addAll delta (f # fs) img = addAll delta fs (addAt (snd f) (fst f) delta img)"
  by (cases f) (simp add: addAll_def)

lemma addAll_append [simp]: "addAll delta (fs @ gs) img = addAll delta gs (addAll delta fs img)"
  by (simp add: addAll_def)

lemma length_addAll [simp]: "\<forall>f \<in> set fs. fst f + snd f \<le> length img \<Longrightarrow> length (addAll delta fs img) = length img"
  by (induction fs arbitrary: img) auto

lemma bytesAt_addAll:
  "bytesAt img q bs \<Longrightarrow> \<forall>f \<in> set fs. fst f + snd f \<le> length img \<and> disjointFields f (q, length bs)
    \<Longrightarrow> bytesAt (addAll delta fs img) q bs"
  by (induction fs arbitrary: img) (auto simp: bytesAt_addAt)

lemma bytesAt_iff: "bytesAt img pos bs \<longleftrightarrow> (\<exists>l r. img = l @ bs @ r \<and> length l = pos)"
proof
  assume at: "bytesAt img pos bs"
  have "img = take pos img @ take (length bs) (drop pos img) @ drop (length bs) (drop pos img)"
    by (simp only: append_take_drop_id)
  with at show "\<exists>l r. img = l @ bs @ r \<and> length l = pos"
    unfolding bytesAt_def by (metis add_leD1 length_take min.absorb2)
qed (auto simp: bytesAt_def)

lemma bytesAt_append: "bytesAt img pos (a @ b) \<longleftrightarrow> bytesAt img pos a \<and> bytesAt img (pos + length a) b"
proof
  assume "bytesAt img pos a \<and> bytesAt img (pos + length a) b"
  then show "bytesAt img pos (a @ b)" by (auto simp: bytesAt_def take_add drop_drop add.commute)
next
  assume "bytesAt img pos (a @ b)"
  then obtain l r where "img = l @ a @ b @ r" and "length l = pos"
    by (auto simp: bytesAt_iff)
  then show "bytesAt img pos a \<and> bytesAt img (pos + length a) b"
    unfolding bytesAt_iff by (metis append_assoc length_append)
qed

lemma readLe_bytesAt: "bytesAt img pos bs \<Longrightarrow> i + n \<le> length bs \<Longrightarrow> readLe n img (pos + i) = readLe n bs i"
  by (auto simp: bytesAt_iff readLe_def)

section \<open>The loops read the directory\<close>

lemma length_encodeEntries [simp]: "length (encodeEntries es) = 2 * length es"
  by (induction es) (auto simp: encodeEntries_def)

lemma length_encodeBlock [simp]: "length (encodeBlock b) = 8 + 2 * length (snd b)"
  by (simp add: encodeBlock_def del: leBytes.simps)

lemma encodeDirectory_Cons [simp]: "encodeDirectory (b # bs) = encodeBlock b @ encodeDirectory bs"
  and encodeDirectory_Nil [simp]: "encodeDirectory [] = []"
  by (simp_all add: encodeDirectory_def)

lemma unat_mod_word [simp]: "unat (w :: 16 word) mod 65536 = unat w" "unat (v :: 32 word) mod 4294967296 = unat v"
  using unsigned_less [of w, where 'a = nat] unsigned_less [of v, where 'a = nat] by simp_all

lemma readLe_entries: "j < length es \<Longrightarrow> readLe 2 (encodeEntries es @ r) (2 * j) = Some (unat (es ! j))"
proof (induction es arbitrary: j)
  case (Cons e es)
  show ?case
  proof (cases j)
    case 0
    then show ?thesis by (simp add: encodeEntries_def readLe_head del: leBytes.simps)
  next
    case (Suc k)
    have split: "encodeEntries (e # es) @ r = leBytes 2 (unat e) @ encodeEntries es @ r" by (simp add: encodeEntries_def)
    show ?thesis
      unfolding split using Cons Suc by (simp add: readLe_skip del: leBytes.simps)
  qed
qed simp

lemma readLe_block:
  "readLe 4 (encodeBlock b) 0 = Some (unat (fst b))"
  "8 + 2 * length (snd b) < 2 ^ 32 \<Longrightarrow> readLe 4 (encodeBlock b) 4 = Some (8 + 2 * length (snd b))"
  "j < length (snd b) \<Longrightarrow> readLe 2 (encodeBlock b) (8 + 2 * j) = Some (unat (snd b ! j))"
  using readLe_entries [of j "snd b" "[]"]
  by (simp_all add: encodeBlock_def readLe_head readLe_skip del: leBytes.simps)

lemma read_block:
  assumes "bytesAt img pos (encodeBlock b)"
  shows "read32 img pos = Some (fst b)"
    and "8 + 2 * length (snd b) < 2 ^ 32 \<Longrightarrow> read32 img (pos + 4) = Some (word_of_nat (8 + 2 * length (snd b)))"
    and "j < length (snd b) \<Longrightarrow> read16 img (pos + 8 + 2 * j) = Some (snd b ! j)"
  using readLe_bytesAt [OF assms, of 0 4] readLe_bytesAt [OF assms, of 4 4] readLe_bytesAt [OF assms, of "8 + 2 * j" 2]
    readLe_block(1,2) [of b] readLe_block(3) [of j b]
  by (simp_all add: read16_def read32_def add.assoc del: leBytes.simps)

lemma unat_of_nat32: "n < 2 ^ 32 \<Longrightarrow> unat (word_of_nat n :: 32 word) = n"
  by (simp add: unsigned_of_nat take_bit_nat_eq_self)

lemma unat_page_sum:
  assumes "unat va + unat (and e 0xFFF :: 16 word) < 2 ^ 32"
  shows "unat (va + ucast (and e 0xFFF :: 16 word) :: 32 word) = unat va + unat (and e 0xFFF)"
proof -
  have "unat (ucast (and e 0xFFF :: 16 word) :: 32 word) = unat (and e 0xFFF)"
    by (rule unsigned_ucast_eq [where 'a = nat and 'b = 16 and 'c = 32, THEN trans])
       (simp add: take_bit_nat_eq_self_iff less_trans [OF unsigned_less [where 'a = nat]])
  with assms show ?thesis by (simp add: unat_word_ariths)
qed

lemma relocEntry_addAll:
  assumes "unat va < length img" and "length img < 2 ^ 32"
    and "\<forall>f \<in> set (entryFields va e). fst f + snd f \<le> length img"
  shows "relocEntry delta va e img = addAll delta (entryFields va e) img"
proof (cases "relocWidth e")
  case (Some n)
  then have "unat va + unat (and e 0xFFF) + n \<le> length img" "0 < n"
    using assms(3) by (auto simp: entryFields_def relocWidth_def Let_def split: if_splits)
  with assms(2) Some show ?thesis
    using unat_page_sum [of va e] by (auto simp: relocEntry_def entryFields_def Let_def)
qed (auto simp: relocEntry_def entryFields_def Let_def)

lemma relocEntries_correct:
  assumes "bytesAt img pos (encodeBlock (va, es))" and "j + count = length es"
    and "unat va < length img" and "length img < 2 ^ 32"
    and "\<forall>e \<in> set (drop j es). \<forall>f \<in> set (entryFields va e). fst f + snd f \<le> length img
      \<and> disjointFields f (pos, 8 + 2 * length es)"
  shows "relocEntries delta pos j count img = Some (addAll delta (concat (map (entryFields va) (drop j es))) img)"
  using assms
proof (induction count arbitrary: j img)
  case (Suc count)
  then have j: "j < length es" by simp
  then have rest: "drop j es = es ! j # drop (Suc j) es" by (simp add: Cons_nth_drop_Suc)
  let ?img = "addAll delta (entryFields va (es ! j)) img"
  have fs: "\<forall>f \<in> set (entryFields va (es ! j)). fst f + snd f \<le> length img \<and> disjointFields f (pos, 8 + 2 * length es)"
    using Suc.prems(5) rest by simp
  then have "bytesAt ?img pos (encodeBlock (va, es))"
    using Suc.prems(1) by (intro bytesAt_addAll) auto
  moreover have len: "length ?img = length img" using fs by (intro length_addAll) blast
  ultimately have "relocEntries delta pos (Suc j) count ?img
      = Some (addAll delta (concat (map (entryFields va) (drop (Suc j) es))) ?img)"
    using Suc.prems rest by (intro Suc.IH) (auto simp: len)
  moreover have "relocEntry delta va (es ! j) img = ?img"
    using Suc.prems fs by (intro relocEntry_addAll) auto
  ultimately show ?case
    using read_block [OF Suc.prems(1)] j rest by simp
qed simp

lemma encodeDirectory_bound: "b \<in> set bs \<Longrightarrow> 8 + 2 * length (snd b) \<le> length (encodeDirectory bs)"
  by (induction bs) auto

lemma relocBlocks_correct:
  assumes "bytesAt img pos (encodeDirectory bs)" and "unat processed + length (encodeDirectory bs) = unat relocSize"
    and "length bs < fuel" and "length img < 2 ^ 32"
    and "\<forall>b \<in> set bs. unat (fst b) < length img"
    and "\<forall>f \<in> set (directoryFields bs). fst f + snd f \<le> length img \<and> disjointFields f (pos, length (encodeDirectory bs))"
  shows "relocBlocks fuel delta relocSize processed pos img = Some (addAll delta (directoryFields bs) img)"
  using assms
proof (induction bs arbitrary: fuel processed pos img)
  case Nil
  then show ?case by (cases fuel) (simp_all add: word_less_nat_alt directoryFields_def)
next
  case (Cons b bs)
  obtain va es where b: "b = (va, es)" by (cases b)
  obtain fuel' where fuel: "fuel = Suc fuel'" using Cons.prems(3) by (cases fuel) auto
  let ?size = "8 + 2 * length es"
  have at: "bytesAt img pos (encodeBlock b)" "bytesAt img (pos + ?size) (encodeDirectory bs)"
    using Cons.prems(1) by (simp_all add: bytesAt_append b)
  have total: "unat processed + ?size + length (encodeDirectory bs) = unat relocSize"
    using Cons.prems(2) by (simp add: b)
  then have small: "?size < 2 ^ 32" "unat processed + ?size < 2 ^ 32"
    using unsigned_less [of relocSize, where 'a = nat] by simp_all
  have size: "unat (word_of_nat ?size :: 32 word) = ?size"
    using small(1) by (rule unat_of_nat32)
  have sum: "unat (processed + word_of_nat ?size) = unat processed + ?size"
    using size small(2) by (simp add: unat_word_ariths)
  have fs: "\<forall>f \<in> set (blockFields b). fst f + snd f \<le> length img \<and> disjointFields f (pos, length (encodeDirectory (b # bs)))"
    and gs: "\<forall>f \<in> set (directoryFields bs). fst f + snd f \<le> length img \<and> disjointFields f (pos, length (encodeDirectory (b # bs)))"
    using Cons.prems(6) by (auto simp: directoryFields_def)
  have region: "length (encodeDirectory (b # bs)) = ?size + length (encodeDirectory bs)" by (simp add: b)
  have head: "\<forall>e \<in> set es. \<forall>f \<in> set (entryFields va e). fst f + snd f \<le> length img \<and> disjointFields f (pos, ?size)"
    using fs disjointFields_shrink(1) unfolding region blockFields_def b by fastforce
  have tail: "\<forall>f \<in> set (directoryFields bs). fst f + snd f \<le> length img
      \<and> disjointFields f (pos + ?size, length (encodeDirectory bs))"
    using gs disjointFields_shrink(2) unfolding region by fastforce
  let ?img = "addAll delta (blockFields b) img"
  have len: "length ?img = length img" using fs by (intro length_addAll) blast
  have "bytesAt ?img pos (encodeDirectory (b # bs))"
    using Cons.prems(1) fs by (intro bytesAt_addAll) auto
  then have at': "bytesAt ?img pos (encodeBlock b)" "bytesAt ?img (pos + ?size) (encodeDirectory bs)"
    by (simp_all add: bytesAt_append b)
  have "unat (word_of_nat ?size - 8 :: 32 word) = 2 * length es"
    using unat_of_nat32 [of "2 * length es"] small by simp
  then have count: "unat ((word_of_nat ?size - 8) div 2 :: 32 word) = length es"
    by (simp add: unat_div)
  have "relocEntries delta pos 0 (length es) img = Some ?img"
    using relocEntries_correct [of img pos va es 0 "length es" delta] at(1) head Cons.prems(4,5)
    by (simp add: b blockFields_def)
  moreover have "relocBlocks fuel' delta relocSize (processed + word_of_nat ?size) (pos + ?size) ?img
      = Some (addAll delta (directoryFields bs) ?img)"
    using at' total sum Cons.prems(3-5) tail
    by (intro Cons.IH) (simp_all add: fuel len)
  moreover have "processed < relocSize" "\<not> processed + word_of_nat ?size > relocSize" "\<not> (word_of_nat ?size :: 32 word) < 8"
      "(word_of_nat ?size :: 32 word) \<noteq> 0"
    using total sum size by (auto simp: word_less_nat_alt unat_eq_zero simp del: of_nat_add)
  moreover have "pos < length img" using at(1) by (simp add: bytesAt_def)
  ultimately show ?case
    using read_block [OF at(1)] read_block [OF at'(1)] small count Cons.prems(5)
    by (simp add: fuel b directoryFields_def size del: of_nat_add)
qed

section \<open>The effect on the image\<close>

lemma leBytes_mod [simp]: "leBytes n (v mod 256 ^ n) = leBytes n v"
  using leBytes_leNat [of "leBytes n v"] by simp

lemma addAt_addAt:
  "pos + n \<le> length img \<Longrightarrow> addAt n pos d (addAt n pos e img)
    = take pos img @ leBytes n (leNat (take n (drop pos img)) + unat e + unat d) @ drop (pos + n) img"
  using leBytes_mod [of n "(leNat (take n (drop pos img)) + unat e) mod 256 ^ n + unat d"]
    leBytes_mod [of n "leNat (take n (drop pos img)) + unat e + unat d"]
  by (simp add: addAt_def mod_add_left_eq del: leBytes_mod)

lemma addAt_commute_disjoint:
  assumes "p + n \<le> length img" and "q + m \<le> length img" and "disjointFields (p, n) (q, m)"
  shows "addAt n p d (addAt m q e img) = addAt m q e (addAt n p d img)"
proof (rule nth_equalityI)
  fix r assume "r < length (addAt n p d (addAt m q e img))"
  then have r: "r < length img" using assms by simp
  have "take n (drop p (addAt m q e img)) = take n (drop p img)"
    and "take m (drop q (addAt n p d img)) = take m (drop q img)"
    using assms by (auto intro!: addAt_outside simp: disjointFields_def)
  then show "addAt n p d (addAt m q e img) ! r = addAt m q e (addAt n p d img) ! r"
    using assms r by (auto simp: nth_addAt disjointFields_def)
qed (use assms in simp)

definition compatible :: "nat \<times> nat \<Rightarrow> nat \<times> nat \<Rightarrow> bool" where
  "compatible f g \<longleftrightarrow> f = g \<or> disjointFields f g"

lemma addAt_commute:
  assumes "fst f + snd f \<le> length img" and "fst g + snd g \<le> length img" and "compatible f g"
  shows "addAt (snd f) (fst f) d (addAt (snd g) (fst g) e img) = addAt (snd g) (fst g) e (addAt (snd f) (fst f) d img)"
  using assms addAt_commute_disjoint [of "fst f" "snd f" img "fst g" "snd g" d e]
  by (auto simp: compatible_def addAt_addAt add.commute add.left_commute)

lemma addAt_addAll_commute:
  "fst f + snd f \<le> length img \<Longrightarrow> \<forall>g \<in> set fs. fst g + snd g \<le> length img \<and> compatible f g
    \<Longrightarrow> addAt (snd f) (fst f) d (addAll e fs img) = addAll e fs (addAt (snd f) (fst f) d img)"
proof (induction fs arbitrary: img)
  case (Cons g fs)
  then show ?case using addAt_commute [of f img g d e] by simp
qed simp

lemma unat_minus_sum: "unat (d :: 64 word) + unat (- d) = 0 \<or> unat d + unat (- d) = 2 ^ 64"
proof -
  have "(unat d + unat (- d)) mod 2 ^ 64 = 0"
    using unat_word_ariths(1) [of d "- d"] by simp
  then obtain k where k: "unat d + unat (- d) = 2 ^ 64 * k" by (auto elim: dvdE)
  with unsigned_less [of d, where 'a = nat] unsigned_less [of "- d", where 'a = nat] have "k < 2" by simp
  then have "k = 0 \<or> k = 1" by auto
  with k show ?thesis by auto
qed

lemma addAt_inverse:
  assumes "pos + n \<le> length img" and "n = 4 \<or> n = 8"
  shows "addAt n pos (- d) (addAt n pos d img) = img"
proof -
  let ?old = "take n (drop pos img)"
  have "(leNat ?old + unat d + unat (- d)) mod 256 ^ n = leNat ?old mod 256 ^ n"
    using unat_minus_sum [of d] assms(2) mod_mult_self1 [of "leNat ?old" 4294967296 4294967296] by (auto simp: add.assoc)
  then have "leBytes n (leNat ?old + unat d + unat (- d)) = leBytes n (leNat ?old)"
    by (metis leBytes_mod)
  also have "\<dots> = ?old" using leBytes_leNat [of ?old] assms(1) by simp
  finally show ?thesis using assms(1) by (simp add: addAt_addAt) (metis append_take_drop_id drop_drop add.commute)
qed

lemma addAll_inverse:
  "\<forall>f \<in> set fs. fst f + snd f \<le> length img \<and> (snd f = 4 \<or> snd f = 8)
    \<Longrightarrow> \<forall>f \<in> set fs. \<forall>g \<in> set fs. compatible f g \<Longrightarrow> addAll (- d) fs (addAll d fs img) = img"
proof (induction fs arbitrary: img)
  case (Cons f fs)
  have "addAll (- d) (f # fs) (addAll d (f # fs) img)
      = addAll (- d) fs (addAll d fs (addAt (snd f) (fst f) (- d) (addAt (snd f) (fst f) d img)))"
    using Cons.prems addAt_addAll_commute [of f "addAt (snd f) (fst f) d img" fs "- d" d] by simp
  also have "\<dots> = addAll (- d) fs (addAll d fs img)"
    using Cons.prems by (simp add: addAt_inverse)
  finally show ?case using Cons by simp
qed simp

lemma addAll_outside:
  "\<forall>f \<in> set fs. fst f + snd f \<le> length img \<and> disjointFields (q, m) f \<Longrightarrow> q + m \<le> length img
    \<Longrightarrow> take m (drop q (addAll d fs img)) = take m (drop q img)"
  by (induction fs arbitrary: img) (auto simp: addAt_outside)

lemma addAll_field:
  "distinct fs \<Longrightarrow> f \<in> set fs \<Longrightarrow> \<forall>g \<in> set fs. fst g + snd g \<le> length img \<and> compatible f g
    \<Longrightarrow> take (snd f) (drop (fst f) (addAll d fs img)) = leBytes (snd f) (leNat (take (snd f) (drop (fst f) img)) + unat d)"
proof (induction fs arbitrary: img)
  case (Cons g fs)
  show ?case
  proof (cases "f = g")
    case True
    with Cons.prems have "\<forall>h \<in> set fs. fst h + snd h \<le> length img \<and> disjointFields f h"
      by (auto simp: compatible_def)
    then show ?thesis
      using True Cons.prems addAll_outside [of fs "addAt (snd f) (fst f) d img" "fst f" "snd f" d]
      by (simp add: addAt_inside)
  next
    case False
    with Cons.prems have "disjointFields (fst f, snd f) (fst g, snd g)" "fst g + snd g \<le> length img" "fst f + snd f \<le> length img"
      by (auto simp: compatible_def)
    with Cons False show ?thesis by (simp add: addAt_outside)
  qed
qed simp

lemma addAll_byte:
  "\<forall>f \<in> set fs. fst f + snd f \<le> length img \<and> \<not> (fst f \<le> r \<and> r < fst f + snd f) \<Longrightarrow> r < length img
    \<Longrightarrow> addAll d fs img ! r = img ! r"
  by (induction fs arbitrary: img) (auto simp: nth_addAt)

lemma addAt_zero: "pos + n \<le> length img \<Longrightarrow> addAt n pos 0 img = img"
  using leBytes_leNat [of "take n (drop pos img)"]
  by (simp add: addAt_def) (metis append_take_drop_id drop_drop add.commute)

lemma addAll_zero: "\<forall>f \<in> set fs. fst f + snd f \<le> length img \<Longrightarrow> addAll 0 fs img = img"
  by (induction fs) (auto simp: addAt_zero)

lemma width_of_field: "f \<in> set (directoryFields bs) \<Longrightarrow> snd f = 4 \<or> snd f = 8"
  by (auto simp: directoryFields_def blockFields_def entryFields_def relocWidth_def Let_def split: option.splits if_splits)

lemma relocate_addAll:
  assumes "goodDirectory h bs img" and "length bs < fuel"
  shows "relocate fuel h remoteBase img = Some (Inr (addAll (remoteBase - phPreferredBase h) (directoryFields bs) img))"
proof -
  let ?rva = "unat (phRelocRva h)" and ?size = "unat (phRelocSize h)"
  note good = assms(1) [unfolded goodDirectory_def]
  obtain b bs' where bs: "bs = b # bs'" using good by (cases bs) auto
  have "8 + 2 * length (snd b) \<le> length (encodeDirectory bs)"
    by (rule encodeDirectory_bound) (simp add: bs)
  then have "8 \<le> ?size" using good by linarith
  moreover have "?rva + ?size \<le> length img" using good by (simp add: bytesAt_def)
  ultimately have "relocationDirectoryOk h"
    using good by (auto simp: relocationDirectoryOk_def word_less_nat_alt)
  moreover have "relocBlocks fuel delta (phRelocSize h) 0 ?rva img = Some (addAll delta (directoryFields bs) img)" for delta
    using good assms(2) unsigned_less [of "phImageSize h", where 'a = nat] by (intro relocBlocks_correct) auto
  moreover have "addAll 0 (directoryFields bs) img = img" using good by (intro addAll_zero) blast
  ultimately show ?thesis by (auto simp: relocate_def Let_def)
qed

lemma goodDirectory_addAll:
  assumes "goodDirectory h bs img"
  shows "goodDirectory (h\<lparr>phPreferredBase := b\<rparr>) bs (addAll d (directoryFields bs) img)"
proof -
  note good = assms [unfolded goodDirectory_def]
  have "length (addAll d (directoryFields bs) img) = length img" using good by (intro length_addAll) blast
  moreover have "bytesAt (addAll d (directoryFields bs) img) (unat (phRelocRva h)) (encodeDirectory bs)"
    using good by (intro bytesAt_addAll) auto
  ultimately show ?thesis using good by (auto simp: goodDirectory_def)
qed

section \<open>A block that wraps\<close>

lemma relocEntries_room: "relocEntries delta block j (Suc count) img = Some img' \<Longrightarrow> block + 8 + 2 * (j + Suc count) \<le> length img"
proof (induction count arbitrary: j img)
  case 0
  then obtain e where "read16 img (block + 8 + 2 * j) = Some e" by (auto elim!: bind_SomeE)
  then have "\<not> length img < block + 8 + 2 * j + 2" using read_None(1) by (metis option.distinct(1))
  then show ?case by simp
next
  case (Suc count)
  from Suc.prems obtain entry va where "relocEntries delta block (Suc j) (Suc count) (relocEntry delta va entry img) = Some img'"
    by (auto elim!: bind_SomeE simp del: relocEntries.simps(2) simp: relocEntries.simps(2) [of delta block j])
  from Suc.IH [OF this] show ?case
    by (auto simp: relocEntry_def Let_def split: if_splits option.splits)
qed

text \<open>
  The check of a block adds 32-bit numbers, so a block larger than the image passes it when the sum
  wraps; its entries are then read beyond the image.
\<close>

lemma half_bound: "(n :: nat) div 2 = k \<Longrightarrow> n \<le> 2 * k + 1"
  by linarith

lemma wrapped_block_overruns:
  assumes "processed < relocSize" and "read32 img pReloc = Some va" and "unat va < length img"
    and "read32 img (pReloc + 4) = Some sz" and "processed + sz \<le> relocSize" and "length img < unat sz - 8"
  shows "relocBlocks fuel delta relocSize processed pReloc img = None"
proof (cases fuel)
  case (Suc n)
  have "pReloc + 4 \<le> length img" using assms(2) read_None(2) [of img pReloc] by fastforce
  then have room: "pReloc < length img" "4 \<le> length img" by simp_all
  then have eight: "(8 :: 32 word) \<le> sz" using assms(6) by (simp add: word_le_nat_alt)
  then have "unat (sz - 8) = unat sz - 8" by (simp add: unat_sub)
  then have count: "unat ((sz - 8) div 2) = (unat sz - 8) div 2" by (simp add: unat_div)
  have "0 < (unat sz - 8) div 2" using assms(6) room(2) by linarith
  then obtain k where k: "(unat sz - 8) div 2 = Suc k" using gr0_conv_Suc by blast
  have "relocEntries delta pReloc 0 (Suc k) img = None"
  proof (cases "relocEntries delta pReloc 0 (Suc k) img")
    case (Some img')
    with relocEntries_room [of delta pReloc 0 k img img'] have "8 + 2 * Suc k \<le> length img" by simp
    with half_bound [OF k] assms(6) have False by linarith
    then show ?thesis ..
  qed
  moreover have "sz \<noteq> 0" "\<not> sz < 8" using eight by auto
  ultimately show ?thesis
    using Suc assms(1-5) room(1) count k by (simp add: not_less del: relocEntries.simps)
qed simp

section \<open>Properties\<close>

text \<open>The image of the small PE file.\<close>

definition sampleImage :: bytes where
  "sampleImage = replicate 32 0 @ sampleRaw @ replicate 12 0"

definition sampleBlocks :: "reloc_block list" where
  "sampleBlocks = [(32, [0x3000, 0])]"

lemma sampleBlocks_fields [simp]: "directoryFields sampleBlocks = [(32, 4)]"
  by (simp add: sampleBlocks_def directoryFields_def blockFields_def entryFields_def relocWidth_def)

lemma sampleBlocks_length [simp]: "length sampleBlocks = 1"
  by (simp add: sampleBlocks_def)

lemma sampleImage_length [simp]: "length sampleImage = 64"
  by (simp add: sampleImage_def sampleRaw_def del: leBytes.simps)

lemma sampleDirectory_good: "goodDirectory sampleHeader sampleBlocks sampleImage"
proof -
  have "encodeDirectory sampleBlocks = leBytes 4 32 @ leBytes 4 12 @ leBytes 2 0x3000 @ leBytes 2 0"
    by (simp add: sampleBlocks_def encodeBlock_def encodeEntries_def del: leBytes.simps)
  then have "sampleImage = (replicate 32 0 @ leBytes 4 0x10020 @ replicate 4 0) @ encodeDirectory sampleBlocks @ replicate 12 0"
    by (simp add: sampleImage_def sampleRaw_def del: leBytes.simps)
  then have "bytesAt sampleImage 40 (encodeDirectory sampleBlocks)"
    unfolding bytesAt_iff by (rule_tac exI, rule_tac exI, rule_tac conjI) (assumption, simp del: leBytes.simps)
  then show ?thesis
    by (simp add: goodDirectory_def sampleHeader_def disjointFields_def) (simp add: sampleBlocks_def)
qed

text \<open>
  C26. Relocating an image whose directory is well formed ends after one step per block and one more,
  without an access out of bounds: every field the directory names has the difference of the bases added
  in its own width, and every other byte is unchanged.
\<close>

theorem relocate_correct:
  assumes "goodDirectory h bs img" and "length bs < fuel" and "distinct (directoryFields bs)"
    and "\<forall>f \<in> set (directoryFields bs). \<forall>g \<in> set (directoryFields bs). f \<noteq> g \<longrightarrow> disjointFields f g"
  shows "\<exists>img'. relocate fuel h remoteBase img = Some (Inr img') \<and> length img' = length img
    \<and> (\<forall>(pos, n) \<in> set (directoryFields bs). leNat (take n (drop pos img'))
         = (leNat (take n (drop pos img)) + unat (remoteBase - phPreferredBase h)) mod 256 ^ n)
    \<and> (\<forall>r < length img. (\<forall>(pos, n) \<in> set (directoryFields bs). \<not> (pos \<le> r \<and> r < pos + n)) \<longrightarrow> img' ! r = img ! r)"
proof -
  let ?img = "addAll (remoteBase - phPreferredBase h) (directoryFields bs) img"
  have room: "\<forall>f \<in> set (directoryFields bs). fst f + snd f \<le> length img"
    using assms(1) unfolding goodDirectory_def by blast
  have "leNat (take n (drop pos ?img)) = (leNat (take n (drop pos img)) + unat (remoteBase - phPreferredBase h)) mod 256 ^ n"
    if "(pos, n) \<in> set (directoryFields bs)" for pos n
  proof -
    have "\<forall>g \<in> set (directoryFields bs). fst g + snd g \<le> length img \<and> compatible (pos, n) g"
      using room assms(4) that by (auto simp: compatible_def)
    from addAll_field [OF assms(3) that this] show ?thesis by simp
  qed
  moreover have "?img ! r = img ! r" if "r < length img" "\<forall>(pos, n) \<in> set (directoryFields bs). \<not> (pos \<le> r \<and> r < pos + n)" for r
    using that room by (intro addAll_byte) auto
  ultimately show ?thesis using relocate_addAll [OF assms(1,2)] room by auto
qed


theorem relocate_correct_witness:
  "\<exists>img'. relocate 2 sampleHeader 0x20000 sampleImage = Some (Inr img') \<and> leNat (take 4 (drop 32 img')) = 0x20020"
  using relocate_correct [OF sampleDirectory_good, where fuel = 2 and remoteBase = "0x20000"]
  by (auto simp: sampleHeader_def sampleImage_def sampleRaw_def simp del: leBytes.simps)


end
