(* ===== verification/PeExports.thy ===== *)
theory PeExports
  imports PeImage Base64
begin

text \<open>
  Finding exported functions (\<open>StarInjectorManualMap.cpp\<close>): the export directory of a mapped file
  (\<open>getExportRVAFromFile\<close>, \<open>getForwarderStringForRVA\<close>), the modules of the target, and the resolver
  \<open>getRemoteProcAddressFallback\<close> with its recursion over API sets and forwarders. As in \<open>PeImage\<close>, the
  outer \<open>None\<close> is an access outside the file.
\<close>

section \<open>Export directories\<close>

text \<open>
  The start of both functions: the directory's address and size (zero when the optional header has no
  known magic), and the section table. An inner \<open>None\<close> is a file that is no PE file.
\<close>

record export_info =
  eiRva :: "32 word"
  eiSize :: "32 word"
  eiSections :: nat
  eiCount :: nat

definition exportInfo :: "bytes \<Rightarrow> export_info option option" where
  "exportInfo view =
     do { magic \<leftarrow> read16 view 0;
       if magic \<noteq> IMAGE_DOS_SIGNATURE then Some None
       else do { lfanew \<leftarrow> read32 view 60;
         if lfanewOf lfanew < 0 then None
         else let ntBase = nat (lfanewOf lfanew) in
         do { sig \<leftarrow> read32 view ntBase;
           if sig \<noteq> IMAGE_NT_SIGNATURE then Some None
           else let optBase = ntBase + 4 + sizeFileHeader in
           do { optMagic \<leftarrow> read16 view optBase;
                optSize \<leftarrow> read16 view (ntBase + 4 + 16);
                count \<leftarrow> read16 view (ntBase + 4 + 2);
                (rva, size) \<leftarrow>
                  (if optMagic = HDR32_MAGIC \<or> optMagic = HDR64_MAGIC
                   then do { rva \<leftarrow> read32 view (optBase + dataDirectory (optMagic = HDR32_MAGIC) 0);
                             size \<leftarrow> read32 view (optBase + dataDirectory (optMagic = HDR32_MAGIC) 0 + 4);
                             Some (rva, size) }
                   else Some (0, 0));
                Some (Some \<lparr>eiRva = rva, eiSize = size, eiSections = optBase + unat optSize, eiCount = unat count\<rparr>) } } } }"

text \<open>
  \<open>rvaToOffset\<close>: the file offset of an address, of the first section whose range contains it; an inner
  \<open>None\<close> is the null pointer. The end of a section is a 32-bit sum.
\<close>

fun rvaToOffset :: "bytes \<Rightarrow> nat \<Rightarrow> nat \<Rightarrow> 32 word \<Rightarrow> nat option option" where
  "rvaToOffset view table 0 rva = Some None"
| "rvaToOffset view table (Suc count) rva =
     do { s \<leftarrow> readSection view table;
       let secSize = max (shVirtualSize s) (shSizeOfRawData s) in
       if rva \<ge> shVirtualAddress s \<and> rva < shVirtualAddress s + secSize
       then Some (Some (unat (shPointerToRawData s) + unat (rva - shVirtualAddress s)))
       else rvaToOffset view (table + sizeSectionHeader) count rva }"

text \<open>\<open>strcmp (p, name) == 0\<close>, for a name without zero bytes, reads no further than it must.\<close>

fun strcmpEq :: "bytes \<Rightarrow> bytes \<Rightarrow> bool option" where
  "strcmpEq [] name = None"
| "strcmpEq (b # bs) [] = Some (b = 0)"
| "strcmpEq (b # bs) (c # cs) = (if b = c then strcmpEq bs cs else Some False)"

text \<open>A C string: the bytes before the first zero.\<close>

fun cstring :: "bytes \<Rightarrow> bytes option" where
  "cstring [] = None"
| "cstring (b # bs) = (if b = 0 then Some [] else map_option ((#) b) (cstring bs))"

datatype symbol = ByName bytes | ByOrdinal "16 word"

text \<open>The loop over the names, \<open>count\<close> of them from \<open>i\<close> on.\<close>

fun findName :: "bytes \<Rightarrow> export_info \<Rightarrow> nat \<Rightarrow> nat \<Rightarrow> nat \<Rightarrow> bytes \<Rightarrow> nat \<Rightarrow> nat \<Rightarrow> 32 word option" where
  "findName view e namesTab funcsTab ordsTab name i 0 = Some 0"
| "findName view e namesTab funcsTab ordsTab name i (Suc count) =
     do { nameRVA \<leftarrow> read32 view (namesTab + 4 * i);
          namePtr \<leftarrow> rvaToOffset view (eiSections e) (eiCount e) nameRVA;
       case namePtr of
         None \<Rightarrow> findName view e namesTab funcsTab ordsTab name (Suc i) count
       | Some p \<Rightarrow>
         do { equal \<leftarrow> strcmpEq (drop p view) name;
           if equal
           then do { ordIdx \<leftarrow> read16 view (ordsTab + 2 * i); read32 view (funcsTab + 4 * unat ordIdx) }
           else findName view e namesTab funcsTab ordsTab name (Suc i) count } }"

definition findOrdinal :: "bytes \<Rightarrow> nat \<Rightarrow> 32 word \<Rightarrow> 32 word \<Rightarrow> 16 word \<Rightarrow> 32 word option" where
  "findOrdinal view funcsTab ordBase numFuncs ordinal =
     (if ucast ordinal \<ge> ordBase \<and> ucast ordinal < ordBase + numFuncs
      then read32 view (funcsTab + 4 * unat (ucast ordinal - ordBase))
      else Some 0)"

definition getExportRVAFromFile :: "bytes option \<Rightarrow> symbol \<Rightarrow> 32 word option" where
  "getExportRVAFromFile mapped symbol =
     (case mapped of None \<Rightarrow> Some 0
      | Some view \<Rightarrow>
        do { info \<leftarrow> exportInfo view;
          case info of None \<Rightarrow> Some 0
          | Some e \<Rightarrow>
            if eiRva e = 0 \<or> eiSize e = 0 then Some 0
            else do { directory \<leftarrow> rvaToOffset view (eiSections e) (eiCount e) (eiRva e);
              case directory of None \<Rightarrow> Some 0
              | Some d \<Rightarrow>
                do { numNames \<leftarrow> read32 view (d + 24);
                     numFuncs \<leftarrow> read32 view (d + 20);
                     addrNames \<leftarrow> read32 view (d + 32);
                     addrFuncs \<leftarrow> read32 view (d + 28);
                     addrOrdinals \<leftarrow> read32 view (d + 36);
                     namesTab \<leftarrow> rvaToOffset view (eiSections e) (eiCount e) addrNames;
                     funcsTab \<leftarrow> rvaToOffset view (eiSections e) (eiCount e) addrFuncs;
                     ordsTab \<leftarrow> rvaToOffset view (eiSections e) (eiCount e) addrOrdinals;
                  case (namesTab, funcsTab, ordsTab) of
                    (Some names, Some funcs, Some ords) \<Rightarrow>
                      (case symbol of
                         ByOrdinal ordinal \<Rightarrow>
                           do { ordBase \<leftarrow> read32 view (d + 16); findOrdinal view funcs ordBase numFuncs ordinal }
                       | ByName name \<Rightarrow> findName view e names funcs ords name 0 (unat numNames))
                  | _ \<Rightarrow> Some 0 } } })"

definition getForwarderStringForRVA :: "bytes option \<Rightarrow> 32 word \<Rightarrow> bytes option" where
  "getForwarderStringForRVA mapped rva =
     (case mapped of None \<Rightarrow> Some []
      | Some view \<Rightarrow>
        do { info \<leftarrow> exportInfo view;
          case info of None \<Rightarrow> Some []
          | Some e \<Rightarrow>
            if eiRva e \<noteq> 0 \<and> eiSize e \<noteq> 0 \<and> rva \<ge> eiRva e \<and> rva < eiRva e + eiSize e
            then do { fwdPtr \<leftarrow> rvaToOffset view (eiSections e) (eiCount e) rva;
              case fwdPtr of None \<Rightarrow> Some [] | Some p \<Rightarrow> cstring (drop p view) }
            else Some [] })"

section \<open>Export directories as data\<close>

text \<open>
  What an export directory says: names with their ordinals, functions, and the first ordinal. It is in
  a file when the header leads to a directory whose tables hold it.
\<close>

record export_table =
  etNames :: "bytes list"
  etOrdinals :: "16 word list"
  etFunctions :: "32 word list"
  etBase :: "32 word"

definition exportLookup :: "export_table \<Rightarrow> symbol \<Rightarrow> 32 word" where
  "exportLookup t symbol =
     (case symbol of
        ByName name \<Rightarrow> (case map_of (zip (etNames t) (etOrdinals t)) name of
          None \<Rightarrow> 0 | Some ordinal \<Rightarrow> etFunctions t ! unat ordinal)
      | ByOrdinal ordinal \<Rightarrow>
        if unat (etBase t) \<le> unat ordinal \<and> unat ordinal < unat (etBase t) + length (etFunctions t)
        then etFunctions t ! (unat ordinal - unat (etBase t)) else 0)"

definition tablesAt :: "bytes \<Rightarrow> export_info \<Rightarrow> nat \<Rightarrow> nat \<Rightarrow> nat \<Rightarrow> export_table \<Rightarrow> bool" where
  "tablesAt view e namesTab funcsTab ordsTab t \<longleftrightarrow>
     length (etOrdinals t) = length (etNames t)
     \<and> (\<forall>i < length (etNames t). (\<exists>rva p. read32 view (namesTab + 4 * i) = Some rva
           \<and> rvaToOffset view (eiSections e) (eiCount e) rva = Some (Some p)
           \<and> cstring (drop p view) = Some (etNames t ! i))
         \<and> read16 view (ordsTab + 2 * i) = Some (etOrdinals t ! i)
         \<and> unat (etOrdinals t ! i) < length (etFunctions t))
     \<and> (\<forall>k < length (etFunctions t). read32 view (funcsTab + 4 * k) = Some (etFunctions t ! k))"

definition exportsAre :: "bytes \<Rightarrow> export_table \<Rightarrow> bool" where
  "exportsAre view t \<longleftrightarrow>
     (\<exists>e d addrNames addrFuncs addrOrdinals namesTab funcsTab ordsTab numNames numFuncs.
        exportInfo view = Some (Some e) \<and> eiRva e \<noteq> 0 \<and> eiSize e \<noteq> 0
        \<and> rvaToOffset view (eiSections e) (eiCount e) (eiRva e) = Some (Some d)
        \<and> read32 view (d + 16) = Some (etBase t) \<and> read32 view (d + 20) = Some numFuncs
        \<and> read32 view (d + 24) = Some numNames \<and> read32 view (d + 28) = Some addrFuncs
        \<and> read32 view (d + 32) = Some addrNames \<and> read32 view (d + 36) = Some addrOrdinals
        \<and> rvaToOffset view (eiSections e) (eiCount e) addrNames = Some (Some namesTab)
        \<and> rvaToOffset view (eiSections e) (eiCount e) addrFuncs = Some (Some funcsTab)
        \<and> rvaToOffset view (eiSections e) (eiCount e) addrOrdinals = Some (Some ordsTab)
        \<and> unat numNames = length (etNames t) \<and> unat numFuncs = length (etFunctions t)
        \<and> unat (etBase t) + length (etFunctions t) < 2 ^ 32
        \<and> tablesAt view e namesTab funcsTab ordsTab t)"

lemma strcmpEq_cstring: "cstring bs = Some s \<Longrightarrow> 0 \<notin> set name \<Longrightarrow> strcmpEq bs name = Some (s = name)"
proof (induction bs name arbitrary: s rule: strcmpEq.induct)
  case (2 b bs)
  then show ?case by (auto split: if_splits)
next
  case (3 b bs c cs)
  then show ?case by (cases "b = 0") auto
qed simp

lemma findName_lookup:
  assumes "tablesAt view e namesTab funcsTab ordsTab t" and "0 \<notin> set name"
  shows "i + count = length (etNames t) \<Longrightarrow> findName view e namesTab funcsTab ordsTab name i count
    = Some (case map_of (drop i (zip (etNames t) (etOrdinals t))) name of
        None \<Rightarrow> 0 | Some ordinal \<Rightarrow> etFunctions t ! unat ordinal)"
proof (induction count arbitrary: i)
  case (Suc count)
  note tables = assms(1) [unfolded tablesAt_def]
  from Suc.prems have i: "i < length (etNames t)" by simp
  with tables obtain rva p where reads: "read32 view (namesTab + 4 * i) = Some rva"
      "rvaToOffset view (eiSections e) (eiCount e) rva = Some (Some p)" "cstring (drop p view) = Some (etNames t ! i)"
      "read16 view (ordsTab + 2 * i) = Some (etOrdinals t ! i)" "unat (etOrdinals t ! i) < length (etFunctions t)"
    by blast
  have "drop i (zip (etNames t) (etOrdinals t)) = (etNames t ! i, etOrdinals t ! i) # drop (Suc i) (zip (etNames t) (etOrdinals t))"
    using i tables by (simp add: Cons_nth_drop_Suc [symmetric])
  then show ?case
    using Suc.IH [of "Suc i"] Suc.prems reads strcmpEq_cstring [OF reads(3) assms(2)] tables by auto
qed (use assms(1) in \<open>simp add: tablesAt_def\<close>)

lemma findOrdinal_lookup:
  assumes "tablesAt view e namesTab funcsTab ordsTab t" and "unat numFuncs = length (etFunctions t)"
    and "unat (etBase t) + length (etFunctions t) < 2 ^ 32"
  shows "findOrdinal view funcsTab (etBase t) numFuncs ordinal = Some (exportLookup t (ByOrdinal ordinal))"
proof -
  have wide: "unat (ucast ordinal :: 32 word) = unat ordinal"
    by (rule unsigned_ucast_eq [where 'a = nat and 'b = 16 and 'c = 32, THEN trans])
       (simp add: take_bit_nat_eq_self_iff less_trans [OF unsigned_less [where 'a = nat]])
  have sum: "unat (etBase t + numFuncs) = unat (etBase t) + length (etFunctions t)"
    using assms(2,3) by (simp add: unat_word_ariths)
  show ?thesis
  proof (cases "etBase t \<le> ucast ordinal \<and> (ucast ordinal :: 32 word) < etBase t + numFuncs")
    case True
    then have "unat (ucast ordinal - etBase t :: 32 word) = unat ordinal - unat (etBase t)"
      using unat_sub [of "etBase t" "ucast ordinal"] wide by simp
    with True assms(1) wide sum show ?thesis
      by (auto simp: findOrdinal_def exportLookup_def tablesAt_def word_le_nat_alt word_less_nat_alt)
  next
    case False
    with wide sum show ?thesis
      by (auto simp: findOrdinal_def exportLookup_def word_le_nat_alt word_less_nat_alt)
  qed
qed

lemma export_lookup:
  assumes "exportsAre view t" and "\<forall>name. symbol = ByName name \<longrightarrow> 0 \<notin> set name"
  shows "getExportRVAFromFile (Some view) symbol = Some (exportLookup t symbol)"
proof -
  from assms(1) obtain e d addrNames addrFuncs addrOrdinals namesTab funcsTab ordsTab numNames numFuncs where
    layout: "exportInfo view = Some (Some e)" "eiRva e \<noteq> 0" "eiSize e \<noteq> 0"
      "rvaToOffset view (eiSections e) (eiCount e) (eiRva e) = Some (Some d)"
      "read32 view (d + 16) = Some (etBase t)" "read32 view (d + 20) = Some numFuncs"
      "read32 view (d + 24) = Some numNames" "read32 view (d + 28) = Some addrFuncs"
      "read32 view (d + 32) = Some addrNames" "read32 view (d + 36) = Some addrOrdinals"
      "rvaToOffset view (eiSections e) (eiCount e) addrNames = Some (Some namesTab)"
      "rvaToOffset view (eiSections e) (eiCount e) addrFuncs = Some (Some funcsTab)"
      "rvaToOffset view (eiSections e) (eiCount e) addrOrdinals = Some (Some ordsTab)"
    and counts: "unat numNames = length (etNames t)" "unat numFuncs = length (etFunctions t)"
      "unat (etBase t) + length (etFunctions t) < 2 ^ 32"
    and tables: "tablesAt view e namesTab funcsTab ordsTab t"
    unfolding exportsAre_def by blast
  show ?thesis
    using layout counts findName_lookup [OF tables, of _ 0] findOrdinal_lookup [OF tables counts(2,3)] assms(2)
    by (cases symbol) (auto simp: getExportRVAFromFile_def exportLookup_def)
qed

section \<open>A small export directory\<close>

definition sampleExportOptional :: bytes where
  "sampleExportOptional = leBytes 2 0x10B @ replicate 94 0 @ leBytes 4 32 @ leBytes 4 64 @ replicate 120 0"

definition sampleExportSection :: bytes where
  "sampleExportSection = replicate 8 0 @ leBytes 4 64 @ leBytes 4 32 @ leBytes 4 64 @ leBytes 4 352 @ replicate 12 0 @ leBytes 4 0"

definition sampleExportData :: bytes where
  "sampleExportData = replicate 16 0 @ leBytes 4 1 @ leBytes 4 1 @ leBytes 4 1 @ leBytes 4 72 @ leBytes 4 76 @ leBytes 4 80
     @ leBytes 4 0x1234 @ leBytes 4 84 @ leBytes 2 0 @ replicate 2 0 @ leBytes 2 102 @ replicate 10 0"

definition sampleExportView :: bytes where
  "sampleExportView = sampleDos @ leBytes 4 0x4550 @ leBytes 2 0x14C @ leBytes 2 1 @ replicate 12 0 @ leBytes 2 224
     @ leBytes 2 0x2102 @ sampleExportOptional @ sampleExportSection @ sampleExportData"

definition sampleExports :: export_table where
  "sampleExports = \<lparr>etNames = [[102]], etOrdinals = [0], etFunctions = [0x1234], etBase = 1\<rparr>"

lemmas sampleExport_defs = sampleExportView_def sampleDos_def sampleExportOptional_def sampleExportSection_def
  sampleExportData_def

lemma sampleExport_info: "exportInfo sampleExportView = Some (Some \<lparr>eiRva = 32, eiSize = 64, eiSections = 312, eiCount = 1\<rparr>)"
  by (simp add: exportInfo_def lfanewOf_def Let_def sampleExport_defs read_fields pe_constants del: leBytes.simps)

lemma sampleExport_section: "readSection sampleExportView 312
    = Some \<lparr>shVirtualSize = 64, shVirtualAddress = 32, shSizeOfRawData = 64, shPointerToRawData = 352, shCharacteristics = 0\<rparr>"
  by (simp add: readSection_def sampleExport_defs read_fields pe_constants del: leBytes.simps)

lemma sampleExport_offset:
  assumes "32 \<le> unat rva" and "unat rva < 96"
  shows "rvaToOffset sampleExportView 312 (Suc 0) rva = Some (Some (320 + unat rva))"
proof -
  have le: "(32 :: 32 word) \<le> rva" using assms(1) by (simp add: word_le_nat_alt)
  then have "unat (rva - 32) = unat rva - 32" by (simp add: unat_sub)
  with le assms show ?thesis by (simp add: sampleExport_section word_less_nat_alt max_def)
qed

lemma readLe_drop: "k \<le> length b \<Longrightarrow> readLe n b (k + i) = readLe n (drop k b) i"
  by (auto simp: readLe_def add.commute)

lemma drop_length_append: "drop (length a) (a @ b) = b"
  by simp

lemma sampleExport_data: "drop 352 sampleExportView = sampleExportData" "352 \<le> length sampleExportView"
proof -
  let ?headers = "sampleDos @ leBytes 4 0x4550 @ leBytes 2 0x14C @ leBytes 2 1 @ replicate 12 0 @ leBytes 2 224
     @ leBytes 2 0x2102 @ sampleExportOptional @ sampleExportSection"
  have len: "length ?headers = 352"
    by (simp add: sampleDos_def sampleExportOptional_def sampleExportSection_def del: leBytes.simps)
  have split: "sampleExportView = ?headers @ sampleExportData" by (simp only: sampleExportView_def append_assoc)
  show "drop 352 sampleExportView = sampleExportData" unfolding split len [symmetric] by (rule drop_length_append)
  show "352 \<le> length sampleExportView" unfolding split length_append [of ?headers] len by (rule le_add1)
qed

lemmas sampleExport_readAt = readLe_drop [OF sampleExport_data(2), unfolded sampleExport_data(1)]

lemma sampleExport_fields:
  "readLe 4 sampleExportData 16 = Some 1" "readLe 4 sampleExportData 20 = Some 1" "readLe 4 sampleExportData 24 = Some 1"
  "readLe 4 sampleExportData 28 = Some 72" "readLe 4 sampleExportData 32 = Some 76" "readLe 4 sampleExportData 36 = Some 80"
  "readLe 4 sampleExportData 40 = Some 0x1234" "readLe 4 sampleExportData 44 = Some 84" "readLe 2 sampleExportData 48 = Some 0"
  by (simp_all add: sampleExportData_def readLe_skip readLe_head del: leBytes.simps)

lemma sampleExport_reads:
  "read32 sampleExportView 368 = Some 1" "read32 sampleExportView 372 = Some 1" "read32 sampleExportView 376 = Some 1"
  "read32 sampleExportView 380 = Some 72" "read32 sampleExportView 384 = Some 76" "read32 sampleExportView 388 = Some 80"
  "read32 sampleExportView 392 = Some 0x1234" "read32 sampleExportView 396 = Some 84" "read16 sampleExportView 400 = Some 0"
  using sampleExport_readAt [of 4 16] sampleExport_readAt [of 4 20] sampleExport_readAt [of 4 24]
    sampleExport_readAt [of 4 28] sampleExport_readAt [of 4 32] sampleExport_readAt [of 4 36]
    sampleExport_readAt [of 4 40] sampleExport_readAt [of 4 44] sampleExport_readAt [of 2 48]
  by (simp_all add: sampleExport_fields read32_def read16_def)

lemma sampleExport_name: "cstring (drop 404 sampleExportView) = Some [102]"
proof -
  have "drop 404 sampleExportView = drop 52 (drop 352 sampleExportView)" by simp
  also have "\<dots> = leBytes 2 102 @ replicate 10 0"
    unfolding sampleExport_data(1) by (simp add: sampleExportData_def del: leBytes.simps)
  finally have "drop 404 sampleExportView = leBytes 2 102 @ replicate 10 0" .
  moreover have "leBytes (Suc (Suc 0)) 102 = [102, 0]" by simp
  then have "cstring (leBytes 2 102 @ replicate 10 0) = Some [102]" by (simp only: numeral_2_eq_2) simp
  ultimately show ?thesis by (simp only:)
qed

lemma sampleExport_offsets:
  "rvaToOffset sampleExportView 312 1 32 = Some (Some 352)" "rvaToOffset sampleExportView 312 1 72 = Some (Some 392)"
  "rvaToOffset sampleExportView 312 1 76 = Some (Some 396)" "rvaToOffset sampleExportView 312 1 80 = Some (Some 400)"
  "rvaToOffset sampleExportView 312 1 84 = Some (Some 404)"
  using sampleExport_offset [of 32] sampleExport_offset [of 72] sampleExport_offset [of 76] sampleExport_offset [of 80]
    sampleExport_offset [of 84]
  by (simp_all del: rvaToOffset.simps)

lemma sampleExports_are: "exportsAre sampleExportView sampleExports"
proof -
  let ?e = "\<lparr>eiRva = 32, eiSize = 64, eiSections = 312, eiCount = 1\<rparr>"
  have "tablesAt sampleExportView ?e 396 392 400 sampleExports"
    using sampleExport_offsets by (simp add: tablesAt_def sampleExports_def sampleExport_reads sampleExport_name del: rvaToOffset.simps)
  then have "exportInfo sampleExportView = Some (Some ?e) \<and> eiRva ?e \<noteq> 0 \<and> eiSize ?e \<noteq> 0
        \<and> rvaToOffset sampleExportView (eiSections ?e) (eiCount ?e) (eiRva ?e) = Some (Some 352)
        \<and> read32 sampleExportView (352 + 16) = Some (etBase sampleExports) \<and> read32 sampleExportView (352 + 20) = Some 1
        \<and> read32 sampleExportView (352 + 24) = Some 1 \<and> read32 sampleExportView (352 + 28) = Some 72
        \<and> read32 sampleExportView (352 + 32) = Some 76 \<and> read32 sampleExportView (352 + 36) = Some 80
        \<and> rvaToOffset sampleExportView (eiSections ?e) (eiCount ?e) 76 = Some (Some 396)
        \<and> rvaToOffset sampleExportView (eiSections ?e) (eiCount ?e) 72 = Some (Some 392)
        \<and> rvaToOffset sampleExportView (eiSections ?e) (eiCount ?e) 80 = Some (Some 400)
        \<and> unat (1 :: 32 word) = length (etNames sampleExports) \<and> unat (1 :: 32 word) = length (etFunctions sampleExports)
        \<and> unat (etBase sampleExports) + length (etFunctions sampleExports) < 2 ^ 32
        \<and> tablesAt sampleExportView ?e 396 392 400 sampleExports"
    using sampleExport_offsets sampleExport_info
    by (simp add: sampleExport_reads sampleExports_def del: rvaToOffset.simps)
  then show ?thesis unfolding exportsAre_def by blast
qed

section \<open>Modules of the target\<close>

text \<open>
  One entry of a module snapshot, and what the resolver uses of the system: the snapshot of the
  target (\<open>None\<close> when it cannot be taken), mapped files, the attributes of a path, \<open>SearchPathW\<close>, whether the
  process handle is valid, and the call of \<open>LoadLibraryW\<close> in the target with its result (\<open>None\<close> when
  the call could not be made or did not return in time). The target's state is abstract.
\<close>

record module_entry =
  moName :: qstring
  moPath :: qstring
  moBase :: "64 word"

record 's target =
  tgModules :: "'s \<Rightarrow> module_entry list option"
  tgFile :: "qstring \<Rightarrow> bytes option"
  tgExists :: "qstring \<Rightarrow> bool"
  tgSearch :: "qstring \<Rightarrow> qstring option"
  tgHandleValid :: bool
  tgLoad :: "qstring \<Rightarrow> 's \<Rightarrow> 32 word option \<times> 's"

text \<open>\<open>getProcessArchitecture\<close>: \<open>wow64\<close> is \<open>IsWow64Process\<close>, \<open>None\<close> when it fails.\<close>

definition getProcessArchitecture :: "bool \<Rightarrow> bool option \<Rightarrow> bool \<Rightarrow> qstring" where
  "getProcessArchitecture opened wow64 osIs64 =
     (if \<not> opened then lit ''Unknown''
      else case wow64 of None \<Rightarrow> lit ''Unknown''
      | Some isWow64 \<Rightarrow> if \<not> osIs64 then lit ''x86'' else if isWow64 then lit ''x86'' else lit ''x64'')"

text \<open>A module of the given lower-case name; a 32-bit target has no module above 4 GB.\<close>

definition wantedModule :: "qt \<Rightarrow> qstring \<Rightarrow> bool \<Rightarrow> module_entry \<Rightarrow> bool" where
  "wantedModule q dllLower targetIs32 m \<longleftrightarrow>
     qtToLower q (moName m) = dllLower \<and> \<not> (targetIs32 \<and> moBase m \<ge> 0x100000000)"

definition getRemoteModuleBase :: "qt \<Rightarrow> module_entry list option \<Rightarrow> qstring \<Rightarrow> bool \<Rightarrow> 64 word" where
  "getRemoteModuleBase q snapshot dllLower targetIs32 =
     (case snapshot of None \<Rightarrow> 0
      | Some modules \<Rightarrow> (case find (wantedModule q dllLower targetIs32) modules of None \<Rightarrow> 0 | Some m \<Rightarrow> moBase m))"

text \<open>\<open>C:\Windows\<close> and its two directories of libraries.\<close>

definition systemDirectory :: "string \<Rightarrow> qstring" where
  "systemDirectory name = lit ''C:'' @ [92] @ lit ''Windows'' @ [92] @ lit name @ [92]"

definition findSystemDllPath :: "'s target \<Rightarrow> qstring \<Rightarrow> bool \<Rightarrow> qstring" where
  "findSystemDllPath T dllName targetIs32 =
     (let wow = systemDirectory ''SysWOW64'' @ dllName; sys = systemDirectory ''System32'' @ dllName in
      if targetIs32 \<and> tgExists T wow then wow
      else if tgExists T sys then sys
      else case tgSearch T dllName of Some path \<Rightarrow> path | None \<Rightarrow> dllName)"

definition containsAny :: "qstring \<Rightarrow> string list \<Rightarrow> bool" where
  "containsAny s words = list_ex (\<lambda>w. containsSub s (lit w)) words"

definition apiSetToHost :: "qstring \<Rightarrow> qstring" where
  "apiSetToHost s =
     (if startsWith s (lit ''api-ms-win-crt-'') then lit ''ucrtbase.dll''
      else if s = lit ''api-ms-win-core-winrt-string-l1-1-0.dll'' \<or> s = lit ''api-ms-win-core-winrt-l1-1-0.dll''
      then lit ''combase.dll''
      else if startsWith s (lit ''api-ms-win-core-'')
      then (if containsAny s [''file'', ''process'', ''memory'', ''handle'', ''errorhandling'', ''threadpool'', ''profile'',
              ''sysinfo'', ''timezone'', ''registry'', ''enclave'']
            then lit ''kernel32.dll''
            else if containsAny s [''rtlsupport'', ''fibers'', ''interlocked'', ''normalization'', ''string'', ''winnls'']
            then lit ''ntdll.dll''
            else lit ''kernelbase.dll'')
      else if startsWith s (lit ''ext-ms-'') then lit ''kernel32.dll''
      else [])"

section \<open>Forwarders\<close>

text \<open>\<open>atoi\<close>: white space, a sign and digits.\<close>

definition spaceByte :: "byte \<Rightarrow> bool" where
  "spaceByte b \<longleftrightarrow> b = 32 \<or> (9 \<le> b \<and> b \<le> 13)"

definition digitByte :: "byte \<Rightarrow> bool" where
  "digitByte b \<longleftrightarrow> 48 \<le> b \<and> b \<le> 57"

definition digitsValue :: "bytes \<Rightarrow> int" where
  "digitsValue s = foldl (\<lambda>v b. 10 * v + (uint b - 48)) 0 (takeWhile digitByte s)"

definition atoi :: "bytes \<Rightarrow> int" where
  "atoi s = (case dropWhile spaceByte s of
       [] \<Rightarrow> 0
     | c # cs \<Rightarrow> if c = 45 then - digitsValue cs else if c = 43 then digitsValue cs else digitsValue (c # cs))"

text \<open>The library and the symbol of \<open>DLL.symbol\<close> or \<open>DLL.#ordinal\<close>.\<close>

definition forwardTarget :: "bytes \<Rightarrow> (bytes \<times> symbol) option" where
  "forwardTarget fwd =
     (if 46 \<notin> set fwd then None
      else let fwdDll = takeWhile (\<lambda>c. c \<noteq> 46) fwd @ lit ''.dll''; fwdSym = tl (dropWhile (\<lambda>c. c \<noteq> 46) fwd) in
      Some (fwdDll, if fwdSym \<noteq> [] \<and> hd fwdSym = 35 then ByOrdinal (word_of_int (atoi (tl fwdSym))) else ByName fwdSym))"

section \<open>The resolver\<close>

definition isApiSet :: "qstring \<Rightarrow> bool" where
  "isApiSet dllLower \<longleftrightarrow> startsWith dllLower (lit ''api-ms-'') \<or> startsWith dllLower (lit ''ext-ms-'')"

text \<open>
  The base of the library in the target, which is loaded when it is not there; 0 for an API set that is
  not. An inner \<open>None\<close> is a return of the null pointer.
\<close>

definition loadedBase :: "qt \<Rightarrow> 's target \<Rightarrow> bool \<Rightarrow> qstring \<Rightarrow> 's \<Rightarrow> (64 word option \<times> 's) option" where
  "loadedBase q T targetIs32 dllStr s =
     (let dllLower = qtToLower q dllStr; remoteBase = getRemoteModuleBase q (tgModules T s) dllLower targetIs32 in
      if remoteBase \<noteq> 0 \<or> isApiSet dllLower then Some (Some remoteBase, s)
      else if getRemoteModuleBase q (tgModules T s) (lit ''kernel32.dll'') targetIs32 = 0 then Some (None, s)
      else do { loadLibRVA \<leftarrow> getExportRVAFromFile (tgFile T (findSystemDllPath T (lit ''kernel32.dll'') targetIs32))
                  (ByName (lit ''LoadLibraryW''));
        if loadLibRVA = 0 then Some (None, s)
        else let found = findSystemDllPath T dllStr targetIs32;
                 depPath = (if tgExists T found then found else dllStr) in
        if \<not> tgHandleValid T then Some (None, s)
        else let (exitCode, s) = tgLoad T depPath s in
        if exitCode = None \<or> exitCode = Some 0 then Some (None, s)
        else let remoteBase = getRemoteModuleBase q (tgModules T s) dllLower targetIs32 in
        if remoteBase = 0 then Some (None, s) else Some (Some remoteBase, s) })"

text \<open>The path and address of the first wanted module whose file exports the symbol.\<close>

fun searchModules :: "qt \<Rightarrow> 's target \<Rightarrow> bool \<Rightarrow> qstring \<Rightarrow> symbol \<Rightarrow> module_entry list \<Rightarrow> (32 word \<times> qstring) option option" where
  "searchModules q T targetIs32 dllLower symbol [] = Some None"
| "searchModules q T targetIs32 dllLower symbol (m # ms) =
     (if wantedModule q dllLower targetIs32 m
      then do { rva \<leftarrow> getExportRVAFromFile (tgFile T (moPath m)) symbol;
                if rva \<noteq> 0 then Some (Some (rva, moPath m)) else searchModules q T targetIs32 dllLower symbol ms }
      else searchModules q T targetIs32 dllLower symbol ms)"

definition findExport :: "qt \<Rightarrow> 's target \<Rightarrow> bool \<Rightarrow> qstring \<Rightarrow> symbol \<Rightarrow> 's \<Rightarrow> (32 word \<times> qstring) option option" where
  "findExport q T targetIs32 dllStr symbol s =
     (let filePath = findSystemDllPath T dllStr targetIs32 in
      do { funcRVA \<leftarrow> getExportRVAFromFile (tgFile T filePath) symbol;
        if funcRVA \<noteq> 0 then Some (Some (funcRVA, filePath))
        else case tgModules T s of
          None \<Rightarrow> Some None
        | Some modules \<Rightarrow> searchModules q T targetIs32 (qtToLower q dllStr) symbol modules })"

definition truncated :: "bool \<Rightarrow> 64 word \<Rightarrow> 64 word" where
  "truncated targetIs32 a = (if targetIs32 then and a 0xFFFFFFFF else a)"

text \<open>Whether a forwarder names the symbol itself; the ordinal of a symbol that is asked by name is 0.\<close>

fun sameSymbol :: "symbol \<Rightarrow> symbol \<Rightarrow> bool" where
  "sameSymbol (ByOrdinal n) (ByOrdinal m) = (m = n)"
| "sameSymbol (ByName name) (ByOrdinal m) = (m = 0)"
| "sameSymbol (ByName name) (ByName f) = (f = name)"
| "sameSymbol (ByOrdinal n) (ByName f) = False"

text \<open>
  \<open>getRemoteProcAddressFallback\<close>; the first number is 9 less the depth, so that 0 is the depth the
  code refuses. The result 0 is the null pointer.
\<close>

fun resolve :: "qt \<Rightarrow> 's target \<Rightarrow> bool \<Rightarrow> nat \<Rightarrow> bytes \<Rightarrow> symbol \<Rightarrow> 's \<Rightarrow> (64 word \<times> 's) option" where
  "resolve q T targetIs32 0 dllName symbol s = Some (0, s)"
| "resolve q T targetIs32 (Suc depth) dllName symbol s =
     do { let dllStr = fromLatin1 dllName;
          let dllLower = qtToLower q dllStr;
          let host = (if isApiSet dllLower then apiSetToHost dllLower else []);
          (hostAddr, s) \<leftarrow> (if host \<noteq> [] then resolve q T targetIs32 depth (qtToLatin1 q host) symbol s else Some (0, s));
       if hostAddr \<noteq> 0 then Some (hostAddr, s)
       else do { (base, s) \<leftarrow> loadedBase q T targetIs32 dllStr s;
         case base of None \<Rightarrow> Some (0, s)
         | Some remoteBase \<Rightarrow>
           do { export \<leftarrow> findExport q T targetIs32 dllStr symbol s;
             case export of None \<Rightarrow> Some (0, s)
             | Some (funcRVA, filePath) \<Rightarrow>
               do { fwd \<leftarrow> getForwarderStringForRVA (tgFile T filePath) funcRVA;
                 case forwardTarget fwd of
                   Some (fwdDll, fwdSymbol) \<Rightarrow>
                     if qtToLower q (qtFromUtf8 q fwdDll) = dllLower \<and> sameSymbol symbol fwdSymbol
                     then Some (truncated targetIs32 (remoteBase + ucast funcRVA), s)
                     else resolve q T targetIs32 depth fwdDll fwdSymbol s
                 | None \<Rightarrow> Some (truncated targetIs32 (remoteBase + ucast funcRVA), s) } } } }"

section \<open>What an address means\<close>

text \<open>
  \<open>resolvesTo\<close> is the chain from a library and a symbol to an address: over the host of an API set and
  over forwarders to an export of a module in the target. \<open>unbased\<close> is the case of the code in which the
  library is an API set that is not a module of the target: the address is the export's relative one.
\<close>

definition exportedAt :: "'s target \<Rightarrow> symbol \<Rightarrow> 32 word \<Rightarrow> qstring \<Rightarrow> bool" where
  "exportedAt T symbol rva path \<longleftrightarrow> rva \<noteq> 0 \<and> getExportRVAFromFile (tgFile T path) symbol = Some rva"

inductive resolvesTo :: "qt \<Rightarrow> 's target \<Rightarrow> bool \<Rightarrow> bytes \<Rightarrow> symbol \<Rightarrow> 64 word \<Rightarrow> bool" for q T targetIs32 where
  exported: "getRemoteModuleBase q (tgModules T s) (qtToLower q (fromLatin1 dll)) targetIs32 = base \<Longrightarrow> base \<noteq> 0
    \<Longrightarrow> exportedAt T symbol rva path
    \<Longrightarrow> resolvesTo q T targetIs32 dll symbol (truncated targetIs32 (base + ucast rva))"
| unbased: "isApiSet (qtToLower q (fromLatin1 dll)) \<Longrightarrow> exportedAt T symbol rva path
    \<Longrightarrow> resolvesTo q T targetIs32 dll symbol (truncated targetIs32 (ucast rva))"
| hosted: "isApiSet (qtToLower q (fromLatin1 dll)) \<Longrightarrow> apiSetToHost (qtToLower q (fromLatin1 dll)) = host
    \<Longrightarrow> resolvesTo q T targetIs32 (qtToLatin1 q host) symbol address \<Longrightarrow> resolvesTo q T targetIs32 dll symbol address"
| forwarded: "exportedAt T symbol rva path \<Longrightarrow> getForwarderStringForRVA (tgFile T path) rva = Some fwd
    \<Longrightarrow> forwardTarget fwd = Some (fwdDll, fwdSymbol) \<Longrightarrow> resolvesTo q T targetIs32 fwdDll fwdSymbol address
    \<Longrightarrow> resolvesTo q T targetIs32 dll symbol address"

lemma loadedBase_Some:
  assumes "loadedBase q T targetIs32 dllStr s = Some (Some base, s')"
  shows "(\<exists>t. getRemoteModuleBase q (tgModules T t) (qtToLower q dllStr) targetIs32 = base)
    \<and> (base \<noteq> 0 \<or> isApiSet (qtToLower q dllStr))"
  using assms unfolding loadedBase_def Let_def
  by (auto elim!: bind_SomeE split: if_splits prod.splits)

lemma searchModules_Some:
  "searchModules q T targetIs32 dllLower symbol ms = Some (Some (rva, path)) \<Longrightarrow> exportedAt T symbol rva path"
  by (induction ms) (auto elim!: bind_SomeE simp: exportedAt_def split: if_splits)

lemma findExport_Some:
  "findExport q T targetIs32 dllStr symbol s = Some (Some (rva, path)) \<Longrightarrow> exportedAt T symbol rva path"
  by (auto simp: findExport_def Let_def exportedAt_def elim!: bind_SomeE split: if_splits option.splits
      dest!: searchModules_Some [unfolded exportedAt_def])

lemma bind_pair_SomeE:
  assumes "Option.bind x (\<lambda>(a, b). f a b) = Some y"
  obtains a b where "x = Some (a, b)" and "f a b = Some y"
  using assms by (cases x) auto

lemma resolve_resolvesTo:
  "resolve q T targetIs32 depth dll symbol s = Some (address, s') \<Longrightarrow> address \<noteq> 0 \<Longrightarrow> resolvesTo q T targetIs32 dll symbol address"
proof (induction depth arbitrary: dll symbol s address s')
  case (Suc depth)
  let ?lower = "qtToLower q (fromLatin1 dll)"
  let ?host = "if isApiSet ?lower then apiSetToHost ?lower else []"
  from Suc.prems(1) obtain hostAddr s1 where
    host: "(if ?host \<noteq> [] then resolve q T targetIs32 depth (qtToLatin1 q ?host) symbol s else Some (0, s)) = Some (hostAddr, s1)"
    and rest: "(if hostAddr \<noteq> 0 then Some (hostAddr, s1)
       else do { (base, s) \<leftarrow> loadedBase q T targetIs32 (fromLatin1 dll) s1;
         case base of None \<Rightarrow> Some (0, s)
         | Some remoteBase \<Rightarrow>
           do { export \<leftarrow> findExport q T targetIs32 (fromLatin1 dll) symbol s;
             case export of None \<Rightarrow> Some (0, s)
             | Some (funcRVA, filePath) \<Rightarrow>
               do { fwd \<leftarrow> getForwarderStringForRVA (tgFile T filePath) funcRVA;
                 case forwardTarget fwd of
                   Some (fwdDll, fwdSymbol) \<Rightarrow>
                     if qtToLower q (qtFromUtf8 q fwdDll) = ?lower \<and> sameSymbol symbol fwdSymbol
                     then Some (truncated targetIs32 (remoteBase + ucast funcRVA), s)
                     else resolve q T targetIs32 depth fwdDll fwdSymbol s
                 | None \<Rightarrow> Some (truncated targetIs32 (remoteBase + ucast funcRVA), s) } } }) = Some (address, s')"
    unfolding resolve.simps Let_def by (elim bind_pair_SomeE)
  show ?case
  proof (cases "hostAddr = 0")
    case False
    with host rest have "isApiSet ?lower" and "resolve q T targetIs32 depth (qtToLatin1 q (apiSetToHost ?lower)) symbol s = Some (address, s1)"
      by (auto split: if_splits)
    then show ?thesis using Suc.IH Suc.prems(2) resolvesTo.hosted by blast
  next
    case True
    with rest obtain base s2 where base: "loadedBase q T targetIs32 (fromLatin1 dll) s1 = Some (base, s2)"
      and rest: "(case base of None \<Rightarrow> Some (0, s2)
         | Some remoteBase \<Rightarrow>
           do { export \<leftarrow> findExport q T targetIs32 (fromLatin1 dll) symbol s2;
             case export of None \<Rightarrow> Some (0, s2)
             | Some (funcRVA, filePath) \<Rightarrow>
               do { fwd \<leftarrow> getForwarderStringForRVA (tgFile T filePath) funcRVA;
                 case forwardTarget fwd of
                   Some (fwdDll, fwdSymbol) \<Rightarrow>
                     if qtToLower q (qtFromUtf8 q fwdDll) = ?lower \<and> sameSymbol symbol fwdSymbol
                     then Some (truncated targetIs32 (remoteBase + ucast funcRVA), s2)
                     else resolve q T targetIs32 depth fwdDll fwdSymbol s2
                 | None \<Rightarrow> Some (truncated targetIs32 (remoteBase + ucast funcRVA), s2) } }) = Some (address, s')"
      by (auto elim!: bind_pair_SomeE simp del: fromLatin1_Nil)
    from rest Suc.prems(2) obtain remoteBase rva path fwd where remote: "base = Some remoteBase"
      and export: "findExport q T targetIs32 (fromLatin1 dll) symbol s2 = Some (Some (rva, path))"
      and fwd: "getForwarderStringForRVA (tgFile T path) rva = Some fwd"
      and cases: "(case forwardTarget fwd of
                   Some (fwdDll, fwdSymbol) \<Rightarrow>
                     if qtToLower q (qtFromUtf8 q fwdDll) = ?lower \<and> sameSymbol symbol fwdSymbol
                     then Some (truncated targetIs32 (remoteBase + ucast rva), s2)
                     else resolve q T targetIs32 depth fwdDll fwdSymbol s2
                 | None \<Rightarrow> Some (truncated targetIs32 (remoteBase + ucast rva), s2)) = Some (address, s')"
      by (cases base) (auto elim!: bind_SomeE split: option.splits prod.splits)
    note at = findExport_Some [OF export]
    have direct: "resolvesTo q T targetIs32 dll symbol (truncated targetIs32 (remoteBase + ucast rva))"
      using loadedBase_Some [OF base [unfolded remote]] at resolvesTo.unbased resolvesTo.exported
      by (cases "remoteBase = 0") fastforce+
    from cases show ?thesis
    proof (cases "forwardTarget fwd")
      case (Some target)
      obtain fwdDll fwdSymbol where target: "target = (fwdDll, fwdSymbol)" by (cases target)
      show ?thesis
        using cases Suc.IH [of fwdDll fwdSymbol s2 address s'] Suc.prems(2) direct
          resolvesTo.forwarded [OF at fwd Some [unfolded target]]
        by (auto simp: Some target split: if_splits)
    qed (use cases direct in auto)
  qed
qed simp

lemma truncated_bound: "truncated True a < 2 ^ 32"
proof -
  have "and a 0xFFFFFFFF = take_bit 32 a" by (simp add: take_bit_eq_mask mask_eq_exp_minus_1)
  then show ?thesis
    using take_bit_nat_less_exp [of 32 "unat a"] by (simp add: truncated_def word_less_nat_alt unsigned_take_bit_eq)
qed

lemma resolvesTo_bound: "resolvesTo q T targetIs32 dll symbol address \<Longrightarrow> targetIs32 \<Longrightarrow> address < 2 ^ 32"
  by (induction rule: resolvesTo.induct) (use truncated_bound in auto)

section \<open>Properties\<close>

text \<open>
  C28. Looking a symbol up in a file that has an export directory reads only inside the file and gives
  what the directory says: for a name the function of the ordinal beside its first occurrence, for an
  ordinal the function at its distance from the base, and 0 for what is not exported.
\<close>

theorem getExportRVA_correct:
  assumes "exportsAre view t" and "\<forall>name. symbol = ByName name \<longrightarrow> 0 \<notin> set name"
  shows "getExportRVAFromFile (Some view) symbol = Some (exportLookup t symbol)"
  using export_lookup [OF assms] .

theorem getExportRVA_correct_witness:
  "getExportRVAFromFile (Some sampleExportView) (ByName (lit ''f'')) = Some 0x1234
   \<and> getExportRVAFromFile (Some sampleExportView) (ByOrdinal 2) = Some 0"
  using getExportRVA_correct [OF sampleExports_are, of "ByName (lit ''f'')"]
    getExportRVA_correct [OF sampleExports_are, of "ByOrdinal 2"]
  by (simp add: exportLookup_def sampleExports_def lit_def)


text \<open>A target with one module, \<open>m.dll\<close>, whose file is the sample.\<close>

definition sampleTarget :: "unit target" where
  "sampleTarget = \<lparr>tgModules = \<lambda>_. Some [\<lparr>moName = lit ''m.dll'', moPath = lit ''m'', moBase = 0x70000000\<rparr>],
     tgFile = \<lambda>_. Some sampleExportView, tgExists = \<lambda>_. True, tgSearch = \<lambda>_. None, tgHandleValid = True,
     tgLoad = \<lambda>_ s. (None, s)\<rparr>"

lemma sampleTarget_resolves:
  "resolve qtAscii sampleTarget True 9 (lit ''m.dll'') (ByName (lit ''f'')) () = Some (0x70001234, ())"
proof -
  have rva: "getExportRVAFromFile (Some sampleExportView) (ByName [102]) = Some 0x1234"
    using export_lookup [OF sampleExports_are, of "ByName [102]"] by (simp add: exportLookup_def sampleExports_def)
  have fwd: "getForwarderStringForRVA (Some sampleExportView) 0x1234 = Some []"
    by (simp add: getForwarderStringForRVA_def sampleExport_info)
  show ?thesis
    by (simp add: numeral_eq_Suc) (simp add: sampleTarget_def lit_def fromLatin1_def qtAscii_simps isApiSet_def
      loadedBase_def findExport_def getRemoteModuleBase_def wantedModule_def rva fwd forwardTarget_def truncated_def Let_def)
qed


end
