(* ===== verification/ManualMap.thy ===== *)
theory ManualMap
  imports PeReloc PeExports NativeLaunch
begin

text \<open>
  \<open>InjectorEngine::injectManualMap\<close> (\<open>StarInjectorManualMap.cpp\<close>, lines 754 to 1653), built for 64 bits:
  the file is mapped, parsed and laid out (\<open>PeImage\<close>), memory for the image is found in the target,
  the image is relocated (\<open>PeReloc\<close>) and written, its imports are resolved (\<open>PeExports\<close>), and its TLS
  callbacks and its entry point are called.

  What the function does to the system is a trace of effects. Every call of the system is answered by a
  function of the trace so far, so the answers are arbitrary and may differ from call to call. A call in
  a borrowed 32-bit thread is one effect here.
\<close>

section \<open>State and effects\<close>

datatype resource = ProcessHandle | FileHandle | MappingHandle | FileView | ThreadHandle

datatype protection = NoAccess | ReadOnly | ReadWrite | Execute | ExecuteRead | ExecuteReadWrite

text \<open>
  A failed allocation has the address 0. \<open>Waited\<close> and \<open>Called32\<close> say whether the call that was waited for
  has returned.
\<close>

datatype mm_effect =
    Opened resource
  | Closed resource
  | Allocated "64 word" nat
  | Freed "64 word"
  | Wrote "64 word" bytes bool
  | Protected "64 word" "32 word" protection
  | Started "64 word" bool
  | Waited "64 word" bool
  | Called32 "32 word" "32 word list" bool

type_synonym mm_trace = "mm_effect list"

record file_steps =
  fsOpened :: bool
  fsSized :: bool
  fsMapped :: bool
  fsViewed :: bool
  fsView :: bytes

record 's mm_world =
  wdOpenProcess :: bool
  wdTargetWow64 :: bool
  wdArch :: qstring
  wdFile :: file_steps
  wdAlloc :: "mm_trace \<Rightarrow> 64 word \<Rightarrow> 64 word"
  wdWrite :: "mm_trace \<Rightarrow> bool"
  wdThread :: "mm_trace \<Rightarrow> bool"
  wdWait :: "mm_trace \<Rightarrow> 32 word"
  wdExit :: "mm_trace \<Rightarrow> 32 word option"
  wdAlive :: "mm_trace \<Rightarrow> bool"
  wdCall32 :: "mm_trace \<Rightarrow> bool \<times> 32 word"
  wdTarget :: "'s target"
  wdLocalModule :: "bytes \<Rightarrow> bool"
  wdGetProc :: "bytes \<Rightarrow> symbol \<Rightarrow> 64 word"
  wdGetProcNoModule :: "symbol \<Rightarrow> 64 word"

record 's mm_state =
  msTrace :: mm_trace
  msTarget :: 's

definition emit :: "mm_effect \<Rightarrow> 's mm_state \<Rightarrow> 's mm_state" where
  "emit e st = st\<lparr>msTrace := msTrace st @ [e]\<rparr>"

definition cleanupFile :: "'s mm_state \<Rightarrow> 's mm_state" where
  "cleanupFile st = emit (Closed FileHandle) (emit (Closed MappingHandle) (emit (Closed FileView) st))"

text \<open>The two ways the function fails, without and with the release of the image.\<close>

definition failKeep :: "'s mm_state \<Rightarrow> 's mm_state" where
  "failKeep st = emit (Closed ProcessHandle) (cleanupFile st)"

definition failFree :: "64 word \<Rightarrow> 's mm_state \<Rightarrow> 's mm_state" where
  "failFree base st = failKeep (emit (Freed base) st)"

definition tryAlloc :: "'s mm_world \<Rightarrow> 64 word \<Rightarrow> nat \<Rightarrow> 's mm_state \<Rightarrow> 64 word \<times> 's mm_state" where
  "tryAlloc W hint n st = (let a = wdAlloc W (msTrace st) hint in (a, emit (Allocated a n) st))"

definition tryWrite :: "'s mm_world \<Rightarrow> 64 word \<Rightarrow> bytes \<Rightarrow> 's mm_state \<Rightarrow> bool \<times> 's mm_state" where
  "tryWrite W a b st = (let ok = wdWrite W (msTrace st) in (ok, emit (Wrote a b ok) st))"

section \<open>Where the image goes\<close>

text \<open>
  The attempts below a module: two megabytes for each attempt, and the image size for each but the
  first. The product of the size and the attempt has 32 bits.
\<close>

fun nearModule :: "'s mm_world \<Rightarrow> 32 word \<Rightarrow> 64 word \<Rightarrow> nat list \<Rightarrow> 's mm_state \<Rightarrow> 64 word \<times> 's mm_state" where
  "nearModule W imageSize modBase [] st = (0, st)"
| "nearModule W imageSize modBase (k # ks) st =
     (let tryAddr = modBase - 0x200000 * word_of_nat (k + 1) - ucast (imageSize * word_of_nat k) in
      if tryAddr < 0x10000 then nearModule W imageSize modBase ks st
      else let (a, st) = tryAlloc W tryAddr (unat imageSize) st in
      if a \<noteq> 0 then (a, st) else nearModule W imageSize modBase ks st)"

fun nearModules :: "qt \<Rightarrow> 's mm_world \<Rightarrow> bool \<Rightarrow> 32 word \<Rightarrow> string list \<Rightarrow> 's mm_state \<Rightarrow> 64 word \<times> 's mm_state" where
  "nearModules q W target32 imageSize [] st = (0, st)"
| "nearModules q W target32 imageSize (m # ms) st =
     (let modBase = getRemoteModuleBase q (tgModules (wdTarget W) (msTarget st)) (qtToLower q (lit m)) target32 in
      if modBase = 0 then nearModules q W target32 imageSize ms st
      else let (a, st) = nearModule W imageSize modBase [0, 1, 2, 3] st in
      if a \<noteq> 0 then (a, st) else nearModules q W target32 imageSize ms st)"

fun nearDxgi :: "'s mm_world \<Rightarrow> nat \<Rightarrow> 64 word \<Rightarrow> nat list \<Rightarrow> 's mm_state \<Rightarrow> 64 word \<times> 's mm_state" where
  "nearDxgi W n dxgiBase [] st = (0, st)"
| "nearDxgi W n dxgiBase (k # ks) st =
     (let (a, st) = tryAlloc W (dxgiBase - 0x200000 * word_of_nat (k + 1)) n st in
      if a \<noteq> 0 then (a, st) else nearDxgi W n dxgiBase ks st)"

text \<open>
  The base of the image, 0 when there is no memory: the preferred base, moved near \<open>dxgi.dll\<close> in a
  64-bit target that is more than 2 GB away, else near one of five modules, else anywhere.
\<close>

definition placeImage :: "qt \<Rightarrow> 's mm_world \<Rightarrow> PeHeader \<Rightarrow> 's mm_state \<Rightarrow> 64 word \<times> 's mm_state" where
  "placeImage q W h st =
     (let target32 = sameText q (wdArch W) (lit ''x86'');
          n = unat (phImageSize h);
          (a, st) = tryAlloc W (phPreferredBase h) n st in
      if a = 0
      then let (a, st) = nearModules q W target32 (phImageSize h)
                 [''dxgi.dll'', ''d3d11.dll'', ''d3d9.dll'', ''opengl32.dll'', ''kernel32.dll''] st in
           if a \<noteq> 0 then (a, st) else tryAlloc W 0 n st
      else if target32 then (a, st)
      else let dxgiBase = getRemoteModuleBase q (tgModules (wdTarget W) (msTarget st)) (lit ''dxgi.dll'') False;
               dist = sint a - sint dxgiBase in
      if dxgiBase = 0 \<or> (- 0x7fffffff \<le> dist \<and> dist \<le> 0x7fffffff) then (a, st)
      else let (near, st) = nearDxgi W n dxgiBase [0, 1, 2, 3] st in
      if near = 0 then (a, st) else (near, emit (Freed a) st))"

section \<open>Imports\<close>

text \<open>
  The symbol of a thunk: the highest bit marks an ordinal; \<open>None\<close> is a name outside the image or without
  an end, which the loop passes over.
\<close>

definition pointerSize :: "bool \<Rightarrow> nat" where
  "pointerSize is32 = (if is32 then 4 else 8)"

definition thunkSymbol :: "bool \<Rightarrow> bytes \<Rightarrow> nat \<Rightarrow> symbol option" where
  "thunkSymbol is32 img v =
     (if bit v (8 * pointerSize is32 - 1) then Some (ByOrdinal (word_of_nat v))
      else if v \<ge> length img \<or> v + 2 \<ge> length img then None
      else map_option ByName (cstring (drop (v + 2) img)))"

text \<open>The address of an import; for a 32-bit image the resolver, \<open>GetProcAddress\<close> and the resolver again.\<close>

definition resolveImport :: "qt \<Rightarrow> 's mm_world \<Rightarrow> bool \<Rightarrow> bytes \<Rightarrow> symbol \<Rightarrow> 's \<Rightarrow> (64 word \<times> 's) option" where
  "resolveImport q W is32 dllName symbol s =
     (if is32
      then do { (a, s) \<leftarrow> resolve q (wdTarget W) True 9 dllName symbol s;
                if a \<noteq> 0 then Some (a, s)
                else if wdGetProcNoModule W symbol \<noteq> 0 then Some (wdGetProcNoModule W symbol, s)
                else resolve q (wdTarget W) True 9 dllName symbol s }
      else if wdGetProc W dllName symbol \<noteq> 0 then Some (wdGetProc W dllName symbol, s)
      else resolve q (wdTarget W) False 9 dllName symbol s)"

text \<open>
  The thunks of one descriptor from \<open>idx\<close> on. \<open>Inl\<close> is a return of \<open>false\<close>, with everything released.
\<close>

function importThunks :: "qt \<Rightarrow> 's mm_world \<Rightarrow> bool \<Rightarrow> bytes \<Rightarrow> 64 word \<Rightarrow> bytes \<Rightarrow> nat \<Rightarrow> nat \<Rightarrow> nat \<Rightarrow> 's mm_state
    \<Rightarrow> ('s mm_state + 's mm_state) option" where
  "importThunks q W is32 img base dllName thunkRVA iatRVA idx st =
     (let w = pointerSize is32 in
      do { v \<leftarrow> readLe w img (thunkRVA + idx * w);
        if v = 0 \<or> iatRVA + idx * w + w > length img \<or> thunkRVA + idx * w + w > length img then Some (Inr st)
        else case thunkSymbol is32 img v of
          None \<Rightarrow> importThunks q W is32 img base dllName thunkRVA iatRVA (Suc idx) st
        | Some symbol \<Rightarrow>
          do { (a, s) \<leftarrow> resolveImport q W is32 dllName symbol (msTarget st);
               let st = st\<lparr>msTarget := s\<rparr>;
            if a = 0 then Some (Inl (failFree base st))
            else let (ok, st) = tryWrite W (base + word_of_nat (iatRVA + idx * w)) (leBytes w (unat a)) st in
            if \<not> ok then Some (Inl (failFree base st))
            else importThunks q W is32 img base dllName thunkRVA iatRVA (Suc idx) st } })"
  by pat_completeness auto
termination
  by (relation "measure (\<lambda>(q, W, is32, img, base, dllName, thunkRVA, iatRVA, idx, st). length img - idx)")
     (auto simp: pointerSize_def split: if_splits)

declare importThunks.simps [simp del]

fun importDescriptors :: "qt \<Rightarrow> 's mm_world \<Rightarrow> bool \<Rightarrow> bytes \<Rightarrow> 64 word \<Rightarrow> nat \<Rightarrow> nat \<Rightarrow> 's mm_state
    \<Rightarrow> ('s mm_state + 's mm_state) option" where
  "importDescriptors q W is32 img base desc 0 st = Some (Inr st)"
| "importDescriptors q W is32 img base desc (Suc count) st =
     do { originalFirstThunk \<leftarrow> readLe 4 img desc;
          name \<leftarrow> readLe 4 img (desc + 12);
          firstThunk \<leftarrow> readLe 4 img (desc + 16);
       if name = 0 \<and> firstThunk = 0 then Some (Inr st)
       else let thunkRVA = (if originalFirstThunk \<noteq> 0 then originalFirstThunk else firstThunk) in
       case (if name = 0 \<or> name \<ge> length img \<or> name + 1 \<ge> length img then None else cstring (drop name img)) of
         None \<Rightarrow> importDescriptors q W is32 img base (desc + 20) count st
       | Some dllName \<Rightarrow>
         if \<not> is32 \<and> \<not> wdLocalModule W dllName then Some (Inl (failFree base st))
         else if thunkRVA \<ge> length img \<or> firstThunk \<ge> length img
         then importDescriptors q W is32 img base (desc + 20) count st
         else do { result \<leftarrow> importThunks q W is32 img base dllName thunkRVA firstThunk 0 st;
           case result of Inl st \<Rightarrow> Some (Inl st)
           | Inr st \<Rightarrow> importDescriptors q W is32 img base (desc + 20) count st } }"

definition resolveImports :: "qt \<Rightarrow> 's mm_world \<Rightarrow> PeHeader \<Rightarrow> bytes \<Rightarrow> 64 word \<Rightarrow> 's mm_state
    \<Rightarrow> ('s mm_state + 's mm_state) option" where
  "resolveImports q W h img base st =
     (if phImportSize h > 0 \<and> phImportRva h \<noteq> 0 \<and> phImportRva h < phImageSize h
         \<and> unat (phImportRva h) + unat (phImportSize h) \<le> unat (phImageSize h)
      then importDescriptors q W (phIs32 h) img base (unat (phImportRva h)) (unat (phImportSize h) div 20) st
      else Some (Inr st))"

section \<open>Calls in the target\<close>

text \<open>The code that calls a function of the image with its base, 1 and 0.\<close>

definition callShell32 :: "32 word \<Rightarrow> 32 word \<Rightarrow> bytes" where
  "callShell32 base entry = [0x68, 0, 0, 0, 0, 0x68, 1, 0, 0, 0, 0x68] @ leBytes 4 (unat base) @ [0xB8]
     @ leBytes 4 (unat entry) @ [0xFF, 0xD0, 0xC3]"

definition callShell64 :: "64 word \<Rightarrow> 64 word \<Rightarrow> bytes" where
  "callShell64 base entry = [0x48, 0xB9] @ leBytes 8 (unat base) @ [0x48, 0xBA] @ leBytes 8 1 @ [0x49, 0xB8] @ leBytes 8 0
     @ [0x48, 0xB8] @ leBytes 8 (unat entry) @ [0x48, 0x83, 0xEC, 0x28, 0xFF, 0xD0, 0x48, 0x83, 0xC4, 0x28, 0xC3]"

definition needWow64Gate :: "'s mm_world \<Rightarrow> bool" where
  "needWow64Gate W = wdTargetWow64 W"

definition call32 :: "'s mm_world \<Rightarrow> 64 word \<Rightarrow> 64 word \<Rightarrow> 's mm_state \<Rightarrow> (bool \<times> 32 word) \<times> 's mm_state" where
  "call32 W entry base st = (let r = wdCall32 W (msTrace st) in
     (r, emit (Called32 (ucast entry) [ucast base, 1, 0] (fst r)) st))"

text \<open>
  One TLS callback in a thread of its own. \<open>Next\<close> goes on with the loop, \<open>Break\<close> leaves it and \<open>Return\<close>
  leaves the function.
\<close>

datatype 'a loop = Next 'a | Break 'a | Return 'a

definition tlsThread :: "'s mm_world \<Rightarrow> bytes \<Rightarrow> 's mm_state \<Rightarrow> 's mm_state loop" where
  "tlsThread W code st =
     (let (a, st) = tryAlloc W 0 (length code) st in
      if a = 0 then Break st
      else let (ok, st) = tryWrite W a code st in
      if \<not> ok then Break (emit (Freed a) st)
      else let started = wdThread W (msTrace st); st = emit (Started a started) st in
      if \<not> started then Break (emit (Freed a) st)
      else let st = emit (Opened ThreadHandle) st; returned = (wdWait W (msTrace st) = 0); st = emit (Waited a returned) st;
               st = emit (Closed ThreadHandle) st in
      if \<not> returned then Return (failKeep st) else Next (emit (Freed a) st))"

text \<open>The callbacks at \<open>rva\<close>, \<open>count\<close> more of them at most.\<close>

fun tlsCallbacks :: "'s mm_world \<Rightarrow> bool \<Rightarrow> bytes \<Rightarrow> 64 word \<Rightarrow> nat \<Rightarrow> nat \<Rightarrow> 's mm_state \<Rightarrow> ('s mm_state + 's mm_state) option" where
  "tlsCallbacks W is32 img base rva 0 st = Some (Inr st)"
| "tlsCallbacks W is32 img base rva (Suc count) st =
     do { callback \<leftarrow> readLe (pointerSize is32) img rva;
       if callback = 0 then Some (Inr st)
       else if is32 \<and> needWow64Gate W
       then (let (r, st) = call32 W (word_of_nat callback) base st in
             if \<not> fst r then Some (Inr st) else tlsCallbacks W is32 img base (rva + pointerSize is32) count st)
       else let code = (if is32 then callShell32 (ucast base) (word_of_nat callback)
                  else callShell64 base (word_of_nat callback)) in
       case tlsThread W code st of
         Next st \<Rightarrow> tlsCallbacks W is32 img base (rva + pointerSize is32) count st
       | Break st \<Rightarrow> Some (Inr st)
       | Return st \<Rightarrow> Some (Inl st) }"

definition callTls :: "'s mm_world \<Rightarrow> PeHeader \<Rightarrow> bytes \<Rightarrow> 64 word \<Rightarrow> 's mm_state \<Rightarrow> ('s mm_state + 's mm_state) option" where
  "callTls W h img base st =
     (let tls = unat (phTlsRva h); is32 = phIs32 h in
      if tls = 0 \<or> phTlsSize h = 0 \<or> tls \<ge> length img then Some (Inr st)
      else if tls + (if is32 then 24 else 40) > length img then Some (Inr st)
      else if is32
      then do { callbacksVA \<leftarrow> read32 img (tls + 12);
             let callbacksRVA = callbacksVA - ucast base;
             if callbacksVA = 0 \<or> unat callbacksRVA \<ge> length img then Some (Inr st)
             else tlsCallbacks W is32 img base (unat callbacksRVA) 16 st }
      else do { callbacksVA \<leftarrow> read64 img (tls + 24);
             let callbacksRVA = callbacksVA - base;
             if callbacksVA = 0 \<or> unat callbacksRVA \<ge> length img then Some (Inr st)
             else tlsCallbacks W is32 img base (unat callbacksRVA) 16 st })"

section \<open>Protection\<close>

definition sectionProtection :: "32 word \<Rightarrow> protection" where
  "sectionProtection characteristics =
     (let executable = bit characteristics 29; readable = bit characteristics 30; writable = bit characteristics 31 in
      if executable then (if writable then ExecuteReadWrite else if readable then ExecuteRead else Execute)
      else (if writable then ReadWrite else if readable then ReadOnly else NoAccess))"

text \<open>The section table is read from the local image, at the place it has in the file.\<close>

fun protectSections :: "bytes \<Rightarrow> 64 word \<Rightarrow> nat \<Rightarrow> nat \<Rightarrow> 's mm_state \<Rightarrow> 's mm_state option" where
  "protectSections img base table 0 st = Some st"
| "protectSections img base table (Suc count) st =
     do { virtualAddress \<leftarrow> read32 img (table + 12);
       if unat virtualAddress \<ge> length img then protectSections img base (table + sizeSectionHeader) count st
       else do { characteristics \<leftarrow> read32 img (table + 36);
                 virtualSize \<leftarrow> read32 img (table + 8);
         protectSections img base (table + sizeSectionHeader) count
           (if virtualSize = 0 then st
            else emit (Protected (base + ucast virtualAddress) virtualSize (sectionProtection characteristics)) st) } }"

section \<open>The entry point\<close>

definition succeed :: "'s mm_state \<Rightarrow> bool \<times> 's mm_state" where
  "succeed st = (True, failKeep st)"

text \<open>The call of the entry point in a new thread; the code is freed once the thread is known to have ended.\<close>

definition entryThread :: "'s mm_world \<Rightarrow> 64 word \<Rightarrow> bytes \<Rightarrow> 's mm_state \<Rightarrow> bool \<times> 's mm_state" where
  "entryThread W base code st =
     (let (a, st) = tryAlloc W 0 (length code) st in
      if a = 0 then (False, failFree base st)
      else let (ok, st) = tryWrite W a code st in
      if \<not> ok then (False, failFree base (emit (Freed a) st))
      else let started = wdThread W (msTrace st); st = emit (Started a started) st in
      if \<not> started then (False, failFree base (emit (Freed a) st))
      else let st = emit (Opened ThreadHandle) st; waitResult = wdWait W (msTrace st);
               st = emit (Waited a (waitResult = 0)) st;
               initialized = (case wdExit W (msTrace st) of None \<Rightarrow> False
                 | Some code \<Rightarrow> nativeInitializationConfirmed waitResult code (wdAlive W (msTrace st)));
               st = emit (Closed ThreadHandle) st;
               st = (if waitResult = 0 then emit (Freed a) st else st) in
      if \<not> initialized then (False, failKeep st) else succeed st)"

definition callEntry :: "'s mm_world \<Rightarrow> PeHeader \<Rightarrow> 64 word \<Rightarrow> 's mm_state \<Rightarrow> bool \<times> 's mm_state" where
  "callEntry W h base st =
     (if phEntryRva h = 0 then succeed st
      else let entry = base + ucast (phEntryRva h) in
      if \<not> phIs32 h then entryThread W base (callShell64 base entry) st
      else if needWow64Gate W
      then (let (r, st) = call32 W entry base st in
            if \<not> fst r \<or> snd r \<noteq> 1 then (False, failKeep st) else succeed st)
      else entryThread W base (callShell32 (ucast base) (ucast entry)) st)"

section \<open>The function\<close>

definition loadImage :: "qt \<Rightarrow> 's mm_world \<Rightarrow> nat \<Rightarrow> PeHeader \<Rightarrow> bytes \<Rightarrow> 's mm_state \<Rightarrow> (bool \<times> 's mm_state) option" where
  "loadImage q W fuel h img st =
     (let (base, st) = placeImage q W h st in
      if base = 0 then Some (False, failKeep st)
      else do { relocated \<leftarrow> relocate fuel h base img;
        case relocated of Inl e \<Rightarrow> Some (False, failFree base st)
        | Inr img \<Rightarrow>
          let (ok, st) = tryWrite W base img st in
          if \<not> ok then Some (False, failFree base st)
          else do { imported \<leftarrow> resolveImports q W h img base st;
            case imported of Inl st \<Rightarrow> Some (False, st)
            | Inr st \<Rightarrow>
              do { called \<leftarrow> callTls W h img base st;
                case called of Inl st \<Rightarrow> Some (False, st)
                | Inr st \<Rightarrow>
                  do { st \<leftarrow> protectSections img base (phSectionTable h) (unat (phNumSections h)) st;
                       let st = emit (Protected base (phHeadersSize h) ReadOnly) st;
                       Some (callEntry W h base st) } } } })"

definition injectManualMap :: "qt \<Rightarrow> 's mm_world \<Rightarrow> nat \<Rightarrow> 's \<Rightarrow> (bool \<times> 's mm_state) option" where
  "injectManualMap q W fuel s =
     (let st = \<lparr>msTrace = [], msTarget = s\<rparr>; F = wdFile W in
      if \<not> wdOpenProcess W then Some (False, st)
      else let st = emit (Opened ProcessHandle) st in
      if \<not> fsOpened F then Some (False, emit (Closed ProcessHandle) st)
      else let st = emit (Opened FileHandle) st in
      if \<not> fsSized F \<or> fsView F = [] then Some (False, emit (Closed ProcessHandle) (emit (Closed FileHandle) st))
      else if \<not> fsMapped F then Some (False, emit (Closed ProcessHandle) (emit (Closed FileHandle) st))
      else let st = emit (Opened MappingHandle) st in
      if \<not> fsViewed F
      then Some (False, emit (Closed ProcessHandle) (emit (Closed FileHandle) (emit (Closed MappingHandle) st)))
      else let st = emit (Opened FileView) st in
      do { parsed \<leftarrow> parseHeader (fsView F) (sameText q (wdArch W) (lit ''x86'')) (sameText q (wdArch W) (lit ''x64''));
        case parsed of Inl e \<Rightarrow> Some (False, failKeep st)
        | Inr h \<Rightarrow>
          do { img \<leftarrow> buildImage (fsView F) h; loadImage q W fuel h img st } })"

section \<open>A small world\<close>

text \<open>
  A 32-bit file of headers only, whose entry point is at 16, and a 32-bit target in which the preferred
  base is free and the entry point answers 1. The thread that is borrowed always returns.
\<close>

definition samplePlain :: bytes where
  "samplePlain = sampleDos @ leBytes 4 0x4550 @ leBytes 2 0x14C @ leBytes 2 0 @ replicate 12 0 @ leBytes 2 224
     @ leBytes 2 0x2102 @ leBytes 2 0x10B @ replicate 14 0 @ leBytes 4 16 @ replicate 8 0 @ leBytes 4 0x10000
     @ replicate 24 0 @ leBytes 4 64 @ leBytes 4 32 @ replicate 160 0"

definition samplePlainHeader :: PeHeader where
  "samplePlainHeader = \<lparr>phIs32 = True, phMachine = MACHINE_I386, phImageSize = 64, phHeadersSize = 32, phEntryRva = 16,
     phPreferredBase = 0x10000, phRelocRva = 0, phRelocSize = 0, phImportRva = 0, phImportSize = 0, phTlsRva = 0,
     phTlsSize = 0, phNumSections = 0, phSectionTable = 312\<rparr>"

fun isAllocation :: "mm_effect \<Rightarrow> bool" where
  "isAllocation (Allocated a n) = True"
| "isAllocation _ = False"

definition sampleWorld :: "unit mm_world" where
  "sampleWorld = \<lparr>wdOpenProcess = True, wdTargetWow64 = True, wdArch = lit ''x86'',
     wdFile = \<lparr>fsOpened = True, fsSized = True, fsMapped = True, fsViewed = True, fsView = samplePlain\<rparr>,
     wdAlloc = (\<lambda>tr hint. if list_ex isAllocation tr then 0 else hint), wdWrite = (\<lambda>_. True), wdThread = (\<lambda>_. True), wdWait = (\<lambda>_. 0),
     wdExit = (\<lambda>_. Some 1), wdAlive = (\<lambda>_. True), wdCall32 = (\<lambda>_. (True, 1)), wdTarget = sampleTarget,
     wdLocalModule = (\<lambda>_. True), wdGetProc = (\<lambda>_ _. 0x1234), wdGetProcNoModule = (\<lambda>_. 0)\<rparr>"

lemma length_samplePlain [simp]: "length samplePlain = 312"
  by (simp add: samplePlain_def sampleDos_def del: leBytes.simps)

lemma samplePlain_some [simp]: "samplePlain \<noteq> []"
  using length_samplePlain by fastforce

lemma samplePlain_parsed: "parseHeader samplePlain True False = Some (Inr samplePlainHeader)"
  by (simp add: parseHeader_def readOptional_def checkHeader_def lfanewOf_def Let_def samplePlain_def sampleDos_def
      read_fields readLe_zeros [where b = "[]", simplified] pe_constants samplePlainHeader_def del: leBytes.simps)

lemma samplePlain_image: "buildImage samplePlain samplePlainHeader = Some (take 32 samplePlain @ replicate 32 0)"
  by (simp add: buildImage_def samplePlainHeader_def slice_def blit_def min_def)

definition sampleTrace :: mm_trace where
  "sampleTrace = [Opened ProcessHandle, Opened FileHandle, Opened MappingHandle, Opened FileView, Allocated 0x10000 64,
     Wrote 0x10000 (take 32 samplePlain @ replicate 32 0) True, Protected 0x10000 32 ReadOnly,
     Called32 0x10010 [0x10000, 1, 0] True, Closed FileView, Closed MappingHandle, Closed FileHandle, Closed ProcessHandle]"

lemma sampleWorld_texts: "sameText qtAscii (lit ''x86'') (lit ''x86'')" "\<not> sameText qtAscii (lit ''x86'') (lit ''x64'')"
  by (simp_all add: sameText_def qtAscii_simps lit_def)

lemma sampleWorld_runs: "injectManualMap qtAscii sampleWorld 0 () = Some (True, \<lparr>msTrace = sampleTrace, msTarget = ()\<rparr>)"
  using samplePlain_parsed samplePlain_image length_samplePlain
  by (auto simp: injectManualMap_def sampleWorld_def sampleWorld_texts loadImage_def placeImage_def tryAlloc_def
      tryWrite_def relocate_def samplePlainHeader_def resolveImports_def callTls_def callEntry_def call32_def needWow64Gate_def
      succeed_def failKeep_def cleanupFile_def emit_def Let_def sampleTrace_def)


end
