(* ===== verification/ManualMapSafety.thy ===== *)
theory ManualMapSafety
  imports ManualMap
begin

text \<open>
  What the manual mapper holds at any time: the handles it has opened, the memory it has allocated in
  the target and the code it has started there; and what a return of it promises.
\<close>

section \<open>The account of a trace\<close>

text \<open>
  The account of a trace: the open handles, the blocks allocated in the target with their sizes, and
  the code that was started there and has not been seen to return. A trace has no account when a handle
  is opened twice or closed without being open, when a block is freed that is not allocated or while
  started code may still run, or when something is written outside the allocated blocks.
\<close>

record mm_account =
  acOpen :: "resource list"
  acBlocks :: "(64 word \<times> nat) list"
  acRunning :: "64 word list"

definition inBlock :: "64 word \<Rightarrow> nat \<Rightarrow> 64 word \<times> nat \<Rightarrow> bool" where
  "inBlock a n blk \<longleftrightarrow> unat (a - fst blk) + n \<le> snd blk"

fun accountStep :: "mm_effect \<Rightarrow> mm_account \<Rightarrow> mm_account option" where
  "accountStep (Opened r) X = (if r \<in> set (acOpen X) then None else Some (X\<lparr>acOpen := r # acOpen X\<rparr>))"
| "accountStep (Closed r) X = (if r \<in> set (acOpen X) then Some (X\<lparr>acOpen := remove1 r (acOpen X)\<rparr>) else None)"
| "accountStep (Allocated a n) X =
     (if a = 0 then Some X
      else if a \<in> fst ` set (acBlocks X) then None
      else Some (X\<lparr>acBlocks := (a, n) # acBlocks X\<rparr>))"
| "accountStep (Freed a) X =
     (if a \<in> fst ` set (acBlocks X) \<and> acRunning X = []
      then Some (X\<lparr>acBlocks := filter (\<lambda>blk. fst blk \<noteq> a) (acBlocks X)\<rparr>) else None)"
| "accountStep (Wrote a b ok) X = (if list_ex (inBlock a (length b)) (acBlocks X) then Some X else None)"
| "accountStep (Started a ok) X =
     (if a \<notin> fst ` set (acBlocks X) then None
      else Some (if ok then X\<lparr>acRunning := a # acRunning X\<rparr> else X))"
| "accountStep (Waited a returned) X = Some (if returned then X\<lparr>acRunning := removeAll a (acRunning X)\<rparr> else X)"
| "accountStep (Called32 f args returned) X =
     Some (if returned then X else X\<lparr>acRunning := ucast f # acRunning X\<rparr>)"
| "accountStep (Protected a n p) X = Some X"

fun accountFrom :: "mm_account \<Rightarrow> mm_trace \<Rightarrow> mm_account option" where
  "accountFrom X [] = Some X"
| "accountFrom X (e # tr) = (case accountStep e X of None \<Rightarrow> None | Some Y \<Rightarrow> accountFrom Y tr)"

definition account :: "mm_trace \<Rightarrow> mm_account option" where
  "account = accountFrom \<lparr>acOpen = [], acBlocks = [], acRunning = []\<rparr>"

definition codeRan :: "mm_trace \<Rightarrow> bool" where
  "codeRan tr = list_ex (\<lambda>e. case e of Started a ok \<Rightarrow> ok | Called32 f args returned \<Rightarrow> True | _ \<Rightarrow> False) tr"

text \<open>The system does not hand out a block that is still allocated.\<close>

definition freshMemory :: "'s mm_world \<Rightarrow> bool" where
  "freshMemory W \<longleftrightarrow> (\<forall>tr hint X. account tr = Some X \<longrightarrow> wdAlloc W tr hint \<noteq> 0 \<longrightarrow>
     wdAlloc W tr hint \<notin> fst ` set (acBlocks X))"

lemma accountFrom_append:
  "accountFrom X (t @ u) = (case accountFrom X t of None \<Rightarrow> None | Some Y \<Rightarrow> accountFrom Y u)"
  by (induction t arbitrary: X) (auto split: option.splits)

lemma account_append: "account (t @ u) = (case account t of None \<Rightarrow> None | Some X \<Rightarrow> accountFrom X u)"
  unfolding account_def accountFrom_append ..

lemma accountFrom_one [simp]: "accountFrom X [e] = accountStep e X"
  by (simp split: option.splits)

text \<open>The account of a state, with the process and the file open and with everything closed.\<close>

definition holding :: "'s mm_state \<Rightarrow> (64 word \<times> nat) list \<Rightarrow> 64 word list \<Rightarrow> bool" where
  "holding st B R \<longleftrightarrow> account (msTrace st)
     = Some \<lparr>acOpen = [FileView, MappingHandle, FileHandle, ProcessHandle], acBlocks = B, acRunning = R\<rparr>"

definition released :: "'s mm_state \<Rightarrow> (64 word \<times> nat) list \<Rightarrow> 64 word list \<Rightarrow> bool" where
  "released st B R \<longleftrightarrow> account (msTrace st) = Some \<lparr>acOpen = [], acBlocks = B, acRunning = R\<rparr>"

lemma holding_emit: "holding st B R \<Longrightarrow> account (msTrace (emit e st))
    = accountStep e \<lparr>acOpen = [FileView, MappingHandle, FileHandle, ProcessHandle], acBlocks = B, acRunning = R\<rparr>"
  by (simp add: holding_def emit_def account_append del: accountFrom.simps)

lemma holding_target [simp]: "holding (st\<lparr>msTarget := s\<rparr>) B R = holding st B R"
  by (simp add: holding_def)

lemma failKeep_released: "holding st B R \<Longrightarrow> released (failKeep st) B R"
  by (simp add: holding_def released_def failKeep_def cleanupFile_def emit_def account_append)

lemma filter_other: "a \<notin> fst ` set B \<Longrightarrow> filter (\<lambda>blk. fst blk \<noteq> a) B = B"
  by (induction B) auto

lemma freed_holding: "holding st (B @ (a, n) # B') [] \<Longrightarrow> a \<notin> fst ` set (B @ B') \<Longrightarrow> holding (emit (Freed a) st) (B @ B') []"
  by (subst holding_def, subst holding_emit, assumption) (simp add: filter_other image_Un)

lemma freed_head: "holding st ((a, n) # B) [] \<Longrightarrow> a \<notin> fst ` set B \<Longrightarrow> holding (emit (Freed a) st) B []"
  using freed_holding [of st "[]"] by simp

lemma failFree_released: "holding st [(base, n)] [] \<Longrightarrow> released (failFree base st) [] []"
  unfolding failFree_def by (intro failKeep_released freed_head) auto

lemma started_holding: "holding st B R \<Longrightarrow> a \<in> fst ` set B \<Longrightarrow> holding (emit (Started a ok) st) B (if ok then a # R else R)"
  by (subst holding_def, subst holding_emit, assumption) simp

lemma protected_holding: "holding st B R \<Longrightarrow> holding (emit (Protected a n p) st) B R"
  by (subst holding_def, subst holding_emit, assumption) simp

definition gained :: "nat \<Rightarrow> (64 word \<times> nat) list \<Rightarrow> 64 word list \<Rightarrow> 64 word \<Rightarrow> 's mm_state \<Rightarrow> bool" where
  "gained n B R a st \<longleftrightarrow> (if a = 0 then holding st B R else a \<notin> fst ` set B \<and> holding st ((a, n) # B) R)"

lemma tryAlloc_holding:
  assumes "freshMemory W" "holding st B R" "tryAlloc W hint n st = (a, st')"
  shows "gained n B R a st'"
proof -
  have a: "a = wdAlloc W (msTrace st) hint" and st': "st' = emit (Allocated a n) st"
    using assms(3) by (auto simp: tryAlloc_def Let_def)
  have "a \<noteq> 0 \<longrightarrow> a \<notin> fst ` set B"
    using assms(1,2) unfolding freshMemory_def holding_def a by fastforce
  then show ?thesis
    unfolding st' gained_def holding_def [of "emit (Allocated a n) st"] by (simp add: holding_emit [OF assms(2)])
qed

lemma tryWrite_holding:
  assumes "holding st B R" "(base, n) \<in> set B" "unat (a - base) + length b \<le> n" "tryWrite W a b st = (ok, st')"
  shows "holding st' B R"
proof -
  have "st' = emit (Wrote a b ok) st" using assms(4) by (auto simp: tryWrite_def Let_def)
  moreover have "list_ex (inBlock a (length b)) B"
    unfolding list_ex_iff by (rule bexI [of _ "(base, n)"]) (use assms(2,3) in \<open>simp_all add: inBlock_def\<close>)
  ultimately show ?thesis
    by (simp only:) (subst holding_def, subst holding_emit, rule assms(1), simp)
qed

section \<open>Placing the image\<close>

lemma nearModule_holding:
  assumes "freshMemory W" "holding st B R" "nearModule W imageSize modBase ks st = (a, st')"
  shows "gained (unat imageSize) B R a st'"
  using assms(2,3)
proof (induction ks arbitrary: st)
  case Nil
  then show ?case by (simp add: gained_def)
next
  case (Cons k ks)
  define tryAddr where "tryAddr = modBase - 0x200000 * word_of_nat (k + 1) - ucast (imageSize * word_of_nat k :: 32 word)"
  obtain b st1 where al: "tryAlloc W tryAddr (unat imageSize) st = (b, st1)" by force
  note g = tryAlloc_holding [OF assms(1) Cons.prems(1) al]
  have "nearModule W imageSize modBase (k # ks) st = (if tryAddr < 0x10000 then nearModule W imageSize modBase ks st
      else if b \<noteq> 0 then (b, st1) else nearModule W imageSize modBase ks st1)"
    by (simp only: nearModule.simps tryAddr_def [symmetric] al Let_def prod.case)
  with Cons.prems(2) show ?case
    using Cons.IH [OF Cons.prems(1)] Cons.IH [of st1] g by (auto simp: gained_def split: if_splits)
qed

lemma nearModules_holding:
  assumes "freshMemory W" "holding st B R" "nearModules q W target32 imageSize ms st = (a, st')"
  shows "gained (unat imageSize) B R a st'"
  using assms(2,3)
proof (induction ms arbitrary: st)
  case Nil
  then show ?case by (simp add: gained_def)
next
  case (Cons m ms)
  define modBase where "modBase = getRemoteModuleBase q (tgModules (wdTarget W) (msTarget st)) (qtToLower q (lit m)) target32"
  obtain b st1 where near: "nearModule W imageSize modBase [0, 1, 2, 3] st = (b, st1)" by force
  note g = nearModule_holding [OF assms(1) Cons.prems(1) near]
  from Cons.prems(2) show ?case
    using Cons.IH [OF Cons.prems(1)] Cons.IH [of st1] g
    by (auto simp: near Let_def modBase_def [symmetric] gained_def simp del: nearModule.simps One_nat_def split: if_splits)
qed

lemma nearDxgi_holding:
  assumes "freshMemory W" "holding st B R" "nearDxgi W n dxgiBase ks st = (a, st')"
  shows "gained n B R a st'"
  using assms(2,3)
proof (induction ks arbitrary: st)
  case Nil
  then show ?case by (simp add: gained_def)
next
  case (Cons k ks)
  obtain b st1 where al: "tryAlloc W (dxgiBase - 0x200000 * word_of_nat (k + 1)) n st = (b, st1)" by force
  note g = tryAlloc_holding [OF assms(1) Cons.prems(1) al]
  have "nearDxgi W n dxgiBase (k # ks) st = (if b \<noteq> 0 then (b, st1) else nearDxgi W n dxgiBase ks st1)"
    by (simp only: nearDxgi.simps al Let_def prod.case)
  with Cons.prems(2) show ?case
    using Cons.IH [of st1] g by (auto simp: gained_def split: if_splits)
qed

lemma placeImage_holding:
  assumes fresh: "freshMemory W" and st: "holding st [] []" and place: "placeImage q W h st = (a, st')"
  shows "gained (unat (phImageSize h)) [] [] a st'"
proof -
  let ?n = "unat (phImageSize h)" and ?t = "sameText q (wdArch W) (lit ''x86'')"
  obtain p st1 where first: "tryAlloc W (phPreferredBase h) ?n st = (p, st1)" by force
  note g = tryAlloc_holding [OF fresh st first]
  show ?thesis
  proof (cases "p = 0")
    case True
    then have st1: "holding st1 [] []" using g by (simp add: gained_def)
    obtain b st2 where near: "nearModules q W ?t (phImageSize h)
        [''dxgi.dll'', ''d3d11.dll'', ''d3d9.dll'', ''opengl32.dll'', ''kernel32.dll''] st1 = (b, st2)" by force
    note g2 = nearModules_holding [OF fresh st1 near]
    show ?thesis
    proof (cases "b = 0")
      case True
      then have "tryAlloc W 0 ?n st2 = (a, st')" using place \<open>p = 0\<close> by (simp add: placeImage_def Let_def first near del: nearModules.simps)
      then show ?thesis using g2 True by (intro tryAlloc_holding [OF fresh]) (auto simp: gained_def)
    next
      case False
      then show ?thesis using place \<open>p = 0\<close> g2 by (simp add: placeImage_def Let_def first near del: nearModules.simps)
    qed
  next
    case False
    show ?thesis
    proof (cases "(a, st') = (p, st1)")
      case True
      then show ?thesis using g by simp
    next
      case moved: False
      let ?base = "getRemoteModuleBase q (tgModules (wdTarget W) (msTarget st1)) (lit ''dxgi.dll'') False"
      have st1: "holding st1 [(p, ?n)] []" using g False by (simp add: gained_def)
      obtain b st2 where near: "nearDxgi W ?n ?base [0, 1, 2, 3] st1 = (b, st2)" by force
      note g2 = nearDxgi_holding [OF fresh st1 near]
      have "(a, st') = (if b = 0 then (p, st2) else (b, emit (Freed p) st2))"
        using place False moved by (auto simp: placeImage_def Let_def first near simp del: nearDxgi.simps One_nat_def split: if_splits)
      then show ?thesis
        using g2 False freed_holding [of st2 "[(b, ?n)]" p ?n "[]"] by (auto simp: gained_def split: if_splits)
    qed
  qed
qed

section \<open>Writing the imports\<close>

text \<open>After the imports either the image is still held, or everything has been given back.\<close>

definition heldOrReturned :: "64 word \<Rightarrow> nat \<Rightarrow> ('s mm_state + 's mm_state) option \<Rightarrow> bool" where
  "heldOrReturned base n r \<longleftrightarrow> (case r of None \<Rightarrow> True | Some (Inl st) \<Rightarrow> released st [] [] | Some (Inr st) \<Rightarrow> holding st [(base, n)] [])"

lemma heldOrReturned_simps [simp]:
  "heldOrReturned base n None"
  "heldOrReturned base n (Some (Inl st)) \<longleftrightarrow> released st [] []"
  "heldOrReturned base n (Some (Inr st)) \<longleftrightarrow> holding st [(base, n)] []"
  by (simp_all add: heldOrReturned_def)

lemma heldOrReturned_bind: "(\<And>x. m = Some x \<Longrightarrow> heldOrReturned base n (f x)) \<Longrightarrow> heldOrReturned base n (m \<bind> f)"
  by (cases m) (auto simp: heldOrReturned_def)

lemma unat_of_nat64: "k < 2 ^ 64 \<Longrightarrow> unat (word_of_nat k :: 64 word) = k"
  by (simp add: unat_of_nat take_bit_nat_eq_self)

lemma write_in_image:
  assumes "holding st [(base, n)] R" "k + length b \<le> n" "n < 2 ^ 64" "tryWrite W (base + word_of_nat k) b st = (ok, st')"
  shows "holding st' [(base, n)] R"
  by (rule tryWrite_holding [OF assms(1) _ _ assms(4), of base n]) (use assms(2,3) unat_of_nat64 [of k] in simp_all)

lemma write_in_block:
  assumes "holding st ((a, length b) # B) R" "tryWrite W a b st = (ok, st')"
  shows "holding st' ((a, length b) # B) R"
  by (rule tryWrite_holding [OF assms(1) _ _ assms(2), of a "length b"]) simp_all

lemma importThunks_holding:
  assumes "length img < 2 ^ 64" "holding st [(base, length img)] []"
  shows "heldOrReturned base (length img) (importThunks q W is32 img base dllName thunkRVA iatRVA idx st)"
  using assms
proof (induction q W is32 img base dllName thunkRVA iatRVA idx st rule: importThunks.induct)
  case (1 q W is32 img base dllName thunkRVA iatRVA idx st)
  let ?w = "pointerSize is32"
  show ?case
  proof (cases "readLe ?w img (thunkRVA + idx * ?w)")
    case None
    then show ?thesis by (simp add: importThunks.simps [of q W is32] heldOrReturned_def)
  next
    case (Some v)
    show ?thesis
    proof (cases "v = 0 \<or> iatRVA + idx * ?w + ?w > length img \<or> thunkRVA + idx * ?w + ?w > length img")
      case True
      then show ?thesis using Some 1(4) by (subst importThunks.simps) (auto simp: heldOrReturned_def Let_def)
    next
      case go: False
      show ?thesis
      proof (cases "thunkSymbol is32 img v")
        case None
        with Some go show ?thesis
          using "1.IH"(1) [OF refl Some _ None] 1(3,4) by (subst importThunks.simps) (auto simp: Let_def)
      next
        case sym: (Some symbol)
        show ?thesis
        proof (cases "resolveImport q W is32 dllName symbol (msTarget st)")
          case None
          with Some go sym show ?thesis by (subst importThunks.simps) (auto simp: Let_def heldOrReturned_def)
        next
          case res: (Some r)
          obtain a s where r: "r = (a, s)" by force
          let ?st = "st\<lparr>msTarget := s\<rparr>"
          have st: "holding ?st [(base, length img)] []" using 1(4) by simp
          obtain ok st1 where wr: "tryWrite W (base + word_of_nat (iatRVA + idx * ?w)) (leBytes ?w (unat a)) ?st = (ok, st1)" by force
          have st1: "holding st1 [(base, length img)] []"
            by (rule write_in_image [OF st _ 1(3) wr]) (use go in simp)
          have "importThunks q W is32 img base dllName thunkRVA iatRVA idx st
              = (if a = 0 then Some (Inl (failFree base ?st)) else if \<not> ok then Some (Inl (failFree base st1))
                 else importThunks q W is32 img base dllName thunkRVA iatRVA (Suc idx) st1)"
            using Some go sym res r wr by (subst importThunks.simps) (simp add: Let_def)
          moreover have "a \<noteq> 0 \<Longrightarrow> ok \<Longrightarrow> heldOrReturned base (length img)
              (importThunks q W is32 img base dllName thunkRVA iatRVA (Suc idx) st1)"
            using "1.IH"(2) [OF refl Some _ sym res [unfolded r] refl refl _ wr [symmetric] refl] go 1(3) st1 by simp
          ultimately show ?thesis
            using failFree_released [OF st] failFree_released [OF st1] by (simp add: heldOrReturned_def)
        qed
      qed
    qed
  qed
qed

lemma importDescriptors_holding:
  assumes "length img < 2 ^ 64" "holding st [(base, length img)] []"
  shows "heldOrReturned base (length img) (importDescriptors q W is32 img base desc count st)"
  using assms(2)
proof (induction count arbitrary: desc st)
  case 0
  then show ?case by (simp add: heldOrReturned_def)
next
  case (Suc count)
  note skip = Suc.IH [OF Suc.prems, of "desc + 20"]
  have thunks: "heldOrReturned base (length img)
      (importThunks q W is32 img base dllName a b 0 st
        \<bind> case_sum (\<lambda>st. Some (Inl st)) (importDescriptors q W is32 img base (desc + 20) count))" for dllName a b
    using importThunks_holding [OF assms(1) Suc.prems, of q W is32 dllName a b 0] Suc.IH [of _ "desc + 20"]
    by (cases "importThunks q W is32 img base dllName a b 0 st") (auto split: sum.splits)
  show ?case
    unfolding importDescriptors.simps
    using skip thunks
    by (cases is32; intro heldOrReturned_bind)
       (auto simp: Let_def failFree_released [OF Suc.prems] Suc.prems split: option.split)
qed

lemma resolveImports_holding:
  assumes "length img < 2 ^ 64" "holding st [(base, length img)] []"
  shows "heldOrReturned base (length img) (resolveImports q W h img base st)"
  using importDescriptors_holding [OF assms] assms(2) by (simp add: resolveImports_def heldOrReturned_def)

section \<open>Calling the image\<close>

lemma codeRan_emit [simp]: "codeRan (msTrace (emit e st)) \<longleftrightarrow> codeRan (msTrace st) \<or> codeRan [e]"
  by (auto simp: codeRan_def emit_def)

lemma codeRan_failKeep [simp]: "codeRan (msTrace (failKeep st)) \<longleftrightarrow> codeRan (msTrace st)"
  by (auto simp: failKeep_def cleanupFile_def codeRan_def emit_def)

text \<open>
  The code for a call: \<open>calledFrom\<close> says what may be held after it has been written and a thread has been
  started on it and awaited.
\<close>

lemma shell_steps:
  assumes "freshMemory W" "holding st [(base, n)] []" "tryAlloc W 0 (length code) st = (a, st1)"
  shows "a = 0 \<Longrightarrow> holding st1 [(base, n)] []"
    and "a \<noteq> 0 \<Longrightarrow> tryWrite W a code st1 = (ok, st2) \<Longrightarrow> holding st2 [(a, length code), (base, n)] [] \<and> a \<noteq> base"
  using tryAlloc_holding [OF assms] write_in_block [of st1 a code "[(base, n)]" "[]" W ok st2]
  by (auto simp: gained_def)

lemma shell_freed: "holding st [(a, m), (base, n)] [] \<Longrightarrow> a \<noteq> base \<Longrightarrow> holding (emit (Freed a) st) [(base, n)] []"
  by (rule freed_head) auto

lemma shell_thread:
  assumes "holding st [(a, m), (base, n)] []"
  shows "holding (emit (Started a False) st) [(a, m), (base, n)] []"
    and "holding (emit (Closed ThreadHandle) (emit (Waited a returned) (emit (Opened ThreadHandle) (emit (Started a True) st))))
           [(a, m), (base, n)] (if returned then [] else [a])"
  using assms by (simp_all add: holding_def emit_def account_append)

definition afterThread :: "64 word \<Rightarrow> nat \<Rightarrow> 's mm_state loop \<Rightarrow> bool" where
  "afterThread base n r \<longleftrightarrow> (case r of Next st \<Rightarrow> holding st [(base, n)] [] | Break st \<Rightarrow> holding st [(base, n)] []
     | Return st \<Rightarrow> codeRan (msTrace st) \<and> (\<exists>B R. released st B R))"

lemma tlsThread_holding:
  assumes fresh: "freshMemory W" and st: "holding st [(base, n)] []"
  shows "afterThread base n (tlsThread W code st)"
proof -
  obtain a st1 where al: "tryAlloc W 0 (length code) st = (a, st1)" by force
  obtain ok st2 where wr: "tryWrite W a code st1 = (ok, st2)" by force
  note steps = shell_steps [OF fresh st al]
  show ?thesis
  proof (cases "a = 0")
    case True
    then show ?thesis using steps(1) by (simp add: tlsThread_def al Let_def afterThread_def)
  next
    case False
    then have st2: "holding st2 [(a, length code), (base, n)] []" and a: "a \<noteq> base" using steps(2) [OF _ wr] by auto
    show ?thesis
      using False wr shell_freed [OF st2 a] shell_freed [OF shell_thread(1) [OF st2] a]
        shell_freed [OF shell_thread(2) [OF st2, of True, simplified] a]
        failKeep_released [OF shell_thread(2) [OF st2, of False, simplified]]
      by (auto simp: tlsThread_def al Let_def afterThread_def codeRan_def [of "[_]"])
  qed
qed

text \<open>After the TLS callbacks: only a call in a borrowed thread can leave code running behind.\<close>

definition afterTls :: "bool \<Rightarrow> 64 word \<Rightarrow> nat \<Rightarrow> ('s mm_state + 's mm_state) option \<Rightarrow> bool" where
  "afterTls borrowed base n r \<longleftrightarrow> (case r of None \<Rightarrow> True
     | Some (Inl st) \<Rightarrow> codeRan (msTrace st) \<and> (\<exists>B R. released st B R)
     | Some (Inr st) \<Rightarrow> (\<exists>R. holding st [(base, n)] R \<and> (borrowed \<or> R = [])))"

lemma afterTls_simps [simp]:
  "afterTls borrowed base n None"
  "afterTls borrowed base n (Some (Inl st)) \<longleftrightarrow> codeRan (msTrace st) \<and> (\<exists>B R. released st B R)"
  "afterTls borrowed base n (Some (Inr st)) \<longleftrightarrow> (\<exists>R. holding st [(base, n)] R \<and> (borrowed \<or> R = []))"
  by (simp_all add: afterTls_def)

lemma afterTls_bind: "(\<And>x. m = Some x \<Longrightarrow> afterTls borrowed base n (f x)) \<Longrightarrow> afterTls borrowed base n (m \<bind> f)"
  by (cases m) (auto simp: afterTls_def)

lemma call32_holding:
  "holding st B R \<Longrightarrow> call32 W entry b st = (r, st') \<Longrightarrow> \<exists>R'. holding st' B R' \<and> codeRan (msTrace st')"
  by (auto simp: call32_def Let_def holding_def emit_def account_append codeRan_def)

lemma tlsCallbacks_holding:
  assumes "freshMemory W" "holding st [(base, n)] R" "is32 \<and> needWow64Gate W \<or> R = []"
  shows "afterTls (is32 \<and> needWow64Gate W) base n (tlsCallbacks W is32 img base rva count st)"
  using assms(2,3)
proof (induction count arbitrary: rva st R)
  case 0
  then show ?case by auto
next
  case (Suc count)
  show ?case
  proof (cases "is32 \<and> needWow64Gate W")
    case True
    have "afterTls True base n (tlsCallbacks W is32 img base rva' count (snd (call32 W entry base st)))"
      and "\<exists>R'. holding (snd (call32 W entry base st)) [(base, n)] R'" for rva' entry
      using call32_holding [OF Suc.prems(1), of W entry base] True
        Suc.IH [of "snd (call32 W entry base st)" _ rva'] by (metis prod.collapse)+
    then show ?thesis using True Suc.prems(1)
      unfolding tlsCallbacks.simps by (intro afterTls_bind) (auto simp: split_beta Let_def)
  next
    case False
    then have st: "holding st [(base, n)] []" using Suc.prems by auto
    have "afterTls (is32 \<and> needWow64Gate W) base n (case tlsThread W code st of
         Next st \<Rightarrow> tlsCallbacks W is32 img base (rva + pointerSize is32) count st
       | Break st \<Rightarrow> Some (Inr st) | Return st \<Rightarrow> Some (Inl st))" for code
      using tlsThread_holding [OF assms(1) st, of code] Suc.IH [of _ "[]"]
      by (auto simp: afterThread_def split: loop.splits)
    then show ?thesis using False st unfolding tlsCallbacks.simps by (intro afterTls_bind) (auto simp: Let_def)
  qed
qed

lemma callTls_holding:
  assumes "freshMemory W" "holding st [(base, n)] []"
  shows "afterTls (phIs32 h \<and> needWow64Gate W) base n (callTls W h img base st)"
proof -
  have cb: "afterTls (phIs32 h \<and> needWow64Gate W) base n (tlsCallbacks W (phIs32 h) img base rva 16 st)" for rva
    by (rule tlsCallbacks_holding [OF assms]) simp
  then have "phIs32 h \<Longrightarrow> afterTls (needWow64Gate W) base n (tlsCallbacks W True img base rva 16 st)"
    and "\<not> phIs32 h \<Longrightarrow> afterTls False base n (tlsCallbacks W False img base rva 16 st)" for rva
    by force+
  then show ?thesis
    unfolding callTls_def Let_def using assms(2) by (auto intro!: afterTls_bind)
qed

section \<open>The whole function\<close>

lemma relocEntry_length: "length (relocEntry delta va e img) = length img"
  by (auto simp: relocEntry_def Let_def split: option.split)

lemma relocEntries_length: "relocEntries delta block j count img = Some img' \<Longrightarrow> length img' = length img"
  by (induction count arbitrary: j img) (auto elim!: bind_SomeE simp: relocEntry_length)

lemma relocBlocks_length: "relocBlocks fuel delta relocSize processed pReloc img = Some img' \<Longrightarrow> length img' = length img"
  by (induction fuel arbitrary: processed pReloc img)
     (auto elim!: bind_SomeE split: if_splits dest!: relocEntries_length)

lemma relocate_length: "relocate fuel h base img = Some (Inr img') \<Longrightarrow> length img' = length img"
  by (auto simp: relocate_def Let_def split: if_splits dest: relocBlocks_length)

lemma buildImage_length: "buildImage view h = Some img \<Longrightarrow> length img = unat (phImageSize h)"
  unfolding buildImage_def by (auto elim!: bind_SomeE dest!: mapSections_Some length_blit)

lemma protectSections_holding:
  "protectSections img base table count st = Some st' \<Longrightarrow> holding st B R \<Longrightarrow> holding st' B R"
  by (induction count arbitrary: table st) (auto elim!: bind_SomeE simp: Let_def protected_holding split: if_splits)

text \<open>What a return of the function leaves: one block on success, nothing on a failure before any code ran.\<close>

definition settled :: "nat \<Rightarrow> bool \<times> 's mm_state \<Rightarrow> bool" where
  "settled n r \<longleftrightarrow> (\<exists>B R. released (snd r) B R \<and> (fst r \<longrightarrow> map snd B = [n])
     \<and> (\<not> fst r \<longrightarrow> B = [] \<or> codeRan (msTrace (snd r))))"

lemma settledI: "released st B R \<Longrightarrow> ok \<longrightarrow> map snd B = [n] \<Longrightarrow> \<not> ok \<longrightarrow> B = [] \<or> codeRan (msTrace st) \<Longrightarrow> settled n (ok, st)"
  by (auto simp: settled_def)

lemma entryThread_settled:
  assumes fresh: "freshMemory W" and st: "holding st [(base, n)] []"
  shows "settled n (entryThread W base code st)"
proof -
  obtain a st1 where al: "tryAlloc W 0 (length code) st = (a, st1)" by force
  obtain ok st2 where wr: "tryWrite W a code st1 = (ok, st2)" by force
  note steps = shell_steps [OF fresh st al]
  show ?thesis
  proof (cases "a = 0 \<or> \<not> ok")
    case True
    then show ?thesis using steps(1) steps(2) [OF _ wr] wr
      by (auto simp: entryThread_def al Let_def intro!: settledI failFree_released shell_freed)
  next
    case False
    then have st2: "holding st2 [(a, length code), (base, n)] []" and a: "a \<noteq> base" using steps(2) [OF _ wr] by auto
    have wr: "tryWrite W a code st1 = (True, st2)" using wr False by simp
    define started where "started = wdThread W (msTrace st2)"
    define st3 where "st3 = emit (Opened ThreadHandle) (emit (Started a True) st2)"
    define returned where "returned \<longleftrightarrow> wdWait W (msTrace st3) = 0"
    have started: "released (failKeep (if r then emit (Freed a) (emit (Closed ThreadHandle) (emit (Waited a r) st3))
        else emit (Closed ThreadHandle) (emit (Waited a r) st3))) (if r then [(base, n)] else [(a, length code), (base, n)])
        (if r then [] else [a])" for r
      unfolding st3_def using shell_thread(2) [OF st2, of r] a by (auto intro!: failKeep_released shell_freed)
    have ran: "codeRan (msTrace st3)" by (simp add: st3_def codeRan_def [of "[_]"])
    show ?thesis
    proof (cases started)
      case False
      then show ?thesis using \<open>\<not> (a = 0 \<or> \<not> ok)\<close> failFree_released [OF shell_freed [OF shell_thread(1) [OF st2] a]]
        by (auto simp: entryThread_def al wr Let_def started_def intro!: settledI)
    next
      case True
      then show ?thesis using \<open>\<not> (a = 0 \<or> \<not> ok)\<close> started [of returned] ran
        by (auto simp: entryThread_def al wr Let_def started_def [symmetric] st3_def [symmetric] returned_def [symmetric]
            succeed_def nativeInitializationConfirmed_def intro!: settledI split: option.split)
    qed
  qed
qed

lemma callEntry_settled:
  assumes fresh: "freshMemory W" and st: "holding st [(base, n)] R" and R: "phIs32 h \<and> needWow64Gate W \<or> R = []"
  shows "settled n (callEntry W h base st)"
proof -
  obtain r st1 where call: "call32 W (base + ucast (phEntryRva h)) base st = (r, st1)" by (metis surj_pair)
  then obtain R' where "holding st1 [(base, n)] R'" "codeRan (msTrace st1)" using call32_holding [OF st] by blast
  then show ?thesis using failKeep_released [OF st] R st entryThread_settled [OF fresh, of st base n]
    by (auto simp: callEntry_def call Let_def succeed_def intro!: settledI dest: failKeep_released)
qed

lemma loadImage_settled:
  assumes fresh: "freshMemory W" and st: "holding st [] []" and img: "length img = unat (phImageSize h)"
    and run: "loadImage q W fuel h img st = Some r"
  shows "settled (unat (phImageSize h)) r"
proof -
  let ?n = "unat (phImageSize h)"
  have size: "?n < 2 ^ 64" using unsigned_less [of "phImageSize h", where 'a = nat] by simp
  obtain base st1 where place: "placeImage q W h st = (base, st1)" by force
  note g = placeImage_holding [OF fresh st place]
  show ?thesis
  proof (cases "base = 0")
    case True
    then show ?thesis using run g
      by (auto simp: loadImage_def place gained_def intro!: settledI failKeep_released)
  next
    case False
    then have st1: "holding st1 [(base, ?n)] []" using g by (simp add: gained_def)
    from run False obtain relocated where rel: "relocate fuel h base img = Some relocated"
      by (auto simp: loadImage_def place elim!: bind_SomeE)
    show ?thesis
    proof (cases relocated)
      case (Inl e)
      then show ?thesis using run False rel failFree_released [OF st1] by (auto simp: loadImage_def place intro!: settledI)
    next
      case (Inr img')
      have img': "length img' = ?n" using relocate_length [OF rel [unfolded Inr]] img by simp
      obtain ok st2 where wr: "tryWrite W base img' st1 = (ok, st2)" by force
      have st2: "holding st2 [(base, ?n)] []"
        by (rule tryWrite_holding [OF st1 _ _ wr, of base ?n]) (use img' in simp_all)
      have resolved: "heldOrReturned base ?n (resolveImports q W h img' base st2)"
        using resolveImports_holding [of img' st2 base q W h] img' size st2 by simp
      show ?thesis
      proof (cases ok)
        case False
        then show ?thesis using run \<open>base \<noteq> 0\<close> rel Inr wr failFree_released [OF st2]
          by (auto simp: loadImage_def place intro!: settledI)
      next
        case True
        with run False rel Inr wr obtain imported where imp: "resolveImports q W h img' base st2 = Some imported"
          and rest: "(case imported of Inl st \<Rightarrow> Some (False, st) | Inr st \<Rightarrow>
              callTls W h img' base st \<bind> (\<lambda>called. case called of Inl st \<Rightarrow> Some (False, st)
              | Inr st \<Rightarrow> protectSections img' base (phSectionTable h) (unat (phNumSections h)) st \<bind>
                  (\<lambda>st. Some (callEntry W h base (emit (Protected base (phHeadersSize h) ReadOnly) st))))) = Some r"
          by (auto simp: loadImage_def place Let_def elim!: bind_SomeE)
        show ?thesis
        proof (cases imported)
          case (Inl st3)
          then show ?thesis using rest resolved imp by (auto intro!: settledI)
        next
          case (Inr st3)
          then have "holding st3 [(base, ?n)] []" using resolved imp by simp
          then have tls: "afterTls (phIs32 h \<and> needWow64Gate W) base ?n (callTls W h img' base st3)"
            by (rule callTls_holding [OF fresh])
          from rest Inr obtain called where cl: "callTls W h img' base st3 = Some called" by (auto elim!: bind_SomeE)
          show ?thesis
          proof (cases called)
            case (Inl st4)
            then show ?thesis using rest \<open>imported = Inr st3\<close> cl tls by (auto intro!: settledI)
          next
            case (Inr st4)
            then obtain R where R: "holding st4 [(base, ?n)] R" "phIs32 h \<and> needWow64Gate W \<or> R = []"
              using tls cl by auto
            from rest \<open>imported = Inr st3\<close> cl Inr obtain st5
              where st5: "protectSections img' base (phSectionTable h) (unat (phNumSections h)) st4 = Some st5"
              and r: "r = callEntry W h base (emit (Protected base (phHeadersSize h) ReadOnly) st5)"
              by (auto elim!: bind_SomeE)
            show ?thesis unfolding r
              by (rule callEntry_settled [OF fresh protected_holding [OF protectSections_holding [OF st5 R(1)]] R(2)])
          qed
        qed
      qed
    qed
  qed
qed

lemma account_emits: "account (msTrace (emit e st)) = (case account (msTrace st) of None \<Rightarrow> None | Some X \<Rightarrow> accountStep e X)"
  by (simp add: emit_def account_append del: accountFrom.simps split: option.split)

lemma account_start [simp]: "account [] = Some \<lparr>acOpen = [], acBlocks = [], acRunning = []\<rparr>"
  by (simp add: account_def)


lemma account_unallocated:
  "accountFrom X tr = Some Y \<Longrightarrow> \<not> list_ex isAllocation tr \<Longrightarrow> set (acBlocks Y) \<subseteq> set (acBlocks X)"
proof (induction tr arbitrary: X)
  case (Cons e tr)
  then obtain Z where Z: "accountStep e X = Some Z" "accountFrom Z tr = Some Y" by (auto split: option.splits)
  then have "set (acBlocks Z) \<subseteq> set (acBlocks X)" using Cons.prems(2) by (cases e) (auto split: if_splits)
  then show ?case using Cons.IH [OF Z(2)] Cons.prems(2) by auto
qed simp

lemma sampleWorld_fresh: "freshMemory sampleWorld"
  by (auto simp: freshMemory_def sampleWorld_def account_def dest: account_unallocated)


end
