(* ===== verification/ManualMapCorrect.thy ===== *)
theory ManualMapCorrect
  imports ManualMapSafety
begin

text \<open>
  What a \<open>true\<close> of the manual mapper means: the order of its steps, the image that was written, the
  imports that were filled in and the answer of the entry point.
\<close>

section \<open>Traces only grow\<close>

definition adds :: "(mm_effect \<Rightarrow> bool) \<Rightarrow> 's mm_state \<Rightarrow> 's mm_state \<Rightarrow> bool" where
  "adds P st st' \<longleftrightarrow> (\<exists>u. msTrace st' = msTrace st @ u \<and> list_all P u)"

lemma adds_refl [simp]: "adds P st st"
  by (simp add: adds_def)

lemma adds_trans: "adds P st st' \<Longrightarrow> adds P st' st'' \<Longrightarrow> adds P st st''"
  by (auto simp: adds_def)

lemma adds_emit: "P e \<Longrightarrow> adds P st (emit e st)"
  by (simp add: adds_def emit_def)

lemma adds_emit_trans: "adds P (emit e st) st' \<Longrightarrow> P e \<Longrightarrow> adds P st st'"
  by (rule adds_trans [OF adds_emit])

lemma adds_set: "adds P st st' \<Longrightarrow> e \<in> set (msTrace st) \<Longrightarrow> e \<in> set (msTrace st')"
  by (auto simp: adds_def)

lemma adds_any: "adds P st st' \<Longrightarrow> adds (\<lambda>_. True) st st'"
  by (auto simp: adds_def list_all_iff)

section \<open>Imports\<close>

fun imageWrite :: "64 word \<Rightarrow> nat \<Rightarrow> mm_effect \<Rightarrow> bool" where
  "imageWrite base n (Wrote a b ok) \<longleftrightarrow> ok \<and> unat (a - base) + length b \<le> n"
| "imageWrite base n _ \<longleftrightarrow> False"

definition goodThunk :: "bool \<Rightarrow> bytes \<Rightarrow> nat \<Rightarrow> nat \<Rightarrow> nat \<Rightarrow> nat \<Rightarrow> bool" where
  "goodThunk is32 img thunkRVA iatRVA idx v \<longleftrightarrow> readLe (pointerSize is32) img (thunkRVA + idx * pointerSize is32) = Some v \<and> v \<noteq> 0
     \<and> iatRVA + idx * pointerSize is32 + pointerSize is32 \<le> length img"

lemma goodThunk_bound: "goodThunk is32 img thunkRVA iatRVA idx v \<Longrightarrow> thunkRVA + idx * pointerSize is32 + pointerSize is32 \<le> length img"
  by (auto simp: goodThunk_def readLe_Some)

text \<open>One turn of the loop.\<close>

lemma importThunks_end:
  assumes "importThunks q W is32 img base dllName thunkRVA iatRVA idx st = Some (Inr st')"
    and "\<nexists>v. goodThunk is32 img thunkRVA iatRVA idx v"
  shows "st' = st"
  using assms(1) assms(2) unfolding importThunks.simps [of q W is32 _ _ _ _ _ idx] goodThunk_def
  by (auto elim!: bind_SomeE simp: Let_def readLe_Some split: if_splits)

lemma importThunks_turn:
  assumes "importThunks q W is32 img base dllName thunkRVA iatRVA idx st = Some (Inr st')"
    and good: "goodThunk is32 img thunkRVA iatRVA idx v"
  obtains st1 where "importThunks q W is32 img base dllName thunkRVA iatRVA (Suc idx) st1 = Some (Inr st')"
    and "case thunkSymbol is32 img v of None \<Rightarrow> st1 = st
      | Some symbol \<Rightarrow> \<exists>a s s'. resolveImport q W is32 dllName symbol s = Some (a, s') \<and> a \<noteq> 0
          \<and> msTrace st1 = msTrace st @ [Wrote (base + word_of_nat (iatRVA + idx * pointerSize is32)) (leBytes (pointerSize is32) (unat a)) True]"
proof (cases "thunkSymbol is32 img v")
  case None
  then show ?thesis
    using assms(1) goodThunk_bound [OF good] good that [of st] unfolding importThunks.simps [of q W is32 _ _ _ _ _ idx] goodThunk_def
    by (auto simp: Let_def)
next
  case (Some symbol)
  let ?w = "pointerSize is32"
  have run: "resolveImport q W is32 dllName symbol (msTarget st) \<bind> (\<lambda>(a, s).
      if a = 0 then Some (Inl (failFree base (st\<lparr>msTarget := s\<rparr>)))
      else let (ok, st) = tryWrite W (base + word_of_nat (iatRVA + idx * ?w)) (leBytes ?w (unat a)) (st\<lparr>msTarget := s\<rparr>) in
        if \<not> ok then Some (Inl (failFree base st))
        else importThunks q W is32 img base dllName thunkRVA iatRVA (Suc idx) st) = Some (Inr st')"
    using assms(1) goodThunk_bound [OF good] good Some unfolding importThunks.simps [of q W is32 _ _ _ _ _ idx] goodThunk_def
    by (auto simp: Let_def)
  then obtain a s where r: "resolveImport q W is32 dllName symbol (msTarget st) = Some (a, s)" and a: "a \<noteq> 0"
    by (auto elim!: bind_pair_SomeE split: if_splits)
  obtain ok st1 where wr: "tryWrite W (base + word_of_nat (iatRVA + idx * ?w)) (leBytes ?w (unat a)) (st\<lparr>msTarget := s\<rparr>) = (ok, st1)"
    by force
  then have "msTrace st1 = msTrace st @ [Wrote (base + word_of_nat (iatRVA + idx * ?w)) (leBytes ?w (unat a)) ok]"
    by (auto simp: tryWrite_def Let_def emit_def)
  moreover have "ok" "importThunks q W is32 img base dllName thunkRVA iatRVA (Suc idx) st1 = Some (Inr st')"
    using run r a wr by (auto split: if_splits)
  ultimately show ?thesis using that [of st1] r a Some by auto
qed

lemma importThunks_adds:
  assumes size: "length img < 2 ^ 64" and "importThunks q W is32 img base dllName thunkRVA iatRVA idx st = Some (Inr st')"
  shows "adds (imageWrite base (length img)) st st'"
  using assms(2)
proof (induction "length img - idx" arbitrary: idx st rule: less_induct)
  case less
  show ?case
  proof (cases "\<exists>v. goodThunk is32 img thunkRVA iatRVA idx v")
    case False
    then show ?thesis using importThunks_end [OF less.prems] by simp
  next
    case True
    then obtain v where v: "goodThunk is32 img thunkRVA iatRVA idx v" by blast
    from importThunks_turn [OF less.prems v] obtain st1
      where st1: "importThunks q W is32 img base dllName thunkRVA iatRVA (Suc idx) st1 = Some (Inr st')"
      and turn: "case thunkSymbol is32 img v of None \<Rightarrow> st1 = st
      | Some symbol \<Rightarrow> \<exists>a s s'. resolveImport q W is32 dllName symbol s = Some (a, s') \<and> a \<noteq> 0
          \<and> msTrace st1 = msTrace st @ [Wrote (base + word_of_nat (iatRVA + idx * pointerSize is32)) (leBytes (pointerSize is32) (unat a)) True]"
      by blast
    have bound: "iatRVA + idx * pointerSize is32 + pointerSize is32 \<le> length img" and "idx < length img"
      using v goodThunk_bound [OF v] by (auto simp: goodThunk_def pointerSize_def split: if_splits)
    then have "adds (imageWrite base (length img)) st st1"
      using turn size unat_of_nat64 [of "iatRVA + idx * pointerSize is32"]
      by (auto simp: adds_def split: option.splits)
    then show ?thesis
      using less.hyps [OF _ st1] \<open>idx < length img\<close> by (auto intro: adds_trans)
  qed
qed

text \<open>
  What the tables say: the descriptor at \<open>desc\<close> names a module and its two tables of thunks, and
  \<open>imageImports\<close> says that the image imports the symbol from the module and keeps its address at \<open>k\<close>.
\<close>

definition endOfTable :: "bytes \<Rightarrow> nat \<Rightarrow> bool" where
  "endOfTable img desc \<longleftrightarrow> readLe 4 img (desc + 12) = Some 0 \<and> readLe 4 img (desc + 16) = Some 0"

definition moduleTables :: "bytes \<Rightarrow> nat \<Rightarrow> (bytes \<times> nat \<times> nat) option" where
  "moduleTables img desc =
     do { originalFirstThunk \<leftarrow> readLe 4 img desc;
          name \<leftarrow> readLe 4 img (desc + 12);
          firstThunk \<leftarrow> readLe 4 img (desc + 16);
       if name = 0 \<or> name + 1 \<ge> length img \<or> firstThunk \<ge> length img \<or> originalFirstThunk \<ge> length img then None
       else map_option (\<lambda>dllName. (dllName, if originalFirstThunk \<noteq> 0 then originalFirstThunk else firstThunk, firstThunk))
              (cstring (drop name img)) }"

definition thunkTable :: "bool \<Rightarrow> bytes \<Rightarrow> nat \<Rightarrow> nat \<Rightarrow> nat \<Rightarrow> symbol \<Rightarrow> bool" where
  "thunkTable is32 img thunkRVA iatRVA i symbol \<longleftrightarrow> (\<forall>j \<le> i. \<exists>v. goodThunk is32 img thunkRVA iatRVA j v)
     \<and> (\<exists>v. goodThunk is32 img thunkRVA iatRVA i v \<and> thunkSymbol is32 img v = Some symbol)"

definition imageImports :: "PeHeader \<Rightarrow> bytes \<Rightarrow> bytes \<Rightarrow> symbol \<Rightarrow> nat \<Rightarrow> bool" where
  "imageImports h img dllName symbol k \<longleftrightarrow> (\<exists>d thunkRVA iatRVA i. d < unat (phImportSize h) div 20
     \<and> (\<forall>j \<le> d. \<not> endOfTable img (unat (phImportRva h) + 20 * j))
     \<and> moduleTables img (unat (phImportRva h) + 20 * d) = Some (dllName, thunkRVA, iatRVA)
     \<and> thunkTable (phIs32 h) img thunkRVA iatRVA i symbol \<and> k = iatRVA + i * pointerSize (phIs32 h))"

text \<open>The address of a symbol has been found and written to the place of the import.\<close>

definition importWritten :: "qt \<Rightarrow> 's mm_world \<Rightarrow> bool \<Rightarrow> 64 word \<Rightarrow> bytes \<Rightarrow> symbol \<Rightarrow> nat \<Rightarrow> mm_trace \<Rightarrow> bool" where
  "importWritten q W is32 base dllName symbol k tr \<longleftrightarrow> (\<exists>a s s'. resolveImport q W is32 dllName symbol s = Some (a, s') \<and> a \<noteq> 0
     \<and> Wrote (base + word_of_nat k) (leBytes (pointerSize is32) (unat a)) True \<in> set tr)"

lemma importWritten_adds: "importWritten q W is32 base dllName symbol k (msTrace st) \<Longrightarrow> adds P st st'
    \<Longrightarrow> importWritten q W is32 base dllName symbol k (msTrace st')"
  unfolding importWritten_def using adds_set by blast

lemma importThunks_written:
  assumes size: "length img < 2 ^ 64" and "importThunks q W is32 img base dllName thunkRVA iatRVA idx st = Some (Inr st')"
    and "idx \<le> i" "\<forall>j. idx \<le> j \<and> j \<le> i \<longrightarrow> (\<exists>v. goodThunk is32 img thunkRVA iatRVA j v)"
    and sym: "goodThunk is32 img thunkRVA iatRVA i v" "thunkSymbol is32 img v = Some symbol"
  shows "importWritten q W is32 base dllName symbol (iatRVA + i * pointerSize is32) (msTrace st')"
  using assms(2-4)
proof (induction "i - idx" arbitrary: idx st)
  case 0
  then have [simp]: "idx = i" by simp
  from importThunks_turn [OF 0(2) sym(1) [folded \<open>idx = i\<close>]] obtain st1
    where st1: "importThunks q W is32 img base dllName thunkRVA iatRVA (Suc idx) st1 = Some (Inr st')"
    and "\<exists>a s s'. resolveImport q W is32 dllName symbol s = Some (a, s') \<and> a \<noteq> 0
      \<and> msTrace st1 = msTrace st @ [Wrote (base + word_of_nat (iatRVA + idx * pointerSize is32)) (leBytes (pointerSize is32) (unat a)) True]"
    unfolding sym(2) option.case by blast
  then obtain a s s' where "resolveImport q W is32 dllName symbol s = Some (a, s')" "a \<noteq> 0"
    and "msTrace st1 = msTrace st @ [Wrote (base + word_of_nat (iatRVA + i * pointerSize is32)) (leBytes (pointerSize is32) (unat a)) True]"
    by auto
  then have "importWritten q W is32 base dllName symbol (iatRVA + i * pointerSize is32) (msTrace st1)"
    unfolding importWritten_def by (intro exI [of _ a] exI [of _ s] exI [of _ s']) simp
  then show ?case using importThunks_adds [OF size st1] by (rule importWritten_adds)
next
  case (Suc n)
  then obtain v' where "goodThunk is32 img thunkRVA iatRVA idx v'" by auto
  from importThunks_turn [OF Suc(3) this] obtain st1
    where "importThunks q W is32 img base dllName thunkRVA iatRVA (Suc idx) st1 = Some (Inr st')" by blast
  from Suc(1) [OF _ this] show ?case using Suc(2,5) by (simp add: Suc_le_eq)
qed

lemma importDescriptors_turn:
  assumes "importDescriptors q W is32 img base desc (Suc count) st = Some (Inr st')"
  obtains (stop) "endOfTable img desc" "st' = st"
  | (skip) "moduleTables img desc = None" "importDescriptors q W is32 img base (desc + 20) count st = Some (Inr st')"
  | (go) dllName thunkRVA iatRVA st1 where "moduleTables img desc = Some (dllName, thunkRVA, iatRVA)"
      "importThunks q W is32 img base dllName thunkRVA iatRVA 0 st = Some (Inr st1)"
      "importDescriptors q W is32 img base (desc + 20) count st1 = Some (Inr st')"
proof -
  from assms obtain oft name ft where r: "readLe 4 img desc = Some oft" "readLe 4 img (desc + 12) = Some name"
      "readLe 4 img (desc + 16) = Some ft" by (auto elim!: bind_SomeE)
  consider "name = 0" "ft = 0" | "name = 0" "ft \<noteq> 0" | "name \<noteq> 0" "name + 1 \<ge> length img \<or> cstring (drop name img) = None"
    | dllName where "name \<noteq> 0" "\<not> name + 1 \<ge> length img" "cstring (drop name img) = Some dllName" "oft \<ge> length img \<or> ft \<ge> length img"
    | dllName where "name \<noteq> 0" "\<not> name + 1 \<ge> length img" "cstring (drop name img) = Some dllName" "\<not> (oft \<ge> length img \<or> ft \<ge> length img)"
    by fastforce
  then show ?thesis
  proof cases
    case 1
    then show ?thesis using assms r stop by (auto simp: endOfTable_def)
  next
    case 2
    then show ?thesis using assms r skip by (auto simp: moduleTables_def)
  next
    case 3
    then show ?thesis using assms r skip by (auto simp: moduleTables_def Let_def split: if_splits)
  next
    case 4
    then show ?thesis using assms r skip by (auto simp: moduleTables_def Let_def split: if_splits)
  next
    case (5 dllName)
    let ?thunk = "if oft \<noteq> 0 then oft else ft"
    have "importThunks q W is32 img base dllName ?thunk ft 0 st \<bind>
       (\<lambda>result. case result of Inl st \<Rightarrow> Some (Inl st) | Inr st \<Rightarrow> importDescriptors q W is32 img base (desc + 20) count st) = Some (Inr st')"
      using assms r 5 by (auto simp: Let_def split: if_splits)
    then obtain st1 where "importThunks q W is32 img base dllName ?thunk ft 0 st = Some (Inr st1)"
        "importDescriptors q W is32 img base (desc + 20) count st1 = Some (Inr st')"
      by (auto elim!: bind_SomeE split: sum.splits)
    then show ?thesis using 5 r by (intro go [of dllName ?thunk ft]) (auto simp: moduleTables_def)
  qed
qed

lemma importDescriptors_adds:
  "length img < 2 ^ 64 \<Longrightarrow> importDescriptors q W is32 img base desc count st = Some (Inr st') \<Longrightarrow> adds (imageWrite base (length img)) st st'"
proof (induction count arbitrary: desc st)
  case (Suc count)
  note size = Suc.prems(1)
  from Suc.prems(2) show ?case
  proof (cases rule: importDescriptors_turn)
    case go
    then show ?thesis using adds_trans [OF importThunks_adds [OF size go(2)] Suc.IH [OF size go(3)]] by simp
  qed (simp_all add: Suc.IH [OF size])
qed simp

lemma importDescriptors_written:
  assumes size: "length img < 2 ^ 64" and "importDescriptors q W is32 img base desc count st = Some (Inr st')" and "d < count"
    and "\<forall>j \<le> d. \<not> endOfTable img (desc + 20 * j)" and "moduleTables img (desc + 20 * d) = Some (dllName, thunkRVA, iatRVA)"
    and thunk: "thunkTable is32 img thunkRVA iatRVA i symbol"
  shows "importWritten q W is32 base dllName symbol (iatRVA + i * pointerSize is32) (msTrace st')"
  using assms(2-5)
proof (induction count arbitrary: desc st d)
  case (Suc count)
  have next_table: "\<forall>j \<le> d'. \<not> endOfTable img (desc + 20 + 20 * j)"
    "moduleTables img (desc + 20 + 20 * d') = Some (dllName, thunkRVA, iatRVA)" if "d = Suc d'" for d'
  proof -
    show "\<forall>j \<le> d'. \<not> endOfTable img (desc + 20 + 20 * j)"
    proof (intro allI impI)
      fix j assume "j \<le> d'"
      then show "\<not> endOfTable img (desc + 20 + 20 * j)"
        using Suc.prems(3) [rule_format, of "Suc j"] that by (simp add: algebra_simps)
    qed
    show "moduleTables img (desc + 20 + 20 * d') = Some (dllName, thunkRVA, iatRVA)"
      using Suc.prems(4) that by (simp add: algebra_simps)
  qed
  from Suc.prems(1) show ?case
  proof (cases rule: importDescriptors_turn)
    case stop
    then show ?thesis using Suc.prems(3) by force
  next
    case skip
    then obtain d' where "d = Suc d'" using Suc.prems(4) by (cases d) auto
    then show ?thesis using Suc.IH [OF skip(2) _ next_table] Suc.prems(2) by simp
  next
    case (go dll thunk iat st1)
    show ?thesis
    proof (cases d)
      case 0
      then have [simp]: "dll = dllName" "thunk = thunkRVA" "iat = iatRVA" using go(1) Suc.prems(4) by auto
      from thunk obtain v where v: "goodThunk is32 img thunkRVA iatRVA i v" "thunkSymbol is32 img v = Some symbol"
        by (auto simp: thunkTable_def)
      have "importWritten q W is32 base dllName symbol (iatRVA + i * pointerSize is32) (msTrace st1)"
        by (rule importThunks_written [OF size _ _ _ v, where idx = 0]) (use go(2) thunk in \<open>auto simp: thunkTable_def\<close>)
      then show ?thesis using importDescriptors_adds [OF size go(3)] by (rule importWritten_adds)
    next
      case (Suc d')
      then show ?thesis using Suc.IH [OF go(3) _ next_table] Suc.prems(2) by simp
    qed
  qed
qed simp

section \<open>The phases of a run\<close>

fun isProtection :: "mm_effect \<Rightarrow> bool" where
  "isProtection (Protected a n p) = True"
| "isProtection _ = False"

lemma protectSections_adds: "protectSections img base table count st = Some st' \<Longrightarrow> adds isProtection st st'"
proof (induction count arbitrary: table st)
  case (Suc count)
  have step: "adds isProtection st st'" if "protectSections img base t count (emit (Protected a n p) st) = Some st'" for t a n p
    using adds_emit_trans [OF Suc.IH [OF that]] by simp
  from Suc.prems show ?case
    by (auto elim!: bind_SomeE simp: Let_def split: if_splits) (erule Suc.IH step)+
qed simp

lemma resolveImports_adds:
  assumes size: "length img < 2 ^ 64"
  shows "resolveImports q W h img base st = Some (Inr st') \<Longrightarrow> adds (imageWrite base (length img)) st st'"
  by (auto simp: resolveImports_def dest: importDescriptors_adds [OF size] split: if_splits)

lemma tlsThread_adds: "tlsThread W code st = Next st' \<or> tlsThread W code st = Break st' \<Longrightarrow> adds (\<lambda>_. True) st st'"
  by (auto simp: tlsThread_def tryAlloc_def tryWrite_def Let_def emit_def adds_def split: if_splits)

lemma tlsCallbacks_adds: "tlsCallbacks W is32 img base rva count st = Some (Inr st') \<Longrightarrow> adds (\<lambda>_. True) st st'"
proof (induction count arbitrary: rva st)
  case (Suc count)
  have call: "adds (\<lambda>_. True) st (snd (call32 W entry base st))" for entry
    by (simp add: call32_def Let_def adds_emit)
  from Suc.prems show ?case
    using Suc.IH adds_trans [OF call] adds_trans [OF tlsThread_adds] tlsThread_adds call
    by (fastforce elim!: bind_SomeE simp: split_beta Let_def split: if_splits loop.splits)
qed simp

lemma callTls_adds: "callTls W h img base st = Some (Inr st') \<Longrightarrow> adds (\<lambda>_. True) st st'"
  by (auto simp: callTls_def Let_def dest: tlsCallbacks_adds elim!: bind_SomeE split: if_splits)

text \<open>The effects of calling the entry point of the image, and the answer that makes the call a success.\<close>

definition entryCalled :: "'s mm_world \<Rightarrow> PeHeader \<Rightarrow> 64 word \<Rightarrow> mm_trace \<Rightarrow> mm_trace \<Rightarrow> bool" where
  "entryCalled W h base tr call \<longleftrightarrow>
     (let entry = base + ucast (phEntryRva h);
          code = (if phIs32 h then callShell32 (ucast base) (ucast entry) else callShell64 base entry) in
      if phEntryRva h = 0 then call = []
      else if phIs32 h \<and> needWow64Gate W
      then call = [Called32 (ucast entry) [ucast base, 1, 0] True] \<and> wdCall32 W tr = (True, 1)
      else \<exists>a. a \<noteq> 0 \<and> call = [Allocated a (length code), Wrote a code True, Started a True, Opened ThreadHandle, Waited a True,
             Closed ThreadHandle, Freed a]
           \<and> wdExit W (tr @ take 5 call) = Some 1 \<and> wdAlive W (tr @ take 5 call))"

definition closing :: mm_trace where
  "closing = [Closed FileView, Closed MappingHandle, Closed FileHandle, Closed ProcessHandle]"

lemma succeed_closing: "succeed st = (True, st') \<Longrightarrow> msTrace st' = msTrace st @ closing"
  by (auto simp: succeed_def failKeep_def cleanupFile_def emit_def closing_def)

lemma entryThread_called:
  assumes "entryThread W base code st = (True, st')"
  shows "\<exists>a call. a \<noteq> 0 \<and> call = [Allocated a (length code), Wrote a code True, Started a True, Opened ThreadHandle, Waited a True,
             Closed ThreadHandle, Freed a]
     \<and> wdExit W (msTrace st @ take 5 call) = Some 1 \<and> wdAlive W (msTrace st @ take 5 call)
     \<and> msTrace st' = msTrace st @ call @ closing"
  using assms
  by (auto simp: entryThread_def tryAlloc_def tryWrite_def Let_def nativeInitializationConfirmed_def emit_def
      split: if_splits option.splits dest!: succeed_closing)

lemma callEntry_called:
  assumes "callEntry W h base st = (True, st')"
  shows "\<exists>call. entryCalled W h base (msTrace st) call \<and> msTrace st' = msTrace st @ call @ closing"
proof -
  let ?entry = "base + ucast (phEntryRva h)"
  consider "phEntryRva h = 0" "succeed st = (True, st')"
    | "phEntryRva h \<noteq> 0" "\<not> phIs32 h" "entryThread W base (callShell64 base ?entry) st = (True, st')"
    | "phEntryRva h \<noteq> 0" "phIs32 h" "\<not> needWow64Gate W" "entryThread W base (callShell32 (ucast base) (ucast ?entry)) st = (True, st')"
    | "phEntryRva h \<noteq> 0" "phIs32 h" "needWow64Gate W" "wdCall32 W (msTrace st) = (True, 1)"
      "succeed (emit (Called32 (ucast ?entry) [ucast base, 1, 0] True) st) = (True, st')"
    using assms by (auto simp: callEntry_def call32_def Let_def prod_eq_iff split: if_splits prod.splits)
  then show ?thesis
  proof cases
    case 1
    then show ?thesis by (auto simp: entryCalled_def dest: succeed_closing)
  next
    case 2
    then show ?thesis using entryThread_called [OF 2(3)] by (auto simp: entryCalled_def Let_def)
  next
    case 3
    then show ?thesis using entryThread_called [OF 3(4)] by (auto simp: entryCalled_def Let_def)
  next
    case 4
    then show ?thesis using succeed_closing [OF 4(5)] by (auto simp: entryCalled_def Let_def emit_def)
  qed
qed

section \<open>Properties\<close>

lemma tryWrite_trace: "tryWrite W a b st = (ok, st') \<Longrightarrow> msTrace st' = msTrace st @ [Wrote a b ok]"
  by (auto simp: tryWrite_def Let_def emit_def)

text \<open>
  A run in its order: the image is written at the base, then its imports, then the TLS callbacks are
  called, then the protections are set, and last the entry point is called and has answered.
\<close>

definition successfulRun :: "qt \<Rightarrow> 's mm_world \<Rightarrow> PeHeader \<Rightarrow> 64 word \<Rightarrow> bytes \<Rightarrow> mm_trace \<Rightarrow> bool" where
  "successfulRun q W h base img tr \<longleftrightarrow> (\<exists>t0 imps tls protects call s s'.
     tr = t0 @ [Wrote base img True] @ imps @ tls @ protects @ [Protected base (phHeadersSize h) ReadOnly] @ call @ closing
     \<and> resolveImports q W h img base \<lparr>msTrace = t0 @ [Wrote base img True], msTarget = s\<rparr>
         = Some (Inr \<lparr>msTrace = t0 @ [Wrote base img True] @ imps, msTarget = s'\<rparr>)
     \<and> list_all (imageWrite base (length img)) imps \<and> list_all isProtection protects
     \<and> entryCalled W h base (t0 @ [Wrote base img True] @ imps @ tls @ protects @ [Protected base (phHeadersSize h) ReadOnly]) call)"

lemma loadImage_phases:
  assumes run: "loadImage q W fuel h img st = Some (True, st')" and size: "length img < 2 ^ 64"
  shows "\<exists>base img'. base \<noteq> 0 \<and> relocate fuel h base img = Some (Inr img') \<and> successfulRun q W h base img' (msTrace st')"
proof -
  obtain base st1 where place: "placeImage q W h st = (base, st1)" by force
  with run have base: "base \<noteq> 0" by (auto simp: loadImage_def)
  with run place obtain img' where rel: "relocate fuel h base img = Some (Inr img')"
    by (auto simp: loadImage_def elim!: bind_SomeE split: sum.splits)
  obtain ok st2 where wr: "tryWrite W base img' st1 = (ok, st2)" by force
  with run place base rel obtain imported
    where ok: "ok" and "resolveImports q W h img' base st2 = Some imported"
    and "(case imported of Inl st \<Rightarrow> Some (False, st) | Inr st \<Rightarrow>
              callTls W h img' base st \<bind> (\<lambda>called. case called of Inl st \<Rightarrow> Some (False, st)
              | Inr st \<Rightarrow> protectSections img' base (phSectionTable h) (unat (phNumSections h)) st \<bind>
                  (\<lambda>st. Some (callEntry W h base (emit (Protected base (phHeadersSize h) ReadOnly) st))))) = Some (True, st')"
    by (auto simp: loadImage_def Let_def elim!: bind_SomeE split: if_splits)
  then obtain st3 called where imp: "resolveImports q W h img' base st2 = Some (Inr st3)"
    and "callTls W h img' base st3 = Some called"
    and "(case called of Inl st \<Rightarrow> Some (False, st)
              | Inr st \<Rightarrow> protectSections img' base (phSectionTable h) (unat (phNumSections h)) st \<bind>
                  (\<lambda>st. Some (callEntry W h base (emit (Protected base (phHeadersSize h) ReadOnly) st)))) = Some (True, st')"
    by (auto elim!: bind_SomeE split: sum.splits)
  then obtain st4 st5 where tls: "callTls W h img' base st3 = Some (Inr st4)"
    and prot: "protectSections img' base (phSectionTable h) (unat (phNumSections h)) st4 = Some st5"
    and entry: "callEntry W h base (emit (Protected base (phHeadersSize h) ReadOnly) st5) = (True, st')"
    by (auto elim!: bind_SomeE split: sum.splits)
  have "length img' = length img" by (rule relocate_length [OF rel])
  with resolveImports_adds [OF _ imp] size obtain u1
    where u1: "msTrace st3 = msTrace st2 @ u1" "list_all (imageWrite base (length img')) u1" by (auto simp: adds_def)
  from callTls_adds [OF tls] obtain u2 where u2: "msTrace st4 = msTrace st3 @ u2" by (auto simp: adds_def)
  from protectSections_adds [OF prot] obtain u3 where u3: "msTrace st5 = msTrace st4 @ u3" "list_all isProtection u3"
    by (auto simp: adds_def)
  from callEntry_called [OF entry] obtain call
    where call: "entryCalled W h base (msTrace (emit (Protected base (phHeadersSize h) ReadOnly) st5)) call"
    and st': "msTrace st' = msTrace (emit (Protected base (phHeadersSize h) ReadOnly) st5) @ call @ closing" by blast
  have st2: "msTrace st2 = msTrace st1 @ [Wrote base img' True]" using tryWrite_trace [OF wr] ok by simp
  have trace: "msTrace (emit (Protected base (phHeadersSize h) ReadOnly) st5)
      = msTrace st1 @ [Wrote base img' True] @ u1 @ u2 @ u3 @ [Protected base (phHeadersSize h) ReadOnly]"
    using st2 u1(1) u2 u3(1) by (simp add: emit_def)
  have "resolveImports q W h img' base \<lparr>msTrace = msTrace st1 @ [Wrote base img' True], msTarget = msTarget st2\<rparr>
      = Some (Inr \<lparr>msTrace = msTrace st1 @ [Wrote base img' True] @ u1, msTarget = msTarget st3\<rparr>)"
    using imp u1(1) st2 by (cases st2; cases st3) simp
  then have "successfulRun q W h base img' (msTrace st')"
    unfolding successfulRun_def using u1(2) u3(2) call [unfolded trace] st' [unfolded trace]
    by (intro exI [of _ "msTrace st1"] exI [of _ u1] exI [of _ u2] exI [of _ u3] exI [of _ call]
        exI [of _ "msTarget st2"] exI [of _ "msTarget st3"]) simp
  then show ?thesis using base rel by blast
qed




text \<open>A 64-bit image that imports the symbol number 7 of the module \<open>m\<close>.\<close>

definition sampleImporting :: bytes where
  "sampleImporting = replicate 20 0 @ leBytes 4 48 @ leBytes 4 56 @ replicate 20 0 @ 109 # 0 # replicate 6 0
     @ leBytes 8 0x8000000000000007 @ replicate 8 0 @ []"

definition importingHeader :: PeHeader where
  "importingHeader = samplePlainHeader\<lparr>phIs32 := False, phImageSize := 72, phImportRva := 8, phImportSize := 40\<rparr>"

lemma length_importing [simp]: "length sampleImporting = 72"
  by (simp add: sampleImporting_def del: leBytes.simps)

lemmas read_zeros_end = readLe_zeros [where b = "[]", simplified]

lemma readLe_Cons: "0 < i \<Longrightarrow> readLe n (x # b) i = readLe n b (i - 1)"
  using readLe_skip [of "[x]" i n b] by simp

lemma importing_reads:
  "readLe 4 sampleImporting 8 = Some 0" "readLe 4 sampleImporting 20 = Some 48" "readLe 4 sampleImporting 24 = Some 56"
  "readLe 4 sampleImporting 28 = Some 0" "readLe 4 sampleImporting 40 = Some 0" "readLe 4 sampleImporting 44 = Some 0"
  "readLe 8 sampleImporting 56 = Some 0x8000000000000007" "readLe 8 sampleImporting 64 = Some 0"
  "cstring (drop 48 sampleImporting) = Some [109]"
  by (simp_all add: sampleImporting_def read_fields read_zeros_end readLe_Cons del: leBytes.simps)

lemma importing_symbol: "thunkSymbol False sampleImporting 0x8000000000000007 = Some (ByOrdinal 7)"
  by (simp add: thunkSymbol_def pointerSize_def bit_iff_odd)

lemma importing_thunks:
  "importThunks qtAscii sampleWorld False sampleImporting 0x10000 [109] 56 56 0 \<lparr>msTrace = [], msTarget = ()\<rparr>
   = Some (Inr \<lparr>msTrace = [Wrote 0x10038 (leBytes 8 0x1234) True], msTarget = ()\<rparr>)"
  by (subst importThunks.simps, subst importThunks.simps)
     (simp add: importing_reads importing_symbol pointerSize_def resolveImport_def tryWrite_def emit_def Let_def
        sampleWorld_def del: leBytes.simps)

lemma importing_descriptors:
  "importDescriptors qtAscii sampleWorld False sampleImporting 0x10000 8 2 \<lparr>msTrace = [], msTarget = ()\<rparr>
   = Some (Inr \<lparr>msTrace = [Wrote 0x10038 (leBytes 8 0x1234) True], msTarget = ()\<rparr>)"
proof -
  have "wdLocalModule sampleWorld [109]" by (simp add: sampleWorld_def)
  then show ?thesis
    unfolding numeral_2_eq_2 by (simp add: importing_reads importing_thunks Let_def del: leBytes.simps)
qed

lemma importing_resolved:
  "resolveImports qtAscii sampleWorld importingHeader sampleImporting 0x10000 \<lparr>msTrace = [], msTarget = ()\<rparr>
   = Some (Inr \<lparr>msTrace = [Wrote 0x10038 (leBytes 8 0x1234) True], msTarget = ()\<rparr>)"
  using importing_descriptors by (simp add: resolveImports_def importingHeader_def samplePlainHeader_def del: leBytes.simps)

lemma importing_symbols: "imageImports importingHeader sampleImporting [109] (ByOrdinal 7) 56"
  unfolding imageImports_def
proof (intro exI conjI)
  show "moduleTables sampleImporting (unat (phImportRva importingHeader) + 20 * 0) = Some ([109], 56, 56)"
    by (simp add: moduleTables_def importing_reads importingHeader_def samplePlainHeader_def)
  show "thunkTable (phIs32 importingHeader) sampleImporting 56 56 0 (ByOrdinal 7)"
    using importing_symbol by (simp add: thunkTable_def goodThunk_def importing_reads importingHeader_def pointerSize_def)
qed (simp_all add: importingHeader_def samplePlainHeader_def endOfTable_def importing_reads)


end
