(* ===== verification/HijackShell.thy ===== *)
theory HijackShell
  imports PeImage
begin

text \<open>
  The machine code that \<open>call32ViaThreadHijack\<close> (\<open>StarInjectorManualMap.cpp\<close>, lines 541 to 752) builds for a
  borrowed thread, and what a processor does with it: the bytes are decoded and run on a small model of
  the 32-bit instructions that occur in them.
\<close>

section \<open>The code\<close>

definition kStackSize :: nat where "kStackSize = 1024 * 1024"
definition kShellOff :: nat where "kShellOff = kStackSize"
definition kFlagOff :: nat where "kFlagOff = kStackSize + 512"
definition kTotal :: nat where "kTotal = kStackSize + 1024"

lemmas hijack_layout = kStackSize_def kShellOff_def kFlagOff_def kTotal_def

abbreviation le32 :: "32 word \<Rightarrow> bytes" where
  "le32 v \<equiv> leBytes 4 (unat v)"

definition pushU32 :: "32 word \<Rightarrow> bytes" where "pushU32 v = 0x68 # le32 v"
definition movEaxU32 :: "32 word \<Rightarrow> bytes" where "movEaxU32 v = 0xB8 # le32 v"
definition movEaxFs :: "32 word \<Rightarrow> bytes" where "movEaxFs off = 0x64 # 0xA1 # le32 off"
definition movFsEax :: "32 word \<Rightarrow> bytes" where "movFsEax off = 0x64 # 0xA3 # le32 off"
definition movMemEax :: "32 word \<Rightarrow> bytes" where "movMemEax addr = 0xA3 # le32 addr"

text \<open>\<open>args\<close> is the null pointer or the arguments, in their order; they are pushed from the last one on.\<close>

definition argValues :: "32 word list option \<Rightarrow> nat \<Rightarrow> 32 word list" where
  "argValues args nArgs = (case args of None \<Rightarrow> replicate nArgs 0 | Some a \<Rightarrow> map (\<lambda>i. a ! i) [0..<nArgs])"

definition hijackShell :: "32 word \<Rightarrow> 32 word \<Rightarrow> 32 word list \<Rightarrow> 32 word \<Rightarrow> 32 word \<Rightarrow> bytes" where
  "hijackShell remote32 func32 args savedEsp savedEip =
     (let flag32 = remote32 + word_of_nat kFlagOff; tebFlag = flag32;
          myBase = remote32 + word_of_nat kTotal; myLimit = remote32 in
      [0x60, 0x9C]
      @ movEaxFs 0x18 @ movMemEax (tebFlag + 16)
      @ movEaxFs 0x04 @ movMemEax (tebFlag + 4)
      @ movEaxFs 0x08 @ movMemEax (tebFlag + 8)
      @ movEaxFs 0x0E0C @ movMemEax (tebFlag + 12)
      @ movEaxU32 myBase @ movFsEax 0x04
      @ movEaxU32 myLimit @ movFsEax 0x08
      @ movEaxU32 remote32 @ movFsEax 0x0E0C
      @ concat (map pushU32 (rev args))
      @ movEaxU32 func32 @ [0xFF, 0xD0]
      @ movMemEax flag32
      @ movEaxU32 (tebFlag + 4) @ [0x8B, 0x00] @ movFsEax 0x04
      @ movEaxU32 (tebFlag + 8) @ [0x8B, 0x00] @ movFsEax 0x08
      @ movEaxU32 (tebFlag + 12) @ [0x8B, 0x00] @ movFsEax 0x0E0C
      @ [0x9D, 0x61]
      @ (0xBC # le32 savedEsp) @ pushU32 savedEip @ [0xC3])"

section \<open>The instructions\<close>

datatype instr = Pushad | Pushfd | Popfd | Popad | Ret | CallEax | LoadEax
  | MovEaxFs "32 word" | MovFsEax "32 word" | MovMemEax "32 word" | MovEaxImm "32 word" | MovEspImm "32 word"
  | PushImm "32 word"

fun encode :: "instr \<Rightarrow> bytes" where
  "encode Pushad = [0x60]"
| "encode Pushfd = [0x9C]"
| "encode Popfd = [0x9D]"
| "encode Popad = [0x61]"
| "encode Ret = [0xC3]"
| "encode CallEax = [0xFF, 0xD0]"
| "encode LoadEax = [0x8B, 0x00]"
| "encode (MovEaxFs v) = 0x64 # 0xA1 # le32 v"
| "encode (MovFsEax v) = 0x64 # 0xA3 # le32 v"
| "encode (MovMemEax v) = 0xA3 # le32 v"
| "encode (MovEaxImm v) = 0xB8 # le32 v"
| "encode (MovEspImm v) = 0xBC # le32 v"
| "encode (PushImm v) = 0x68 # le32 v"

definition immediate :: "(32 word \<Rightarrow> instr) \<Rightarrow> bytes \<Rightarrow> instr option" where
  "immediate f b = map_option f (read32 b 0)"

text \<open>The instruction at the start of the bytes, for the instructions of the manual's tables that occur here.\<close>

definition decode :: "bytes \<Rightarrow> instr option" where
  "decode b = (case b of [] \<Rightarrow> None | op # b \<Rightarrow>
     if op = 0x60 then Some Pushad else if op = 0x9C then Some Pushfd
     else if op = 0x9D then Some Popfd else if op = 0x61 then Some Popad
     else if op = 0xC3 then Some Ret
     else if op = 0xA3 then immediate MovMemEax b else if op = 0xB8 then immediate MovEaxImm b
     else if op = 0xBC then immediate MovEspImm b else if op = 0x68 then immediate PushImm b
     else case b of [] \<Rightarrow> None | op2 # b \<Rightarrow>
       if op = 0xFF \<and> op2 = 0xD0 then Some CallEax
       else if op = 0x8B \<and> op2 = 0x00 then Some LoadEax
       else if op = 0x64 \<and> op2 = 0xA1 then immediate MovEaxFs b
       else if op = 0x64 \<and> op2 = 0xA3 then immediate MovFsEax b
       else None)"

lemma immediate_le32: "immediate f (le32 v @ b) = Some (f v)"
proof -
  have "unat v mod 256 ^ 4 = unat v" using unsigned_less [of v, where 'a = nat] by simp
  then show ?thesis by (simp add: immediate_def read32_def readLe_head del: leBytes.simps)
qed

lemma decode_encode: "decode (encode i @ b) = Some i"
  by (cases i) (simp_all add: decode_def immediate_le32 del: leBytes.simps)

definition encodes :: "instr list \<Rightarrow> bytes" where
  "encodes is = concat (map encode is)"

lemma encodes_simps [simp]:
  "encodes [] = []" "encodes (i # is) = encode i @ encodes is" "encodes (is @ js) = encodes is @ encodes js"
  by (simp_all add: encodes_def)

text \<open>The code as instructions.\<close>

definition prologue :: "32 word \<Rightarrow> instr list" where
  "prologue remote32 = (let flag = remote32 + word_of_nat kFlagOff in
     [Pushad, Pushfd, MovEaxFs 0x18, MovMemEax (flag + 16), MovEaxFs 4, MovMemEax (flag + 4), MovEaxFs 8, MovMemEax (flag + 8),
      MovEaxFs 0xE0C, MovMemEax (flag + 12), MovEaxImm (remote32 + word_of_nat kTotal), MovFsEax 4,
      MovEaxImm remote32, MovFsEax 8, MovEaxImm remote32, MovFsEax 0xE0C])"

definition epilogue :: "32 word \<Rightarrow> 32 word \<Rightarrow> 32 word \<Rightarrow> instr list" where
  "epilogue remote32 savedEsp savedEip = (let flag = remote32 + word_of_nat kFlagOff in
     [MovMemEax flag, MovEaxImm (flag + 4), LoadEax, MovFsEax 4, MovEaxImm (flag + 8), LoadEax, MovFsEax 8,
      MovEaxImm (flag + 12), LoadEax, MovFsEax 0xE0C, Popfd, Popad, MovEspImm savedEsp, PushImm savedEip])"

definition hijackProgram :: "32 word \<Rightarrow> 32 word \<Rightarrow> 32 word list \<Rightarrow> 32 word \<Rightarrow> 32 word \<Rightarrow> instr list" where
  "hijackProgram remote32 func32 args savedEsp savedEip = prologue remote32 @ map PushImm (rev args)
     @ [MovEaxImm func32, CallEax] @ epilogue remote32 savedEsp savedEip @ [Ret]"

lemma encodes_pushes: "encodes (map PushImm vs) = concat (map pushU32 vs)"
  by (induction vs) (simp_all add: pushU32_def del: leBytes.simps)

lemma hijackShell_encodes: "hijackShell remote32 func32 args savedEsp savedEip = encodes (hijackProgram remote32 func32 args savedEsp savedEip)"
  by (simp add: hijackShell_def hijackProgram_def prologue_def epilogue_def encodes_pushes movEaxFs_def movFsEax_def movMemEax_def
      movEaxU32_def pushU32_def Let_def del: leBytes.simps)

lemma length_pushes: "length (concat (map pushU32 vs)) = 5 * length vs"
  by (induction vs) (simp_all add: pushU32_def)

lemma length_hijackShell: "length (hijackShell remote32 func32 args savedEsp savedEip) = 143 + 5 * length args"
  by (simp add: hijackShell_def Let_def length_pushes movEaxFs_def movFsEax_def movMemEax_def movEaxU32_def pushU32_def
      del: leBytes.simps)

section \<open>The processor\<close>

text \<open>
  The registers, and the memory in cells of 32 bits; all addresses that occur are multiples of four
  apart, and the theorems assume which of them are different. \<open>teb\<close> is the base of the segment
  \<open>fs\<close>. What a called function does is a parameter: a function of the state at its first instruction.
\<close>

record cpu =
  eax :: "32 word"
  ecx :: "32 word"
  edx :: "32 word"
  ebx :: "32 word"
  esp :: "32 word"
  ebp :: "32 word"
  esi :: "32 word"
  edi :: "32 word"
  eflags :: "32 word"
  eip :: "32 word"
  teb :: "32 word"
  mem :: "32 word \<Rightarrow> 32 word"

type_synonym callee = "32 word \<Rightarrow> cpu \<Rightarrow> cpu"

definition store :: "32 word \<Rightarrow> 32 word \<Rightarrow> cpu \<Rightarrow> cpu" where
  "store a v c = c\<lparr>mem := (mem c)(a := v)\<rparr>"

definition push :: "32 word \<Rightarrow> cpu \<Rightarrow> cpu" where
  "push v c = (let c = c\<lparr>esp := esp c - 4\<rparr> in store (esp c) v c)"

definition top :: "cpu \<Rightarrow> 32 word" where
  "top c = mem c (esp c)"

definition drop1 :: "cpu \<Rightarrow> cpu" where
  "drop1 c = c\<lparr>esp := esp c + 4\<rparr>"

definition pushad :: "cpu \<Rightarrow> cpu" where
  "pushad c = push (edi c) (push (esi c) (push (ebp c) (push (esp c) (push (ebx c) (push (edx c)
     (push (ecx c) (push (eax c) c)))))))"

definition popad :: "cpu \<Rightarrow> cpu" where
  "popad c = (let c = drop1 (c\<lparr>edi := top c\<rparr>); c = drop1 (c\<lparr>esi := top c\<rparr>); c = drop1 (c\<lparr>ebp := top c\<rparr>); c = drop1 c;
     c = drop1 (c\<lparr>ebx := top c\<rparr>); c = drop1 (c\<lparr>edx := top c\<rparr>); c = drop1 (c\<lparr>ecx := top c\<rparr>) in drop1 (c\<lparr>eax := top c\<rparr>))"

text \<open>One instruction, with \<open>eip\<close> already behind it.\<close>

fun perform :: "callee \<Rightarrow> instr \<Rightarrow> cpu \<Rightarrow> cpu" where
  "perform f Pushad c = pushad c"
| "perform f Pushfd c = push (eflags c) c"
| "perform f Popfd c = drop1 (c\<lparr>eflags := top c\<rparr>)"
| "perform f Popad c = popad c"
| "perform f Ret c = drop1 (c\<lparr>eip := top c\<rparr>)"
| "perform f CallEax c = f (eax c) (push (eip c) (c\<lparr>eip := eax c\<rparr>))"
| "perform f LoadEax c = c\<lparr>eax := mem c (eax c)\<rparr>"
| "perform f (MovEaxFs v) c = c\<lparr>eax := mem c (teb c + v)\<rparr>"
| "perform f (MovFsEax v) c = store (teb c + v) (eax c) c"
| "perform f (MovMemEax v) c = store v (eax c) c"
| "perform f (MovEaxImm v) c = c\<lparr>eax := v\<rparr>"
| "perform f (MovEspImm v) c = c\<lparr>esp := v\<rparr>"
| "perform f (PushImm v) c = push v c"

definition execute :: "callee \<Rightarrow> instr \<Rightarrow> cpu \<Rightarrow> cpu" where
  "execute f i c = perform f i (c\<lparr>eip := eip c + word_of_nat (length (encode i))\<rparr>)"

text \<open>
  The processor runs the code at \<open>base\<close>: \<open>None\<close> is code that cannot be decoded or more than \<open>fuel\<close>
  instructions, and it stops where \<open>eip\<close> leaves the code.
\<close>

fun run :: "callee \<Rightarrow> 32 word \<Rightarrow> bytes \<Rightarrow> nat \<Rightarrow> cpu \<Rightarrow> cpu option" where
  "run f base code 0 c = None"
| "run f base code (Suc fuel) c =
     (if unat (eip c - base) \<ge> length code then Some c
      else case decode (drop (unat (eip c - base)) code) of
        None \<Rightarrow> None | Some i \<Rightarrow> run f base code fuel (execute f i c))"

text \<open>Straight-line code is executed instruction by instruction, while calls return.\<close>

fun straight :: "instr \<Rightarrow> bool" where
  "straight Ret = False"
| "straight CallEax = False"
| "straight _ = True"

lemma push_eip [simp]: "eip (push v c) = eip c" "eip (store a v c) = eip c" "eip (drop1 c) = eip c"
  by (simp_all add: push_def store_def drop1_def Let_def)

lemma perform_eip: "straight i \<Longrightarrow> eip (perform f i c) = eip c"
  by (cases i) (simp_all add: pushad_def popad_def Let_def)

lemma execute_eip: "straight i \<Longrightarrow> eip (execute f i c) = eip c + word_of_nat (length (encode i))"
  by (simp add: execute_def perform_eip)

definition executes :: "callee \<Rightarrow> instr list \<Rightarrow> cpu \<Rightarrow> cpu" where
  "executes f is c = fold (execute f) is c"

lemma executes_simps [simp]:
  "executes f [] c = c" "executes f (i # is) c = executes f is (execute f i c)"
  "executes f (is @ js) c = executes f js (executes f is c)"
  by (simp_all add: executes_def)

lemma executes_eip: "list_all straight is \<Longrightarrow> eip (executes f is c) = eip c + word_of_nat (length (encodes is))"
  by (induction "is" arbitrary: c) (simp_all add: execute_eip algebra_simps)

lemma run_one:
  assumes "code = pre @ encode i @ post" "length code < 2 ^ 32" "eip c = base + word_of_nat (length pre)"
  shows "run f base code (Suc fuel) c = run f base code fuel (execute f i c)"
proof -
  have "unat (eip c - base) = length pre" using assms by (simp add: unat_of_nat take_bit_nat_eq_self)
  moreover have "encode i \<noteq> []" by (cases i) auto
  ultimately show ?thesis using assms(1) decode_encode [of i post] by simp
qed

lemma run_straight:
  assumes "length code < 2 ^ 32" "list_all straight is"
  shows "code = pre @ encodes is @ post \<Longrightarrow> eip c = base + word_of_nat (length pre)
    \<Longrightarrow> run f base code (length is + fuel) c = run f base code fuel (executes f is c)"
  using assms(2)
proof (induction "is" arbitrary: pre c)
  case (Cons i "is")
  have "eip (execute f i c) = base + word_of_nat (length (pre @ encode i))"
    using Cons.prems by (simp add: execute_eip algebra_simps)
  then have "run f base code (length is + fuel) (execute f i c) = run f base code fuel (executes f is (execute f i c))"
    using Cons.prems by (intro Cons.IH [of "pre @ encode i"]) simp_all
  moreover have "run f base code (Suc (length is + fuel)) c = run f base code (length is + fuel) (execute f i c)"
    by (rule run_one [of _ pre _ "encodes is @ post"]) (use Cons.prems assms(1) in simp_all)
  ultimately show ?case by simp
qed simp

section \<open>A call in a borrowed thread\<close>

definition performs :: "callee \<Rightarrow> instr list \<Rightarrow> cpu \<Rightarrow> cpu" where
  "performs f is c = fold (perform f) is c"

lemma performs_simps [simp]:
  "performs f [] c = c" "performs f (i # is) c = performs f is (perform f i c)"
  "performs f (is @ js) c = performs f js (performs f is c)"
  by (simp_all add: performs_def)

lemma push_set_eip [simp]:
  "push v (c\<lparr>eip := x\<rparr>) = (push v c)\<lparr>eip := x\<rparr>" "drop1 (c\<lparr>eip := x\<rparr>) = (drop1 c)\<lparr>eip := x\<rparr>"
  "store a v (c\<lparr>eip := x\<rparr>) = (store a v c)\<lparr>eip := x\<rparr>" "top (c\<lparr>eip := x\<rparr>) = top c"
  by (simp_all add: push_def drop1_def store_def top_def Let_def)

lemma perform_set_eip: "straight i \<Longrightarrow> perform f i (c\<lparr>eip := x\<rparr>) = (perform f i c)\<lparr>eip := x\<rparr>"
  by (cases i) (simp_all add: pushad_def popad_def Let_def push_def drop1_def store_def top_def)

lemma performs_set_eip: "list_all straight is \<Longrightarrow> performs f is (c\<lparr>eip := x\<rparr>) = (performs f is c)\<lparr>eip := x\<rparr>"
  by (induction "is" arbitrary: c) (simp_all add: perform_set_eip)

lemma executes_performs:
  "list_all straight is \<Longrightarrow> executes f is c = (performs f is c)\<lparr>eip := eip c + word_of_nat (length (encodes is))\<rparr>"
  by (induction "is" arbitrary: c) (simp_all add: execute_def perform_set_eip performs_set_eip perform_eip algebra_simps)

text \<open>Pushing a list of values.\<close>

definition cell :: "32 word \<Rightarrow> nat \<Rightarrow> 32 word" where
  "cell s k = s - 4 * word_of_nat (Suc k)"

lemma push_fields [simp]:
  "esp (push v c) = esp c - 4" "mem (push v c) = (mem c)(esp c - 4 := v)" "teb (push v c) = teb c"
  "eax (push v c) = eax c" "ecx (push v c) = ecx c" "edx (push v c) = edx c" "ebx (push v c) = ebx c"
  "ebp (push v c) = ebp c" "esi (push v c) = esi c" "edi (push v c) = edi c" "eflags (push v c) = eflags c"
  by (simp_all add: push_def store_def Let_def)

lemma pushes_state:
  "esp (fold push vs c) = esp c - 4 * word_of_nat (length vs)" "teb (fold push vs c) = teb c" "eip (fold push vs c) = eip c"
  "eax (fold push vs c) = eax c"
  by (induction vs arbitrary: c) (simp_all add: algebra_simps)

lemma pushes_other: "\<forall>k < length vs. a \<noteq> cell (esp c) k \<Longrightarrow> mem (fold push vs c) a = mem c a"
proof (induction vs arbitrary: c)
  case (Cons v vs)
  have "\<forall>k < length vs. a \<noteq> cell (esp (push v c)) k"
  proof (intro allI impI)
    fix k assume "k < length vs"
    then show "a \<noteq> cell (esp (push v c)) k"
      using Cons.prems [rule_format, of "Suc k"] by (simp add: cell_def algebra_simps)
  qed
  moreover have "a \<noteq> esp c - 4" using Cons.prems [rule_format, of 0] by (simp add: cell_def)
  ultimately show ?case using Cons.IH by simp
qed simp

lemma cell_inject: "j < 2 ^ 29 \<Longrightarrow> k < 2 ^ 29 \<Longrightarrow> cell s j = cell s k \<longleftrightarrow> j = k"
proof -
  assume j: "j < 2 ^ 29" and k: "k < 2 ^ 29"
  have "cell s j = cell s k \<longleftrightarrow> (word_of_nat (4 * Suc j) :: 32 word) = word_of_nat (4 * Suc k)"
    by (simp add: cell_def)
  also have "\<dots> \<longleftrightarrow> j = k" using j k by (subst word_of_nat_eq_iff) (simp add: take_bit_nat_eq_self)
  finally show ?thesis .
qed

lemma pushes_cell: "length vs < 2 ^ 29 \<Longrightarrow> k < length vs \<Longrightarrow> mem (fold push vs c) (cell (esp c) k) = vs ! k"
proof (induction vs arbitrary: c k rule: rev_induct)
  case (snoc v vs)
  show ?case
  proof (cases "k = length vs")
    case True
    then have "cell (esp c) k = esp (fold push vs c) - 4" by (simp add: pushes_state cell_def algebra_simps)
    then show ?thesis using True by simp
  next
    case False
    then have "cell (esp c) k \<noteq> cell (esp c) (length vs)" using snoc.prems by (simp add: cell_inject)
    then have "cell (esp c) k \<noteq> esp (fold push vs c) - 4" by (simp add: pushes_state cell_def algebra_simps)
    then show ?thesis using snoc False by (simp add: nth_append)
  qed
qed simp

definition frame :: "cpu \<Rightarrow> 32 word list" where
  "frame c = [eax c, ecx c, edx c, ebx c, esp c, ebp c, esi c, edi c, eflags c]"

lemma length_frame [simp]: "length (frame c) = 9"
  by (simp add: frame_def)

text \<open>The block at \<open>r\<close>, and addresses outside it.\<close>

definition flagCell :: "32 word \<Rightarrow> 32 word \<Rightarrow> 32 word" where
  "flagCell r d = r + word_of_nat kFlagOff + d"

definition stackTop :: "32 word \<Rightarrow> 32 word" where
  "stackTop r = r + word_of_nat (kStackSize - 16)"

definition outside :: "32 word \<Rightarrow> 32 word \<Rightarrow> bool" where
  "outside r a \<longleftrightarrow> unat (a - r) \<ge> kTotal"

lemma outside_neq: "outside r a \<Longrightarrow> d < kTotal \<Longrightarrow> a \<noteq> r + word_of_nat d"
proof
  assume "outside r a" "d < kTotal" "a = r + word_of_nat d"
  moreover have "unat (word_of_nat d :: 32 word) \<le> d" by (simp add: unat_of_nat)
  ultimately show False by (simp add: outside_def)
qed

lemma outside_flag:
  assumes "outside r a"
  shows "a \<noteq> flagCell r 0" "a \<noteq> flagCell r 4" "a \<noteq> flagCell r 8" "a \<noteq> flagCell r 12" "a \<noteq> flagCell r 16"
  using outside_neq [OF assms, of kFlagOff] outside_neq [OF assms, of "kFlagOff + 4"] outside_neq [OF assms, of "kFlagOff + 8"]
    outside_neq [OF assms, of "kFlagOff + 12"] outside_neq [OF assms, of "kFlagOff + 16"]
  by (simp_all add: flagCell_def hijack_layout add.commute)

lemma cell_in_block: "k < 1000 \<Longrightarrow> cell (stackTop r) k = r + word_of_nat (kStackSize - 16 - 4 * Suc k)"
  by (simp add: cell_def stackTop_def hijack_layout of_nat_diff algebra_simps)

lemma outside_cell: "outside r a \<Longrightarrow> k < 1000 \<Longrightarrow> a \<noteq> cell (stackTop r) k"
  unfolding cell_in_block by (rule outside_neq) (simp_all add: hijack_layout)

lemma flag_cell: "k < 1000 \<Longrightarrow> unat d < 512 \<Longrightarrow> flagCell r d \<noteq> cell (stackTop r) k"
proof
  assume k: "k < 1000" and d: "unat d < 512" and "flagCell r d = cell (stackTop r) k"
  then have "(word_of_nat (kFlagOff + unat d) :: 32 word) = word_of_nat (kStackSize - 16 - 4 * Suc k)"
    unfolding cell_in_block [OF k] flagCell_def by (simp add: algebra_simps)
  then have "kFlagOff + unat d = kStackSize - 16 - 4 * Suc k"
    using d by (subst (asm) word_of_nat_eq_iff) (simp add: take_bit_nat_eq_self hijack_layout)
  then show False using k by (simp add: hijack_layout)
qed

lemma flag_flag: "flagCell r d = flagCell r d' \<longleftrightarrow> d = d'"
  by (simp add: flagCell_def)

lemma pushad_pushes: "push (eflags (pushad c)) (pushad c) = fold push (frame c) c"
  by (simp add: pushad_def frame_def)

text \<open>The prologue saves the registers and the stack limits of the thread and installs the limits of the block.\<close>

lemma prologue_performed:
  assumes s: "esp c = stackTop r" and out: "outside r (teb c + 4)" "outside r (teb c + 8)" "outside r (teb c + 0xE0C)"
  shows "performs f (prologue r) c = (fold push (frame c) c)\<lparr>eax := r, mem := (mem (fold push (frame c) c))
    (flagCell r 16 := mem (fold push (frame c) c) (teb c + 0x18), flagCell r 4 := mem c (teb c + 4), flagCell r 8 := mem c (teb c + 8),
     flagCell r 12 := mem c (teb c + 0xE0C), teb c + 4 := r + word_of_nat kTotal, teb c + 8 := r, teb c + 0xE0C := r)\<rparr>"
proof -
  let ?p = "fold push (frame c) c"
  have mem: "mem ?p a = mem c a" if "outside r a" for a
    using outside_cell [OF that] s by (intro pushes_other) simp
  have "performs f (prologue r) c = performs f (drop 2 (prologue r)) ?p"
    by (simp add: prologue_def Let_def pushad_pushes [symmetric])
  also have "\<dots> = ?p\<lparr>eax := r, mem := (mem ?p)
    (flagCell r 16 := mem ?p (teb c + 0x18), flagCell r 4 := mem c (teb c + 4), flagCell r 8 := mem c (teb c + 8),
     flagCell r 12 := mem c (teb c + 0xE0C), teb c + 4 := r + word_of_nat kTotal, teb c + 8 := r, teb c + 0xE0C := r)\<rparr>"
    using out [THEN mem] out [THEN outside_flag(1)] out [THEN outside_flag(2)] out [THEN outside_flag(3)]
      out [THEN outside_flag(4)] out [THEN outside_flag(5)]
    by (simp add: prologue_def Let_def store_def pushes_state flagCell_def [symmetric] flag_flag)
  finally show ?thesis .
qed

text \<open>
  The state in which the function is entered, and what is relied on of it: it returns to where it was
  called from, takes its arguments off the stack, and leaves the cells alone that the code keeps the
  thread's state in.
\<close>

definition entryState :: "32 word \<Rightarrow> 32 word \<Rightarrow> 32 word list \<Rightarrow> 32 word \<Rightarrow> callee \<Rightarrow> cpu \<Rightarrow> cpu" where
  "entryState r func32 args base f c = (let c = performs f (prologue r @ map PushImm (rev args)) c in
     push (base + word_of_nat (length (encodes (prologue r @ map PushImm (rev args) @ [MovEaxImm func32, CallEax]))))
       (c\<lparr>eax := func32, eip := func32\<rparr>))"

definition savedCells :: "32 word \<Rightarrow> 32 word list" where
  "savedCells r = flagCell r 4 # flagCell r 8 # flagCell r 12 # map (cell (stackTop r)) [0..<9]"

definition returnsTo :: "32 word list \<Rightarrow> nat \<Rightarrow> cpu \<Rightarrow> cpu \<Rightarrow> bool" where
  "returnsTo cells n e e' \<longleftrightarrow> eip e' = top e \<and> esp e' = esp e + 4 + 4 * word_of_nat n \<and> teb e' = teb e
     \<and> list_all (\<lambda>a. mem e' a = mem e a) cells"

lemma performs_pushes: "performs f (map PushImm vs) c = fold push vs c"
  by (induction vs arbitrary: c) simp_all

lemma entry_facts:
  fixes f :: callee and r func32 base :: "32 word" and args :: "32 word list" and c :: cpu
  assumes s: "esp c = stackTop r" and out: "outside r (teb c + 4)" "outside r (teb c + 8)" "outside r (teb c + 0xE0C)"
    and n: "length args < 900"
  defines "e \<equiv> entryState r func32 args base f c"
  shows "eip e = func32" and "esp e = stackTop r - 36 - 4 * word_of_nat (length args) - 4" and "teb e = teb c"
    and "i < length args \<Longrightarrow> mem e (esp e + 4 + 4 * word_of_nat i) = args ! i"
    and "mem e (teb c + 4) = r + word_of_nat kTotal" and "mem e (teb c + 8) = r" and "mem e (teb c + 0xE0C) = r"
    and "mem e (flagCell r 4) = mem c (teb c + 4)" and "mem e (flagCell r 8) = mem c (teb c + 8)"
    and "mem e (flagCell r 12) = mem c (teb c + 0xE0C)"
    and "k < 9 \<Longrightarrow> mem e (cell (stackTop r) k) = frame c ! k"
proof -
  let ?p = "performs f (prologue r) c"
  define ret where "ret = base + word_of_nat (length (encodes (prologue r @ map PushImm (rev args) @ [MovEaxImm func32, CallEax])))"
  note p = prologue_performed [OF s out, of f]
  have esp_p: "esp ?p = stackTop r - 36" and teb_p: "teb ?p = teb c" using s by (simp_all add: p pushes_state)
  have shift: "cell (esp ?p) k = cell (stackTop r) (9 + k)" for k
    by (simp add: esp_p cell_def algebra_simps)
  have e: "e = push ret ((fold push (rev args) ?p)\<lparr>eax := func32, eip := func32\<rparr>)"
    by (simp add: e_def entryState_def ret_def performs_pushes Let_def)
  have other: "mem e a = mem ?p a" if "\<forall>k < 10 + length args. 9 \<le> k \<longrightarrow> a \<noteq> cell (stackTop r) k" for a
  proof -
    have "\<forall>k < length (rev args). a \<noteq> cell (esp ?p) k" using that by (simp add: shift)
    moreover have "a \<noteq> stackTop r - 36 - 4 * word_of_nat (length args) - 4"
      using that [rule_format, of "9 + length args"] by (simp add: cell_def algebra_simps)
    ultimately show ?thesis by (simp add: e pushes_other pushes_state esp_p)
  qed
  show "eip e = func32" "esp e = stackTop r - 36 - 4 * word_of_nat (length args) - 4" "teb e = teb c"
    using e by (simp_all add: pushes_state esp_p teb_p)
  show "mem e (esp e + 4 + 4 * word_of_nat i) = args ! i" if "i < length args"
  proof -
    have a: "esp e + 4 + 4 * word_of_nat i = cell (esp ?p) (length args - 1 - i)"
      using that by (simp add: e pushes_state cell_def of_nat_diff algebra_simps)
    have "cell (esp ?p) (length args - 1 - i) \<noteq> cell (esp ?p) (length args)"
      using that n by (subst cell_inject) auto
    then have "cell (esp ?p) (length args - 1 - i) \<noteq> esp ?p - 4 * word_of_nat (length args) - 4"
      by (simp add: cell_def algebra_simps)
    then have "mem e (cell (esp ?p) (length args - 1 - i)) = mem (fold push (rev args) ?p) (cell (esp ?p) (length args - 1 - i))"
      by (simp add: e pushes_state)
    also have "\<dots> = rev args ! (length args - 1 - i)"
      using that n by (intro pushes_cell) auto
    finally show ?thesis unfolding a using that by (simp add: rev_nth)
  qed
  have out': "mem e a = mem ?p a" if "outside r a" for a
    using outside_cell [OF that] n by (intro other) auto
  have flag: "mem e (flagCell r d) = mem ?p (flagCell r d)" if "unat d < 512" for d
    using flag_cell [OF _ that] n by (intro other) auto
  show "mem e (teb c + 4) = r + word_of_nat kTotal" "mem e (teb c + 8) = r" "mem e (teb c + 0xE0C) = r"
    using out [THEN out'] by (simp_all add: p)
  show "mem e (flagCell r 4) = mem c (teb c + 4)" "mem e (flagCell r 8) = mem c (teb c + 8)"
    "mem e (flagCell r 12) = mem c (teb c + 0xE0C)"
    using out [THEN outside_flag(2)] out [THEN outside_flag(3)] out [THEN outside_flag(4)] flag [of 4] flag [of 8] flag [of 12]
    by (auto simp: p flag_flag)
  show "mem e (cell (stackTop r) k) = frame c ! k" if "k < 9"
  proof -
    have "mem e (cell (stackTop r) k) = mem ?p (cell (stackTop r) k)"
      using that n by (intro other) (auto simp: cell_inject)
    also have "\<dots> = mem (fold push (frame c) c) (cell (stackTop r) k)"
      using out [THEN outside_cell, of k] flag_cell [of k 4 r] flag_cell [of k 8 r] flag_cell [of k 12 r] flag_cell [of k 16 r] that
      by (auto simp: p)
    also have "\<dots> = frame c ! k" using pushes_cell [of "frame c" k c] s that by simp
    finally show ?thesis .
  qed
qed

lemma drop1_fields [simp]:
  "esp (drop1 c) = esp c + 4" "mem (drop1 c) = mem c" "teb (drop1 c) = teb c"
  "eax (drop1 c) = eax c" "ecx (drop1 c) = ecx c" "edx (drop1 c) = edx c" "ebx (drop1 c) = ebx c"
  "ebp (drop1 c) = ebp c" "esi (drop1 c) = esi c" "edi (drop1 c) = edi c" "eflags (drop1 c) = eflags c"
  by (simp_all add: drop1_def)

text \<open>The epilogue stores the result, gives the thread its limits back and restores its registers.\<close>

lemma epilogue_cells: "epilogue r savedEsp savedEip =
    [MovMemEax (flagCell r 0), MovEaxImm (flagCell r 4), LoadEax, MovFsEax 4, MovEaxImm (flagCell r 8), LoadEax, MovFsEax 8,
     MovEaxImm (flagCell r 12), LoadEax, MovFsEax 0xE0C, Popfd, Popad, MovEspImm savedEsp, PushImm savedEip]"
  by (simp add: epilogue_def flagCell_def Let_def)

lemma epilogue_performed:
  fixes f :: callee and r savedEsp savedEip :: "32 word" and c c' :: cpu
  assumes s: "esp c = stackTop r - 36" and out: "outside r (teb c + 4)" "outside r (teb c + 8)" "outside r (teb c + 0xE0C)"
    and below: "savedEsp - 4 \<notin> {teb c + 4, teb c + 8, teb c + 0xE0C, flagCell r 0}"
  defines "c' \<equiv> performs f (epilogue r savedEsp savedEip) c"
  shows "esp c' = savedEsp - 4" and "top c' = savedEip" and "teb c' = teb c"
    and "mem c' (flagCell r 0) = eax c" and "mem c' (teb c + 4) = mem c (flagCell r 4)"
    and "mem c' (teb c + 8) = mem c (flagCell r 8)" and "mem c' (teb c + 0xE0C) = mem c (flagCell r 12)"
    and "[eax c', ecx c', edx c', ebx c', ebp c', esi c', edi c', eflags c'] = map (\<lambda>k. mem c (cell (stackTop r) k)) [0, 1, 2, 3, 5, 6, 7, 8]"
proof -
  define m where "m = (mem c)(flagCell r 0 := eax c, teb c + 4 := mem c (flagCell r 4), teb c + 8 := mem c (flagCell r 8),
    teb c + 0xE0C := mem c (flagCell r 12))"
  have pop: "performs f (epilogue r savedEsp savedEip) c
      = push savedEip ((popad (drop1 (c\<lparr>eax := mem c (flagCell r 12), mem := m, eflags := m (stackTop r - 36)\<rparr>)))\<lparr>esp := savedEsp\<rparr>)"
    using out [THEN outside_flag(3)] out [THEN outside_flag(4)] s
    by (simp add: epilogue_cells store_def flag_flag m_def top_def)
  have m: "m (cell (stackTop r) k) = mem c (cell (stackTop r) k)" if "k < 9" for k
    using out [THEN outside_cell, of k] flag_cell [of k 0 r] that by (auto simp: m_def)
  have cells: "stackTop r - 36 = cell (stackTop r) 8" "stackTop r - 32 = cell (stackTop r) 7" "stackTop r - 28 = cell (stackTop r) 6"
    "stackTop r - 24 = cell (stackTop r) 5" "stackTop r - 16 = cell (stackTop r) 3" "stackTop r - 12 = cell (stackTop r) 2"
    "stackTop r - 8 = cell (stackTop r) (Suc 0)" "stackTop r - 4 = cell (stackTop r) 0"
    by (simp_all add: cell_def)
  have "[eax c', ecx c', edx c', ebx c', ebp c', esi c', edi c', eflags c'] = map (\<lambda>k. m (cell (stackTop r) k)) [0, 1, 2, 3, 5, 6, 7, 8]"
    using s unfolding c'_def pop by (simp add: popad_def Let_def top_def cells [symmetric])
  then show "[eax c', ecx c', edx c', ebx c', ebp c', esi c', edi c', eflags c'] = map (\<lambda>k. mem c (cell (stackTop r) k)) [0, 1, 2, 3, 5, 6, 7, 8]"
    by (simp add: m)
  show "esp c' = savedEsp - 4" "top c' = savedEip" "teb c' = teb c"
    unfolding c'_def pop by (simp_all add: popad_def Let_def top_def)
  have mem: "mem c' a = m a" if "a \<noteq> savedEsp - 4" for a
    using that unfolding c'_def pop by (simp add: popad_def Let_def)
  show "mem c' (flagCell r 0) = eax c" "mem c' (teb c + 4) = mem c (flagCell r 4)"
    "mem c' (teb c + 8) = mem c (flagCell r 8)" "mem c' (teb c + 0xE0C) = mem c (flagCell r 12)"
    using below out [THEN outside_flag(1)] by (subst mem; auto simp: m_def)+
qed

section \<open>Properties\<close>

lemma straight_prologue: "list_all straight (prologue r)" "list_all straight (epilogue r a b)" "list_all straight (map PushImm vs)"
  by (simp_all add: prologue_def epilogue_def Let_def list_all_iff)

lemma length_program: "length (hijackProgram r func32 args a b) = 33 + length args"
  by (simp add: hijackProgram_def prologue_def epilogue_def Let_def)

text \<open>
  C16. The code that a borrowed thread is diverted to does what it is for. Entered with the stack of its
  own block, it calls the function with the given arguments in their order, on that stack and with the
  thread's stack limits set to the block. Provided the function returns as a \<open>stdcall\<close> function does, the
  code comes to its end, the result is in the flag, the limits of the thread are the old ones again, and
  the thread goes on at the saved instruction and stack pointer with all its other registers unchanged.
\<close>

theorem hijackShell_correct:
  assumes "length args \<le> 8" and "eip c = r + word_of_nat kShellOff" and "esp c = stackTop r"
    and "outside r (teb c + 4)" "outside r (teb c + 8)" "outside r (teb c + 0xE0C)" and "outside r savedEip"
    and "savedEsp - 4 \<notin> {teb c + 4, teb c + 8, teb c + 0xE0C, flagCell r 0}"
    and "e = entryState r func32 args (r + word_of_nat kShellOff) f c"
    and "returnsTo (savedCells r) (length args) e (f func32 e)"
  shows "(eip e = func32 \<and> (\<forall>i < length args. mem e (esp e + 4 + 4 * word_of_nat i) = args ! i)
      \<and> mem e (teb c + 4) = r + word_of_nat kTotal \<and> mem e (teb c + 8) = r \<and> mem e (teb c + 0xE0C) = r)
    \<and> (\<exists>c'. run f (r + word_of_nat kShellOff) (hijackShell r func32 args savedEsp savedEip) (34 + length args) c = Some c'
      \<and> eip c' = savedEip \<and> esp c' = savedEsp \<and> mem c' (flagCell r 0) = eax (f func32 e)
      \<and> mem c' (teb c + 4) = mem c (teb c + 4) \<and> mem c' (teb c + 8) = mem c (teb c + 8) \<and> mem c' (teb c + 0xE0C) = mem c (teb c + 0xE0C)
      \<and> [eax c', ecx c', edx c', ebx c', ebp c', esi c', edi c', eflags c'] = [eax c, ecx c, edx c, ebx c, ebp c, esi c, edi c, eflags c])"
    (is "?entered \<and> ?ran")
proof
  let ?base = "r + word_of_nat kShellOff" and ?n = "length args"
  have n: "?n < 900" using assms(1) by simp
  note entry = entry_facts [where ?func32.0 = func32 and args = args and base = "?base" and f = f, OF assms(3-6) n, folded assms(9)]
  show ?entered using entry(1,4-7) by simp
  define P1 where "P1 = prologue r @ map PushImm (rev args) @ [MovEaxImm func32]"
  define P2 where "P2 = epilogue r savedEsp savedEip"
  let ?code = "hijackShell r func32 args savedEsp savedEip"
  have code: "?code = encodes P1 @ encode CallEax @ encodes P2 @ encode Ret"
    by (simp add: hijackShell_encodes hijackProgram_def P1_def P2_def)
  have size: "length ?code < 2 ^ 32" using assms(1) by (simp add: length_hijackShell)
  have st: "list_all straight P1" "list_all straight P2" by (simp_all add: P1_def P2_def straight_prologue)
  have len: "length P1 = 17 + ?n" "length P2 = 14" by (simp_all add: P1_def P2_def prologue_def epilogue_def Let_def)
  define c1 where "c1 = executes f P1 c"
  have eip1: "eip c1 = ?base + word_of_nat (length (encodes P1))"
    unfolding c1_def using executes_eip [OF st(1)] assms(2) by simp
  define c2 where "c2 = f func32 e"
  have c2: "execute f CallEax c1 = c2"
    using eip1 assms(2) unfolding c1_def c2_def P1_def assms(9) entryState_def executes_performs [OF st(1), unfolded P1_def]
    by (simp add: execute_def Let_def performs_pushes algebra_simps)
  have top: "top e = ?base + word_of_nat (length (encodes P1 @ encode CallEax))"
    unfolding assms(9) entryState_def P1_def by (simp add: Let_def top_def)
  have ret: "eip c2 = ?base + word_of_nat (length (encodes P1 @ encode CallEax))" "esp c2 = stackTop r - 36" "teb c2 = teb c"
    and kept: "\<And>a. a \<in> set (savedCells r) \<Longrightarrow> mem c2 a = mem e a"
    using assms(10) top entry(2,3) by (auto simp: returnsTo_def c2_def list_all_iff)
  define c3 where "c3 = executes f P2 c2"
  have eip3: "eip c3 = ?base + word_of_nat (length (encodes P1 @ encode CallEax @ encodes P2))"
    unfolding c3_def using executes_eip [OF st(2)] ret(1) by (simp add: algebra_simps)
  define d where "d = performs f P2 c2"
  have c3: "c3 = d\<lparr>eip := eip c2 + word_of_nat (length (encodes P2))\<rparr>"
    unfolding c3_def d_def executes_performs [OF st(2)] by simp
  note last = epilogue_performed [where c = c2 and f = f and savedEip = savedEip, OF ret(2) assms(4-6) [folded ret(3)] assms(8) [folded ret(3)],
      folded P2_def d_def, unfolded ret(3)]
  define c' where "c' = execute f Ret c3"
  have c': "c' = (drop1 d)\<lparr>eip := savedEip\<rparr>"
    unfolding c'_def execute_def c3 using last(2) by simp
  have r1: "run f ?base ?code (length P1 + 17) c = run f ?base ?code 17 c1"
    unfolding c1_def by (rule run_straight [OF size st(1), of "[]"]) (use code assms(2) in simp_all)
  have r2: "run f ?base ?code (Suc 16) c1 = run f ?base ?code 16 c2"
    unfolding c2 [symmetric] by (rule run_one [OF _ size eip1]) (simp add: code)
  have r3: "run f ?base ?code (length P2 + 2) c2 = run f ?base ?code 2 c3"
    unfolding c3_def by (rule run_straight [OF size st(2), of "encodes P1 @ encode CallEax"]) (use code ret in simp_all)
  have r4: "run f ?base ?code (Suc 1) c3 = run f ?base ?code 1 c'"
    unfolding c'_def by (rule run_one [OF _ size eip3, of Ret "[]"]) (simp add: code)
  have "unat (savedEip - ?base) = unat (savedEip - r) - kShellOff"
  proof -
    have "word_of_nat kShellOff \<le> savedEip - r"
      using assms(7) by (simp add: outside_def word_le_nat_alt hijack_layout)
    then have "unat (savedEip - r - word_of_nat kShellOff) = unat (savedEip - r) - unat (word_of_nat kShellOff :: 32 word)"
      by (rule unat_sub)
    then show ?thesis by (simp add: hijack_layout diff_diff_eq)
  qed
  then have "length ?code \<le> unat (savedEip - ?base)"
    using assms(1,7) by (simp add: length_hijackShell outside_def hijack_layout)
  then have r5: "run f ?base ?code (Suc 0) c' = Some c'"
    unfolding c' by simp
  have "run f ?base ?code (length P1 + 17) c = Some c'"
    using r1 r2 r3 r4 r5 by (simp add: len(2) numeral_eq_Suc del: run.simps)
  then have run: "run f ?base ?code (34 + ?n) c = Some c'" by (simp add: len(1) add.commute del: run.simps)
  have regs: "[eax d, ecx d, edx d, ebx d, ebp d, esi d, edi d, eflags d] = [eax c, ecx c, edx c, ebx c, ebp c, esi c, edi c, eflags c]"
    unfolding last(8) using kept entry(11) by (simp add: savedCells_def frame_def)
  have "mem d (teb c + 4) = mem c (teb c + 4)" "mem d (teb c + 8) = mem c (teb c + 8)" "mem d (teb c + 0xE0C) = mem c (teb c + 0xE0C)"
    unfolding last(5-7) using kept entry(8-10) by (simp_all add: savedCells_def)
  with regs run last(1,4) show ?ran
    by (intro exI [of _ c']) (simp add: c' c2_def)
qed

text \<open>A function with one argument that answers 7, called in a thread at \<open>0x401000\<close>.\<close>

definition sampleCallee :: callee where
  "sampleCallee g e = e\<lparr>eip := top e, esp := esp e + 4 + 4, eax := 7\<rparr>"

lemma sampleCallee_result: "eax (sampleCallee g e) = 7"
  by (simp add: sampleCallee_def)

definition sampleCpu :: cpu where
  "sampleCpu = \<lparr>eax = 1, ecx = 2, edx = 3, ebx = 4, esp = stackTop 0x10000000, ebp = 5, esi = 6, edi = 7, eflags = 0x202,
     eip = 0x10000000 + word_of_nat kShellOff, teb = 0x7F000000, mem = (\<lambda>_. 0)\<rparr>"

theorem hijackShell_correct_witness:
  "\<exists>c'. run sampleCallee (0x10000000 + word_of_nat kShellOff) (hijackShell 0x10000000 0x5000 [5] 0x19FF00 0x401000) 35 sampleCpu = Some c'
     \<and> eip c' = 0x401000 \<and> esp c' = 0x19FF00 \<and> mem c' (flagCell 0x10000000 0) = 7 \<and> ebx c' = 4"
proof -
  let ?e = "entryState 0x10000000 0x5000 [5] (0x10000000 + word_of_nat kShellOff) sampleCallee sampleCpu"
  have ret: "returnsTo (savedCells 0x10000000) (length [5::32 word]) ?e (sampleCallee 0x5000 ?e)"
    by (simp add: returnsTo_def sampleCallee_def list_all_iff)
  have out: "outside 0x10000000 (teb sampleCpu + 4)" "outside 0x10000000 (teb sampleCpu + 8)"
      "outside 0x10000000 (teb sampleCpu + 0xE0C)" "outside 0x10000000 0x401000"
    by (simp_all add: outside_def sampleCpu_def kTotal_def kStackSize_def)
  have "(0x19FF00 :: 32 word) - 4 \<notin> {teb sampleCpu + 4, teb sampleCpu + 8, teb sampleCpu + 0xE0C, flagCell 0x10000000 0}"
    by (simp add: sampleCpu_def flagCell_def kFlagOff_def kStackSize_def)
  from hijackShell_correct [OF _ _ _ out this refl ret] show ?thesis
    by (auto simp: sampleCpu_def sampleCallee_result)
qed

end
