(* ===== verification/Hijack.thy ===== *)
theory Hijack
  imports HijackShell
begin

text \<open>
  \<open>call32ViaThreadHijack\<close> (\<open>StarInjectorManualMap.cpp\<close>, lines 541 to 752): one 32-bit call in a thread of the
  target that is suspended, diverted to the code of \<open>HijackShell\<close> and polled. As in \<open>ManualMap\<close>, what is
  done is a trace, and every call of the system is answered by a function of the trace so far.
\<close>

section \<open>Effects\<close>

record 'c thread_context =
  cxEip :: "32 word"
  cxEsp :: "32 word"
  cxRest :: 'c

datatype 'c hj_effect =
    ThreadOpened
  | ThreadClosed
  | Suspended
  | Resumed
  | ContextSet "'c thread_context" bool
  | BlockAllocated "64 word"
  | BlockFreed "64 word"
  | BlockWrote nat bytes bool
  | BlockRead nat nat
  | TebWrote "32 word" "32 word"

record 'c hj_world =
  hjThreads :: "(32 word \<times> 32 word) list option"
  hjSelf :: "32 word"
  hjOpenThread :: "'c hj_effect list \<Rightarrow> bool"
  hjSuspend :: "'c hj_effect list \<Rightarrow> bool"
  hjContext :: "'c hj_effect list \<Rightarrow> 'c thread_context option"
  hjAlloc :: "'c hj_effect list \<Rightarrow> 64 word"
  hjWrite :: "'c hj_effect list \<Rightarrow> bool"
  hjSetContext :: "'c hj_effect list \<Rightarrow> bool"
  hjRead :: "'c hj_effect list \<Rightarrow> nat \<Rightarrow> nat \<Rightarrow> bytes option"

type_synonym 'c hj_trace = "'c hj_effect list"

text \<open>The first thread of the process, as pairs of owner and thread; 0 is none.\<close>

fun pickThread :: "32 word \<Rightarrow> 32 word \<Rightarrow> (32 word \<times> 32 word) list \<Rightarrow> 32 word" where
  "pickThread pid self [] = 0"
| "pickThread pid self (t # ts) = (if fst t = pid \<and> snd t \<noteq> self then snd t else pickThread pid self ts)"

definition pending :: "32 word" where "pending = 0xFFFFFFFF"

definition writeBlock :: "'c hj_world \<Rightarrow> nat \<Rightarrow> bytes \<Rightarrow> 'c hj_trace \<Rightarrow> bool \<times> 'c hj_trace" where
  "writeBlock W off b tr = (let ok = hjWrite W tr in (ok, tr @ [BlockWrote off b ok]))"

definition setContext :: "'c hj_world \<Rightarrow> 'c thread_context \<Rightarrow> 'c hj_trace \<Rightarrow> bool \<times> 'c hj_trace" where
  "setContext W cx tr = (let ok = hjSetContext W tr in (ok, tr @ [ContextSet cx ok]))"

text \<open>A read that is answered, with as many bytes as asked for.\<close>

definition readBlock :: "'c hj_world \<Rightarrow> nat \<Rightarrow> nat \<Rightarrow> 'c hj_trace \<Rightarrow> bytes option \<times> 'c hj_trace" where
  "readBlock W off n tr = (case hjRead W tr off n of
       Some b \<Rightarrow> (if length b = n then Some b else None, tr @ [BlockRead off n])
     | None \<Rightarrow> (None, tr @ [BlockRead off n]))"

text \<open>
  The loop that waits for the flag to change; \<open>waited\<close> is a 32-bit sum of steps of 50 ms. \<open>None\<close> is the end
  of the fuel.
\<close>

fun poll :: "nat \<Rightarrow> 'c hj_world \<Rightarrow> 32 word \<Rightarrow> 32 word \<Rightarrow> 'c hj_trace \<Rightarrow> (32 word \<times> 'c hj_trace) option" where
  "poll 0 W timeout waited tr = None"
| "poll (Suc fuel) W timeout waited tr =
     (if \<not> waited < timeout then Some (pending, tr)
      else let (b, tr) = readBlock W kFlagOff 4 tr in
      case b of None \<Rightarrow> poll fuel W timeout (waited + 50) tr
      | Some b \<Rightarrow> let current = word_of_nat (leNat b) in
          if current \<noteq> pending then Some (current, tr) else poll fuel W timeout (waited + 50) tr)"

text \<open>After a timeout: the limits that the code saved are looked up and written back, and the thread's context is restored; whether the suspension succeeds is not asked.\<close>

definition restoreLimits :: "'c hj_world \<Rightarrow> 'c hj_trace \<Rightarrow> 'c hj_trace" where
  "restoreLimits W tr =
     (let (t, tr) = readBlock W (kFlagOff + 16) 4 tr in
      case t of None \<Rightarrow> tr
      | Some t \<Rightarrow> let tebAddr = word_of_nat (leNat t) in
        if tebAddr = 0 then tr
        else let (cap, tr) = readBlock W (kFlagOff + 4) 12 tr in
        case cap of None \<Rightarrow> tr
        | Some cap \<Rightarrow>
          let captured = (\<lambda>i. word_of_nat (leNat (take 4 (drop (4 * i) cap)))) in
          if captured 0 = 0 then tr
          else tr @ [TebWrote (tebAddr + 4) (captured 0), TebWrote (tebAddr + 8) (captured 1), TebWrote (tebAddr + 0xE0C) (captured 2)])"

definition recover :: "'c hj_world \<Rightarrow> 'c thread_context \<Rightarrow> 'c hj_trace \<Rightarrow> 'c hj_trace" where
  "recover W saved tr =
     (if \<not> hjOpenThread W tr then tr
      else let tr = restoreLimits W (tr @ [ThreadOpened, Suspended]);
               (ok, tr) = setContext W saved tr in
      tr @ [Resumed, ThreadClosed])"

text \<open>
  From the writing of the code on: the result, what is stored through \<open>outResult\<close>, and the trace.
\<close>

definition diverted :: "32 word \<Rightarrow> 'c thread_context \<Rightarrow> 'c thread_context" where
  "diverted remote32 saved = saved\<lparr>cxEip := remote32 + word_of_nat kShellOff, cxEsp := remote32 + word_of_nat (kStackSize - 16)\<rparr>"

definition divertThread :: "'c hj_world \<Rightarrow> nat \<Rightarrow> bytes \<Rightarrow> 'c thread_context \<Rightarrow> 64 word \<Rightarrow> 32 word \<Rightarrow> 'c hj_trace
    \<Rightarrow> ((bool \<times> 32 word option) \<times> 'c hj_trace) option" where
  "divertThread W fuel shell saved remote timeout tr =
     (let (ok, tr) = writeBlock W kFlagOff (leBytes 4 (unat pending)) tr;
          (ok, tr) = (if ok then writeBlock W kShellOff shell tr else (False, tr)) in
      if \<not> ok then (let (ok, tr) = setContext W saved tr in Some ((False, None), tr @ [Resumed, BlockFreed remote, ThreadClosed]))
      else let (ok, tr) = setContext W (diverted (ucast remote) saved) tr in
      if \<not> ok then Some ((False, None), tr @ [Resumed, BlockFreed remote, ThreadClosed])
      else do { (result, tr) \<leftarrow> poll fuel W timeout 0 (tr @ [Resumed]);
        let tr = tr @ [BlockFreed remote, ThreadClosed];
        Some (if result = pending then ((False, Some result), recover W saved tr) else ((True, Some result), tr)) })"

definition call32ViaThreadHijack :: "'c hj_world \<Rightarrow> nat \<Rightarrow> 32 word \<Rightarrow> 32 word \<Rightarrow> 32 word list option \<Rightarrow> int \<Rightarrow> 32 word
    \<Rightarrow> ((bool \<times> 32 word option) \<times> 'c hj_trace) option" where
  "call32ViaThreadHijack W fuel pid func32 args nArgs timeout =
     (case hjThreads W of None \<Rightarrow> Some ((False, None), [])
      | Some threads \<Rightarrow>
      if pickThread pid (hjSelf W) threads = 0 then Some ((False, None), [])
      else if \<not> hjOpenThread W [] then Some ((False, None), [])
      else let tr = [ThreadOpened] in
      if \<not> hjSuspend W tr then Some ((False, None), tr @ [ThreadClosed])
      else let tr = tr @ [Suspended] in
      case hjContext W tr of None \<Rightarrow> Some ((False, None), tr @ [Resumed, ThreadClosed])
      | Some saved \<Rightarrow>
      let remote = hjAlloc W tr in
      if remote = 0 then (let (ok, tr) = setContext W saved tr in Some ((False, None), tr @ [Resumed, ThreadClosed]))
      else let tr = tr @ [BlockAllocated remote] in
      if nArgs < 0 \<or> nArgs > 8 then Some ((False, None), tr)
      else divertThread W fuel (hijackShell (ucast remote) func32 (argValues args (nat nArgs)) (cxEsp saved) (cxEip saved))
             saved remote timeout tr)"

section \<open>What is held\<close>

text \<open>
  A run holds thread handles, suspensions and blocks. The account fails on a release of what is not
  held, on a context set in a thread that runs, and on a write outside the block.
\<close>

record hj_account =
  haThreads :: nat
  haSuspended :: nat
  haBlocks :: "64 word list"

fun hijackStep :: "'c hj_effect \<Rightarrow> hj_account \<Rightarrow> hj_account option" where
  "hijackStep ThreadOpened X = Some (X\<lparr>haThreads := haThreads X + 1\<rparr>)"
| "hijackStep ThreadClosed X = (if haThreads X = 0 then None else Some (X\<lparr>haThreads := haThreads X - 1\<rparr>))"
| "hijackStep Suspended X = Some (X\<lparr>haSuspended := haSuspended X + 1\<rparr>)"
| "hijackStep Resumed X = (if haSuspended X = 0 then None else Some (X\<lparr>haSuspended := haSuspended X - 1\<rparr>))"
| "hijackStep (ContextSet cx ok) X = (if haSuspended X = 0 then None else Some X)"
| "hijackStep (BlockAllocated a) X = Some (X\<lparr>haBlocks := a # haBlocks X\<rparr>)"
| "hijackStep (BlockFreed a) X = (if a \<in> set (haBlocks X) then Some (X\<lparr>haBlocks := remove1 a (haBlocks X)\<rparr>) else None)"
| "hijackStep (BlockWrote off b ok) X = (if haBlocks X = [] \<or> off + length b > kTotal then None else Some X)"
| "hijackStep (BlockRead off n) X = (if off + n > kTotal then None else Some X)"
| "hijackStep (TebWrote a v) X = (if haSuspended X = 0 then None else Some X)"

fun hijackAccount :: "hj_account \<Rightarrow> 'c hj_trace \<Rightarrow> hj_account option" where
  "hijackAccount X [] = Some X"
| "hijackAccount X (e # tr) = (case hijackStep e X of None \<Rightarrow> None | Some Y \<Rightarrow> hijackAccount Y tr)"

definition nothingHeld :: hj_account where
  "nothingHeld = \<lparr>haThreads = 0, haSuspended = 0, haBlocks = []\<rparr>"

lemma hijackAccount_append:
  "hijackAccount X (t @ u) = (case hijackAccount X t of None \<Rightarrow> None | Some Y \<Rightarrow> hijackAccount Y u)"
  by (induction t arbitrary: X) (auto split: option.splits)

lemma poll_reads: "poll fuel W timeout waited tr = Some (r, tr') \<Longrightarrow> hijackAccount X tr = Some Y \<Longrightarrow> hijackAccount X tr' = Some Y"
proof (induction fuel arbitrary: waited tr)
  case (Suc fuel)
  obtain b tr1 where rd: "readBlock W kFlagOff 4 tr = (b, tr1)" by force
  then have "hijackAccount X tr1 = Some Y"
    using Suc.prems(2) by (auto simp: readBlock_def hijackAccount_append hijack_layout split: option.splits)
  then show ?case using Suc.prems Suc.IH by (auto simp: rd Let_def split: if_splits option.splits)
qed simp

lemma restoreLimits_account: "hijackAccount X tr = Some Y \<Longrightarrow> haSuspended Y \<noteq> 0 \<Longrightarrow> hijackAccount X (restoreLimits W tr) = Some Y"
  by (auto simp: restoreLimits_def readBlock_def hijackAccount_append hijack_layout Let_def split: option.splits prod.splits if_splits)

lemma recover_account: "hijackAccount X tr = Some nothingHeld \<Longrightarrow> hijackAccount X (recover W saved tr) = Some nothingHeld"
proof -
  assume held: "hijackAccount X tr = Some nothingHeld"
  let ?Y = "\<lparr>haThreads = 1, haSuspended = 1, haBlocks = []\<rparr>"
  have "hijackAccount X (tr @ [ThreadOpened, Suspended]) = Some ?Y"
    using held by (simp add: hijackAccount_append nothingHeld_def)
  then have "hijackAccount X (restoreLimits W (tr @ [ThreadOpened, Suspended])) = Some ?Y"
    by (rule restoreLimits_account) simp
  then show ?thesis using held
    by (auto simp: recover_def setContext_def Let_def hijackAccount_append nothingHeld_def)
qed

lemma hijackShell_fits: "length args \<le> 8 \<Longrightarrow> kShellOff + length (hijackShell r f args a b) \<le> kFlagOff"
  by (simp add: length_hijackShell hijack_layout)

section \<open>Properties\<close>

lemma length_argValues [simp]: "length (argValues args n) = n"
  by (simp add: argValues_def split: option.split)

text \<open>The trace of a call that has diverted its thread, up to the first poll.\<close>

definition divertedTrace :: "64 word \<Rightarrow> bytes \<Rightarrow> 'c thread_context \<Rightarrow> 'c hj_trace" where
  "divertedTrace remote shell saved = [ThreadOpened, Suspended, BlockAllocated remote,
     BlockWrote kFlagOff (leBytes 4 (unat pending)) True, BlockWrote kShellOff shell True,
     ContextSet (diverted (ucast remote) saved) True, Resumed]"

lemma divertThread_cases:
  assumes "divertThread W fuel shell saved remote timeout [ThreadOpened, Suspended, BlockAllocated remote] = Some (out, tr)"
  obtains (noWrite) ok ws where "out = (False, None)"
      "ws \<in> {[BlockWrote kFlagOff (leBytes 4 (unat pending)) False],
        [BlockWrote kFlagOff (leBytes 4 (unat pending)) True, BlockWrote kShellOff shell False]}"
      "tr = [ThreadOpened, Suspended, BlockAllocated remote] @ ws @ [ContextSet saved ok, Resumed, BlockFreed remote, ThreadClosed]"
  | (notDiverted) "out = (False, None)"
      "tr = [ThreadOpened, Suspended, BlockAllocated remote, BlockWrote kFlagOff (leBytes 4 (unat pending)) True,
         BlockWrote kShellOff shell True, ContextSet (diverted (ucast remote) saved) False, Resumed, BlockFreed remote, ThreadClosed]"
  | (ran) result tr1 where "poll fuel W timeout 0 (divertedTrace remote shell saved) = Some (result, tr1)"
      "out = (result \<noteq> pending, Some result)"
      "tr = (if result = pending then recover W saved (tr1 @ [BlockFreed remote, ThreadClosed]) else tr1 @ [BlockFreed remote, ThreadClosed])"
  using assms
  by (auto simp: divertThread_def writeBlock_def setContext_def divertedTrace_def Let_def simp del: leBytes.simps
      split: if_splits elim!: bind_SomeE)

lemma hijack_cases:
  assumes "call32ViaThreadHijack W fuel pid func32 args nArgs timeout = Some (out, tr)"
  obtains (none) "out = (False, None)" "tr \<in> {[], [ThreadOpened, ThreadClosed]}"
  | (noContext) "out = (False, None)" "tr = [ThreadOpened, Suspended, Resumed, ThreadClosed]"
  | (noBlock) cx ok where "out = (False, None)" "tr = [ThreadOpened, Suspended, ContextSet cx ok, Resumed, ThreadClosed]"
  | (badCount) remote where "nArgs < 0 \<or> nArgs > 8" "out = (False, None)" "tr = [ThreadOpened, Suspended, BlockAllocated remote]"
  | (block) remote saved where "0 \<le> nArgs" "nArgs \<le> 8" "remote \<noteq> 0" "hjContext W [ThreadOpened, Suspended] = Some saved"
      "divertThread W fuel (hijackShell (ucast remote) func32 (argValues args (nat nArgs)) (cxEsp saved) (cxEip saved))
         saved remote timeout [ThreadOpened, Suspended, BlockAllocated remote] = Some (out, tr)"
  using assms
  by (auto simp: call32ViaThreadHijack_def setContext_def Let_def split: if_splits option.splits)

lemma diverted_account:
  assumes "length shell \<le> 512"
  shows "hijackAccount nothingHeld (divertedTrace remote shell saved) = Some \<lparr>haThreads = 1, haSuspended = 0, haBlocks = [remote]\<rparr>"
  using assms by (simp add: divertedTrace_def nothingHeld_def hijack_layout del: leBytes.simps)

lemma divertThread_account:
  assumes shell: "length shell \<le> 512"
    and "divertThread W fuel shell saved remote timeout [ThreadOpened, Suspended, BlockAllocated remote] = Some (out, tr)"
  shows "hijackAccount nothingHeld tr = Some nothingHeld"
  using assms(2)
proof (cases rule: divertThread_cases)
  case (noWrite ok ws)
  then show ?thesis using shell by (auto simp: nothingHeld_def hijack_layout simp del: leBytes.simps)
next
  case notDiverted
  then show ?thesis using shell by (simp add: nothingHeld_def hijack_layout del: leBytes.simps)
next
  case (ran result tr1)
  from poll_reads [OF ran(1) diverted_account [OF shell]]
  have "hijackAccount nothingHeld (tr1 @ [BlockFreed remote, ThreadClosed]) = Some nothingHeld"
    by (simp add: hijackAccount_append nothingHeld_def)
  then show ?thesis using ran(3) recover_account by auto
qed


text \<open>With another number of arguments the thread stays suspended, its handle open and the block allocated.\<close>

lemma hijack_bad_count:
  assumes "nArgs < 0 \<or> nArgs > 8" and "hjThreads W = Some threads" and "pickThread pid (hjSelf W) threads \<noteq> 0"
    and "hjOpenThread W []" and "hjSuspend W [ThreadOpened]" and "hjContext W [ThreadOpened, Suspended] = Some saved"
    and "hjAlloc W [ThreadOpened, Suspended] = remote" and "remote \<noteq> 0"
  shows "call32ViaThreadHijack W fuel pid func32 args nArgs timeout
    = Some ((False, None), [ThreadOpened, Suspended, BlockAllocated remote])"
  using assms by (auto simp: call32ViaThreadHijack_def Let_def)

lemma poll_result:
  "poll fuel W timeout waited tr = Some (r, tr') \<Longrightarrow>
    (\<exists>n. tr' = tr @ replicate n (BlockRead kFlagOff 4)
       \<and> (r \<noteq> pending \<longrightarrow> n > 0 \<and> (\<exists>b. hjRead W (tr @ replicate (n - 1) (BlockRead kFlagOff 4)) kFlagOff 4 = Some b
            \<and> length b = 4 \<and> r = word_of_nat (leNat b))))"
proof (induction fuel arbitrary: waited tr)
  case (Suc fuel)
  let ?rd = "BlockRead kFlagOff 4"
  show ?case
  proof (cases "waited < timeout")
    case False
    then show ?thesis using Suc.prems by (auto intro: exI [of _ 0])
  next
    case True
    have step: "\<exists>n. tr' = tr @ replicate n ?rd \<and> (r \<noteq> pending \<longrightarrow> n > 0 \<and> (\<exists>b. hjRead W (tr @ replicate (n - 1) ?rd) kFlagOff 4 = Some b
            \<and> length b = 4 \<and> r = word_of_nat (leNat b)))" if rest: "poll fuel W timeout (waited + 50) (tr @ [?rd]) = Some (r, tr')"
    proof -
      from Suc.IH [OF rest] obtain n where n: "tr' = (tr @ [?rd]) @ replicate n ?rd"
        "r \<noteq> pending \<longrightarrow> n > 0 \<and> (\<exists>b. hjRead W ((tr @ [?rd]) @ replicate (n - 1) ?rd) kFlagOff 4 = Some b
            \<and> length b = 4 \<and> r = word_of_nat (leNat b))" by blast
      then show ?thesis by (intro exI [of _ "Suc n"]) (cases n; simp)
    qed
    show ?thesis
    proof (cases "hjRead W tr kFlagOff 4")
      case None
      then show ?thesis using Suc.prems True step by (simp add: readBlock_def)
    next
      case (Some b)
      show ?thesis
      proof (cases "length b = 4 \<and> word_of_nat (leNat b) \<noteq> pending")
        case True
        then have "tr' = tr @ [?rd]" "r = word_of_nat (leNat b)"
          using Suc.prems \<open>waited < timeout\<close> Some by (auto simp: readBlock_def Let_def)
        then show ?thesis using Some True by (intro exI [of _ 1]) simp
      next
        case False
        then show ?thesis using Suc.prems True Some step by (auto simp: readBlock_def Let_def split: if_splits)
      qed
    qed
  qed
qed simp

text \<open>
  A call in a borrowed thread that returns \<open>true\<close> has written the code for the call, diverted the
  suspended thread to it, resumed it, and then read from the flag the value that it reports; nothing
  else happened in the target before the block was freed.
\<close>

theorem hijack_true:
  assumes "call32ViaThreadHijack W fuel pid func32 args nArgs timeout = Some ((True, res), tr)"
  shows "\<exists>remote saved shell n b. shell = hijackShell (ucast remote) func32 (argValues args (nat nArgs)) (cxEsp saved) (cxEip saved)
    \<and> tr = divertedTrace remote shell saved @ replicate (Suc n) (BlockRead kFlagOff 4) @ [BlockFreed remote, ThreadClosed]
    \<and> hjContext W [ThreadOpened, Suspended] = Some saved
    \<and> hjRead W (divertedTrace remote shell saved @ replicate n (BlockRead kFlagOff 4)) kFlagOff 4 = Some b
    \<and> res = Some (word_of_nat (leNat b)) \<and> word_of_nat (leNat b) \<noteq> pending"
  using assms
proof (cases rule: hijack_cases)
  case (block remote saved)
  let ?shell = "hijackShell (ucast remote) func32 (argValues args (nat nArgs)) (cxEsp saved) (cxEip saved)"
  from block(5) show ?thesis
  proof (cases rule: divertThread_cases)
    case (ran result tr1)
    from poll_result [OF ran(1)] ran(2) obtain n b where
      "tr1 = divertedTrace remote ?shell saved @ replicate (Suc n) (BlockRead kFlagOff 4)"
      "hjRead W (divertedTrace remote ?shell saved @ replicate n (BlockRead kFlagOff 4)) kFlagOff 4 = Some b"
      "result = word_of_nat (leNat b)" "result \<noteq> pending" "res = Some result"
      by (auto simp: gr0_conv_Suc)
    then show ?thesis using ran(3) block(4)
      by (intro exI [of _ remote] exI [of _ saved] exI [of _ ?shell] exI [of _ n] exI [of _ b]) simp
  qed auto
qed auto

text \<open>
  C18. After a timeout nothing of the thread's stack limits is restored: the block that holds the saved
  limits has been freed before they are looked up, so where freed memory cannot be read the thread gets
  its old context but keeps the limits of a block that no longer exists.
\<close>

theorem hijack_timeout_keeps_limits:
  assumes "call32ViaThreadHijack W fuel pid func32 args nArgs timeout = Some ((False, Some v), tr)"
    and "\<forall>t off n. (\<exists>a. BlockFreed a \<in> set t) \<longrightarrow> hjRead W t off n = None"
  shows "\<forall>a w. TebWrote a w \<notin> set tr"
  using assms(1)
proof (cases rule: hijack_cases)
  case (block remote saved)
  from block(5) show ?thesis
  proof (cases rule: divertThread_cases)
    case (ran result tr1)
    from poll_result [OF ran(1)] have "\<forall>a w. TebWrote a w \<notin> set tr1" by (auto simp: divertedTrace_def)
    moreover have "hjRead W (tr1 @ [BlockFreed remote, ThreadClosed, ThreadOpened, Suspended]) off n = None" for off n
      using assms(2) by (simp add: exI [of _ remote])
    ultimately show ?thesis using ran(3)
      by (auto simp: recover_def restoreLimits_def readBlock_def setContext_def Let_def split: if_splits)
  qed auto
qed auto

lemma poll_ends: "unat timeout + 50 \<le> 2 ^ 32 \<Longrightarrow> unat timeout + 50 \<le> unat waited + 50 * fuel \<Longrightarrow> fuel > 0 \<Longrightarrow> \<exists>r. poll fuel W timeout waited tr = Some r"
proof (induction fuel arbitrary: waited tr)
  case (Suc fuel)
  show ?case
  proof (cases "waited < timeout")
    case True
    then have "unat (waited + 50) = unat waited + 50"
      using Suc.prems(1) by (subst unat_plus_if') (simp add: word_less_nat_alt)
    moreover have "fuel > 0" using True Suc.prems(2) by (cases fuel) (auto simp: word_less_nat_alt)
    ultimately have "\<exists>r. poll fuel W timeout (waited + 50) tr' = Some r" for tr'
      using Suc.prems by (intro Suc.IH) auto
    then show ?thesis using True by (auto simp: Let_def split: prod.split option.split)
  qed simp
qed simp

text \<open>
  C19. The wait for a borrowed thread ends: with a timeout at least 50 below the 32-bit limit the function
  returns, after one poll for each 50 milliseconds.
\<close>

theorem hijack_returns:
  assumes "unat timeout + 50 \<le> 2 ^ 32" and "unat timeout div 50 + 1 < fuel"
  shows "\<exists>out tr. call32ViaThreadHijack W fuel pid func32 args nArgs timeout = Some (out, tr)"
proof -
  have "unat timeout + 50 \<le> unat (0 :: 32 word) + 50 * fuel" using assms(2) by simp
  then have poll: "\<exists>r. poll fuel W timeout 0 tr = Some r" for tr
    using poll_ends [OF assms(1)] assms(2) by fastforce
  have "\<exists>a b t. (poll fuel W timeout 0 tr \<bind> (\<lambda>(result, tr). Some (g result tr))) = Some ((a, b), t)"
    for tr and g :: "32 word \<Rightarrow> 'a hj_trace \<Rightarrow> (bool \<times> 32 word option) \<times> 'a hj_trace"
    using poll [of tr] by (auto simp: split_beta) (metis surj_pair)
  then show ?thesis
    by (auto simp: call32ViaThreadHijack_def divertThread_def Let_def split: option.split prod.split)
qed

section \<open>A small target\<close>

text \<open>A target with one thread; the first poll finds \<open>answer\<close>, when there is one.\<close>

definition sampleContext :: "unit thread_context" where
  "sampleContext = \<lparr>cxEip = 0x401000, cxEsp = 0x19FF00, cxRest = ()\<rparr>"

definition sampleHijack :: "bytes option \<Rightarrow> unit hj_world" where
  "sampleHijack answer = \<lparr>hjThreads = Some [(1, 5)], hjSelf = 9, hjOpenThread = (\<lambda>_. True), hjSuspend = (\<lambda>_. True),
     hjContext = (\<lambda>_. Some sampleContext), hjAlloc = (\<lambda>_. 0x10000000), hjWrite = (\<lambda>_. True), hjSetContext = (\<lambda>_. True),
     hjRead = (\<lambda>tr off n. if off = kFlagOff then answer else None)\<rparr>"

abbreviation sampleShell :: bytes where
  "sampleShell \<equiv> hijackShell 0x10000000 0x5000 [5] 0x19FF00 0x401000"

lemma sampleHijack_poll: "poll (Suc fuel) (sampleHijack (Some (leBytes 4 7))) 100 0 tr = Some (7, tr @ [BlockRead kFlagOff 4])"
  by (simp add: readBlock_def sampleHijack_def pending_def Let_def del: leBytes.simps)

lemma sampleHijack_wait: "poll (Suc (Suc (Suc fuel))) (sampleHijack None) 100 0 tr
    = Some (pending, tr @ [BlockRead kFlagOff 4, BlockRead kFlagOff 4])"
  by (simp add: readBlock_def sampleHijack_def)

lemma sampleHijack_diverts:
  "call32ViaThreadHijack (sampleHijack answer) fuel 1 0x5000 (Some [5]) 1 100 =
    do { (result, tr) \<leftarrow> poll fuel (sampleHijack answer) 100 0 (divertedTrace 0x10000000 sampleShell sampleContext);
      let tr = tr @ [BlockFreed 0x10000000, ThreadClosed];
      Some (if result = pending then ((False, Some result), recover (sampleHijack answer) sampleContext tr) else ((True, Some result), tr)) }"
proof -
  let ?W = "sampleHijack answer"
  have "hjThreads ?W = Some [(1, 5)]" "hjSelf ?W = 9" "hjOpenThread ?W t" "hjSuspend ?W t" "hjContext ?W t = Some sampleContext"
    "hjAlloc ?W t = 0x10000000" "hjWrite ?W t" "hjSetContext ?W t"
    and "cxEip sampleContext = 0x401000" "cxEsp sampleContext = 0x19FF00" for t
    by (simp_all add: sampleHijack_def sampleContext_def)
  then show ?thesis
    by (simp add: call32ViaThreadHijack_def divertThread_def writeBlock_def setContext_def divertedTrace_def argValues_def
        Let_def del: leBytes.simps poll.simps)
qed

lemma sampleHijack_answers: "call32ViaThreadHijack (sampleHijack (Some (leBytes 4 7))) (Suc fuel) 1 0x5000 (Some [5]) 1 100
    = Some ((True, Some 7), divertedTrace 0x10000000 sampleShell sampleContext @ [BlockRead kFlagOff 4, BlockFreed 0x10000000, ThreadClosed])"
  unfolding sampleHijack_diverts sampleHijack_poll by (simp add: pending_def)

lemma sampleHijack_hangs: "call32ViaThreadHijack (sampleHijack None) (Suc (Suc (Suc fuel))) 1 0x5000 (Some [5]) 1 100
    = Some ((False, Some pending), divertedTrace 0x10000000 sampleShell sampleContext @ [BlockRead kFlagOff 4, BlockRead kFlagOff 4,
        BlockFreed 0x10000000, ThreadClosed, ThreadOpened, Suspended, BlockRead (kFlagOff + 16) 4, ContextSet sampleContext True, Resumed, ThreadClosed])"
  unfolding sampleHijack_diverts sampleHijack_wait
  by (simp add: recover_def restoreLimits_def readBlock_def setContext_def sampleHijack_def Let_def)


theorem hijack_true_witness:
  "\<exists>remote saved shell n b. divertedTrace 0x10000000 sampleShell sampleContext @ [BlockRead kFlagOff 4, BlockFreed 0x10000000, ThreadClosed]
      = divertedTrace remote shell (saved :: unit thread_context) @ replicate (Suc n) (BlockRead kFlagOff 4) @ [BlockFreed remote, ThreadClosed]
    \<and> (7 :: 32 word) = word_of_nat (leNat b)"
  using hijack_true [OF sampleHijack_answers] by blast

theorem hijack_timeout_keeps_limits_witness:
  "\<forall>a w. TebWrote a w \<notin> set (divertedTrace 0x10000000 sampleShell sampleContext @ [BlockRead kFlagOff 4, BlockRead kFlagOff 4,
        BlockFreed 0x10000000, ThreadClosed, ThreadOpened, Suspended, BlockRead (kFlagOff + 16) 4, ContextSet sampleContext True, Resumed, ThreadClosed])"
  using hijack_timeout_keeps_limits [OF sampleHijack_hangs] by (simp add: sampleHijack_def)

theorem hijack_returns_witness:
  "\<exists>out tr. call32ViaThreadHijack (sampleHijack None) 63 1 0x5000 (Some [5]) 1 3000 = Some (out, tr)"
  by (rule hijack_returns) simp_all

end
