(* ===== verification/RemoteLoad.thy ===== *)
theory RemoteLoad
  imports ManualMapSafety
begin

text \<open>
  The loading of a missing module by the resolver of imports (\<open>StarInjectorManualMap.cpp\<close>, lines 395 to
  450): the path is written to the target and \<open>LoadLibraryW\<close> called there, in a borrowed thread or in a
  new one. In \<open>PeExports\<close> it is the parameter \<open>tgLoad\<close>, of which \<open>remoteLoad\<close> is the implementation.
\<close>

definition loadInThread :: "'s mm_world \<Rightarrow> 64 word \<Rightarrow> 64 word \<Rightarrow> 's mm_state \<Rightarrow> 32 word option \<times> 's mm_state" where
  "loadInThread W loadLibAddr rem st =
     (let started = wdThread W (msTrace st); st = emit (Started loadLibAddr started) st in
      if \<not> started then (None, emit (Freed rem) st)
      else let st = emit (Opened ThreadHandle) st; returned = (wdWait W (msTrace st) = 0); st = emit (Waited loadLibAddr returned) st in
      if \<not> returned then (None, emit (Closed ThreadHandle) st)
      else case wdExit W (msTrace st) of
        None \<Rightarrow> (None, emit (Closed ThreadHandle) st)
      | Some ec \<Rightarrow> (if ec = 0 then None else Some ec, emit (Freed rem) (emit (Closed ThreadHandle) st)))"

text \<open>\<open>wpath\<close> is the path in UTF-16, with its terminator.\<close>

definition remoteLoad :: "'s mm_world \<Rightarrow> bool \<Rightarrow> 64 word \<Rightarrow> bytes \<Rightarrow> 's mm_state \<Rightarrow> 32 word option \<times> 's mm_state" where
  "remoteLoad W targetIs32 loadLibAddr wpath st =
     (let (rem, st) = tryAlloc W 0 (length wpath) st in
      if rem = 0 then (None, st)
      else let (ok, st) = tryWrite W rem wpath st in
      if \<not> ok then (None, emit (Freed rem) st)
      else if targetIs32
      then (let r = wdCall32 W (msTrace st); st = emit (Called32 (ucast loadLibAddr) [ucast rem] (fst r)) st in
            if \<not> fst r \<or> snd r = 0 then (None, emit (Freed rem) st) else (Some (snd r), emit (Freed rem) st))
      else loadInThread W loadLibAddr rem st)"

text \<open>
  What is left in the target: the path is freed on every path but two, a thread that has not returned in
  time and one whose exit code cannot be read; the second leaks it although nothing uses it any more.
\<close>

lemma remoteLoad_frees:
  assumes "remoteLoad W targetIs32 loadLibAddr wpath st = (r, st')" and "wdAlloc W (msTrace st) 0 = rem" and "rem \<noteq> 0"
  shows "\<exists>u. msTrace st' = msTrace st @ Allocated rem (length wpath) # u
    \<and> (Freed rem \<in> set u \<or> \<not> targetIs32 \<and> r = None \<and> (Waited loadLibAddr False \<in> set u \<or> wdExit W (butlast (msTrace st')) = None \<and> Waited loadLibAddr True \<in> set u))"
  using assms
  by (auto simp: remoteLoad_def loadInThread_def tryAlloc_def tryWrite_def emit_def Let_def butlast_append split: if_splits option.splits)

lemma remoteLoad_some:
  assumes "remoteLoad W targetIs32 loadLibAddr wpath st = (Some ec, st')"
  shows "ec \<noteq> 0 \<and> (\<exists>rem u. msTrace st' = msTrace st @ [Allocated rem (length wpath), Wrote rem wpath True] @ u @ [Freed rem])"
  using assms
  by (auto simp: remoteLoad_def loadInThread_def tryAlloc_def tryWrite_def emit_def Let_def split: if_splits option.splits)

text \<open>A borrowed thread that has not returned may still read the path when it is freed.\<close>

lemma remoteLoad_frees_in_use:
  assumes "remoteLoad W True loadLibAddr wpath st = (r, st')" and "wdAlloc W (msTrace st) 0 = rem" and "rem \<noteq> 0"
    and "wdWrite W (msTrace st @ [Allocated rem (length wpath)])"
    and "\<not> fst (wdCall32 W (msTrace st @ [Allocated rem (length wpath), Wrote rem wpath True]))"
  shows "msTrace st' = msTrace st @ [Allocated rem (length wpath), Wrote rem wpath True,
    Called32 (ucast loadLibAddr) [ucast rem] False, Freed rem]"
  using assms by (auto simp: remoteLoad_def tryAlloc_def tryWrite_def emit_def Let_def split: if_splits)

end
