(* ===== verification/Spec2Isabelle.thy ===== *)
theory Spec2Isabelle
  imports Prelude Base64 Json JsonScan Url SmbiosParser DiskReader DeviceIdentity
    TpmKeyLifecycle TpmIdentity SessionToken DeviceProof TlsPinPolicy ApiTypes AuthManager
    ApiClient ApiSlot Client ClientSafety LoginWindow LaunchController NativeLaunch SystemReaders
    LaunchPanel UserDashboard SessionProfile SessionLauncher WindowTitleBar ScopedHandle HwidTool PeImage PeReloc PeExports ManualMap ManualMapSafety
    ManualMapCorrect HijackShell Hijack RemoteLoad
begin

text \<open>
  StarLoader is a Windows client that signs a user in with a password, a hardware fingerprint
  and a key held in the TPM.  This development models the logic of the client and of the
  libraries it shares with the hardware-id tool; the Go backend is not part of it.

  \<^bold>\<open>How the parts interact.\<close>  The login window calls \<open>AuthManager::login\<close>.  The manager collects
  the hardware identity on a worker thread (\<open>SystemHardwareCollector\<close>, which uses the SMBIOS, BIOS,
  disk, registry and TPM readers and \<open>Fingerprint\<close>), posts the password and the fingerprint,
  has the TPM sign the server's challenge, posts the signature, and verifies the session token
  of the answer with \<open>SessionTokenVerifier\<close>.  With the token it loads the profile through
  \<open>ApiClient\<close>, whose protected requests carry a proof made by \<open>DeviceProofBuilder\<close> with the TPM key,
  over connections that \<open>TlsPinPolicy\<close> accepts.  A timer ends the session at the token's expiry.
  The dashboard of an authenticated session holds the launch panel, whose \<open>LaunchController\<close> finds or
  starts the selected game and loads the payload into it on a worker, through \<open>NativeLaunch\<close>.  The
  hardware-id tool is a second program around the same readers.  The loading itself is
  \<open>InjectorEngine::injectManualMap\<close>, which maps the payload into the game's process by hand.

  \<^bold>\<open>Theories, in dependency order.\<close>
  \<^item> \<open>Prelude\<close>: bytes, \<open>QString\<close>s as lists of UTF-16 code units, their list operations, decimal numbers,
    and the record \<open>qt\<close> of the Qt operations that are not in this repository (codecs, hashes, Unicode
    tables).
  \<^item> \<open>Base64\<close>: the two canonicity checks of \<open>src/license-client/src/security\<close>, by bits
    (\<open>DeviceProof.cpp\<close>) and by re-encoding (\<open>SessionTokenVerifier.cpp\<close>), against an RFC 4648 codec
    through the locale \<open>base64_codec\<close>; and \<open>strictBase64\<close> of \<open>AuthManager.cpp\<close>.
  \<^item> \<open>SmbiosParser\<close>, \<open>DiskReader\<close>, \<open>SystemReaders\<close>, \<open>DeviceIdentity\<close>: \<open>src/shared/hardware\<close> and the
    fingerprint of \<open>src/shared/security\<close>.  Buffers are byte lists; every read is proved in bounds, the
    table parser is proved against an encoder, the BIOS reader's COM resources are a trace of what is
    acquired and released, and the fingerprint input is proved against its fields.
  \<^item> \<open>TpmKeyLifecycle\<close>, \<open>TpmIdentity\<close>: creation and use of the persisted key, and the signer of
    \<open>AuthManager.cpp\<close>.  The key provider is a record of functions; \<open>key_store\<close> and \<open>cng_contract\<close> are
    the locales that state what it promises, the second one interpreted on the model of
    \<open>CngKeyLifecycle\<close>.
  \<^item> \<open>Json\<close>, \<open>JsonScan\<close>, \<open>SessionToken\<close>: \<open>SessionTokenVerifier.cpp\<close>: the scanner that rejects
    repeated members, proved against the grammar it stands for, and the verification of the
    token, proved against the declarative \<open>acceptedToken\<close>.
  \<^item> \<open>Url\<close>, \<open>DeviceProof\<close>, \<open>TlsPinPolicy\<close>: the proof of possession and the pinning of the server key.
  \<^item> \<open>ApiTypes\<close>, \<open>AuthManager\<close>: the messages of \<open>ApiClient.h\<close> and the state machine of \<open>AuthManager\<close>:
    a handler is a function from the state to the new state and the list of its effects (signals
    emitted, requests sent, work started); \<open>authStep\<close> is one event, \<open>authReachable\<close> what events
    lead to, \<open>authInv\<close> the invariant.
  \<^item> \<open>ApiClient\<close>, \<open>ApiSlot\<close>: \<open>ApiClient.cpp\<close> in the same form: the requests it sends, the answers it
    reads and the errors it makes of them.  \<open>ApiSlot\<close> has the specification, a client with one request
    slot, as the locale \<open>call_slot\<close>; its interpretation \<open>api\<close> on the model is the refinement.
  \<^item> \<open>Client\<close>, \<open>ClientSafety\<close>: manager and API client composed.  A call of the manager is an event of
    the API client and a signal of that one an event of the manager, run before the call returns:
    \<open>clientStep\<close> is one outside event with all the handlers it sets off.  \<open>clientInv\<close> relates the state
    of the manager to the open request; from it follow that a sign-in never hangs, and what the two
    send.
  \<^item> \<open>LoginWindow\<close>: the slots of \<open>LoginWindow.cpp\<close> on top: \<open>appStep\<close> is one act of the user or one event
    of the client, followed by the window's slots.
  \<^item> \<open>LaunchController\<close>, \<open>NativeLaunch\<close>: \<open>src/license-client/src/launcher\<close>: the state machine of the
    launcher with its worker as events of its own, the search for the game's process, the check of
    the payload's header, the start of the game, the tick of the window watcher of \<open>LaunchPanel.cpp\<close> and
    what \<open>UserDashboard.cpp\<close> authorises.
  \<^item> \<open>LaunchPanel\<close>, \<open>UserDashboard\<close>: \<open>LaunchPanel.cpp\<close> and \<open>UserDashboard.cpp\<close> around the controller.  A slot
    of the controller runs first and the panel then reacts to its signals (\<open>react\<close>); \<open>panelStep\<close> and
    \<open>dashboardStep\<close> are one event.  \<open>signals\<close> says that the controller signals every change the panel shows,
    \<open>panelInv\<close> follows from it, and \<open>dashboardStep_cases\<close> that a step of the window is at most a step of
    its controller, from which follow what a load needs and that a closed window starts none.
  \<^item> \<open>SessionProfile\<close>, \<open>SessionLauncher\<close>: the whole client.  The first proves of \<open>LoginWindow\<close> that the dashboard
    shows the profile the manager keeps.  \<open>programStep\<close> is one event of the login window, of the dashboard that
    it opens for a session or of a worker that a deleted dashboard has left; \<open>programInv\<close> says that the
    dashboard of the launcher is that of the window and that what is left of others loads nothing, so
    that a load needs a session.  \<open>closeProgram\<close> is the destructor of \<open>LoginWindow\<close>.
  \<^item> \<open>ScopedHandle\<close>: the handle classes of \<open>TpmIdentity.cpp\<close>, \<open>EcdsaSignature.cpp\<close> and \<open>DiskReader.cpp\<close>, as
    interpretations of the locale \<open>handle_owner\<close>: what is acquired is freed once.
  \<^item> \<open>WindowTitleBar\<close>: moving a window by its title bar, \<open>WindowTitleBar.cpp\<close>.
  \<^item> \<open>HwidTool\<close>: the windows that show the identity, \<open>hwid-obtainer/src/MainWindow.cpp\<close> and the client's
    \<open>HwidDialog.cpp\<close>.

  \<^item> \<open>PeImage\<close>, \<open>PeReloc\<close>, \<open>PeExports\<close>: the parts of \<open>StarInjectorManualMap.cpp\<close> that read PE files:
    the header checks and the layout of the image, the relocations, and the search for exported functions
    with its recursion over API sets and forwarders.  A read or write outside a buffer is the outer \<open>None\<close>
    of every function; where the code's checks do not exclude it, a lemma says when it happens.
    Relocation is proved against the directory as data (\<open>goodDirectory\<close>), the lookup against the
    directory as a table (\<open>exportsAre\<close>), and the resolver against the relation \<open>resolvesTo\<close>.
  \<^item> \<open>ManualMap\<close>, \<open>ManualMapSafety\<close>: \<open>injectManualMap\<close> over them.  The state is the trace of the system
    calls made so far, and the record \<open>mm_world\<close> answers each of them by an arbitrary function of the trace.
    \<open>account\<close> reads from a trace which handles and blocks are held and what code may be running;
    \<open>injectManualMap_accounts\<close> says that every trace of the function has one, and what is left at the end.
  \<^item> \<open>ManualMapCorrect\<close>: what a successful run has done, and in which order (\<open>successfulRun\<close>), and that it
    has resolved and written every import the tables of the image name (\<open>imageImports\<close>).
  \<^item> \<open>HijackShell\<close>, \<open>Hijack\<close>: \<open>call32ViaThreadHijack\<close>.  The machine code is a byte list; it is decoded and run
    on a processor with 32-bit cells on which the called function is a parameter.  The steps around it are
    a trace as in \<open>ManualMap\<close>, with an account of thread handles, suspensions and blocks.
  \<^item> \<open>RemoteLoad\<close>: the loading of a missing module in the target, which the resolver asks for.

  \<^bold>\<open>Fuel and bounds.\<close>  \<open>scanJsonValue\<close> recurses with the length of the remaining input as fuel
  besides the depth limit 64 of the code; the equivalence \<open>hasUniqueJsonMembers_iff\<close> has no
  hypothesis about it, so the fuel is always enough.  \<open>settle\<close> has the depth of nested handlers as
  its fuel and \<open>clientStep\<close> gives it two; \<open>signals_settle\<close> proves that no event needs more.
  \<open>relocBlocks\<close> has fuel because a directory may change its own sizes while it is applied;
  \<open>relocate_correct\<close> proves that one more than the number of blocks is enough.  The depth of \<open>resolve\<close> is
  the code's own limit, eight nested calls.  The poll of a borrowed thread has fuel, since its 32-bit sum
  could wrap; \<open>hijack_returns\<close> proves that two more than the steps of 50 ms in the timeout are enough.  All other
  loops are structural or have a termination proof.  Lengths that the code keeps in 32 or 64 bits are
  natural numbers together with the code's own range checks; attempt numbers are 64-bit words.

  \<^bold>\<open>Parameters.\<close>  Qt, CNG, BCrypt, OpenSSL, WMI, the firmware, the disk, process and registry
  interfaces are arguments (records of functions); hypotheses about them state documented behaviour,
  and each theorem with a hypothesis has a witness at a concrete instance.

  \<^bold>\<open>Not modelled.\<close>  The Go backend and scripts, which are other programs; layout, icons, tool tips and style
  sheets, with \<open>ThemeManager.cpp\<close> that reads them; the two \<open>main.cpp\<close>; \<open>DeviceIdentity.cpp\<close>, whose
  function is empty.  Of \<open>StarInjectorManualMap.cpp\<close>: the helpers \<open>isDllLoadedInProcess\<close>, \<open>waitForModuleLoad\<close>
  and \<open>getRemoteLoadLibraryAddress\<close>, which nothing calls, debug output and error codes set for the caller.
  In \<open>ManualMap\<close> and \<open>PeExports\<close> a call in a borrowed thread and the loading of a module are single
  steps whose result is a parameter; \<open>Hijack\<close> and \<open>RemoteLoad\<close> are their implementations.
\<close>

section \<open>What the parts guarantee together\<close>

text \<open>
  What is documented of \<open>toLatin1\<close>: on a string whose UTF-8 form is ASCII it gives the same bytes.
\<close>

definition latin1Agrees :: "qt \<Rightarrow> bool" where
  "latin1Agrees q \<longleftrightarrow> (\<forall>t. list_all (\<lambda>b. b < 128) (qtToUtf8 q t) \<longrightarrow> qtToLatin1 q t = qtToUtf8 q t)"

lemma latin1Agrees_qtAscii [simp]: "latin1Agrees qtAscii"
  by (simp add: latin1Agrees_def qtAscii_simps)

lemma ascii_rfcBase64Url: "list_all (\<lambda>b. b < 128) (rfcBase64Url v)"
  unfolding list_all_iff
proof
  fix b assume "b \<in> set (rfcBase64Url v)"
  then have "charSextet minusByte underscoreByte b \<noteq> None"
    using rfcBase64Url_charset by blast
  then show "b < 128"
    by (auto simp: charSextet_def word_less_nat_alt word_le_nat_alt split: if_splits)
qed

lemma ascii_compactToken: "list_all (\<lambda>b. b < 128) (compactToken h p s)"
  by (simp add: compactToken_def ascii_rfcBase64Url)

lemma accepted_is_compact:
  assumes "qtUrlCodec q" and "latin1Agrees q" and "vsValid (verify q J E ub V now token device license)"
  shows "validCompactAccessToken (qtToLatin1 q token)"
proof -
  obtain h p s where token: "qtToUtf8 q token = compactToken h p s"
    and "h \<noteq> []" "p \<noteq> []" "length s = 64" "length (qtToUtf8 q token) \<le> 16384"
    using iffD1 [OF verify_valid_iff [OF assms(1)], OF conjI [OF refl assms(3)]]
    unfolding acceptedToken_def by auto
  moreover have "qtToLatin1 q token = compactToken h p s"
    using assms(2) token ascii_compactToken unfolding latin1Agrees_def by simp
  ultimately show ?thesis
    unfolding validCompact_iff_token by metis
qed

text \<open>
  A token that the session verifier accepts also passes the token check of the proof builder,
  so that the two hand-written parsers of compact tokens never disagree on a live session.
\<close>

theorem accepted_token_is_compact:
  assumes "qtUrlCodec q" and "latin1Agrees q" and "vsValid (verify q J E ub V now token device license)"
  shows "validCompactAccessToken (qtToLatin1 q token)"
  using assms by (rule accepted_is_compact)

theorem accepted_token_is_compact_witness:
  "validCompactAccessToken (qtToLatin1 qtAscii sampleToken)"
proof (rule accepted_token_is_compact)
  show "vsValid (verify qtAscii sampleJson sampleEvp 0 sampleVerifier 1100 sampleToken
      (lit ''d'') (lit ''l''))"
    using sample_verified [of 1100] by simp
qed simp_all

text \<open>
  C31. In every reachable authenticated state the token that the client will prove possession for
  is one the proof builder accepts, and it has an expiry the client can check it against.
\<close>

theorem authenticated_token_is_provable:
  assumes "authReachable C s" and "amState s = Authenticated" and "qtUrlCodec (aeQt C)"
    and "qtToUtf8 (aeQt C) [] = []" and "latin1Agrees (aeQt C)"
  shows "validCompactAccessToken (qtToLatin1 (aeQt C) (amSessionToken s)) \<and> amExpiresAt s \<noteq> None"
  using authReachable_inv [OF assms(1,4)] assms(2) accepted_is_compact [OF assms(3,5)]
  unfolding authInv_def verifiedToken_def by auto

theorem authenticated_token_is_provable_witness:
  "validCompactAccessToken (qtToLatin1 (aeQt sampleEnv) (amSessionToken sampleState))
   \<and> amExpiresAt sampleState \<noteq> None"
  by (rule authenticated_token_is_provable [OF sampleState_reachable sampleState_authenticated])
     (simp_all add: qtAscii_simps)

end
